(* ===== verification/Prelude.thy ===== *)
theory Prelude
  imports Main "HOL-Library.Word"
begin

unbundle bit_operations_syntax

text \<open>
  Shared material of the development: the names of the machine types, the outcome type that makes
  Rust's panics and the undefined behaviour of its unsafe intrinsics values of the model, and the
  generic lemmas on lists, words and bits that the component theories use.
\<close>

section \<open>Machine types\<close>

type_synonym u8 = "8 word"
type_synonym u16 = "16 word"
type_synonym u32 = "32 word"
type_synonym u64 = "64 word"
type_synonym usize = "64 word"
type_synonym bytes = "8 word list"

text \<open>\<open>usize::MAX\<close> where a component models \<open>usize\<close> values as natural numbers.\<close>

abbreviation usize_max :: nat where
  "usize_max \<equiv> 2 ^ 64 - 1"

section \<open>Outcomes of Rust code\<close>

text \<open>
  A function of the source that can panic, or that calls an unsafe intrinsic
  (\<^verbatim>\<open>unwrap_unchecked\<close>, \<^verbatim>\<open>unreachable_unchecked\<close>, \<^verbatim>\<open>assume_init_ref\<close>) whose precondition may
  fail, returns an \<open>outcome\<close>: a value, a panic with its message, or undefined behaviour.
\<close>

datatype 'a outcome = Ret 'a | Panic string | Undefined string

fun bind_outcome :: "'a outcome \<Rightarrow> ('a \<Rightarrow> 'b outcome) \<Rightarrow> 'b outcome" where
  "bind_outcome (Ret x) f = f x"
| "bind_outcome (Panic m) f = Panic m"
| "bind_outcome (Undefined m) f = Undefined m"

fun is_undefined :: "'a outcome \<Rightarrow> bool" where
  "is_undefined (Undefined m) = True"
| "is_undefined (Ret x) = False"
| "is_undefined (Panic m) = False"

fun is_ret :: "'a outcome \<Rightarrow> bool" where
  "is_ret (Ret x) = True"
| "is_ret (Panic m) = False"
| "is_ret (Undefined m) = False"

named_theorems outcome_simps "rewrite rules for outcomes"

lemma bind_outcome_Ret_iff [outcome_simps]:
  "bind_outcome m f = Ret y \<longleftrightarrow> (\<exists>x. m = Ret x \<and> f x = Ret y)"
  by (cases m) auto

lemma bind_outcome_RetE:
  assumes "bind_outcome m f = Ret y"
  obtains x where "m = Ret x" "f x = Ret y"
  using assms by (cases m) auto

lemma bind_outcome_assoc [outcome_simps]:
  "bind_outcome (bind_outcome m f) g = bind_outcome m (\<lambda>x. bind_outcome (f x) g)"
  by (cases m) auto

lemma bind_outcome_cong [fundef_cong]:
  "m = m' \<Longrightarrow> (\<And>x. m' = Ret x \<Longrightarrow> f x = g x) \<Longrightarrow> bind_outcome m f = bind_outcome m' g"
  by (cases m) auto

text \<open>Checked \<open>usize\<close> subtraction, as the \<open>-\<close> of a build with overflow checks performs it.\<close>

definition usize_sub :: "nat \<Rightarrow> nat \<Rightarrow> nat outcome" where
  "usize_sub a b =
     (if b \<le> a then Ret (a - b) else Panic ''attempt to subtract with overflow'')"

lemma usize_sub_Ret [simp]: "b \<le> a \<Longrightarrow> usize_sub a b = Ret (a - b)"
  by (simp add: usize_sub_def)

text \<open>
  \<open>ok E r Q\<close>: the outcome is not undefined, a panic carries one of the messages in \<open>E\<close>, and a returned
  value satisfies \<open>Q\<close>. The rules follow the structure of a program.
\<close>

definition ok :: "string set \<Rightarrow> 'a outcome \<Rightarrow> ('a \<Rightarrow> bool) \<Rightarrow> bool" where
  "ok E r Q = (case r of Ret x \<Rightarrow> Q x | Panic m \<Rightarrow> m \<in> E | Undefined m \<Rightarrow> False)"

lemma ok_simps [simp]:
  "ok E (Ret x) Q = Q x"
  "ok E (Panic m) Q = (m \<in> E)"
  "ok E (Undefined m) Q = False"
  by (simp_all add: ok_def)

lemma ok_bind: "ok E (bind_outcome r f) Q = ok E r (\<lambda>x. ok E (f x) Q)"
  by (cases r) simp_all

lemma ok_mono: "ok E r P \<Longrightarrow> (\<And>x. r = Ret x \<Longrightarrow> P x \<Longrightarrow> Q x) \<Longrightarrow> ok E r Q"
  by (cases r) simp_all

lemma ok_weaken: "ok E r Q \<Longrightarrow> E \<subseteq> E' \<Longrightarrow> ok E' r Q"
  by (cases r) auto

lemma ok_Ret: "ok E r Q \<Longrightarrow> r = Ret x \<Longrightarrow> Q x"
  by simp

lemma ok_not_undefined: "ok E r Q \<Longrightarrow> \<not> is_undefined r"
  by (cases r) simp_all

section \<open>Lists\<close>

lemma nth_list_update_iff:
  "i < length xs \<Longrightarrow> xs[i := v] ! j = (if i = j then v else xs ! j)"
  by simp

lemma list_update_map_option_nth:
  "i < length xs \<Longrightarrow> j < length xs \<Longrightarrow> xs[i := v] ! j = (if j = i then v else xs ! j)"
  by (simp add: nth_list_update)

section \<open>Single bits of words\<close>

lemma and_bit_eq_bit_iff:
  fixes x :: "'a::len word"
  shows "x AND 2 ^ n = 2 ^ n \<longleftrightarrow> bit x n \<or> LENGTH('a) \<le> n"
proof (cases "n < LENGTH('a)")
  case True
  have "x AND 2 ^ n = 2 ^ n \<longleftrightarrow> bit x n"
  proof
    assume "x AND 2 ^ n = 2 ^ n"
    then have "bit (x AND 2 ^ n) n = bit (2 ^ n :: 'a word) n" by simp
    with True show "bit x n" by (simp add: bit_simps)
  next
    assume "bit x n"
    then show "x AND 2 ^ n = 2 ^ n"
      by (auto intro!: bit_word_eqI simp: bit_simps)
  qed
  with True show ?thesis by simp
next
  case False
  then have zero: "(2 ^ n :: 'a word) = 0" by (simp add: not_less)
  show ?thesis unfolding zero using False by simp
qed

end
