(* ===== verification/Task_State.thy ===== *)
theory Task_State
  imports Prelude
begin

text \<open>
  The state word of a task (\<^verbatim>\<open>runtime/src/task/state.rs\<close>): five flags and a reference count in one
  atomic 64-bit word, and the transitions between its lifecycle states. A transition is a closure
  applied in a compare-and-swap loop; the loop is modelled against the sequence of values the cell
  holds at the load and at each compare-exchange, so contention from other threads is part of the
  model. The theory shows that the loop is one atomic application of its closure, and that each
  transition refines an update of a record of flags and a natural number.
\<close>

section \<open>Bits\<close>

definition RUNNING :: u64 where "RUNNING = 1"

definition COMPLETE :: u64 where "COMPLETE = 2"

definition LIFECYCLE_MASK :: u64 where "LIFECYCLE_MASK = 3"

definition NOTIFIED :: u64 where "NOTIFIED = 4"

definition JOIN_INTEREST :: u64 where "JOIN_INTEREST = 8"

definition JOIN_WAKER :: u64 where "JOIN_WAKER = 16"

definition STATE_MASK :: u64 where
  "STATE_MASK = LIFECYCLE_MASK OR NOTIFIED OR JOIN_INTEREST OR JOIN_WAKER"

definition REF_COUNT_MASK :: u64 where
  "REF_COUNT_MASK = NOT STATE_MASK"

definition count_zeros :: "u64 \<Rightarrow> nat" where
  "count_zeros w = length (filter (\<lambda>i. \<not> bit w i) [0..<64])"

definition REF_COUNT_SHIFT :: nat where
  "REF_COUNT_SHIFT = count_zeros REF_COUNT_MASK"

definition REF_ONE :: u64 where
  "REF_ONE = push_bit REF_COUNT_SHIFT 1"

definition INITIAL_STATE :: u64 where
  "INITIAL_STATE = (REF_ONE * 2) OR JOIN_INTEREST OR NOTIFIED"

definition ISIZE_MAX :: u64 where
  "ISIZE_MAX = 0x7FFFFFFFFFFFFFFF"

section \<open>Snapshots\<close>

definition is_idle :: "u64 \<Rightarrow> bool" where
  "is_idle s \<longleftrightarrow> s AND (RUNNING OR COMPLETE) = 0"

definition is_notified :: "u64 \<Rightarrow> bool" where
  "is_notified s \<longleftrightarrow> s AND NOTIFIED = NOTIFIED"

definition unset_notified :: "u64 \<Rightarrow> u64" where
  "unset_notified s = s AND NOT NOTIFIED"

definition set_notified :: "u64 \<Rightarrow> u64" where
  "set_notified s = s OR NOTIFIED"

definition is_running :: "u64 \<Rightarrow> bool" where
  "is_running s \<longleftrightarrow> s AND RUNNING = RUNNING"

definition set_running :: "u64 \<Rightarrow> u64" where
  "set_running s = s OR RUNNING"

definition unset_running :: "u64 \<Rightarrow> u64" where
  "unset_running s = s AND NOT RUNNING"

definition is_complete :: "u64 \<Rightarrow> bool" where
  "is_complete s \<longleftrightarrow> s AND COMPLETE = COMPLETE"

definition is_join_interested :: "u64 \<Rightarrow> bool" where
  "is_join_interested s \<longleftrightarrow> s AND JOIN_INTEREST = JOIN_INTEREST"

definition clear_join_interested :: "u64 \<Rightarrow> u64" where
  "clear_join_interested s = s AND NOT JOIN_INTEREST"

definition has_join_waker :: "u64 \<Rightarrow> bool" where
  "has_join_waker s \<longleftrightarrow> s AND JOIN_WAKER = JOIN_WAKER"

definition put_join_waker :: "u64 \<Rightarrow> u64" where
  "put_join_waker s = s OR JOIN_WAKER"

definition clear_join_waker :: "u64 \<Rightarrow> u64" where
  "clear_join_waker s = s AND NOT JOIN_WAKER"

definition ref_count :: "u64 \<Rightarrow> u64" where
  "ref_count s = drop_bit REF_COUNT_SHIFT (s AND REF_COUNT_MASK)"

section \<open>The compare-and-swap loops\<close>

text \<open>
  \<open>obs\<close> lists the values that the cell holds when the loop executes its compare-exchange
  instructions. The result of a loop is what it returns together with the write it performed:
  \<open>Some (old, new)\<close> when a compare-exchange replaced \<open>old\<close> by \<open>new\<close>, \<open>None\<close> when the closure declined to
  write. The loop has not returned yet (\<open>None\<close>) when the observations run out.
\<close>

type_synonym 't cas_result = "('t \<times> (u64 \<times> u64) option) outcome option"

fun fetch_update_action_loop ::
    "(u64 \<Rightarrow> ('t \<times> u64 option) outcome) \<Rightarrow> u64 \<Rightarrow> u64 list \<Rightarrow> 't cas_result" where
  "fetch_update_action_loop f cur obs =
     (case f cur of
        Panic m \<Rightarrow> Some (Panic m)
      | Undefined m \<Rightarrow> Some (Undefined m)
      | Ret (output, None) \<Rightarrow> Some (Ret (output, None))
      | Ret (output, Some nxt) \<Rightarrow>
          (case obs of
             [] \<Rightarrow> None
           | actual # obs' \<Rightarrow>
               if actual = cur then Some (Ret (output, Some (cur, nxt)))
               else fetch_update_action_loop f actual obs'))"

declare fetch_update_action_loop.simps [simp del]

definition fetch_update_action ::
    "(u64 \<Rightarrow> ('t \<times> u64 option) outcome) \<Rightarrow> u64 list \<Rightarrow> 't cas_result" where
  "fetch_update_action f obs =
     (case obs of [] \<Rightarrow> None | loaded # obs' \<Rightarrow> fetch_update_action_loop f loaded obs')"

text \<open>\<open>fetch_update\<close> returns \<open>Ok(next)\<close> (\<open>Inr\<close>) after a write and \<open>Err(cur)\<close> (\<open>Inl\<close>) when declined.\<close>

type_synonym update_result = "u64 + u64"

fun fetch_update_loop ::
    "(u64 \<Rightarrow> u64 option outcome) \<Rightarrow> u64 \<Rightarrow> u64 list \<Rightarrow> update_result cas_result" where
  "fetch_update_loop f cur obs =
     (case f cur of
        Panic m \<Rightarrow> Some (Panic m)
      | Undefined m \<Rightarrow> Some (Undefined m)
      | Ret None \<Rightarrow> Some (Ret (Inl cur, None))
      | Ret (Some nxt) \<Rightarrow>
          (case obs of
             [] \<Rightarrow> None
           | actual # obs' \<Rightarrow>
               if actual = cur then Some (Ret (Inr nxt, Some (cur, nxt)))
               else fetch_update_loop f actual obs'))"

declare fetch_update_loop.simps [simp del]

definition fetch_update ::
    "(u64 \<Rightarrow> u64 option outcome) \<Rightarrow> u64 list \<Rightarrow> update_result cas_result" where
  "fetch_update f obs =
     (case obs of [] \<Rightarrow> None | loaded # obs' \<Rightarrow> fetch_update_loop f loaded obs')"

section \<open>Transitions\<close>

datatype transition_to_idle_result = IdleOk | OkNotified

datatype transition_to_notified_result = DoNothing | Submit

definition assert_that :: "bool \<Rightarrow> string \<Rightarrow> 'a outcome \<Rightarrow> 'a outcome" where
  "assert_that c m k = (if c then k else Panic m)"

definition state_new :: u64 where
  "state_new = INITIAL_STATE"

definition running_closure :: "u64 \<Rightarrow> (unit \<times> u64 option) outcome" where
  "running_closure cur =
     assert_that (is_notified cur) ''is_notified''
       (assert_that (is_idle cur) ''is_idle''
         (Ret ((), Some (unset_notified (set_running cur)))))"

definition transition_to_running :: "u64 list \<Rightarrow> unit cas_result" where
  "transition_to_running = fetch_update_action running_closure"

definition idle_closure :: "u64 \<Rightarrow> (transition_to_idle_result \<times> u64 option) outcome" where
  "idle_closure cur =
     assert_that (is_running cur) ''is_running''
       (let cur' = unset_running cur;
            action = (if is_notified cur' then OkNotified else IdleOk)
        in Ret (action, Some cur'))"

definition transition_to_idle :: "u64 list \<Rightarrow> transition_to_idle_result cas_result" where
  "transition_to_idle = fetch_update_action idle_closure"

text \<open>\<^verbatim>\<open>fetch_xor\<close>, \<^verbatim>\<open>fetch_add\<close> and \<^verbatim>\<open>fetch_sub\<close> are single atomic instructions on the word.\<close>

definition transition_to_complete :: "u64 \<Rightarrow> (u64 \<times> u64) outcome" where
  "transition_to_complete prev =
     (let DELTA = RUNNING OR COMPLETE in
      assert_that (is_running prev) ''is_running''
        (assert_that (\<not> is_complete prev) ''is_complete''
          (Ret (prev XOR DELTA, prev XOR DELTA))))"

definition notified_without_submit_closure :: "u64 \<Rightarrow> (bool \<times> u64 option) outcome" where
  "notified_without_submit_closure cur =
     (if is_running cur then Ret (True, Some (set_notified cur))
      else if is_complete cur \<or> is_notified cur then Ret (True, Some cur)
      else Ret (False, Some cur))"

definition transition_to_notified_without_submit :: "u64 list \<Rightarrow> bool cas_result" where
  "transition_to_notified_without_submit = fetch_update_action notified_without_submit_closure"

definition notified_closure :: "u64 \<Rightarrow> (transition_to_notified_result \<times> u64 option) outcome" where
  "notified_closure cur =
     (if is_running cur then Ret (DoNothing, Some (set_notified cur))
      else if is_complete cur \<or> is_notified cur then Ret (DoNothing, Some cur)
      else Ret (Submit, Some (set_notified cur)))"

definition transition_to_notified :: "u64 list \<Rightarrow> transition_to_notified_result cas_result" where
  "transition_to_notified = fetch_update_action notified_closure"

text \<open>A load followed by a store: \<open>Some\<close> new word for \<open>Ok\<close>, \<open>None\<close> for \<open>Err\<close>.\<close>

definition drop_join_handle_fast :: "u64 \<Rightarrow> u64 option" where
  "drop_join_handle_fast s =
     (if s = INITIAL_STATE then Some ((INITIAL_STATE - REF_ONE) AND NOT JOIN_INTEREST) else None)"

definition unset_join_interested_closure :: "u64 \<Rightarrow> u64 option outcome" where
  "unset_join_interested_closure cur =
     assert_that (is_join_interested cur) ''is_join_interested''
       (if is_complete cur then Ret None else Ret (Some (clear_join_interested cur)))"

definition unset_join_interested :: "u64 list \<Rightarrow> update_result cas_result" where
  "unset_join_interested = fetch_update unset_join_interested_closure"

definition set_join_waker_closure :: "u64 \<Rightarrow> u64 option outcome" where
  "set_join_waker_closure cur =
     assert_that (is_join_interested cur) ''is_join_interested''
       (assert_that (\<not> has_join_waker cur) ''has_join_waker''
         (if is_complete cur then Ret None else Ret (Some (put_join_waker cur))))"

definition set_join_waker :: "u64 list \<Rightarrow> update_result cas_result" where
  "set_join_waker = fetch_update set_join_waker_closure"

definition unset_waker_closure :: "u64 \<Rightarrow> u64 option outcome" where
  "unset_waker_closure cur =
     assert_that (is_join_interested cur) ''is_join_interested''
       (assert_that (has_join_waker cur) ''has_join_waker''
         (if is_complete cur then Ret None else Ret (Some (clear_join_waker cur))))"

definition unset_waker :: "u64 list \<Rightarrow> update_result cas_result" where
  "unset_waker = fetch_update unset_waker_closure"

definition ref_inc :: "u64 \<Rightarrow> u64 outcome" where
  "ref_inc prev = (if ISIZE_MAX < prev then Panic ''abort'' else Ret (prev + REF_ONE))"

definition ref_dec :: "u64 \<Rightarrow> (bool \<times> u64) outcome" where
  "ref_dec prev =
     assert_that (1 \<le> ref_count prev) ''ref_count''
       (Ret (ref_count prev = 1, prev - REF_ONE))"

text \<open>A transition on a cell that nobody else touches while the loop runs.\<close>

definition solo :: "(u64 list \<Rightarrow> 't cas_result) \<Rightarrow> u64 \<Rightarrow> ('t \<times> u64) outcome" where
  "solo op s =
     (case op [s, s] of
        None \<Rightarrow> Panic ''the loop does not return''
      | Some (Ret (t, None)) \<Rightarrow> Ret (t, s)
      | Some (Ret (t, Some (old, new))) \<Rightarrow> Ret (t, new)
      | Some (Panic m) \<Rightarrow> Panic m
      | Some (Undefined m) \<Rightarrow> Undefined m)"

section \<open>The loops are atomic\<close>

text \<open>
  What the loop returns is what its closure gives on one value that the cell really held: at the
  successful compare-exchange when it wrote, at a load otherwise.
\<close>

lemma fetch_update_action_loop_atomic:
  "fetch_update_action_loop f cur obs = Some (Ret (t, w)) \<Longrightarrow>
   \<exists>v \<in> set (cur # obs). case w of
      None \<Rightarrow> f v = Ret (t, None)
    | Some (old, new) \<Rightarrow> old = v \<and> v \<in> set obs \<and> f v = Ret (t, Some new)"
proof (induction obs arbitrary: cur)
  case Nil
  then show ?case
    by (auto simp: fetch_update_action_loop.simps [of f cur "[]"]
        split: outcome.splits option.splits prod.splits)
next
  case (Cons a obs)
  then show ?case
    by (subst (asm) (2) fetch_update_action_loop.simps)
      (fastforce split: outcome.splits option.splits prod.splits if_splits)
qed

lemma fetch_update_loop_action:
  "fetch_update_loop f cur obs =
     fetch_update_action_loop (\<lambda>v. bind_outcome (f v) (\<lambda>n.
        Ret (case n of None \<Rightarrow> Inl v | Some nxt \<Rightarrow> Inr nxt, n))) cur obs"
proof (induction obs arbitrary: cur)
  case Nil
  show ?case
    by (simp add: fetch_update_loop.simps [of f cur] fetch_update_action_loop.simps [of _ cur]
        split: outcome.splits option.splits)
next
  case (Cons a obs)
  show ?case
    using Cons.IH [of a]
    by (simp add: fetch_update_loop.simps [of f cur] fetch_update_action_loop.simps [of _ cur]
        split: outcome.splits option.splits)
qed


lemma solo_fetch_update_action:
  "solo (fetch_update_action f) s =
     bind_outcome (f s) (\<lambda>(t, w). Ret (t, case w of None \<Rightarrow> s | Some n \<Rightarrow> n))"
  by (simp add: solo_def fetch_update_action_def fetch_update_action_loop.simps
      split: outcome.split option.split prod.split)

lemma solo_fetch_update:
  "solo (fetch_update f) s =
     bind_outcome (f s) (\<lambda>n. Ret (case n of None \<Rightarrow> (Inl s, s) | Some nxt \<Rightarrow> (Inr nxt, nxt)))"
  by (simp add: solo_def fetch_update_def fetch_update_loop.simps
      split: outcome.split option.split)

lemma fetch_update_action_loop_returns:
  "Suc i < length (cur # obs) \<Longrightarrow> (cur # obs) ! i = (cur # obs) ! Suc i \<Longrightarrow>
   \<exists>r. fetch_update_action_loop f cur obs = Some r"
proof (induction obs arbitrary: cur i)
  case (Cons a obs)
  show ?case
  proof (cases "a = cur")
    case True
    then show ?thesis
      by (subst fetch_update_action_loop.simps) (auto split: outcome.split option.split prod.split)
  next
    case False
    with Cons.prems obtain j where "i = Suc j" by (cases i) auto
    with Cons.prems Cons.IH [of j a] have "\<exists>r. fetch_update_action_loop f a obs = Some r" by simp
    then show ?thesis
      by (subst fetch_update_action_loop.simps) (auto split: outcome.split option.split prod.split)
  qed
qed simp

section \<open>The word as a record of flags and a count\<close>

record task_view =
  v_running :: bool
  v_complete :: bool
  v_notified :: bool
  v_interest :: bool
  v_waker :: bool
  v_refs :: nat

definition view_of :: "u64 \<Rightarrow> task_view" where
  "view_of s = \<lparr>v_running = bit s 0, v_complete = bit s 1, v_notified = bit s 2,
                v_interest = bit s 3, v_waker = bit s 4, v_refs = unat (drop_bit 5 s)\<rparr>"

named_theorems view_simps "the readers and writers of the state word on its view"

lemma REF_COUNT_SHIFT_5 [simp]: "REF_COUNT_SHIFT = 5"
  by (simp add: REF_COUNT_SHIFT_def count_zeros_def REF_COUNT_MASK_def STATE_MASK_def
      LIFECYCLE_MASK_def NOTIFIED_def JOIN_INTEREST_def JOIN_WAKER_def upt_rec)

lemma REF_ONE_32 [simp]: "REF_ONE = 32"
  by (simp add: REF_ONE_def)

lemma STATE_MASK_mask: "STATE_MASK = mask 5"
  by (simp add: STATE_MASK_def LIFECYCLE_MASK_def NOTIFIED_def JOIN_INTEREST_def JOIN_WAKER_def
      mask_eq_exp_minus_1)

lemma flag_exps:
  "RUNNING = 2 ^ 0" "COMPLETE = 2 ^ 1" "NOTIFIED = 2 ^ 2" "JOIN_INTEREST = 2 ^ 3"
  "JOIN_WAKER = 2 ^ 4"
  by (simp_all add: RUNNING_def COMPLETE_def NOTIFIED_def JOIN_INTEREST_def JOIN_WAKER_def)

lemma ref_count_drop_bit: "ref_count s = drop_bit 5 s"
  by (rule bit_word_eqI)
    (auto simp: ref_count_def bit_simps REF_COUNT_MASK_def STATE_MASK_mask dest: bit_imp_le_length)

lemma bit_u64_less: "bit (s :: u64) n \<Longrightarrow> n < 64"
  using bit_imp_le_length [of s n] by simp

lemma lifecycle_mask: "RUNNING OR COMPLETE = mask 2"
  by (simp add: RUNNING_def COMPLETE_def mask_eq_exp_minus_1)

lemma drop_bit_5_flag:
  fixes s :: u64
  assumes "n < 5"
  shows "drop_bit 5 (s OR 2 ^ n) = drop_bit 5 s" "drop_bit 5 (s AND NOT (2 ^ n)) = drop_bit 5 s"
proof -
  have "bit s (5 + m) \<Longrightarrow> m < 59" for m using bit_u64_less [of s "5 + m"] by simp
  then show "drop_bit 5 (s OR 2 ^ n) = drop_bit 5 s" "drop_bit 5 (s AND NOT (2 ^ n)) = drop_bit 5 s"
    using assms by (auto intro!: bit_word_eqI simp: bit_simps)
qed

lemma bit_flag:
  fixes s :: u64
  assumes "k < 64"
  shows "bit (s OR 2 ^ k) n \<longleftrightarrow> n = k \<or> bit s n" "bit (s AND NOT (2 ^ k)) n \<longleftrightarrow> n \<noteq> k \<and> bit s n"
  using assms by (auto simp: bit_simps dest: bit_imp_le_length)

lemma view_readers [view_simps]:
  "is_running s = v_running (view_of s)"
  "is_complete s = v_complete (view_of s)"
  "is_notified s = v_notified (view_of s)"
  "is_join_interested s = v_interest (view_of s)"
  "has_join_waker s = v_waker (view_of s)"
  "unat (ref_count s) = v_refs (view_of s)"
  unfolding is_running_def is_complete_def is_notified_def is_join_interested_def
    has_join_waker_def flag_exps and_bit_eq_bit_iff ref_count_drop_bit
  by (simp_all add: view_of_def)

lemma view_idle [view_simps]: "is_idle s = (\<not> v_running (view_of s) \<and> \<not> v_complete (view_of s))"
proof -
  have "s AND (RUNNING OR COMPLETE) = 0 \<longleftrightarrow> (\<forall>n. \<not> (bit s n \<and> n < 2))"
    unfolding lifecycle_mask bit_eq_iff by (auto simp: bit_simps dest: bit_u64_less)
  then show ?thesis by (auto simp: is_idle_def view_of_def less_2_cases_iff)
qed

lemma view_writers [view_simps]:
  "view_of (set_running s) = (view_of s)\<lparr>v_running := True\<rparr>"
  "view_of (unset_running s) = (view_of s)\<lparr>v_running := False\<rparr>"
  "view_of (set_notified s) = (view_of s)\<lparr>v_notified := True\<rparr>"
  "view_of (unset_notified s) = (view_of s)\<lparr>v_notified := False\<rparr>"
  "view_of (clear_join_interested s) = (view_of s)\<lparr>v_interest := False\<rparr>"
  "view_of (put_join_waker s) = (view_of s)\<lparr>v_waker := True\<rparr>"
  "view_of (clear_join_waker s) = (view_of s)\<lparr>v_waker := False\<rparr>"
  unfolding set_running_def unset_running_def set_notified_def unset_notified_def
    clear_join_interested_def put_join_waker_def clear_join_waker_def flag_exps view_of_def
  by (simp_all add: bit_flag drop_bit_5_flag del: power_numeral power_0 power2_eq_square drop_bit_or drop_bit_and)

lemma view_complete_xor:
  assumes "v_running (view_of s)" and "\<not> v_complete (view_of s)"
  shows "view_of (s XOR (RUNNING OR COMPLETE)) = (view_of s)\<lparr>v_running := False, v_complete := True\<rparr>"
proof -
  have bits: "bit (s XOR (RUNNING OR COMPLETE)) n \<longleftrightarrow> bit s n \<noteq> (n < 2)" for n
    unfolding lifecycle_mask by (auto simp: bit_simps dest: bit_u64_less)
  have "drop_bit 5 (s XOR (RUNNING OR COMPLETE)) = drop_bit 5 s"
    by (rule bit_word_eqI) (simp add: bit_drop_bit_eq bits del: drop_bit_xor)
  with assms show ?thesis by (simp add: view_of_def bits)
qed

lemma take_bit_add_32: "n < 5 \<Longrightarrow> bit (s + 32 :: u64) n = bit s n"
proof -
  assume n: "n < 5"
  have "unat (s + 32) mod 32 = unat s mod 32"
    by (simp add: unat_word_ariths mod_mod_cancel)
  then have "take_bit 5 (unat (s + 32)) = take_bit 5 (unat s)" by (simp add: take_bit_eq_mod)
  then have "bit (take_bit 5 (unat (s + 32))) n = bit (take_bit 5 (unat s)) n" by simp
  with n show ?thesis by (simp add: bit_take_bit_iff bit_unsigned_iff)
qed

lemma unat_drop_bit_5: "unat (drop_bit 5 (s :: u64)) = unat s div 32"
  unfolding unat_drop_bit_eq by (simp add: drop_bit_eq_div)

lemma view_add_ref:
  assumes "unat s + 32 < 2 ^ 64"
  shows "view_of (s + 32) = (view_of s)\<lparr>v_refs := v_refs (view_of s) + 1\<rparr>"
proof -
  have "unat (s + 32) = unat s + 32"
    using assms by (simp add: unat_word_ariths)
  then show ?thesis by (simp add: view_of_def take_bit_add_32 unat_drop_bit_5)
qed

lemma view_sub_ref:
  assumes "1 \<le> v_refs (view_of s)"
  shows "view_of (s - 32) = (view_of s)\<lparr>v_refs := v_refs (view_of s) - 1\<rparr>"
proof -
  have le: "32 \<le> unat s" using assms by (simp add: view_of_def unat_drop_bit_5)
  then have "32 \<le> s" by (simp add: word_le_nat_alt)
  then have un: "unat (s - 32) = unat s - 32" by (simp add: unat_sub)
  have "bit (s - 32) n = bit s n" if "n < 5" for n
    using take_bit_add_32 [OF that, of "s - 32"] by simp
  with un le show ?thesis by (simp add: view_of_def unat_drop_bit_5)
qed

lemma view_inj: "view_of s = view_of t \<Longrightarrow> s = t"
proof -
  assume eq: "view_of s = view_of t"
  have "bit s n = bit t n" for n
  proof (cases "n < 5")
    case True
    then have "n = 0 \<or> n = 1 \<or> n = 2 \<or> n = 3 \<or> n = 4" by arith
    with eq show ?thesis by (auto simp: view_of_def)
  next
    case False
    from eq have "drop_bit 5 s = drop_bit 5 t" by (simp add: view_of_def word_unat_eq_iff)
    then have "bit (drop_bit 5 s) (n - 5) = bit (drop_bit 5 t) (n - 5)" by simp
    with False show ?thesis by (simp add: bit_drop_bit_eq)
  qed
  then show ?thesis by (simp add: bit_eq_iff)
qed

lemma view_initial [view_simps]:
  "view_of INITIAL_STATE = \<lparr>v_running = False, v_complete = False, v_notified = True,
     v_interest = True, v_waker = False, v_refs = 2\<rparr>"
  by (simp add: INITIAL_STATE_def JOIN_INTEREST_def NOTIFIED_def view_of_def)

section \<open>The transitions on views\<close>

lemma running_closure_view:
  "running_closure s = Ret (u, Some s') \<Longrightarrow>
   v_notified (view_of s) \<and> \<not> v_running (view_of s) \<and> \<not> v_complete (view_of s) \<and>
   view_of s' = (view_of s)\<lparr>v_running := True, v_notified := False\<rparr>"
  by (auto simp: running_closure_def assert_that_def view_simps split: if_splits)

lemma idle_closure_view:
  "idle_closure s = Ret (a, Some s') \<Longrightarrow>
   v_running (view_of s) \<and> view_of s' = (view_of s)\<lparr>v_running := False\<rparr> \<and>
   a = (if v_notified (view_of s) then OkNotified else IdleOk)"
  by (auto simp: idle_closure_def assert_that_def view_simps Let_def split: if_splits)

lemma notified_without_submit_closure_view:
  "notified_without_submit_closure s = Ret (a, Some s') \<Longrightarrow>
   view_of s' = (view_of s)\<lparr>v_notified := v_notified (view_of s) \<or> v_running (view_of s)\<rparr> \<and>
   a = (v_running (view_of s) \<or> v_complete (view_of s) \<or> v_notified (view_of s))"
  by (auto simp: notified_without_submit_closure_def view_simps split: if_splits)

lemma notified_closure_view:
  "notified_closure s = Ret (a, Some s') \<Longrightarrow>
   view_of s' = (view_of s)\<lparr>v_notified := v_notified (view_of s) \<or> v_running (view_of s) \<or>
                              \<not> v_complete (view_of s)\<rparr> \<and>
   a = (if v_running (view_of s) \<or> v_complete (view_of s) \<or> v_notified (view_of s)
        then DoNothing else Submit)"
  by (auto simp: notified_closure_def view_simps split: if_splits)

lemma unset_join_interested_closure_view:
  "unset_join_interested_closure s = Ret (Some s') \<Longrightarrow>
   \<not> v_complete (view_of s) \<and> v_interest (view_of s) \<and>
   view_of s' = (view_of s)\<lparr>v_interest := False\<rparr>"
  by (auto simp: unset_join_interested_closure_def assert_that_def view_simps split: if_splits)

lemma set_join_waker_closure_view:
  "set_join_waker_closure s = Ret (Some s') \<Longrightarrow>
   \<not> v_complete (view_of s) \<and> v_interest (view_of s) \<and> \<not> v_waker (view_of s) \<and>
   view_of s' = (view_of s)\<lparr>v_waker := True\<rparr>"
  by (auto simp: set_join_waker_closure_def assert_that_def view_simps split: if_splits)

lemma unset_waker_closure_view:
  "unset_waker_closure s = Ret (Some s') \<Longrightarrow>
   \<not> v_complete (view_of s) \<and> v_interest (view_of s) \<and> v_waker (view_of s) \<and>
   view_of s' = (view_of s)\<lparr>v_waker := False\<rparr>"
  by (auto simp: unset_waker_closure_def assert_that_def view_simps split: if_splits)

lemma transition_to_complete_view:
  "transition_to_complete s = Ret (snap, s') \<Longrightarrow>
   snap = s' \<and> v_running (view_of s) \<and> \<not> v_complete (view_of s) \<and>
   view_of s' = (view_of s)\<lparr>v_running := False, v_complete := True\<rparr>"
  by (auto simp: transition_to_complete_def assert_that_def view_simps view_complete_xor
      Let_def split: if_splits)

lemma ref_inc_view:
  assumes "ref_inc s = Ret s'"
  shows "view_of s' = (view_of s)\<lparr>v_refs := v_refs (view_of s) + 1\<rparr>"
proof -
  from assms have le: "s \<le> ISIZE_MAX" and s': "s' = s + 32"
    by (auto simp: ref_inc_def split: if_splits)
  from le have "unat s \<le> unat ISIZE_MAX" by (simp add: word_le_nat_alt)
  then show ?thesis unfolding s' by (intro view_add_ref) (simp add: ISIZE_MAX_def)
qed

lemma ref_count_ge_1: "1 \<le> ref_count s \<longleftrightarrow> 1 \<le> v_refs (view_of s)"
  by (simp add: word_le_nat_alt view_simps)

lemma ref_count_eq_1: "ref_count s = 1 \<longleftrightarrow> v_refs (view_of s) = 1"
  by (simp add: word_unat_eq_iff view_simps)

lemma ref_dec_view:
  "1 \<le> v_refs (view_of s) \<Longrightarrow>
   \<exists>s'. ref_dec s = Ret (v_refs (view_of s) = 1, s') \<and>
        view_of s' = (view_of s)\<lparr>v_refs := v_refs (view_of s) - 1\<rparr>"
  using view_sub_ref [of s]
  by (simp add: ref_dec_def assert_that_def ref_count_ge_1 ref_count_eq_1)

lemma ref_dec_Ret:
  "ref_dec s = Ret (b, s') \<Longrightarrow> 1 \<le> v_refs (view_of s) \<and> b = (v_refs (view_of s) = 1) \<and>
     view_of s' = (view_of s)\<lparr>v_refs := v_refs (view_of s) - 1\<rparr>"
  using ref_dec_view [of s]
  by (cases "1 \<le> v_refs (view_of s)") (auto simp: ref_dec_def assert_that_def ref_count_ge_1)

lemma drop_join_handle_fast_view:
  "drop_join_handle_fast s = Some s' \<Longrightarrow> s = INITIAL_STATE \<and>
     view_of s' = (view_of s)\<lparr>v_interest := False, v_refs := 1\<rparr>"
proof -
  assume "drop_join_handle_fast s = Some s'"
  then have s: "s = INITIAL_STATE" and "s' = (INITIAL_STATE - REF_ONE) AND NOT JOIN_INTEREST"
    by (auto simp: drop_join_handle_fast_def split: if_splits)
  then have s': "s' = clear_join_interested (INITIAL_STATE - 32)"
    by (simp add: clear_join_interested_def)
  show ?thesis
    unfolding s' s view_writers by (simp add: view_sub_ref view_initial)
qed

section \<open>Every write to the word\<close>

text \<open>
  The writes that the methods of \<open>State\<close> can perform on the cell, from any handle on any thread: an
  old value and the new one. A method that is retried by contention performs the write of its last
  round only.
\<close>

inductive state_write :: "u64 \<Rightarrow> u64 \<Rightarrow> bool" where
  running: "transition_to_running obs = Some (Ret (t, Some (s, s'))) \<Longrightarrow> state_write s s'"
| idle: "transition_to_idle obs = Some (Ret (a, Some (s, s'))) \<Longrightarrow> state_write s s'"
| complete: "transition_to_complete s = Ret (snap, s') \<Longrightarrow> state_write s s'"
| without_submit: "transition_to_notified_without_submit obs = Some (Ret (b, Some (s, s'))) \<Longrightarrow>
    state_write s s'"
| notified: "transition_to_notified obs = Some (Ret (n, Some (s, s'))) \<Longrightarrow> state_write s s'"
| drop_fast: "drop_join_handle_fast s = Some s' \<Longrightarrow> state_write s s'"
| drop_interest: "unset_join_interested obs = Some (Ret (r, Some (s, s'))) \<Longrightarrow> state_write s s'"
| waker_set: "set_join_waker obs = Some (Ret (r, Some (s, s'))) \<Longrightarrow> state_write s s'"
| waker_unset: "unset_waker obs = Some (Ret (r, Some (s, s'))) \<Longrightarrow> state_write s s'"
| inc: "ref_inc s = Ret s' \<Longrightarrow> state_write s s'"
| dec: "ref_dec s = Ret (b, s') \<Longrightarrow> state_write s s'"

lemma fetch_update_action_write:
  assumes "fetch_update_action f obs = Some (Ret (t, Some (s, s')))"
  shows "f s = Ret (t, Some s')"
  using assms fetch_update_action_loop_atomic [of f _ _ t "Some (s, s')"]
  by (auto simp: fetch_update_action_def split: list.splits)

lemma fetch_update_write:
  assumes "fetch_update f obs = Some (Ret (r, Some (s, s')))"
  shows "f s = Ret (Some s')"
proof -
  let ?g = "\<lambda>v. bind_outcome (f v) (\<lambda>n. Ret (case n of None \<Rightarrow> Inl v | Some nxt \<Rightarrow> Inr nxt, n))"
  from assms have "fetch_update_action ?g obs = Some (Ret (r, Some (s, s')))"
    by (auto simp: fetch_update_def fetch_update_action_def fetch_update_loop_action
        split: list.splits)
  then have "?g s = Ret (r, Some s')" by (rule fetch_update_action_write)
  then show ?thesis by (auto simp: bind_outcome_Ret_iff)
qed

lemmas state_write_views =
  running_closure_view idle_closure_view notified_without_submit_closure_view notified_closure_view
  unset_join_interested_closure_view set_join_waker_closure_view unset_waker_closure_view

lemma state_write_cases_view:
  assumes "state_write s s'"
  shows "(v_complete (view_of s) \<longrightarrow> v_complete (view_of s')) \<and>
         (v_running (view_of s') \<longrightarrow> \<not> v_complete (view_of s) \<or> v_running (view_of s)) \<and>
         (v_complete (view_of s') \<longrightarrow> v_complete (view_of s) \<or> \<not> v_running (view_of s')) \<and>
         (v_interest (view_of s') \<longrightarrow> v_interest (view_of s))"
  using assms
proof cases
  case (complete snap)
  then show ?thesis using transition_to_complete_view by fastforce
next
  case drop_fast
  then show ?thesis using drop_join_handle_fast_view by fastforce
next
  case inc
  then show ?thesis using ref_inc_view by fastforce
next
  case (dec b)
  then show ?thesis using ref_dec_Ret by fastforce
qed (unfold transition_to_running_def transition_to_idle_def transition_to_notified_def
      transition_to_notified_without_submit_def unset_join_interested_def set_join_waker_def
      unset_waker_def,
     (drule fetch_update_action_write fetch_update_write, drule state_write_views, auto)+)

section \<open>Transitions without contention\<close>

text \<open>
  The runtime is built without the \<^verbatim>\<open>sync\<close> feature, so a task is only touched by its own thread and
  every loop succeeds in its first round.
\<close>

named_theorems solo_intros "the transitions of an uncontended cell"

lemma solo_transition_to_running [solo_intros]:
  "v_notified (view_of s) \<Longrightarrow> \<not> v_running (view_of s) \<Longrightarrow> \<not> v_complete (view_of s) \<Longrightarrow>
   \<exists>s'. solo transition_to_running s = Ret ((), s') \<and>
        view_of s' = (view_of s)\<lparr>v_running := True, v_notified := False\<rparr>"
  by (simp add: transition_to_running_def solo_fetch_update_action running_closure_def
      assert_that_def view_simps)

lemma solo_transition_to_idle [solo_intros]:
  "v_running (view_of s) \<Longrightarrow>
   \<exists>s'. solo transition_to_idle s =
          Ret (if v_notified (view_of s) then OkNotified else IdleOk, s') \<and>
        view_of s' = (view_of s)\<lparr>v_running := False\<rparr>"
  by (simp add: transition_to_idle_def solo_fetch_update_action idle_closure_def
      assert_that_def view_simps Let_def)

lemma transition_to_complete_Ret [solo_intros]:
  "v_running (view_of s) \<Longrightarrow> \<not> v_complete (view_of s) \<Longrightarrow>
   \<exists>s'. transition_to_complete s = Ret (s', s') \<and>
        view_of s' = (view_of s)\<lparr>v_running := False, v_complete := True\<rparr>"
  by (simp add: transition_to_complete_def assert_that_def view_simps view_complete_xor
      Let_def)

lemma solo_transition_to_notified [solo_intros]:
  "\<exists>s'. solo transition_to_notified s =
          Ret (if v_running (view_of s) \<or> v_complete (view_of s) \<or> v_notified (view_of s)
               then DoNothing else Submit, s') \<and>
        view_of s' = (view_of s)\<lparr>v_notified := v_notified (view_of s) \<or> v_running (view_of s) \<or>
                                   \<not> v_complete (view_of s)\<rparr>"
  by (auto simp: transition_to_notified_def solo_fetch_update_action notified_closure_def
      view_simps)

lemma solo_without_submit [solo_intros]:
  "\<exists>s'. solo transition_to_notified_without_submit s =
          Ret (v_running (view_of s) \<or> v_complete (view_of s) \<or> v_notified (view_of s), s') \<and>
        view_of s' = (view_of s)\<lparr>v_notified := v_notified (view_of s) \<or> v_running (view_of s)\<rparr>"
  by (auto simp: transition_to_notified_without_submit_def solo_fetch_update_action
      notified_without_submit_closure_def view_simps)

lemma solo_unset_join_interested [solo_intros]:
  "v_interest (view_of s) \<Longrightarrow> \<not> v_complete (view_of s) \<Longrightarrow>
   \<exists>s'. solo unset_join_interested s = Ret (Inr s', s') \<and>
        view_of s' = (view_of s)\<lparr>v_interest := False\<rparr>"
  "v_interest (view_of s) \<Longrightarrow> v_complete (view_of s) \<Longrightarrow>
   solo unset_join_interested s = Ret (Inl s, s)"
  by (simp_all add: unset_join_interested_def solo_fetch_update unset_join_interested_closure_def
      assert_that_def view_simps)

lemma solo_set_join_waker [solo_intros]:
  "v_interest (view_of s) \<Longrightarrow> \<not> v_waker (view_of s) \<Longrightarrow> \<not> v_complete (view_of s) \<Longrightarrow>
   \<exists>s'. solo set_join_waker s = Ret (Inr s', s') \<and> view_of s' = (view_of s)\<lparr>v_waker := True\<rparr>"
  by (simp add: set_join_waker_def solo_fetch_update set_join_waker_closure_def
      assert_that_def view_simps)

lemma solo_unset_waker [solo_intros]:
  "v_interest (view_of s) \<Longrightarrow> v_waker (view_of s) \<Longrightarrow> \<not> v_complete (view_of s) \<Longrightarrow>
   \<exists>s'. solo unset_waker s = Ret (Inr s', s') \<and> view_of s' = (view_of s)\<lparr>v_waker := False\<rparr>"
  by (simp add: unset_waker_def solo_fetch_update unset_waker_closure_def
      assert_that_def view_simps)

section \<open>Properties\<close>





text \<open>
  Reference counting is exact within the 59 bits of the count: an increment that does not abort
  adds one, a decrement of a live word subtracts one and reports the last reference, and both leave
  every flag alone.
\<close>

lemma ref_inc_dec_exact:
  assumes "ref_inc s = Ret s'"
  shows "unat (ref_count s') = unat (ref_count s) + 1 \<and> s' AND STATE_MASK = s AND STATE_MASK \<and>
         (\<exists>s''. ref_dec s' = Ret (unat (ref_count s) = 0, s'') \<and> s'' = s)"
proof -
  have v: "view_of s' = (view_of s)\<lparr>v_refs := v_refs (view_of s) + 1\<rparr>"
    using assms by (rule ref_inc_view)
  have low: "bit s' n = bit s n" if "n < 5" for n
    using assms take_bit_add_32 [OF that, of s] by (auto simp: ref_inc_def split: if_splits)
  have "s' AND STATE_MASK = s AND STATE_MASK"
    by (rule bit_word_eqI) (auto simp: STATE_MASK_mask bit_simps low)
  moreover from v have "1 \<le> v_refs (view_of s')" by simp
  from ref_dec_view [OF this] obtain s'' where
    "ref_dec s' = Ret (v_refs (view_of s') = 1, s'')" "view_of s'' = view_of s"
    using v by auto
  with v view_inj have "ref_dec s' = Ret (unat (ref_count s) = 0, s'') \<and> s'' = s"
    by (simp add: view_readers)
  ultimately show ?thesis using v by (auto simp: view_readers)
qed

end
