(* ===== verification/Task.thy ===== *)
theory Task
  imports Task_State
begin

text \<open>
  One task of the runtime (\<^verbatim>\<open>runtime/src/task\<close>: \<^verbatim>\<open>core.rs\<close>, \<^verbatim>\<open>harness.rs\<close>, \<^verbatim>\<open>raw.rs\<close>, \<^verbatim>\<open>waker.rs\<close>, \<^verbatim>\<open>join.rs\<close>,
  \<^verbatim>\<open>mod.rs\<close>): its heap cell, the handles to it that exist (the \<open>Task\<close> in the run queue, the wakers, the
  join handle) and the operations on each handle. The cell is freed when the word's count reaches
  zero, and every access to a freed cell is \<open>Undefined\<close>. The future is a parameter: a function that
  gives, for a poll, the operations the future performs on handles to its own task while it is
  polled, its next state, and its output when it is ready. The theory shows that the count in the
  word is the number of handles, so no handle ever touches a freed cell and the cell is freed with
  the last handle; that a wake-up is never lost; and that the output reaches the join handle once.
\<close>

section \<open>The cell\<close>

datatype ('f, 'o) stage = Running 'f | Finished 'o | Consumed

text \<open>Wakers of other tasks are numbers; \<open>will_wake\<close> compares them.\<close>

type_synonym waker = nat

record ('f, 'o) cell =
  header_state :: u64
  owner_id :: nat
  core_stage :: "('f, 'o) stage"
  trailer_waker :: "waker option"

text \<open>What the operations do to the rest of the program, in order.\<close>

datatype effect =
    Schedule
  | YieldNow
  | CloneWakerOf waker
  | DropWakerOf waker
  | WakeByRefOf waker

record ('f, 'o) world =
  the_cell :: "('f, 'o) cell option"
  queued :: nat
  wakers :: nat
  join_alive :: bool
  effects :: "effect list"

definition DEFAULT_THREAD_ID :: nat where
  "DEFAULT_THREAD_ID = 0"

definition cell_new :: "nat \<Rightarrow> 'f \<Rightarrow> ('f, 'o) cell" where
  "cell_new owner fut =
     \<lparr>header_state = state_new, owner_id = owner, core_stage = Running fut, trailer_waker = None\<rparr>"

text \<open>\<^verbatim>\<open>spawn\<close>: the new cell with its \<open>Task\<close> pushed on the run queue and its \<open>JoinHandle\<close> returned.\<close>

definition new_task :: "nat \<Rightarrow> 'f \<Rightarrow> ('f, 'o) world" where
  "new_task owner fut =
     \<lparr>the_cell = Some (cell_new owner fut), queued = 1, wakers = 0, join_alive = True,
      effects = [Schedule]\<rparr>"

section \<open>Access to the cell\<close>

definition with_cell :: "('f, 'o) world \<Rightarrow> (('f, 'o) cell \<Rightarrow> 'r outcome) \<Rightarrow> 'r outcome" where
  "with_cell w k = (case the_cell w of None \<Rightarrow> Undefined ''use after free'' | Some c \<Rightarrow> k c)"

definition set_cell :: "('f, 'o) cell \<Rightarrow> ('f, 'o) world \<Rightarrow> ('f, 'o) world" where
  "set_cell c w = w\<lparr>the_cell := Some c\<rparr>"

definition emit :: "effect list \<Rightarrow> ('f, 'o) world \<Rightarrow> ('f, 'o) world" where
  "emit es w = w\<lparr>effects := effects w @ es\<rparr>"

definition transition ::
    "(u64 \<Rightarrow> ('t \<times> u64) outcome) \<Rightarrow> ('f, 'o) world \<Rightarrow> ('t \<times> ('f, 'o) world) outcome" where
  "transition op w =
     with_cell w (\<lambda>c. bind_outcome (op (header_state c)) (\<lambda>(t, s).
       Ret (t, set_cell (c\<lparr>header_state := s\<rparr>) w)))"

definition task_ref_inc :: "('f, 'o) world \<Rightarrow> ('f, 'o) world outcome" where
  "task_ref_inc w =
     bind_outcome (transition (\<lambda>s. bind_outcome (ref_inc s) (\<lambda>s'. Ret ((), s'))) w) (\<lambda>(u, w1). Ret w1)"

text \<open>Freeing the box drops the join waker that it still holds.\<close>

definition dealloc :: "('f, 'o) world \<Rightarrow> ('f, 'o) world outcome" where
  "dealloc w =
     with_cell w (\<lambda>c.
       Ret (emit (case trailer_waker c of None \<Rightarrow> [] | Some k \<Rightarrow> [DropWakerOf k])
              (w\<lparr>the_cell := None\<rparr>)))"

definition drop_reference :: "('f, 'o) world \<Rightarrow> ('f, 'o) world outcome" where
  "drop_reference w =
     bind_outcome (transition ref_dec w) (\<lambda>(last, w1). if last then dealloc w1 else Ret w1)"

section \<open>The stage\<close>

definition set_stage :: "('f, 'o) stage \<Rightarrow> ('f, 'o) world \<Rightarrow> ('f, 'o) world outcome" where
  "set_stage st w = with_cell w (\<lambda>c. Ret (set_cell (c\<lparr>core_stage := st\<rparr>) w))"

definition drop_future_or_output :: "('f, 'o) world \<Rightarrow> ('f, 'o) world outcome" where
  "drop_future_or_output = set_stage Consumed"

definition store_output :: "'o \<Rightarrow> ('f, 'o) world \<Rightarrow> ('f, 'o) world outcome" where
  "store_output out = set_stage (Finished out)"

definition take_output :: "('f, 'o) world \<Rightarrow> ('o \<times> ('f, 'o) world) outcome" where
  "take_output w =
     with_cell w (\<lambda>c.
       case core_stage c of
         Finished out \<Rightarrow> Ret (out, set_cell (c\<lparr>core_stage := Consumed\<rparr>) w)
       | _ \<Rightarrow> Panic ''JoinHandle polled after completion'')"

section \<open>The trailer\<close>

text \<open>Overwriting the field drops the waker that was stored there.\<close>

definition set_waker :: "waker option \<Rightarrow> ('f, 'o) world \<Rightarrow> ('f, 'o) world outcome" where
  "set_waker wk w =
     with_cell w (\<lambda>c.
       Ret (emit (case trailer_waker c of None \<Rightarrow> [] | Some k \<Rightarrow> [DropWakerOf k])
              (set_cell (c\<lparr>trailer_waker := wk\<rparr>) w)))"

definition will_wake :: "waker \<Rightarrow> ('f, 'o) world \<Rightarrow> bool outcome" where
  "will_wake k w =
     with_cell w (\<lambda>c. case trailer_waker c of
         None \<Rightarrow> Panic ''called Option::unwrap() on a None value''
       | Some j \<Rightarrow> Ret (j = k))"

definition wake_join :: "('f, 'o) world \<Rightarrow> ('f, 'o) world outcome" where
  "wake_join w =
     with_cell w (\<lambda>c. case trailer_waker c of
         Some k \<Rightarrow> Ret (emit [WakeByRefOf k] w)
       | None \<Rightarrow> Panic ''waker missing'')"

section \<open>Wakers\<close>

definition is_remote_task :: "nat option \<Rightarrow> nat \<Rightarrow> bool" where
  "is_remote_task tid owner =
     (if owner = DEFAULT_THREAD_ID then True
      else case tid of Some t \<Rightarrow> owner \<noteq> t | None \<Rightarrow> True)"

text \<open>The scheduler takes the new \<open>Task\<close>: at the back of the queue, or at its front for a yield.\<close>

definition schedule :: "('f, 'o) world \<Rightarrow> ('f, 'o) world" where
  "schedule w = emit [Schedule] (w\<lparr>queued := queued w + 1\<rparr>)"

definition yield_now :: "('f, 'o) world \<Rightarrow> ('f, 'o) world" where
  "yield_now w = emit [YieldNow] (w\<lparr>queued := queued w + 1\<rparr>)"

definition not_sync :: string where
  "not_sync = ''waker can only be sent across threads when `sync` feature enabled''"

definition clone_waker :: "('f, 'o) world \<Rightarrow> ('f, 'o) world outcome" where
  "clone_waker w = bind_outcome (task_ref_inc w) (\<lambda>w1. Ret (w1\<lparr>wakers := wakers w1 + 1\<rparr>))"

definition drop_waker :: "('f, 'o) world \<Rightarrow> ('f, 'o) world outcome" where
  "drop_waker w = drop_reference (w\<lparr>wakers := wakers w - 1\<rparr>)"

definition harness_wake_by_val :: "nat option \<Rightarrow> ('f, 'o) world \<Rightarrow> ('f, 'o) world outcome" where
  "harness_wake_by_val tid w =
     with_cell w (\<lambda>c.
       if is_remote_task tid (owner_id c) then
         bind_outcome (transition (solo transition_to_notified_without_submit) w) (\<lambda>(done, w1).
           if done then drop_reference w1 else Panic not_sync)
       else
         bind_outcome (transition (solo transition_to_notified) w) (\<lambda>(t, w1).
           case t of
             Submit \<Rightarrow> Ret (schedule w1)
           | DoNothing \<Rightarrow> drop_reference w1))"

text \<open>Waking by value consumes the waker.\<close>

definition wake_by_val :: "nat option \<Rightarrow> ('f, 'o) world \<Rightarrow> ('f, 'o) world outcome" where
  "wake_by_val tid w = harness_wake_by_val tid (w\<lparr>wakers := wakers w - 1\<rparr>)"

definition wake_by_ref :: "nat option \<Rightarrow> ('f, 'o) world \<Rightarrow> ('f, 'o) world outcome" where
  "wake_by_ref tid w =
     with_cell w (\<lambda>c.
       if is_remote_task tid (owner_id c) then
         bind_outcome (transition (solo transition_to_notified_without_submit) w) (\<lambda>(done, w1).
           if done then Ret w1 else Panic not_sync)
       else
         bind_outcome (transition (solo transition_to_notified) w) (\<lambda>(t, w1).
           case t of
             Submit \<Rightarrow> bind_outcome (task_ref_inc w1) (\<lambda>w2. Ret (schedule w2))
           | DoNothing \<Rightarrow> Ret w1))"

section \<open>The join handle\<close>

definition harness_set_join_waker ::
    "waker \<Rightarrow> u64 \<Rightarrow> ('f, 'o) world \<Rightarrow> (update_result \<times> ('f, 'o) world) outcome" where
  "harness_set_join_waker k snapshot w =
     assert_that (is_join_interested snapshot) ''is_join_interested''
       (assert_that (\<not> has_join_waker snapshot) ''has_join_waker''
         (bind_outcome (set_waker (Some k) w) (\<lambda>w1.
           bind_outcome (transition (solo set_join_waker) w1) (\<lambda>(res, w2).
             case res of
               Inr s \<Rightarrow> Ret (Inr s, w2)
             | Inl s \<Rightarrow> bind_outcome (set_waker None w2) (\<lambda>w3. Ret (Inl s, w3))))))"

definition can_read_output :: "waker \<Rightarrow> ('f, 'o) world \<Rightarrow> (bool \<times> ('f, 'o) world) outcome" where
  "can_read_output k w =
     with_cell w (\<lambda>c.
       let snapshot = header_state c;
           register = (\<lambda>snap w. harness_set_join_waker k snap (emit [CloneWakerOf k] w));
           finish = (\<lambda>(res, w). case res of
               Inr (s :: u64) \<Rightarrow> Ret (False, w)
             | Inl s \<Rightarrow> assert_that (is_complete s) ''is_complete'' (Ret (True, w))) in
       assert_that (is_join_interested snapshot) ''is_join_interested''
         (if is_complete snapshot then Ret (True, w)
          else if has_join_waker snapshot then
            bind_outcome (will_wake k w) (\<lambda>same.
              if same then Ret (False, w)
              else bind_outcome (transition (solo unset_waker) w) (\<lambda>(res, w1).
                case res of
                  Inr snap \<Rightarrow> bind_outcome (register snap w1) finish
                | Inl s \<Rightarrow> finish (Inl s, w1)))
          else bind_outcome (register snapshot w) finish))"

definition try_read_output ::
    "waker \<Rightarrow> ('f, 'o) world \<Rightarrow> ('o option \<times> ('f, 'o) world) outcome" where
  "try_read_output k w =
     bind_outcome (can_read_output k w) (\<lambda>(ready, w1).
       if ready then bind_outcome (take_output w1) (\<lambda>(out, w2). Ret (Some out, w2))
       else Ret (None, w1))"

definition drop_join_handle_slow :: "('f, 'o) world \<Rightarrow> ('f, 'o) world outcome" where
  "drop_join_handle_slow w =
     bind_outcome (transition (solo unset_join_interested) w) (\<lambda>(res, w1).
       bind_outcome (case res of Inl s \<Rightarrow> drop_future_or_output w1 | Inr s \<Rightarrow> Ret w1) drop_reference)"

definition drop_join_handle :: "('f, 'o) world \<Rightarrow> ('f, 'o) world outcome" where
  "drop_join_handle w =
     (let w0 = w\<lparr>join_alive := False\<rparr> in
      with_cell w0 (\<lambda>c.
        case drop_join_handle_fast (header_state c) of
          Some s \<Rightarrow> Ret (set_cell (c\<lparr>header_state := s\<rparr>) w0)
        | None \<Rightarrow> drop_join_handle_slow w0))"

text \<open>Polling the join handle: the output, or pending.\<close>

definition join_handle_poll ::
    "waker \<Rightarrow> ('f, 'o) world \<Rightarrow> ('o option \<times> ('f, 'o) world) outcome" where
  "join_handle_poll k w = try_read_output k w"

definition is_finished :: "('f, 'o) world \<Rightarrow> bool outcome" where
  "is_finished w = with_cell w (\<lambda>c. Ret (is_complete (header_state c)))"

section \<open>Operations on handles\<close>

datatype act =
    CloneWaker
  | WakeByRef
  | WakeByVal
  | DropWaker
  | PollJoin waker
  | DropJoin

fun exec_act :: "nat option \<Rightarrow> act \<Rightarrow> ('f, 'o) world \<Rightarrow> ('f, 'o) world outcome" where
  "exec_act tid CloneWaker w = clone_waker w"
| "exec_act tid WakeByRef w = wake_by_ref tid w"
| "exec_act tid WakeByVal w = wake_by_val tid w"
| "exec_act tid DropWaker w = drop_waker w"
| "exec_act tid (PollJoin k) w = bind_outcome (join_handle_poll k w) (\<lambda>(out, w1). Ret w1)"
| "exec_act tid DropJoin w = drop_join_handle w"

fun exec_acts :: "nat option \<Rightarrow> act list \<Rightarrow> ('f, 'o) world \<Rightarrow> ('f, 'o) world outcome" where
  "exec_acts tid [] w = Ret w"
| "exec_acts tid (a # as) w = bind_outcome (exec_act tid a w) (exec_acts tid as)"

section \<open>Running the task\<close>

type_synonym ('f, 'o) future = "'f \<Rightarrow> act list \<times> 'f \<times> 'o option"

definition core_stage_poll ::
    "nat option \<Rightarrow> ('f, 'o) future \<Rightarrow> ('f, 'o) world \<Rightarrow> ('o option \<times> ('f, 'o) world) outcome" where
  "core_stage_poll tid fut w =
     with_cell w (\<lambda>c.
       case core_stage c of
         Running f \<Rightarrow>
           (case fut f of (acts, f', res) \<Rightarrow>
              bind_outcome (exec_acts tid acts w) (\<lambda>w1.
                bind_outcome (set_stage (Running f') w1) (\<lambda>w2.
                  case res of
                    None \<Rightarrow> Ret (None, w2)
                  | Some out \<Rightarrow>
                      bind_outcome (drop_future_or_output w2) (\<lambda>w3. Ret (Some out, w3)))))
       | _ \<Rightarrow> Panic ''unexpected stage'')"

text \<open>\<open>True\<close> for \<^verbatim>\<open>Poll::Ready(())\<close>.\<close>

definition poll_future ::
    "nat option \<Rightarrow> ('f, 'o) future \<Rightarrow> ('f, 'o) world \<Rightarrow> (bool \<times> ('f, 'o) world) outcome" where
  "poll_future tid fut w =
     bind_outcome (core_stage_poll tid fut w) (\<lambda>(res, w1).
       case res of
         None \<Rightarrow> Ret (False, w1)
       | Some out \<Rightarrow> bind_outcome (store_output out w1) (\<lambda>w2. Ret (True, w2)))"

datatype poll_future_result = PollComplete | PollNotified | PollDone

definition poll_inner ::
    "nat option \<Rightarrow> ('f, 'o) future \<Rightarrow> ('f, 'o) world \<Rightarrow>
     (poll_future_result \<times> ('f, 'o) world) outcome" where
  "poll_inner tid fut w =
     bind_outcome (transition (solo transition_to_running) w) (\<lambda>(u, w1).
       bind_outcome (poll_future tid fut w1) (\<lambda>(ready, w2).
         if ready then Ret (PollComplete, w2)
         else bind_outcome (transition (solo transition_to_idle) w2) (\<lambda>(t, w3).
           case t of IdleOk \<Rightarrow> Ret (PollDone, w3) | OkNotified \<Rightarrow> Ret (PollNotified, w3))))"

text \<open>A panic while the output is dropped or the joiner is woken is caught and discarded.\<close>

definition catch_unwind :: "'w \<Rightarrow> 'w outcome \<Rightarrow> 'w outcome" where
  "catch_unwind w r = (case r of Panic m \<Rightarrow> Ret w | _ \<Rightarrow> r)"

definition complete :: "('f, 'o) world \<Rightarrow> ('f, 'o) world outcome" where
  "complete w =
     bind_outcome (transition transition_to_complete w) (\<lambda>(snapshot, w1).
       catch_unwind w1
         (if \<not> is_join_interested snapshot then drop_future_or_output w1
          else if has_join_waker snapshot then wake_join w1
          else Ret w1))"

definition harness_poll ::
    "nat option \<Rightarrow> ('f, 'o) future \<Rightarrow> ('f, 'o) world \<Rightarrow> ('f, 'o) world outcome" where
  "harness_poll tid fut w =
     bind_outcome (poll_inner tid fut w) (\<lambda>(res, w1).
       case res of
         PollNotified \<Rightarrow> bind_outcome (task_ref_inc w1) (\<lambda>w2. Ret (yield_now w2))
       | PollComplete \<Rightarrow> complete w1
       | PollDone \<Rightarrow> Ret w1)"

text \<open>\<^verbatim>\<open>Drop for Task\<close>.\<close>

definition task_drop :: "('f, 'o) world \<Rightarrow> ('f, 'o) world outcome" where
  "task_drop w =
     bind_outcome (transition ref_dec w) (\<lambda>(last, w1). if last then dealloc w1 else Ret w1)"

text \<open>
  \<^verbatim>\<open>Task::run\<close>: the handle that was popped from the queue is polled, then dropped.
\<close>

definition task_run ::
    "nat option \<Rightarrow> ('f, 'o) future \<Rightarrow> ('f, 'o) world \<Rightarrow> ('f, 'o) world outcome" where
  "task_run tid fut w =
     bind_outcome (harness_poll tid fut (w\<lparr>queued := queued w - 1\<rparr>)) task_drop"

lemma task_drop_drop_reference: "task_drop = drop_reference"
  by (simp add: fun_eq_iff task_drop_def drop_reference_def)

section \<open>The invariant\<close>

text \<open>
  \<open>extra\<close> counts the references held by an operation in progress and \<open>polling\<close> says that the future is
  being polled. Outside of operations both are absent.
\<close>

fun stage_ok :: "bool \<Rightarrow> bool \<Rightarrow> ('f, 'o) stage \<Rightarrow> bool" where
  "stage_ok is_done j (Running f) \<longleftrightarrow> \<not> is_done"
| "stage_ok is_done j (Finished out) \<longleftrightarrow> is_done \<and> j"
| "stage_ok is_done j Consumed \<longleftrightarrow> is_done"

definition view_ok ::
    "nat \<Rightarrow> bool \<Rightarrow> nat \<Rightarrow> nat \<Rightarrow> bool \<Rightarrow> task_view \<Rightarrow> bool \<Rightarrow> ('f, 'o) stage \<Rightarrow> bool" where
  "view_ok extra polling q k j v has_waker st \<longleftrightarrow>
      v_refs v = q + k + (if j then 1 else 0) + extra \<and>
      v_running v = polling \<and>
      \<not> (v_running v \<and> v_complete v) \<and>
      q = (if v_notified v \<and> \<not> v_running v \<and> \<not> v_complete v then 1 else 0) \<and>
      (j \<longrightarrow> v_interest v) \<and>
      (\<not> v_complete v \<longrightarrow> v_interest v = j) \<and>
      v_waker v = has_waker \<and>
      stage_ok (v_complete v) j st"

definition cell_ok :: "nat \<Rightarrow> bool \<Rightarrow> ('f, 'o) world \<Rightarrow> ('f, 'o) cell \<Rightarrow> bool" where
  "cell_ok extra polling w c \<longleftrightarrow>
     view_ok extra polling (queued w) (wakers w) (join_alive w) (view_of (header_state c))
       (trailer_waker c \<noteq> None) (core_stage c)"

text \<open>The handles to the task that the rest of the program holds.\<close>

definition handles :: "('f, 'o) world \<Rightarrow> nat" where
  "handles w = queued w + wakers w + (if join_alive w then 1 else 0)"

definition task_inv :: "nat \<Rightarrow> bool \<Rightarrow> ('f, 'o) world \<Rightarrow> bool" where
  "task_inv extra polling w =
     (case the_cell w of
        None \<Rightarrow> queued w = 0 \<and> wakers w = 0 \<and> \<not> join_alive w \<and> extra = 0 \<and> \<not> polling
      | Some c \<Rightarrow> cell_ok extra polling w c \<and>
          0 < handles w + extra)"

text \<open>Rust's ownership: the handle an operation acts on exists.\<close>

fun owned :: "bool \<Rightarrow> ('f, 'o) world \<Rightarrow> act \<Rightarrow> bool" where
  "owned polling w CloneWaker \<longleftrightarrow> polling \<or> 0 < wakers w"
| "owned polling w WakeByRef \<longleftrightarrow> polling \<or> 0 < wakers w"
| "owned polling w WakeByVal \<longleftrightarrow> 0 < wakers w"
| "owned polling w DropWaker \<longleftrightarrow> 0 < wakers w"
| "owned polling w (PollJoin k) \<longleftrightarrow> join_alive w"
| "owned polling w DropJoin \<longleftrightarrow> join_alive w"

fun all_owned :: "nat option \<Rightarrow> bool \<Rightarrow> ('f, 'o) world \<Rightarrow> act list \<Rightarrow> bool" where
  "all_owned tid polling w [] \<longleftrightarrow> True"
| "all_owned tid polling w (a # as) \<longleftrightarrow>
     owned polling w a \<and>
     (case exec_act tid a w of Ret w1 \<Rightarrow> all_owned tid polling w1 as | _ \<Rightarrow> True)"

definition on_owner :: "nat option \<Rightarrow> ('f, 'o) world \<Rightarrow> bool" where
  "on_owner tid w =
     (case the_cell w of None \<Rightarrow> True | Some c \<Rightarrow> \<not> is_remote_task tid (owner_id c))"

abbreviation task_panics :: "string set" where
  "task_panics \<equiv> {''abort'', ''JoinHandle polled after completion''}"

lemma cell_ok_emit [simp]: "cell_ok e p (emit es w) c = cell_ok e p w c"
  by (simp add: cell_ok_def emit_def)

lemma cell_ok_set_cell [simp]: "cell_ok e p (set_cell d w) c = cell_ok e p w c"
  by (simp add: cell_ok_def set_cell_def)

lemma world_simps [simp]:
  "the_cell (set_cell c w) = Some c" "queued (set_cell c w) = queued w"
  "wakers (set_cell c w) = wakers w" "join_alive (set_cell c w) = join_alive w"
  "effects (set_cell c w) = effects w" "set_cell c (set_cell d w) = set_cell c w"
  "the_cell (emit es w) = the_cell w" "queued (emit es w) = queued w"
  "wakers (emit es w) = wakers w" "join_alive (emit es w) = join_alive w"
  "effects (emit es w) = effects w @ es"
  "handles (set_cell c w) = handles w" "handles (emit es w) = handles w"
  by (simp_all add: set_cell_def emit_def handles_def)

lemma task_inv_Some [simp]:
  "the_cell w = Some c \<Longrightarrow> task_inv e p w \<longleftrightarrow>
     cell_ok e p w c \<and> 0 < handles w + e"
  by (simp add: task_inv_def)

lemma task_inv_emit [simp]: "task_inv e p (emit es w) = task_inv e p w"
  by (simp add: task_inv_def emit_def cell_ok_def handles_def split: option.split)

lemma transition_Ret:
  "the_cell w = Some c \<Longrightarrow> op (header_state c) = Ret (t, s) \<Longrightarrow>
   transition op w = Ret (t, set_cell (c\<lparr>header_state := s\<rparr>) w)"
  by (simp add: transition_def with_cell_def)

text \<open>Dropping a reference: the cell goes with the last one.\<close>

lemma drop_reference_inv:
  assumes c: "the_cell w = Some c" and ci: "cell_ok (Suc e) p w c" and pe: "p \<Longrightarrow> 0 < e"
  shows "\<exists>w'. drop_reference w = Ret w' \<and> task_inv e p w' \<and>
           queued w' = queued w \<and> wakers w' = wakers w \<and> join_alive w' = join_alive w \<and>
           (the_cell w' = None \<longleftrightarrow> handles w + e = 0) \<and>
           (\<forall>c'. the_cell w' = Some c' \<longrightarrow> effects w' = effects w \<and> owner_id c' = owner_id c \<and> core_stage c' = core_stage c \<and>
              view_of (header_state c') = (view_of (header_state c))
                \<lparr>v_refs := v_refs (view_of (header_state c)) - 1\<rparr>)"
proof -
  let ?v = "view_of (header_state c)"
  have refs: "v_refs ?v = handles w + Suc e"
    using ci by (simp add: cell_ok_def view_ok_def handles_def)
  then obtain s where s: "ref_dec (header_state c) = Ret (v_refs ?v = 1, s)"
      "view_of s = ?v\<lparr>v_refs := v_refs ?v - 1\<rparr>"
    using ref_dec_view [of "header_state c"] by auto
  define w1 where "w1 = set_cell (c\<lparr>header_state := s\<rparr>) w"
  have tr: "transition ref_dec w = Ret (v_refs ?v = 1, w1)"
    unfolding w1_def using c s(1) by (intro transition_Ret)
  show ?thesis
  proof (cases "v_refs ?v = 1")
    case True
    with refs pe have "handles w = 0" "e = 0" "\<not> p" by auto
    with tr True show ?thesis
      by (simp add: drop_reference_def dealloc_def with_cell_def w1_def task_inv_def emit_def
          set_cell_def handles_def split: if_splits)
  next
    case False
    have "cell_ok e p w1 (c\<lparr>header_state := s\<rparr>)"
      using ci s(2) by (simp add: cell_ok_def w1_def view_ok_def)
    with tr False refs s(2) show ?thesis
      by (auto simp: drop_reference_def w1_def)
  qed
qed

section \<open>Each operation keeps the invariant\<close>

text \<open>
  A task that will be polled again, or needs no poll any more because it is complete or freed.
\<close>

definition woken :: "('f, 'o) world \<Rightarrow> bool" where
  "woken w \<longleftrightarrow> (case the_cell w of None \<Rightarrow> True | Some c \<Rightarrow>
     v_complete (view_of (header_state c)) \<or> v_notified (view_of (header_state c)))"

text \<open>
  What an operation leaves behind: the invariant, on the thread that owns the task, and a wake-up
  that was recorded stays recorded.
\<close>

definition kept :: "nat option \<Rightarrow> nat \<Rightarrow> bool \<Rightarrow> bool \<Rightarrow> ('f, 'o) world \<Rightarrow> bool" where
  "kept tid e p b w \<longleftrightarrow> task_inv e p w \<and> on_owner tid w \<and> (b \<longrightarrow> woken w)"

lemma keptI:
  "the_cell w = Some c \<Longrightarrow> cell_ok e p w c \<Longrightarrow> 0 < handles w + e \<Longrightarrow>
   \<not> is_remote_task tid (owner_id c) \<Longrightarrow>
   (b \<Longrightarrow> v_complete (view_of (header_state c)) \<or> v_notified (view_of (header_state c))) \<Longrightarrow>
   kept tid e p b w"
  by (auto simp: kept_def on_owner_def woken_def)

lemma kept_cell:
  assumes "kept tid e p b w" and "0 < handles w + e"
  obtains c where "the_cell w = Some c" "cell_ok e p w c" "\<not> is_remote_task tid (owner_id c)"
    "b \<longrightarrow> v_complete (view_of (header_state c)) \<or> v_notified (view_of (header_state c))"
  using assms
  by (cases "the_cell w") (auto simp: kept_def on_owner_def task_inv_def handles_def woken_def)

lemma kept_emit [simp]: "kept tid e p b (emit es w) = kept tid e p b w"
  by (simp add: kept_def on_owner_def woken_def)

lemma kept_drop_reference:
  assumes "the_cell w = Some c" and "cell_ok (Suc e) p w c" and "p \<Longrightarrow> 0 < e"
    and "\<not> is_remote_task tid (owner_id c)"
    and "b \<longrightarrow> v_complete (view_of (header_state c)) \<or> v_notified (view_of (header_state c))"
  shows "\<exists>w'. drop_reference w = Ret w' \<and> kept tid e p b w' \<and> (the_cell w' = None \<longleftrightarrow> handles w + e = 0)"
  using drop_reference_inv [OF assms(1,2)] assms(3-5)
  by (fastforce simp: kept_def on_owner_def woken_def split: option.split)

lemma task_ref_inc_ok:
  assumes "the_cell w = Some c"
  shows "ok task_panics (task_ref_inc w) (\<lambda>w'. \<exists>s. w' = set_cell (c\<lparr>header_state := s\<rparr>) w \<and>
           view_of s = (view_of (header_state c))\<lparr>v_refs := v_refs (view_of (header_state c)) + 1\<rparr>)"
proof (cases "ref_inc (header_state c)")
  case (Ret s)
  with assms ref_inc_view [OF Ret] show ?thesis
    by (auto simp: task_ref_inc_def transition_def with_cell_def)
qed (insert assms, auto simp: task_ref_inc_def transition_def with_cell_def ref_inc_def
      split: if_splits)

lemma clone_waker_kept:
  assumes k: "kept tid e p b w" and pos: "0 < handles w + e"
  shows "ok task_panics (clone_waker w) (kept tid e p b)"
proof -
  from k pos obtain c where c: "the_cell w = Some c" "cell_ok e p w c"
      "\<not> is_remote_task tid (owner_id c)"
      "b \<longrightarrow> v_complete (view_of (header_state c)) \<or> v_notified (view_of (header_state c))"
    by (rule kept_cell)
  show ?thesis
    unfolding clone_waker_def ok_bind
  proof (rule ok_mono [OF task_ref_inc_ok [OF c(1)]])
    fix w1
    assume "\<exists>s. w1 = set_cell (c\<lparr>header_state := s\<rparr>) w \<and>
        view_of s = (view_of (header_state c))\<lparr>v_refs := v_refs (view_of (header_state c)) + 1\<rparr>"
    then obtain s where s: "w1 = set_cell (c\<lparr>header_state := s\<rparr>) w"
        "view_of s = (view_of (header_state c))\<lparr>v_refs := v_refs (view_of (header_state c)) + 1\<rparr>"
      by blast
    have "cell_ok e p (w1\<lparr>wakers := wakers w1 + 1\<rparr>) (c\<lparr>header_state := s\<rparr>)"
      using c(2) by (simp add: s cell_ok_def view_ok_def)
    then have "kept tid e p b (w1\<lparr>wakers := wakers w1 + 1\<rparr>)"
      by (rule keptI [rotated]) (use s c pos in \<open>simp_all add: handles_def\<close>)
    then show "ok task_panics (Ret (w1\<lparr>wakers := wakers w1 + 1\<rparr>)) (kept tid e p b)" by simp
  qed
qed

lemma drop_waker_kept:
  assumes k: "kept tid e p b w" and own: "0 < wakers w" and pe: "p \<Longrightarrow> 0 < e"
  shows "ok task_panics (drop_waker w) (kept tid e p b)"
proof -
  have pos: "0 < handles w + e" using own by (simp add: handles_def)
  from k pos obtain c where c: "the_cell w = Some c" "cell_ok e p w c"
      "\<not> is_remote_task tid (owner_id c)"
      "b \<longrightarrow> v_complete (view_of (header_state c)) \<or> v_notified (view_of (header_state c))"
    by (rule kept_cell)
  have "cell_ok (Suc e) p (w\<lparr>wakers := wakers w - 1\<rparr>) c"
    using c(2) own by (simp add: cell_ok_def view_ok_def)
  from kept_drop_reference [OF _ this pe c(3,4)] c(1) show ?thesis
    by (auto simp: drop_waker_def)
qed

text \<open>Marking the task notified, on the thread that owns it.\<close>

lemma transition_to_notified_cell:
  assumes c: "the_cell w = Some c"
  obtains s where
    "transition (solo transition_to_notified) w =
       Ret (if v_running (view_of (header_state c)) \<or> v_complete (view_of (header_state c)) \<or>
               v_notified (view_of (header_state c)) then DoNothing else Submit,
            set_cell (c\<lparr>header_state := s\<rparr>) w)"
    "view_of s = (view_of (header_state c))
       \<lparr>v_notified := v_notified (view_of (header_state c)) \<or> v_running (view_of (header_state c)) \<or>
                      \<not> v_complete (view_of (header_state c))\<rparr>"
proof -
  from solo_transition_to_notified [of "header_state c"] show thesis
    using that by (auto simp: transition_def with_cell_def c)
qed

lemma wake_by_ref_kept:
  assumes k: "kept tid e p b w" and pos: "0 < handles w + e"
  shows "ok task_panics (wake_by_ref tid w) (\<lambda>w'. kept tid e p True w' \<and>
           wakers w' = wakers w \<and> join_alive w' = join_alive w)"
proof -
  from k pos obtain c where c: "the_cell w = Some c" "cell_ok e p w c"
      "\<not> is_remote_task tid (owner_id c)"
      "b \<longrightarrow> v_complete (view_of (header_state c)) \<or> v_notified (view_of (header_state c))"
    by (rule kept_cell)
  let ?v = "view_of (header_state c)"
  obtain s where s: "transition (solo transition_to_notified) w =
       Ret (if v_running ?v \<or> v_complete ?v \<or> v_notified ?v then DoNothing else Submit,
            set_cell (c\<lparr>header_state := s\<rparr>) w)"
    "view_of s = ?v\<lparr>v_notified := v_notified ?v \<or> v_running ?v \<or> \<not> v_complete ?v\<rparr>"
    by (rule transition_to_notified_cell [OF c(1)])
  let ?w1 = "set_cell (c\<lparr>header_state := s\<rparr>) w"
  show ?thesis
  proof (cases "v_running ?v \<or> v_complete ?v \<or> v_notified ?v")
    case True
    with c s pos have "cell_ok e p ?w1 (c\<lparr>header_state := s\<rparr>)"
      by (auto simp: cell_ok_def view_ok_def)
    with True c s pos show ?thesis
      by (auto simp: wake_by_ref_def with_cell_def kept_def on_owner_def woken_def)
  next
    case False
    have "ok task_panics (task_ref_inc ?w1) (\<lambda>w'. \<exists>s1. w' = set_cell (c\<lparr>header_state := s1\<rparr>) w \<and>
           view_of s1 = (view_of s)\<lparr>v_refs := v_refs (view_of s) + 1\<rparr>)"
      using task_ref_inc_ok [of ?w1 "c\<lparr>header_state := s\<rparr>"] by simp
    then have "ok task_panics (bind_outcome (task_ref_inc ?w1) (\<lambda>w2. Ret (schedule w2)))
        (\<lambda>w'. kept tid e p True w' \<and> wakers w' = wakers w \<and> join_alive w' = join_alive w)"
      unfolding ok_bind
      by (rule ok_mono) (use False c s pos in
        \<open>auto simp: schedule_def kept_def on_owner_def woken_def cell_ok_def view_ok_def handles_def\<close>)
    with False c s show ?thesis by (simp add: wake_by_ref_def with_cell_def)
  qed
qed

lemma wake_by_val_kept:
  assumes k: "kept tid e p b w" and own: "0 < wakers w" and pe: "p \<Longrightarrow> 0 < e"
  shows "ok task_panics (wake_by_val tid w) (\<lambda>w'. kept tid e p True w')"
proof -
  have pos: "0 < handles w + e" using own by (simp add: handles_def)
  from k pos obtain c where c: "the_cell w = Some c" "cell_ok e p w c"
      "\<not> is_remote_task tid (owner_id c)"
      "b \<longrightarrow> v_complete (view_of (header_state c)) \<or> v_notified (view_of (header_state c))"
    by (rule kept_cell)
  let ?w0 = "w\<lparr>wakers := wakers w - 1\<rparr>"
  let ?v = "view_of (header_state c)"
  have c0: "the_cell ?w0 = Some c" using c(1) by simp
  obtain s where s: "transition (solo transition_to_notified) ?w0 =
       Ret (if v_running ?v \<or> v_complete ?v \<or> v_notified ?v then DoNothing else Submit,
            set_cell (c\<lparr>header_state := s\<rparr>) ?w0)"
    "view_of s = ?v\<lparr>v_notified := v_notified ?v \<or> v_running ?v \<or> \<not> v_complete ?v\<rparr>"
    by (rule transition_to_notified_cell [OF c0])
  let ?w1 = "set_cell (c\<lparr>header_state := s\<rparr>) ?w0"
  show ?thesis
  proof (cases "v_running ?v \<or> v_complete ?v \<or> v_notified ?v")
    case True
    have ci: "cell_ok (Suc e) p ?w1 (c\<lparr>header_state := s\<rparr>)"
      using c(2) s(2) own True by (auto simp: cell_ok_def view_ok_def)
    from drop_reference_inv [OF _ ci pe] s(2) True c(3) obtain w' where
      "drop_reference ?w1 = Ret w'" "kept tid e p True w'"
      by (auto simp: kept_def on_owner_def woken_def split: option.splits)
    with True c s show ?thesis
      by (simp add: wake_by_val_def harness_wake_by_val_def with_cell_def)
  next
    case False
    with c s own have "kept tid e p True (schedule ?w1)"
      by (auto simp: schedule_def kept_def on_owner_def woken_def cell_ok_def view_ok_def
          handles_def)
    with False c s show ?thesis
      by (simp add: wake_by_val_def harness_wake_by_val_def with_cell_def)
  qed
qed

text \<open>Registering the joiner's waker.\<close>

lemma harness_set_join_waker_Ret:
  assumes c: "the_cell w = Some c" and v: "v_interest (view_of (header_state c))"
    "\<not> v_waker (view_of (header_state c))" "\<not> v_complete (view_of (header_state c))"
  shows "\<exists>s w'. harness_set_join_waker k (header_state c) w = Ret (Inr s, w') \<and>
           the_cell w' = Some (c\<lparr>header_state := s, trailer_waker := Some k\<rparr>) \<and>
           view_of s = (view_of (header_state c))\<lparr>v_waker := True\<rparr> \<and>
           queued w' = queued w \<and> wakers w' = wakers w \<and> join_alive w' = join_alive w"
proof -
  from solo_set_join_waker [OF v] obtain s where s: "solo set_join_waker (header_state c) = Ret (Inr s, s)"
      "view_of s = (view_of (header_state c))\<lparr>v_waker := True\<rparr>"
    by blast
  with c v show ?thesis
    by (simp add: harness_set_join_waker_def assert_that_def view_readers set_waker_def with_cell_def
        transition_def)
qed

lemma can_read_output_ok:
  assumes c: "the_cell w = Some c" and ci: "cell_ok e p w c" and own: "join_alive w"
  shows "\<exists>w'. can_read_output k w = Ret (v_complete (view_of (header_state c)), w') \<and>
           queued w' = queued w \<and> wakers w' = wakers w \<and> join_alive w' = join_alive w \<and>
           (\<exists>c'. the_cell w' = Some c' \<and> cell_ok e p w' c' \<and> owner_id c' = owner_id c \<and>
              core_stage c' = core_stage c \<and>
              v_notified (view_of (header_state c')) = v_notified (view_of (header_state c)) \<and>
              v_complete (view_of (header_state c')) = v_complete (view_of (header_state c)) \<and>
              (\<not> v_complete (view_of (header_state c)) \<longrightarrow> trailer_waker c' = Some k))"
proof -
  let ?v = "view_of (header_state c)"
  have int: "v_interest ?v" and wk: "v_waker ?v = (trailer_waker c \<noteq> None)"
    using ci own by (auto simp: cell_ok_def view_ok_def)
  consider (finished) "v_complete ?v" | (none) "\<not> v_complete ?v" "\<not> v_waker ?v"
    | (same) "\<not> v_complete ?v" "trailer_waker c = Some k"
    | (other) j where "\<not> v_complete ?v" "trailer_waker c = Some j" "j \<noteq> k"
    using wk by (cases "trailer_waker c") auto
  then show ?thesis
  proof cases
    case finished
    with c ci int show ?thesis
      by (simp add: can_read_output_def with_cell_def assert_that_def view_readers)
  next
    case none
    from harness_set_join_waker_Ret [of "emit [CloneWakerOf k] w" c k] c int none obtain s w' where s:
      "harness_set_join_waker k (header_state c) (emit [CloneWakerOf k] w) = Ret (Inr s, w')"
      "the_cell w' = Some (c\<lparr>header_state := s, trailer_waker := Some k\<rparr>)"
      "view_of s = ?v\<lparr>v_waker := True\<rparr>"
      "queued w' = queued w" "wakers w' = wakers w" "join_alive w' = join_alive w"
      by auto
    with c ci int none own show ?thesis
      by (simp add: can_read_output_def with_cell_def assert_that_def view_readers cell_ok_def
          view_ok_def)
  next
    case same
    with c ci int wk show ?thesis
      by (simp add: can_read_output_def with_cell_def assert_that_def view_readers will_wake_def)
  next
    case (other j)
    then have wk': "v_waker ?v" using wk by simp
    from solo_unset_waker [OF int wk' other(1)] obtain s1 where s1:
      "solo unset_waker (header_state c) = Ret (Inr s1, s1)" "view_of s1 = ?v\<lparr>v_waker := False\<rparr>"
      by blast
    let ?c1 = "c\<lparr>header_state := s1\<rparr>"
    from harness_set_join_waker_Ret [of "emit [CloneWakerOf k] (set_cell ?c1 w)" ?c1 k] int other s1
    obtain s w' where s:
      "harness_set_join_waker k s1 (emit [CloneWakerOf k] (set_cell ?c1 w)) = Ret (Inr s, w')"
      "the_cell w' = Some (c\<lparr>header_state := s, trailer_waker := Some k\<rparr>)"
      "view_of s = ?v\<lparr>v_waker := True\<rparr>"
      "queued w' = queued w" "wakers w' = wakers w" "join_alive w' = join_alive w"
      by auto
    with c ci int other s1 wk' own show ?thesis
      by (simp add: can_read_output_def with_cell_def assert_that_def view_readers will_wake_def
          transition_def cell_ok_def view_ok_def)
  qed
qed

lemma try_read_output_kept:
  assumes k: "kept tid e p b w" and own: "join_alive w"
  shows "ok task_panics (try_read_output wk w) (\<lambda>(out, w'). kept tid e p b w')"
proof -
  have pos: "0 < handles w + e" using own by (simp add: handles_def)
  from k pos obtain c where c: "the_cell w = Some c" "cell_ok e p w c"
      "\<not> is_remote_task tid (owner_id c)"
      "b \<longrightarrow> v_complete (view_of (header_state c)) \<or> v_notified (view_of (header_state c))"
    by (rule kept_cell)
  from can_read_output_ok [OF c(1,2) own, of wk] obtain w' c' where r:
    "can_read_output wk w = Ret (v_complete (view_of (header_state c)), w')"
    "queued w' = queued w" "wakers w' = wakers w" "join_alive w' = join_alive w"
    "the_cell w' = Some c'" "cell_ok e p w' c'" "owner_id c' = owner_id c"
    "core_stage c' = core_stage c"
    "v_notified (view_of (header_state c')) = v_notified (view_of (header_state c))"
    "v_complete (view_of (header_state c')) = v_complete (view_of (header_state c))"
    by blast
  have kept': "kept tid e p b w'"
    using r c own by (intro keptI [OF r(5,6)]) (auto simp: handles_def)
  show ?thesis
  proof (cases "v_complete (view_of (header_state c)) \<and> (\<exists>out. core_stage c' = Finished out)")
    case True
    then obtain out where "core_stage c' = Finished out" by blast
    moreover have "kept tid e p b (set_cell (c'\<lparr>core_stage := Consumed\<rparr>) w')"
      using r c own True
      by (intro keptI [where c = "c'\<lparr>core_stage := Consumed\<rparr>"])
        (auto simp: handles_def cell_ok_def view_ok_def)
    ultimately show ?thesis
      using True r by (simp add: try_read_output_def take_output_def with_cell_def)
  next
    case False
    then show ?thesis
      using r kept' by (auto simp: try_read_output_def take_output_def with_cell_def split: stage.split)
  qed
qed

lemma view_ok_initial:
  "view_ok e p q k True \<lparr>v_running = False, v_complete = False, v_notified = True,
     v_interest = True, v_waker = False, v_refs = 2\<rparr> hw st \<Longrightarrow>
   q = 1 \<and> k = 0 \<and> e = 0 \<and> \<not> p \<and> \<not> hw \<and> stage_ok False True st"
proof -
  assume "view_ok e p q k True \<lparr>v_running = False, v_complete = False, v_notified = True,
     v_interest = True, v_waker = False, v_refs = 2\<rparr> hw st"
  then have "2 = q + k + 1 + e" "\<not> p" "q = 1" "\<not> hw" "stage_ok False True st"
    by (simp_all only: view_ok_def task_view.select_convs if_True simp_thms)
  then show ?thesis by simp
qed

lemma drop_join_handle_kept:
  assumes k: "kept tid e p b w" and own: "join_alive w" and pe: "p \<Longrightarrow> 0 < e"
  shows "ok task_panics (drop_join_handle w) (\<lambda>w'. kept tid e p b w' \<and> \<not> join_alive w')"
proof -
  have pos: "0 < handles w + e" using own by (simp add: handles_def)
  from k pos obtain c where c: "the_cell w = Some c" "cell_ok e p w c"
      "\<not> is_remote_task tid (owner_id c)"
      "b \<longrightarrow> v_complete (view_of (header_state c)) \<or> v_notified (view_of (header_state c))"
    by (rule kept_cell)
  let ?v = "view_of (header_state c)"
  let ?w0 = "w\<lparr>join_alive := False\<rparr>"
  have int: "v_interest ?v" using c(2) own by (auto simp: cell_ok_def view_ok_def)
  have slow: ?thesis
    if fast: "drop_join_handle_fast (header_state c) = None"
      and res: "solo unset_join_interested (header_state c) = Ret (res, s)"
      and cell: "case res of Inl x \<Rightarrow> s = header_state c \<and> v_complete ?v \<and> d = c\<lparr>core_stage := Consumed\<rparr>
        | Inr x \<Rightarrow> \<not> v_complete ?v \<and> view_of s = ?v\<lparr>v_interest := False\<rparr> \<and> d = c\<lparr>header_state := s\<rparr>"
    for res s d
  proof -
    have ci: "cell_ok (Suc e) p (set_cell d ?w0) d"
      using c(2) own cell by (auto simp: cell_ok_def view_ok_def split: sum.splits)
        (cases "core_stage c"; simp)+
    have "owner_id d = owner_id c" using cell by (auto split: sum.splits)
    with c(3) drop_reference_inv [OF _ ci pe] obtain w' where
      "drop_reference (set_cell d ?w0) = Ret w'" "kept tid e p b w'" "\<not> join_alive w'"
      using c(4) cell by (auto simp: kept_def on_owner_def woken_def split: option.splits sum.splits)
    with fast res cell c(1) show ?thesis
      by (auto simp: drop_join_handle_def drop_join_handle_slow_def with_cell_def transition_def
          drop_future_or_output_def set_stage_def split: sum.splits)
  qed
  show ?thesis
  proof (cases "drop_join_handle_fast (header_state c)")
    case (Some s)
    from drop_join_handle_fast_view [OF Some] have h: "header_state c = INITIAL_STATE"
      "view_of s = (view_of (header_state c))\<lparr>v_interest := False, v_refs := 1\<rparr>"
      by blast+
    have vs: "view_of s = \<lparr>v_running = False, v_complete = False, v_notified = True,
        v_interest = False, v_waker = False, v_refs = 1\<rparr>"
      and vc: "?v = \<lparr>v_running = False, v_complete = False, v_notified = True,
        v_interest = True, v_waker = False, v_refs = 2\<rparr>"
      unfolding h view_initial by simp_all
    have pre: "queued w = 1 \<and> wakers w = 0 \<and> e = 0 \<and> \<not> p \<and> \<not> trailer_waker c \<noteq> None \<and>
        stage_ok False True (core_stage c)"
      using c(2) own by (intro view_ok_initial) (simp add: cell_ok_def vc)
    then have "cell_ok e p ?w0 (c\<lparr>header_state := s\<rparr>)"
      unfolding cell_ok_def view_ok_def by (cases "core_stage c") (simp_all add: vs)
    moreover have "0 < handles ?w0"
      using pre by (simp add: handles_def)
    ultimately have "kept tid e p b (set_cell (c\<lparr>header_state := s\<rparr>) ?w0)"
      using c(3) by (intro keptI [where c = "c\<lparr>header_state := s\<rparr>"]) (simp_all add: vs)
    with Some c(1) show ?thesis by (simp add: drop_join_handle_def with_cell_def)
  next
    case None
    show ?thesis
    proof (cases "v_complete ?v")
      case True
      with solo_unset_join_interested(2) [OF int True] show ?thesis
        by (intro slow [OF None, where d = "c\<lparr>core_stage := Consumed\<rparr>"]) auto
    next
      case False
      with solo_unset_join_interested(1) [OF int False] show ?thesis
        by (auto intro!: slow [OF None])
    qed
  qed
qed

lemma exec_act_kept:
  assumes k: "kept tid e p b w" and own: "owned p w a" and pe: "p \<Longrightarrow> 0 < e"
  shows "ok task_panics (exec_act tid a w) (kept tid e p (b \<or> a = WakeByRef \<or> a = WakeByVal))"
proof (cases a)
  case CloneWaker
  then have "0 < handles w + e" using own pe by (auto simp: handles_def)
  then show ?thesis using CloneWaker clone_waker_kept [OF k] by simp
next
  case WakeByRef
  then have "0 < handles w + e" using own pe by (auto simp: handles_def)
  then show ?thesis using WakeByRef by (auto intro: ok_mono [OF wake_by_ref_kept [OF k]])
next
  case WakeByVal
  then show ?thesis using wake_by_val_kept [OF k _ pe] own by simp
next
  case DropWaker
  then show ?thesis using drop_waker_kept [OF k _ pe] own by simp
next
  case (PollJoin j)
  then show ?thesis using own
    by (auto simp: ok_bind join_handle_poll_def intro: ok_mono [OF try_read_output_kept [OF k]])
next
  case DropJoin
  then show ?thesis using own by (auto intro: ok_mono [OF drop_join_handle_kept [OF k _ pe]])
qed

abbreviation wakes :: "act list \<Rightarrow> bool" where
  "wakes as \<equiv> WakeByRef \<in> set as \<or> WakeByVal \<in> set as"

lemma exec_acts_kept:
  "kept tid e p b w \<Longrightarrow> all_owned tid p w as \<Longrightarrow> (p \<Longrightarrow> 0 < e) \<Longrightarrow>
   ok task_panics (exec_acts tid as w) (kept tid e p (b \<or> wakes as))"
proof (induction as arbitrary: b w)
  case (Cons a as)
  have step: "ok task_panics (exec_act tid a w) (kept tid e p (b \<or> a = WakeByRef \<or> a = WakeByVal))"
    using Cons.prems by (intro exec_act_kept) auto
  have "ok task_panics (exec_acts tid as w1) (kept tid e p (b \<or> wakes (a # as)))"
    if "exec_act tid a w = Ret w1" "kept tid e p (b \<or> a = WakeByRef \<or> a = WakeByVal) w1" for w1
  proof -
    from that Cons.prems have "all_owned tid p w1 as" by simp
    from Cons.IH [OF that(2) this Cons.prems(3)] show ?thesis
      by (rule ok_mono) (auto simp: kept_def)
  qed
  then show ?case using ok_mono [OF step] by (simp add: ok_bind)
qed simp

text \<open>The future's poll leaves the task running, with the output beside it when it is ready.\<close>

lemma poll_future_ok:
  assumes k: "kept tid 1 True b w" and c: "the_cell w = Some c" "core_stage c = Running f"
    and f: "fut f = (acts, f', res)" and own: "all_owned tid True w acts"
  shows "ok task_panics (poll_future tid fut w) (\<lambda>(ready, w').
           ready = (res \<noteq> None) \<and>
           (\<exists>w1 c1. kept tid 1 True (b \<or> wakes acts) w1 \<and> the_cell w1 = Some c1 \<and>
              w' = set_cell (c1\<lparr>core_stage :=
                     (case res of None \<Rightarrow> Running f' | Some out \<Rightarrow> Finished out)\<rparr>) w1))"
proof -
  have acts: "ok task_panics (exec_acts tid acts w) (kept tid 1 True (b \<or> wakes acts))"
    by (rule exec_acts_kept [OF k own]) simp
  show ?thesis
  proof (cases "exec_acts tid acts w")
    case (Ret w1)
    with acts have k1: "kept tid 1 True (b \<or> wakes acts) w1" by simp
    then obtain c1 where "the_cell w1 = Some c1"
      using kept_cell [of tid 1 True _ w1] by force
    with Ret k1 c f show ?thesis
      by (cases res) (auto simp: poll_future_def core_stage_poll_def with_cell_def set_stage_def
          drop_future_or_output_def store_output_def)
  qed (use acts c f in \<open>simp_all add: poll_future_def core_stage_poll_def with_cell_def\<close>)
qed

text \<open>Starting a run: the queue's handle becomes the reference of the run.\<close>

lemma start_run:
  assumes k: "kept tid 0 False b w" and q: "0 < queued w"
  shows "\<exists>c f w1. the_cell w = Some c \<and> core_stage c = Running f \<and>
           transition (solo transition_to_running) (w\<lparr>queued := queued w - 1\<rparr>) = Ret ((), w1) \<and>
           kept tid 1 True False w1 \<and> (\<exists>c1. the_cell w1 = Some c1 \<and> core_stage c1 = Running f \<and>
              trailer_waker c1 = trailer_waker c) \<and> effects w1 = effects w \<and>
           wakers w1 = wakers w \<and> join_alive w1 = join_alive w \<and> queued w1 = 0"
proof -
  have "0 < handles w + 0" using q by (simp add: handles_def)
  with k obtain c where c: "the_cell w = Some c" "cell_ok 0 False w c"
      "\<not> is_remote_task tid (owner_id c)"
    by (rule kept_cell)
  let ?v = "view_of (header_state c)"
  let ?w0 = "w\<lparr>queued := queued w - 1\<rparr>"
  have v: "v_notified ?v" "\<not> v_running ?v" "\<not> v_complete ?v" "queued w = 1"
    using c(2) q by (auto simp: cell_ok_def view_ok_def split: if_splits)
  then obtain f where f: "core_stage c = Running f"
    using c(2) by (cases "core_stage c") (auto simp: cell_ok_def view_ok_def)
  from solo_transition_to_running [OF v(1-3)] obtain s where s:
    "solo transition_to_running (header_state c) = Ret ((), s)"
    "view_of s = ?v\<lparr>v_running := True, v_notified := False\<rparr>"
    by blast
  let ?w1 = "set_cell (c\<lparr>header_state := s\<rparr>) ?w0"
  have "cell_ok 1 True ?w1 (c\<lparr>header_state := s\<rparr>)"
    using c(2) v s(2) by (simp add: cell_ok_def view_ok_def)
  then have "kept tid 1 True False ?w1"
    using c(3) by (intro keptI [where c = "c\<lparr>header_state := s\<rparr>"]) simp_all
  moreover have "transition (solo transition_to_running) ?w0 = Ret ((), ?w1)"
    using c(1) s(1) by (simp add: transition_def with_cell_def)
  ultimately show ?thesis using c(1) f v(4) by simp
qed

text \<open>Ending a run whose future is pending: back in the queue when it was woken meanwhile.\<close>

definition end_pending :: "('f, 'o) world \<Rightarrow> ('f, 'o) world outcome" where
  "end_pending w =
     bind_outcome (transition (solo transition_to_idle) w) (\<lambda>(t, w3).
       bind_outcome
         (case t of
            IdleOk \<Rightarrow> Ret w3
          | OkNotified \<Rightarrow> bind_outcome (task_ref_inc w3) (\<lambda>w2. Ret (yield_now w2)))
         drop_reference)"

lemma end_pending_ok:
  assumes k: "kept tid 1 True b w"
  shows "ok task_panics (end_pending w) (\<lambda>w'. kept tid 0 False b w' \<and>
           (b \<longrightarrow> queued w' = 1 \<and> effects w' = effects w @ [YieldNow]))"
proof -
  from k obtain c where c: "the_cell w = Some c" "cell_ok 1 True w c"
      "\<not> is_remote_task tid (owner_id c)"
      "b \<longrightarrow> v_complete (view_of (header_state c)) \<or> v_notified (view_of (header_state c))"
    by (rule kept_cell) simp
  let ?v = "view_of (header_state c)"
  have v: "v_running ?v" "\<not> v_complete ?v" "queued w = 0"
    using c(2) by (auto simp: cell_ok_def view_ok_def)
  from solo_transition_to_idle [OF v(1)] obtain s where s:
    "solo transition_to_idle (header_state c) = Ret (if v_notified ?v then OkNotified else IdleOk, s)"
    "view_of s = ?v\<lparr>v_running := False\<rparr>"
    by blast
  let ?c3 = "c\<lparr>header_state := s\<rparr>"
  have tr: "transition (solo transition_to_idle) w
      = Ret (if v_notified ?v then OkNotified else IdleOk, set_cell ?c3 w)"
    using c(1) s(1) by (simp add: transition_def with_cell_def)
  show ?thesis
  proof (cases "v_notified ?v")
    case False
    have "cell_ok (Suc 0) False (set_cell ?c3 w) ?c3"
      using c(2) s(2) v False by (simp add: cell_ok_def view_ok_def)
    from kept_drop_reference [OF _ this, of tid b] c(3,4) s(2) v False tr show ?thesis
      by (auto simp: end_pending_def)
  next
    case True
    have "ok task_panics (bind_outcome (task_ref_inc (set_cell ?c3 w)) (\<lambda>w2. drop_reference (yield_now w2)))
       (\<lambda>w'. kept tid 0 False b w' \<and> (b \<longrightarrow> queued w' = 1 \<and> effects w' = effects w @ [YieldNow]))"
      unfolding ok_bind
    proof (rule ok_mono [OF task_ref_inc_ok [where c = ?c3]])
      fix w2
      assume "\<exists>s2. w2 = set_cell (?c3\<lparr>header_state := s2\<rparr>) (set_cell ?c3 w) \<and>
        view_of s2 = (view_of (header_state ?c3))\<lparr>v_refs := v_refs (view_of (header_state ?c3)) + 1\<rparr>"
      then obtain s2 where s2: "w2 = set_cell (c\<lparr>header_state := s2\<rparr>) w"
          "view_of s2 = (view_of s)\<lparr>v_refs := v_refs (view_of s) + 1\<rparr>"
        by auto
      have ci: "cell_ok (Suc 0) False (yield_now w2) (c\<lparr>header_state := s2\<rparr>)"
        using c(2) s(2) s2 v True by (simp add: cell_ok_def view_ok_def yield_now_def)
      have cell: "the_cell (yield_now w2) = Some (c\<lparr>header_state := s2\<rparr>)"
        by (simp add: yield_now_def s2)
      from drop_reference_inv [OF cell ci] show "ok task_panics (drop_reference (yield_now w2))
          (\<lambda>w'. kept tid 0 False b w' \<and> (b \<longrightarrow> queued w' = 1 \<and> effects w' = effects w @ [YieldNow]))"
        using c(3) s(2) s2 True v
        by (auto simp: kept_def on_owner_def woken_def yield_now_def handles_def split: option.splits)
    qed simp
    with True tr show ?thesis by (simp add: end_pending_def outcome_simps)
  qed
qed

text \<open>
  Ending a run whose future is ready: the output stays in the cell for the join handle, which is
  woken when it waits, and is dropped when there is no join handle.
\<close>

lemma end_ready_ok:
  assumes k: "kept tid 1 True b w" and c: "the_cell w = Some c"
  shows "\<exists>w'. bind_outcome (complete (set_cell (c\<lparr>core_stage := Finished out\<rparr>) w)) drop_reference = Ret w' \<and>
           kept tid 0 False b w' \<and> wakers w' = wakers w \<and> join_alive w' = join_alive w \<and>
           (\<forall>c'. the_cell w' = Some c' \<longrightarrow> v_complete (view_of (header_state c')) \<and>
              (join_alive w \<longrightarrow> core_stage c' = Finished out \<and>
                 effects w' = effects w @ (case trailer_waker c of
                                             None \<Rightarrow> [] | Some j \<Rightarrow> [WakeByRefOf j])))"
proof -
  let ?v = "view_of (header_state c)"
  have ci: "cell_ok 1 True w c" and rem: "\<not> is_remote_task tid (owner_id c)"
    using k c by (auto simp: kept_def on_owner_def)
  then have v: "v_running ?v" "\<not> v_complete ?v" "queued w = 0" "v_interest ?v = join_alive w"
      "v_waker ?v = (trailer_waker c \<noteq> None)"
    by (auto simp: cell_ok_def view_ok_def)
  from transition_to_complete_Ret [OF v(1,2)] obtain s where s:
    "transition_to_complete (header_state c) = Ret (s, s)"
    "view_of s = ?v\<lparr>v_running := False, v_complete := True\<rparr>"
    by blast
  define c1 where "c1 = c\<lparr>header_state := s, core_stage := if join_alive w then Finished out else Consumed\<rparr>"
  define w1 where "w1 = emit (if join_alive w then case trailer_waker c of
      None \<Rightarrow> [] | Some j \<Rightarrow> [WakeByRefOf j] else []) (set_cell c1 w)"
  have "complete (set_cell (c\<lparr>core_stage := Finished out\<rparr>) w) = Ret w1"
    using s v
    by (auto simp: complete_def transition_def with_cell_def catch_unwind_def view_readers
        drop_future_or_output_def set_stage_def wake_join_def c1_def w1_def emit_def
        split: option.splits)
  moreover have ci1: "cell_ok (Suc 0) False w1 c1"
    using ci s(2) v by (simp add: cell_ok_def view_ok_def c1_def w1_def)
  have "the_cell w1 = Some c1" by (simp add: w1_def)
  from drop_reference_inv [OF this ci1] obtain w' where
    "drop_reference w1 = Ret w'" "task_inv 0 False w'" "wakers w' = wakers w"
    "join_alive w' = join_alive w"
    "\<forall>c'. the_cell w' = Some c' \<longrightarrow> effects w' = effects w1 \<and> owner_id c' = owner_id c1 \<and>
       core_stage c' = core_stage c1 \<and> v_complete (view_of (header_state c'))"
    using s(2) by (auto simp: c1_def w1_def)
  ultimately show ?thesis
    using rem by (auto simp: kept_def on_owner_def woken_def c1_def w1_def split: option.splits)
qed

lemma task_run_phases:
  "task_run tid fut w =
     bind_outcome (transition (solo transition_to_running) (w\<lparr>queued := queued w - 1\<rparr>)) (\<lambda>(u, w1).
       bind_outcome (poll_future tid fut w1) (\<lambda>(ready, w2).
         if ready then bind_outcome (complete w2) drop_reference else end_pending w2))"
proof -
  have idle: "bind_outcome (bind_outcome (bind_outcome (transition (solo transition_to_idle) w2)
      (\<lambda>(t, w3). case t of IdleOk \<Rightarrow> Ret (PollDone, w3) | OkNotified \<Rightarrow> Ret (PollNotified, w3)))
      (\<lambda>(res, w1). case res of
         PollNotified \<Rightarrow> bind_outcome (task_ref_inc w1) (\<lambda>w2. Ret (yield_now w2))
       | PollComplete \<Rightarrow> complete w1 | PollDone \<Rightarrow> Ret w1)) drop_reference = end_pending w2"
    for w2 :: "('a, 'b) world"
    by (cases "transition (solo transition_to_idle) w2")
      (auto simp: end_pending_def split: transition_to_idle_result.split)
  show ?thesis
    unfolding task_run_def task_drop_drop_reference harness_poll_def poll_inner_def outcome_simps
    by (intro bind_outcome_cong refl) (auto split: prod.split simp: idle [unfolded outcome_simps] outcome_simps
        intro!: bind_outcome_cong)
qed

text \<open>A run that makes the future ready, without operations on its handles, wakes the joiner.\<close>

lemma joiner_run:
  assumes k: "kept tid 0 False b w" and q: "0 < queued w" and c: "the_cell w = Some c"
    "core_stage c = Running f" and f: "fut f = ([], f', Some out)" and j: "join_alive w"
    "trailer_waker c = Some k"
  shows "\<exists>w2 c2. task_run tid fut w = Ret w2 \<and> effects w2 = effects w @ [WakeByRefOf k] \<and>
           the_cell w2 = Some c2 \<and> is_complete (header_state c2) \<and>
           is_join_interested (header_state c2) \<and> core_stage c2 = Finished out"
proof -
  from start_run [OF k q] c j obtain w1 c1 where st:
    "transition (solo transition_to_running) (w\<lparr>queued := queued w - 1\<rparr>) = Ret ((), w1)"
    "kept tid 1 True False w1" "the_cell w1 = Some c1" "core_stage c1 = Running f"
    "trailer_waker c1 = Some k" "effects w1 = effects w" "join_alive w1"
    by auto
  have "poll_future tid fut w1 = Ret (True, set_cell (c1\<lparr>core_stage := Finished out\<rparr>) w1)"
    using st f by (simp add: poll_future_def core_stage_poll_def with_cell_def set_stage_def
        drop_future_or_output_def store_output_def)
  with st(1) have run: "task_run tid fut w
      = bind_outcome (complete (set_cell (c1\<lparr>core_stage := Finished out\<rparr>) w1)) drop_reference"
    by (simp add: task_run_phases)
  from end_ready_ok [OF st(2,3), of out] st obtain w2 where w2:
    "task_run tid fut w = Ret w2" "kept tid 0 False False w2" "join_alive w2"
    "\<forall>c'. the_cell w2 = Some c' \<longrightarrow> v_complete (view_of (header_state c')) \<and>
       core_stage c' = Finished out \<and> effects w2 = effects w @ [WakeByRefOf k]"
    unfolding run by auto
  then obtain c2 where c2: "the_cell w2 = Some c2"
    by (cases "the_cell w2") (auto simp: kept_def task_inv_def)
  with w2 have "is_join_interested (header_state c2)"
    by (simp add: kept_def cell_ok_def view_ok_def view_readers)
  with w2 c2 show ?thesis by (simp add: view_readers)
qed

section \<open>Reachable tasks\<close>

text \<open>
  The futures that own the handles they use while they are polled: Rust's ownership discipline,
  stated for the operations the future performs in the state in which it is polled.
\<close>

definition future_owns :: "nat option \<Rightarrow> ('f, 'o) future \<Rightarrow> ('f, 'o) world \<Rightarrow> bool" where
  "future_owns tid fut w =
     (case transition (solo transition_to_running) (w\<lparr>queued := queued w - 1\<rparr>) of
        Ret (u, w1) \<Rightarrow>
          (case the_cell w1 of
             Some c \<Rightarrow> (case core_stage c of
                          Running f \<Rightarrow> all_owned tid True w1 (fst (fut f)) | _ \<Rightarrow> True)
           | None \<Rightarrow> True)
      | _ \<Rightarrow> True)"

text \<open>
  The steps of the program on one task, on the thread that spawned it: an operation on a handle
  that exists, or a run of the queued \<open>Task\<close>.
\<close>

inductive task_step :: "nat \<Rightarrow> ('f, 'o) future \<Rightarrow> ('f, 'o) world \<Rightarrow> ('f, 'o) world \<Rightarrow> bool"
  for tid :: nat and fut :: "('f, 'o) future" where
  act: "owned False w a \<Longrightarrow> exec_act (Some tid) a w = Ret w' \<Longrightarrow> task_step tid fut w w'"
| run: "0 < queued w \<Longrightarrow> future_owns (Some tid) fut w \<Longrightarrow> task_run (Some tid) fut w = Ret w' \<Longrightarrow>
    task_step tid fut w w'"

inductive_cases task_stepE: "task_step tid fut w w'"

definition task_reachable :: "nat \<Rightarrow> ('f, 'o) future \<Rightarrow> 'f \<Rightarrow> ('f, 'o) world \<Rightarrow> bool" where
  "task_reachable tid fut f0 w \<longleftrightarrow> (task_step tid fut)\<^sup>*\<^sup>* (new_task tid f0) w"

lemma new_task_kept:
  "tid \<noteq> 0 \<Longrightarrow> kept (Some tid) 0 False False (new_task tid f0)"
  by (simp add: kept_def on_owner_def task_inv_def new_task_def cell_new_def cell_ok_def view_ok_def
      state_new_def view_initial handles_def is_remote_task_def DEFAULT_THREAD_ID_def)

text \<open>A run, seen from the invariant: its result for a ready and for a pending future.\<close>

lemma task_run_ok:
  assumes k: "kept tid 0 False b w" and q: "0 < queued w" and own: "future_owns tid fut w"
    and c: "the_cell w = Some c" "core_stage c = Running f" and f: "fut f = (acts, f', res)"
  shows "ok task_panics (task_run tid fut w) (\<lambda>w'.
           kept tid 0 False (wakes acts) w' \<and>
           (res = None \<and> wakes acts \<longrightarrow> queued w' = 1 \<and> (\<exists>es. effects w' = es @ [YieldNow])) \<and>
           (\<forall>out. res = Some out \<longrightarrow> join_alive w' \<longrightarrow>
              (\<exists>c'. the_cell w' = Some c' \<and> core_stage c' = Finished out)))"
proof -
  from start_run [OF k q] c obtain w1 c1 where st:
    "transition (solo transition_to_running) (w\<lparr>queued := queued w - 1\<rparr>) = Ret ((), w1)"
    "kept tid 1 True False w1" "the_cell w1 = Some c1" "core_stage c1 = Running f"
    by auto
  with own f have owned: "all_owned tid True w1 acts" by (simp add: future_owns_def)
  note poll = poll_future_ok [where fut = fut, OF st(2-4) f owned]
  show ?thesis
    unfolding task_run_phases st(1) bind_outcome.simps prod.case ok_bind
  proof (rule ok_mono [OF poll], clarify)
    fix ready and w3 :: "('a, 'b) world" and c3 :: "('a, 'b) cell"
    assume k3: "kept tid 1 True (False \<or> wakes acts) w3" "the_cell w3 = Some c3"
    let ?w2 = "set_cell (c3\<lparr>core_stage := case res of None \<Rightarrow> Running f' | Some out \<Rightarrow> Finished out\<rparr>) w3"
    let ?Q = "\<lambda>w'. kept tid 0 False (wakes acts) w' \<and>
       (res = None \<and> wakes acts \<longrightarrow> queued w' = 1 \<and> (\<exists>es. effects w' = es @ [YieldNow])) \<and>
       (\<forall>out. res = Some out \<longrightarrow> join_alive w' \<longrightarrow>
          (\<exists>c'. the_cell w' = Some c' \<and> core_stage c' = Finished out))"
    show "ok task_panics (if res \<noteq> None then bind_outcome (complete ?w2) drop_reference
        else end_pending ?w2) ?Q"
    proof (cases res)
      case None
      have "kept tid 1 True (wakes acts) ?w2"
        using k3 None by (auto simp: kept_def on_owner_def woken_def cell_ok_def view_ok_def)
      from end_pending_ok [OF this] None show ?thesis by (auto elim!: ok_mono)
    next
      case (Some out)
      from end_ready_ok [OF k3, of out] Some show ?thesis
        by (auto simp: kept_def task_inv_def split: option.splits)
    qed
  qed
qed

lemma task_inv_running:
  assumes "kept tid 0 False b w" and "0 < queued w"
  obtains c f where "the_cell w = Some c" "core_stage c = Running f"
  using start_run [OF assms] by blast

lemma kept_False: "kept tid e p b w \<Longrightarrow> kept tid e p False w"
  by (simp add: kept_def)

lemma task_step_kept:
  assumes "task_step tid fut w w'" and k: "kept (Some tid) 0 False False w"
  shows "kept (Some tid) 0 False False w'"
  using assms(1)
proof (cases rule: task_step.cases)
  case (act a)
  from exec_act_kept [OF k act(1)] act(2) show ?thesis by (auto intro: kept_False)
next
  case run
  obtain c f where c: "the_cell w = Some c" "core_stage c = Running f"
    using k run(1) by (rule task_inv_running)
  obtain acts f' res where "fut f = (acts, f', res)" by (cases "fut f") auto
  from task_run_ok [OF k run(1,2) c this] run(3) show ?thesis by (auto intro: kept_False)
qed

lemma task_reachable_kept:
  assumes "task_reachable tid fut f0 w" and "tid \<noteq> 0"
  shows "kept (Some tid) 0 False False w"
  using assms(1) unfolding task_reachable_def
  by (induction rule: rtranclp_induct) (auto intro: task_step_kept new_task_kept [OF assms(2)])

lemma kept_handles:
  assumes "kept tid 0 False b w"
  shows "the_cell w = None \<longleftrightarrow> handles w = 0"
    and "the_cell w = Some c \<Longrightarrow> unat (ref_count (header_state c)) = handles w"
    and "queued w \<le> 1"
  using assms
  by (auto simp: kept_def task_inv_def cell_ok_def view_ok_def handles_def view_readers
      split: option.splits)

section \<open>Properties\<close>

text \<open>
  C6. Memory safety of a task: however the program uses the handles it owns, no operation touches a
  freed cell, an operation or a run fails only by the deliberate panic of a second read of the
  output or by the abort on a count overflow, the count in the state word is exactly the number of
  handles, and the cell is freed exactly when no handle is left.
\<close>

theorem task_memory_safety:
  assumes "task_reachable tid fut f0 w" and "tid \<noteq> 0"
  shows "(\<forall>a. owned False w a \<longrightarrow> ok task_panics (exec_act (Some tid) a w) (\<lambda>w'. True)) \<and>
         (0 < queued w \<and> future_owns (Some tid) fut w \<longrightarrow>
            ok task_panics (task_run (Some tid) fut w) (\<lambda>w'. True)) \<and>
         (the_cell w = None \<longleftrightarrow> handles w = 0) \<and>
         (\<forall>c. the_cell w = Some c \<longrightarrow> unat (ref_count (header_state c)) = handles w) \<and>
         queued w \<le> 1"
proof -
  note k = task_reachable_kept [OF assms]
  have "ok task_panics (exec_act (Some tid) a w) (\<lambda>w'. True)" if "owned False w a" for a
    by (rule ok_mono [OF exec_act_kept [OF k that]]) simp_all
  moreover have "ok task_panics (task_run (Some tid) fut w) (\<lambda>w'. True)"
    if q: "0 < queued w" and own: "future_owns (Some tid) fut w"
  proof -
    obtain c f where c: "the_cell w = Some c" "core_stage c = Running f"
      using k q by (rule task_inv_running)
    obtain acts f' res where "fut f = (acts, f', res)" by (cases "fut f") auto
    from task_run_ok [OF k q own c this] show ?thesis by (rule ok_mono) simp
  qed
  ultimately show ?thesis using kept_handles [OF k] by blast
qed

text \<open>A future that wakes itself on its first poll and is ready on its second.\<close>

fun countdown :: "(nat, nat) future" where
  "countdown 0 = ([], 0, Some 42)"
| "countdown (Suc n) = ([WakeByRef], n, None)"

theorem task_memory_safety_witness:
  "ok task_panics (exec_act (Some 16) DropJoin (new_task 16 1 :: (nat, nat) world)) (\<lambda>w'. True) \<and>
   handles (new_task 16 1 :: (nat, nat) world) = 2"
proof -
  let ?w = "new_task 16 1 :: (nat, nat) world"
  have "task_reachable 16 countdown 1 ?w" by (simp add: task_reachable_def)
  moreover have "owned False ?w DropJoin" "handles ?w = 2"
    by (simp_all add: new_task_def handles_def)
  ultimately show ?thesis using task_memory_safety [of 16 countdown 1 ?w] by (metis zero_neq_numeral)
qed

text \<open>
  C7. No wake-up is lost: waking a task that is not complete leaves it in the run queue exactly once,
  whether it was idle or queued already; and a pending future that was woken while it was polled is
  put back at the front of the queue.
\<close>

theorem no_lost_wakeup:
  assumes "task_reachable tid fut f0 w" and "tid \<noteq> 0"
  shows "(\<forall>a w'. a \<in> {WakeByRef, WakeByVal} \<and> owned False w a \<and> exec_act (Some tid) a w = Ret w' \<longrightarrow>
            (\<forall>c'. the_cell w' = Some c' \<and> \<not> is_complete (header_state c') \<longrightarrow> queued w' = 1)) \<and>
         (\<forall>c f acts f' w'. the_cell w = Some c \<and> core_stage c = Running f \<and>
            fut f = (acts, f', None) \<and> wakes acts \<and> 0 < queued w \<and> future_owns (Some tid) fut w \<and>
            task_run (Some tid) fut w = Ret w' \<longrightarrow>
            queued w' = 1 \<and> (\<exists>es. effects w' = es @ [YieldNow]))"
proof (intro conjI allI impI, goal_cases)
  case (1 a w' c')
  note k = task_reachable_kept [OF assms]
  from 1 exec_act_kept [OF k, of a] have "kept (Some tid) 0 False True w'" by auto
  with 1 show ?case
    by (auto simp: kept_def woken_def cell_ok_def view_ok_def view_readers)
next
  case (2 c f acts f' w')
  with task_run_ok [OF task_reachable_kept [OF assms], of fut c f acts f' None]
  show ?case by auto
next
  case (3 c f acts f' w')
  with task_run_ok [OF task_reachable_kept [OF assms], of fut c f acts f' None]
  show ?case by auto
qed

theorem no_lost_wakeup_witness:
  "\<exists>w'. task_run (Some 16) countdown (new_task 16 1) = Ret w' \<and> queued w' = 1"
proof -
  let ?w = "new_task 16 1 :: (nat, nat) world"
  have reach: "task_reachable 16 countdown 1 ?w" by (simp add: task_reachable_def)
  have "is_ret (task_run (Some 16) countdown ?w)" "future_owns (Some 16) countdown ?w"
    by code_simp+
  then obtain w' where "task_run (Some 16) countdown ?w = Ret w'"
    by (cases "task_run (Some 16) countdown ?w") auto
  with no_lost_wakeup [OF reach] \<open>future_owns (Some 16) countdown ?w\<close> show ?thesis
    by (auto simp: new_task_def cell_new_def)
qed

text \<open>
  The output is delivered to the join handle exactly once: after a run in which the future
  became ready, a live join handle reads that output, whoever polls it, and a second read panics.
\<close>

lemma join_reads_output_once:
  assumes "task_reachable tid fut f0 w" and "tid \<noteq> 0" and "0 < queued w"
    and "future_owns (Some tid) fut w" and "the_cell w = Some c" and "core_stage c = Running f"
    and "fut f = (acts, f', Some out)" and "task_run (Some tid) fut w = Ret w'" and "join_alive w'"
  shows "\<exists>w''. try_read_output k w' = Ret (Some out, w'') \<and>
           try_read_output j w'' = Panic ''JoinHandle polled after completion''"
proof -
  have k0: "kept (Some tid) 0 False False w" using assms(1,2) by (rule task_reachable_kept)
  from task_run_ok [OF k0 assms(3-7)] assms(8,9) obtain c' where
    "kept (Some tid) 0 False (wakes acts) w'" and c': "the_cell w' = Some c'" "core_stage c' = Finished out"
    by auto
  then have ci: "cell_ok 0 False w' c'" by (simp add: kept_def)
  then have fin: "is_complete (header_state c')" "is_join_interested (header_state c')"
    using c'(2) assms(9) by (auto simp: cell_ok_def view_ok_def view_readers)
  with c' show ?thesis
    by (simp add: try_read_output_def can_read_output_def with_cell_def assert_that_def
        take_output_def)
qed

definition ready_world :: "(nat, nat) world" where
  "ready_world = (case task_run (Some 16) countdown (new_task 16 0) of Ret w \<Rightarrow> w | _ \<Rightarrow> new_task 16 0)"



text \<open>
  Waking from a thread other than the owner's never queues the task there: it is accepted only
  when the task is running, complete or already notified, and panics otherwise, since the
  cross-thread path is compiled out.
\<close>

lemma remote_wake:
  assumes "the_cell w = Some c" and "is_remote_task tid (owner_id c)"
  shows "(if is_running (header_state c) \<or> is_complete (header_state c) \<or> is_notified (header_state c)
          then \<exists>w'. wake_by_ref tid w = Ret w' \<and> queued w' = queued w \<and> effects w' = effects w
          else wake_by_ref tid w = Panic not_sync)"
proof -
  from solo_without_submit [of "header_state c"] obtain s where
    "solo transition_to_notified_without_submit (header_state c) =
       Ret (is_running (header_state c) \<or> is_complete (header_state c) \<or>
            is_notified (header_state c), s)"
    by (auto simp: view_readers)
  with assms show ?thesis
    by (auto simp: wake_by_ref_def with_cell_def transition_def)
qed

end
