(* ===== verification/Executor.thy ===== *)
theory Executor
  imports Prelude
begin

text \<open>
  The run queue and the executor of the runtime (\<^verbatim>\<open>src/runtime/src/scheduler.rs\<close>, \<^verbatim>\<open>runtime.rs\<close>, and the waker
  of the main future in \<^verbatim>\<open>task/waker.rs\<close>). What running a task, polling the main future and the driver do
  is given by the record \<open>executor\<close>: they may schedule tasks, wake the main future, and change the rest of
  the world. The loop of \<open>block_on\<close> may run for ever; then its value is \<open>None\<close>.
\<close>

section \<open>The run queue\<close>

type_synonym 't task_queue = "'t list"

definition tq_new :: "'t task_queue" where
  "tq_new = []"

definition tq_len :: "'t task_queue \<Rightarrow> nat" where
  "tq_len q = length q"

definition tq_is_empty :: "'t task_queue \<Rightarrow> bool" where
  "tq_is_empty q \<longleftrightarrow> tq_len q = 0"

definition tq_push :: "'t \<Rightarrow> 't task_queue \<Rightarrow> 't task_queue" where
  "tq_push t q = q @ [t]"

definition tq_push_front :: "'t \<Rightarrow> 't task_queue \<Rightarrow> 't task_queue" where
  "tq_push_front t q = t # q"

fun tq_pop :: "'t task_queue \<Rightarrow> 't option \<times> 't task_queue" where
  "tq_pop [] = (None, [])"
| "tq_pop (t # q) = (Some t, q)"

text \<open>The context of the thread: its queue, the flag of the main future, and everything else.\<close>

record ('t, 'w) exec_context =
  tasks :: "'t task_queue"
  main_poll :: bool
  outside :: 'w

definition schedule :: "'t \<Rightarrow> ('t, 'w) exec_context \<Rightarrow> ('t, 'w) exec_context" where
  "schedule t c = c\<lparr>tasks := tq_push t (tasks c)\<rparr>"

definition yield_now :: "'t \<Rightarrow> ('t, 'w) exec_context \<Rightarrow> ('t, 'w) exec_context" where
  "yield_now t c = c\<lparr>tasks := tq_push_front t (tasks c)\<rparr>"

definition should_poll :: "('t, 'w) exec_context \<Rightarrow> bool \<times> ('t, 'w) exec_context" where
  "should_poll c = (main_poll c, c\<lparr>main_poll := False\<rparr>)"

definition set_poll :: "('t, 'w) exec_context \<Rightarrow> ('t, 'w) exec_context" where
  "set_poll c = c\<lparr>main_poll := True\<rparr>"

section \<open>The executor\<close>

record ('t, 'w, 'o) executor =
  run :: "'t \<Rightarrow> ('t, 'w) exec_context \<Rightarrow> ('t, 'w) exec_context outcome"
  poll_main :: "('t, 'w) exec_context \<Rightarrow> ('o option \<times> ('t, 'w) exec_context) outcome"
  submit :: "('t, 'w) exec_context \<Rightarrow> ('t, 'w) exec_context"
  park :: "('t, 'w) exec_context \<Rightarrow> ('t, 'w) exec_context"

text \<open>The tasks of one round, with the bound on their number.\<close>

fun run_tasks :: "('t, 'w, 'o) executor \<Rightarrow> nat \<Rightarrow> ('t, 'w) exec_context \<Rightarrow> ('t, 'w) exec_context outcome" where
  "run_tasks ex 0 c =
     (case tq_pop (tasks c) of
        (None, _) \<Rightarrow> Ret c
      | (Some t, q) \<Rightarrow> run ex t (c\<lparr>tasks := q\<rparr>))"
| "run_tasks ex (Suc max_round) c =
     (case tq_pop (tasks c) of
        (None, _) \<Rightarrow> Ret c
      | (Some t, q) \<Rightarrow> bind_outcome (run ex t (c\<lparr>tasks := q\<rparr>)) (run_tasks ex max_round))"

partial_function (option) poll_loop ::
    "('t, 'w, 'o) executor \<Rightarrow> ('t, 'w) exec_context \<Rightarrow> ('o option \<times> ('t, 'w) exec_context) outcome option" where
  "poll_loop ex c =
     (case should_poll c of (woken, c1) \<Rightarrow>
        if woken then
          (case poll_main ex c1 of
             Ret (Some v, c2) \<Rightarrow> Some (Ret (Some v, c2))
           | Ret (None, c2) \<Rightarrow> poll_loop ex c2
           | Panic m \<Rightarrow> Some (Panic m)
           | Undefined m \<Rightarrow> Some (Undefined m))
        else Some (Ret (None, c1)))"

partial_function (option) block_loop ::
    "('t, 'w, 'o) executor \<Rightarrow> ('t, 'w) exec_context \<Rightarrow> ('o \<times> ('t, 'w) exec_context) outcome option" where
  "block_loop ex c =
     (case run_tasks ex (tq_len (tasks c) * 2) c of
        Panic m \<Rightarrow> Some (Panic m)
      | Undefined m \<Rightarrow> Some (Undefined m)
      | Ret c1 \<Rightarrow>
          (case poll_loop ex c1 of
             None \<Rightarrow> None
           | Some (Panic m) \<Rightarrow> Some (Panic m)
           | Some (Undefined m) \<Rightarrow> Some (Undefined m)
           | Some (Ret (Some v, c2)) \<Rightarrow> Some (Ret (v, c2))
           | Some (Ret (None, c2)) \<Rightarrow>
               if tq_is_empty (tasks c2) then block_loop ex (park ex c2)
               else block_loop ex (submit ex c2)))"

definition block_on ::
    "('t, 'w, 'o) executor \<Rightarrow> bool \<Rightarrow> ('t, 'w) exec_context \<Rightarrow> ('o \<times> ('t, 'w) exec_context) outcome option" where
  "block_on ex is_set c =
     (if is_set then Some (Panic ''Can not start a runtime inside a runtime'')
      else block_loop ex (set_poll c))"

definition spawn :: "'t \<Rightarrow> ('t, 'w) exec_context \<Rightarrow> ('t, 'w) exec_context" where
  "spawn task c = c\<lparr>tasks := tq_push task (tasks c)\<rparr>"

section \<open>Rounds\<close>

lemma run_tasks_Nil: "tasks c = [] \<Longrightarrow> run_tasks ex n c = Ret c"
  by (cases n) simp_all

lemma run_tasks_Cons:
  "tasks c = t # q \<Longrightarrow> run_tasks ex n c =
     bind_outcome (run ex t (c\<lparr>tasks := q\<rparr>)) (\<lambda>c1. case n of 0 \<Rightarrow> Ret c1 | Suc m \<Rightarrow> run_tasks ex m c1)"
  by (cases n; cases "run ex t (c\<lparr>tasks := q\<rparr>)") simp_all

text \<open>
  A trace of the tasks that were run is part of the rest of the world. With scheduling at the end of
  the queue only, the tasks at the front of the queue are run in order.
\<close>

lemma round_bound:
  assumes "\<And>t c c'. run ex t c = Ret c' \<Longrightarrow> trace (outside c') = trace (outside c) @ [t]"
  shows "run_tasks ex n c = Ret c' \<Longrightarrow> length (trace (outside c')) \<le> length (trace (outside c)) + Suc n"
proof (induction n arbitrary: c)
  case 0
  then show ?case using assms by (cases "tasks c") fastforce+
next
  case (Suc n)
  show ?case
  proof (cases "tasks c")
    case (Cons t q)
    then obtain c1 where c1: "run ex t (c\<lparr>tasks := q\<rparr>) = Ret c1" "run_tasks ex n c1 = Ret c'"
      using Suc(2) by (auto elim: bind_outcome_RetE)
    show ?thesis using Suc(1) [OF c1(2)] assms [OF c1(1)] by simp
  qed (use Suc(2) in simp)
qed

lemma round_fifo:
  assumes "\<And>t c c'. run ex t c = Ret c' \<Longrightarrow> trace (outside c') = trace (outside c) @ [t] \<and> (\<exists>new. tasks c' = tasks c @ new)"
  shows "run_tasks ex n c = Ret c' \<Longrightarrow> tasks c = pre @ post \<Longrightarrow> length pre \<le> Suc n \<Longrightarrow>
     \<exists>more. trace (outside c') = trace (outside c) @ pre @ more"
proof (induction n arbitrary: c pre post)
  case 0
  show ?case
  proof (cases "tasks c")
    case (Cons t q)
    then have "trace (outside c') = trace (outside c) @ [t]" using 0(1) assms [of t "c\<lparr>tasks := q\<rparr>" c'] by simp
    with 0(2,3) Cons show ?thesis by (cases pre) auto
  qed (use 0 in simp)
next
  case (Suc n)
  show ?case
  proof (cases "tasks c")
    case (Cons t q)
    then obtain c1 where c1: "run ex t (c\<lparr>tasks := q\<rparr>) = Ret c1" "run_tasks ex n c1 = Ret c'"
      using Suc(2) by (auto elim: bind_outcome_RetE)
    obtain new where new: "tasks c1 = q @ new" "trace (outside c1) = trace (outside c) @ [t]"
      using assms [OF c1(1)] by auto
    show ?thesis
    proof (cases pre)
      case Nil
      then show ?thesis using Suc(1) [OF c1(2), of "[]"] new by auto
    next
      case (Cons t' pre')
      then have "tasks c1 = pre' @ post @ new" "t' = t" using \<open>tasks c = t # q\<close> Suc(3) new by auto
      then show ?thesis using Suc(1) [OF c1(2), of pre' "post @ new"] Suc(4) new Cons by auto
    qed
  qed (use Suc in simp)
qed

text \<open>A task that yields each time it runs is the only one that runs.\<close>

lemma yield_round:
  assumes "\<And>c. \<exists>w. run ex t c = Ret (yield_now t (c\<lparr>outside := w\<rparr>)) \<and> trace w = trace (outside c) @ [t]"
  shows "tasks c = t # q \<Longrightarrow>
     \<exists>c'. run_tasks ex n c = Ret c' \<and> tasks c' = t # q \<and> main_poll c' = main_poll c \<and>
       trace (outside c') = trace (outside c) @ replicate (Suc n) t"
proof (induction n arbitrary: c)
  case 0
  obtain w where "run ex t (c\<lparr>tasks := q\<rparr>) = Ret (yield_now t (c\<lparr>tasks := q, outside := w\<rparr>))" "trace w = trace (outside c) @ [t]"
    using assms [of "c\<lparr>tasks := q\<rparr>"] by auto
  with 0 show ?case by (simp add: yield_now_def tq_push_front_def)
next
  case (Suc n)
  obtain w where w: "run ex t (c\<lparr>tasks := q\<rparr>) = Ret (yield_now t (c\<lparr>tasks := q, outside := w\<rparr>))"
      "trace w = trace (outside c) @ [t]"
    using assms [of "c\<lparr>tasks := q\<rparr>"] by auto
  let ?c1 = "yield_now t (c\<lparr>tasks := q, outside := w\<rparr>)"
  have c1: "tasks ?c1 = t # q" "main_poll ?c1 = main_poll c" "outside ?c1 = w"
    by (simp_all add: yield_now_def tq_push_front_def)
  show ?case
    using Suc.IH [OF c1(1)] w Suc(2) c1(2,3) by (auto simp: run_tasks_Cons)
qed

section \<open>The loop\<close>

text \<open>One iteration of the loop in which the main future is not ready.\<close>

definition iteration :: "('t, 'w, 'o) executor \<Rightarrow> ('t, 'w) exec_context \<Rightarrow> ('t, 'w) exec_context \<Rightarrow> bool" where
  "iteration ex c c' \<longleftrightarrow>
     (\<exists>c1 c2. run_tasks ex (tq_len (tasks c) * 2) c = Ret c1 \<and> poll_loop ex c1 = Some (Ret (None, c2)) \<and>
        c' = (if tq_is_empty (tasks c2) then park ex c2 else submit ex c2))"

lemma block_loop_iteration: "iteration ex c c' \<Longrightarrow> block_loop ex c = block_loop ex c'"
  by (subst block_loop.simps) (auto simp: iteration_def)

lemma block_loop_iterations: "(iteration ex)\<^sup>*\<^sup>* c c' \<Longrightarrow> block_loop ex c = block_loop ex c'"
  by (induction rule: rtranclp_induct) (simp_all add: block_loop_iteration)

lemma poll_loop_result:
  assumes "poll_loop ex c = Some r"
  shows "(\<forall>x c'. r = Ret (Some x, c') \<longrightarrow> (\<exists>c1. \<not> main_poll c1 \<and> poll_main ex c1 = Ret (Some x, c'))) \<and>
     (\<forall>c'. r = Ret (None, c') \<longrightarrow> \<not> main_poll c')"
proof (induction rule: poll_loop.raw_induct [OF _ assms])
  case (1 pl ex c r)
  note ih = 1(1) and body = 1(2)
  show ?case
  proof (cases "main_poll c")
    case True
    show ?thesis
    proof (cases "poll_main ex (c\<lparr>main_poll := False\<rparr>)")
      case (Ret p)
      obtain v c2 where p: "p = (v, c2)" by (cases p)
      show ?thesis
      proof (cases v)
        case None
        with body True Ret p have "pl ex c2 = Some r" by (simp add: should_poll_def)
        then show ?thesis by (rule ih)
      next
        case (Some x)
        with body True Ret p have "r = Ret (Some x, c2)" by (simp add: should_poll_def)
        moreover have "\<not> main_poll (c\<lparr>main_poll := False\<rparr>)" by simp
        ultimately show ?thesis using Ret Some p by blast
      qed
    qed (use body True in \<open>auto simp: should_poll_def\<close>)
  qed (use body in \<open>auto simp: should_poll_def\<close>)
qed

lemma poll_loop_idle: "\<not> main_poll c \<Longrightarrow> poll_loop ex c = Some (Ret (None, c))"
  by (subst poll_loop.simps) (simp add: should_poll_def)

lemma block_loop_result:
  assumes "block_loop ex c = Some r"
  shows "\<forall>v c'. r = Ret (v, c') \<longrightarrow> (\<exists>c1. \<not> main_poll c1 \<and> poll_main ex c1 = Ret (Some v, c'))"
proof (induction rule: block_loop.raw_induct [OF _ assms])
  case (1 bl ex c r)
  note ih = 1(1) and body = 1(2)
  show ?case
  proof (cases "run_tasks ex (tq_len (tasks c) * 2) c")
    case (Ret c1)
    then obtain p where p: "poll_loop ex c1 = Some p" using body by (cases "poll_loop ex c1") simp_all
    show ?thesis
    proof (cases p)
      case (Ret q)
      obtain v c2 where q: "q = (v, c2)" by (cases q)
      show ?thesis
      proof (cases v)
        case None
        with body p Ret q \<open>run_tasks ex (tq_len (tasks c) * 2) c = Ret c1\<close>
        have "bl ex (if tq_is_empty (tasks c2) then park ex c2 else submit ex c2) = Some r" by (simp split: if_splits)
        then show ?thesis by (rule ih)
      next
        case (Some x)
        with body p Ret q \<open>run_tasks ex (tq_len (tasks c) * 2) c = Ret c1\<close> have "r = Ret (x, c2)" by simp
        then show ?thesis using poll_loop_result [OF p] Ret q Some by blast
      qed
    qed (use body p Ret in auto)
  qed (use body in auto)
qed

section \<open>Properties\<close>

text \<open>
  C15. If running a task only schedules tasks at the end of the queue, a round of the executor that
  returns has run every task that was queued at its start, in their order, and has run at most twice
  their number and one: then the main future and the driver have their turn.
\<close>

theorem round_fair:
  assumes "\<And>t c c'. run ex t c = Ret c' \<Longrightarrow> trace (outside c') = trace (outside c) @ [t] \<and> (\<exists>new. tasks c' = tasks c @ new)"
    and "run_tasks ex (tq_len (tasks c) * 2) c = Ret c'"
  shows "\<exists>more. trace (outside c') = trace (outside c) @ tasks c @ more \<and> length more \<le> tq_len (tasks c) + 1"
proof -
  obtain more where more: "trace (outside c') = trace (outside c) @ tasks c @ more"
    using round_fifo [OF assms, of "tasks c" "[]"] by (auto simp: tq_len_def)
  have "length (trace (outside c')) \<le> length (trace (outside c)) + Suc (tq_len (tasks c) * 2)"
    using round_bound [OF _ assms(2)] assms(1) by simp
  with more show ?thesis by (auto simp: tq_len_def)
qed

text \<open>An executor for examples: a task is a number, which is recorded, and the number \<open>0\<close> yields.\<close>

definition example_exec :: "(nat, nat list, nat) executor" where
  "example_exec =
     \<lparr>run = (\<lambda>t c. let c1 = c\<lparr>outside := outside c @ [t]\<rparr> in Ret (if t = 0 then yield_now t c1 else c1)),
      poll_main = (\<lambda>c. Ret (None, c)), submit = (\<lambda>c. c), park = (\<lambda>c. c)\<rparr>"

definition fifo_exec :: "(nat, nat list, nat) executor" where
  "fifo_exec =
     \<lparr>run = (\<lambda>t c. let c1 = c\<lparr>outside := outside c @ [t]\<rparr> in Ret (if t = 0 then schedule t c1 else c1)),
      poll_main = (\<lambda>c. Ret (None, c)), submit = (\<lambda>c. c), park = (\<lambda>c. c)\<rparr>"

definition ready_exec :: "(nat, nat list, nat) executor" where
  "ready_exec = fifo_exec\<lparr>poll_main := (\<lambda>c. Ret (Some 7, c))\<rparr>"

theorem round_fair_witness:
  "\<exists>c' more. run_tasks fifo_exec 4 \<lparr>tasks = [0, 5], main_poll = False, outside = []\<rparr> = Ret c' \<and>
     outside c' = [0, 5] @ more \<and> length more \<le> 3"
proof -
  let ?c = "\<lparr>tasks = [0, 5], main_poll = False, outside = []\<rparr> :: (nat, nat list) exec_context"
  have "trace (outside c') = trace (outside c) @ [t] \<and> (\<exists>new. tasks c' = tasks c @ new)"
    if "run fifo_exec t c = Ret c'" "trace = (\<lambda>w. w)" for trace t c c'
    using that by (auto simp: fifo_exec_def Let_def schedule_def tq_push_def split: if_splits)
  moreover have "is_ret (run_tasks fifo_exec (tq_len (tasks ?c) * 2) ?c)" by code_simp
  then obtain c' where "run_tasks fifo_exec (tq_len (tasks ?c) * 2) ?c = Ret c'"
    by (cases "run_tasks fifo_exec (tq_len (tasks ?c) * 2) ?c") auto
  ultimately show ?thesis
    using round_fair [of fifo_exec "\<lambda>w. w" ?c c'] by (auto simp: tq_len_def)
qed

text \<open>
  \<open>block_on\<close> inside a running runtime panics; otherwise, whenever it returns a value, the last
  thing that happened is a poll of the main future that was ready with this value, after the flag that woke
  it had been cleared; and it does return the value when the main future is ready at its first poll, which
  comes after one round of the tasks.
\<close>

lemma block_on_value:
  "block_on ex True c = Some (Panic ''Can not start a runtime inside a runtime'') \<and>
   (block_on ex False c = Some (Ret (v, c')) \<longrightarrow> (\<exists>c1. \<not> main_poll c1 \<and> poll_main ex c1 = Ret (Some v, c'))) \<and>
   (run_tasks ex (tq_len (tasks c) * 2) (set_poll c) = Ret c2 \<and> main_poll c2 \<and>
    poll_main ex (c2\<lparr>main_poll := False\<rparr>) = Ret (Some v, c') \<longrightarrow> block_on ex False c = Some (Ret (v, c')))"
proof (intro conjI impI)
  show "block_on ex True c = Some (Panic ''Can not start a runtime inside a runtime'')" by (simp add: block_on_def)
  show "\<exists>c1. \<not> main_poll c1 \<and> poll_main ex c1 = Ret (Some v, c')" if "block_on ex False c = Some (Ret (v, c'))"
    using that block_loop_result [of ex "set_poll c"] by (simp add: block_on_def)
  assume first: "run_tasks ex (tq_len (tasks c) * 2) (set_poll c) = Ret c2 \<and> main_poll c2 \<and>
    poll_main ex (c2\<lparr>main_poll := False\<rparr>) = Ret (Some v, c')"
  then have "poll_loop ex c2 = Some (Ret (Some v, c'))"
    by (subst poll_loop.simps) (simp add: should_poll_def)
  moreover have "tasks (set_poll c) = tasks c" by (simp add: set_poll_def)
  ultimately show "block_on ex False c = Some (Ret (v, c'))"
    using first by (simp add: block_on_def block_loop.simps [of ex "set_poll c"])
qed

text \<open>
  The state a task that yields starves the others in: it is next, and the main future is not woken.
\<close>

definition starving :: "'t \<Rightarrow> ('t, 'w) exec_context \<Rightarrow> bool" where
  "starving t c \<longleftrightarrow> (\<exists>q. tasks c = t # q) \<and> \<not> main_poll c"

lemma starving_iteration:
  assumes run: "\<And>c. \<exists>w. run ex t c = Ret (yield_now t (c\<lparr>outside := w\<rparr>)) \<and> trace w = trace (outside c) @ [t]"
    and submit: "\<And>c. \<exists>new w. submit ex c = c\<lparr>tasks := tasks c @ new, outside := w\<rparr> \<and> trace w = trace (outside c)"
    and "starving t c"
  shows "\<exists>c1 c' n. run_tasks ex (tq_len (tasks c) * 2) c = Ret c1 \<and> poll_loop ex c1 = Some (Ret (None, c1)) \<and>
     \<not> tq_is_empty (tasks c1) \<and> c' = submit ex c1 \<and> starving t c' \<and>
     trace (outside c') = trace (outside c) @ replicate (Suc n) t"
proof -
  obtain q where c: "tasks c = t # q" "\<not> main_poll c" using assms(3) by (auto simp: starving_def)
  let ?n = "tq_len (tasks c) * 2"
  obtain c1 where c1: "run_tasks ex ?n c = Ret c1" "tasks c1 = t # q" "\<not> main_poll c1"
      "trace (outside c1) = trace (outside c) @ replicate (Suc ?n) t"
    using yield_round [OF run c(1), of ?n] c(2) by auto
  obtain new w where w: "submit ex c1 = c1\<lparr>tasks := tasks c1 @ new, outside := w\<rparr>" "trace w = trace (outside c1)"
    using submit by blast
  have "starving t (submit ex c1)" using c1 w by (simp add: starving_def)
  moreover have "trace (outside (submit ex c1)) = trace (outside c) @ replicate (Suc ?n) t" using c1 w by simp
  ultimately show ?thesis using c1 poll_loop_idle [of c1 ex] by (auto simp: tq_is_empty_def tq_len_def)
qed

lemma starving_diverges:
  assumes run: "\<And>c. \<exists>w. run ex t c = Ret (yield_now t (c\<lparr>outside := w\<rparr>)) \<and> trace w = trace (outside c) @ [t]"
    and submit: "\<And>c. \<exists>new w. submit ex c = c\<lparr>tasks := tasks c @ new, outside := w\<rparr> \<and> trace w = trace (outside c)"
    and returns: "block_loop ex c = Some r"
  shows "\<not> starving t c"
proof -
  have "ex' = ex \<longrightarrow> \<not> starving t c" if "block_loop ex' c = Some r" for ex' c r
  proof (induction rule: block_loop.raw_induct [OF _ that])
    case (1 bl ex' c r)
    note ih = 1(1) and body = 1(2)
    show ?case
    proof (intro impI notI)
      assume ex': "ex' = ex" and "starving t c"
      then obtain c1 where "run_tasks ex (tq_len (tasks c) * 2) c = Ret c1" "poll_loop ex c1 = Some (Ret (None, c1))"
          "\<not> tq_is_empty (tasks c1)" and c': "starving t (submit ex c1)"
        using starving_iteration [OF run submit] by metis
      with body ex' have "bl ex (submit ex c1) = Some r" by simp
      from ih [OF this] c' show False by simp
    qed
  qed
  with returns show ?thesis by blast
qed

text \<open>
  C16. A task that yields each time it runs is put in front of all others: from a state in which it is
  next and the main future is not woken, while completions only append tasks to the queue, the executor never
  returns and, however many iterations it makes, runs no other task, although the rounds are bounded.
\<close>

theorem yield_starves:
  assumes run: "\<And>c. \<exists>w. run ex t c = Ret (yield_now t (c\<lparr>outside := w\<rparr>)) \<and> trace w = trace (outside c) @ [t]"
    and submit: "\<And>c. \<exists>new w. submit ex c = c\<lparr>tasks := tasks c @ new, outside := w\<rparr> \<and> trace w = trace (outside c)"
    and start: "starving t c"
  shows "block_loop ex c = None \<and>
     (\<forall>k. \<exists>c' n. (iteration ex ^^ k) c c' \<and> starving t c' \<and> trace (outside c') = trace (outside c) @ replicate (k + n) t)"
proof (intro conjI allI)
  show "block_loop ex c = None"
    using starving_diverges [OF run submit] start by (cases "block_loop ex c") auto
  show "\<exists>c' n. (iteration ex ^^ k) c c' \<and> starving t c' \<and> trace (outside c') = trace (outside c) @ replicate (k + n) t" for k
  proof (induction k)
    case 0
    then show ?case using start by (intro exI [of _ c] exI [of _ 0]) simp
  next
    case (Suc k)
    then obtain c1 n where c1: "(iteration ex ^^ k) c c1" "starving t c1"
        "trace (outside c1) = trace (outside c) @ replicate (k + n) t" by blast
    obtain c' m where "iteration ex c1 c'" "starving t c'" "trace (outside c') = trace (outside c1) @ replicate (Suc m) t"
      using starving_iteration [OF run submit c1(2)] unfolding iteration_def by metis
    moreover have "replicate (k + n) t @ replicate (Suc m) t = replicate (Suc k + (n + m)) t"
      by (metis add_Suc add_Suc_right add.assoc replicate_add)
    ultimately have "(iteration ex ^^ Suc k) c c'" "starving t c'"
        "trace (outside c') = trace (outside c) @ replicate (Suc k + (n + m)) t"
      using c1 by auto
    then show ?case by blast
  qed
qed

theorem yield_starves_witness:
  "block_loop example_exec \<lparr>tasks = [0, 5], main_poll = False, outside = []\<rparr> = None \<and>
   (\<forall>k. \<exists>c' n. (iteration example_exec ^^ k) \<lparr>tasks = [0, 5], main_poll = False, outside = []\<rparr> c' \<and>
      starving 0 c' \<and> outside c' = replicate (k + n) 0)"
proof -
  let ?c = "\<lparr>tasks = [0, 5], main_poll = False, outside = []\<rparr> :: (nat, nat list) exec_context"
  have "\<exists>w. run example_exec 0 c = Ret (yield_now 0 (c\<lparr>outside := w\<rparr>)) \<and> w = outside c @ [0]" for c
    by (simp add: example_exec_def)
  moreover have "\<exists>new w. submit example_exec c = c\<lparr>tasks := tasks c @ new, outside := w\<rparr> \<and> w = outside c" for c
    by (rule exI [of _ "[]"]) (simp add: example_exec_def)
  moreover have "starving 0 ?c" by (simp add: starving_def)
  ultimately show ?thesis using yield_starves [of example_exec 0 "\<lambda>w. w" ?c] by simp
qed

end
