(* ===== verification/Keyed_Store.thy ===== *)
theory Keyed_Store
  imports Prelude
begin

text \<open>
  The interface between the io_uring driver and the slab that holds its in-flight operations: a
  store that chooses a fresh key for each value it is given, hands out a reference for a key that
  is present, and reads, updates or removes the value behind such a reference. The laws are those
  the driver relies on; the slab is an interpretation.
\<close>

locale keyed_store =
  fixes inv :: "'s \<Rightarrow> bool"
    and look :: "'s \<Rightarrow> nat \<Rightarrow> 'a option"
    and ins :: "'s \<Rightarrow> 'a \<Rightarrow> (nat \<times> 's) outcome"
    and get :: "'s \<Rightarrow> nat \<Rightarrow> 'r option outcome"
    and deref :: "'s \<Rightarrow> 'r \<Rightarrow> 'a outcome"
    and modify :: "'s \<Rightarrow> 'r \<Rightarrow> ('a \<Rightarrow> 'a) \<Rightarrow> 's outcome"
    and rem :: "'s \<Rightarrow> 'r \<Rightarrow> ('a \<times> 's) outcome"
  assumes ins_defined: "inv s \<Longrightarrow> \<not> is_undefined (ins s v)"
    and ins_ret: "inv s \<Longrightarrow> ins s v = Ret (k, s') \<Longrightarrow>
      inv s' \<and> look s k = None \<and> look s' = (look s)(k \<mapsto> v)"
    and get_none: "inv s \<Longrightarrow> look s k = None \<Longrightarrow> get s k = Ret None"
    and get_some: "inv s \<Longrightarrow> look s k = Some x \<Longrightarrow> \<exists>r. get s k = Ret (Some r)"
    and deref_ret: "inv s \<Longrightarrow> look s k = Some x \<Longrightarrow> get s k = Ret (Some r) \<Longrightarrow> deref s r = Ret x"
    and modify_ret: "inv s \<Longrightarrow> look s k = Some x \<Longrightarrow> get s k = Ret (Some r) \<Longrightarrow>
      \<exists>s'. modify s r f = Ret s' \<and> inv s' \<and> look s' = (look s)(k \<mapsto> f x)"
    and rem_ret: "inv s \<Longrightarrow> look s k = Some x \<Longrightarrow> get s k = Ret (Some r) \<Longrightarrow>
      \<exists>s'. rem s r = Ret (x, s') \<and> inv s' \<and> look s' = (look s)(k := None)"
begin

text \<open>A value that was inserted is found under its key, and no other key changes.\<close>

lemma ins_then_deref:
  assumes "inv s" and "ins s v = Ret (k, s')"
  shows "\<exists>r. get s' k = Ret (Some r) \<and> deref s' r = Ret v"
  using ins_ret [OF assms] get_some [of s' k v] deref_ret [of s' k v] by auto

text \<open>Everything a client can do with a key that is present.\<close>

lemma access:
  assumes "inv s" and "look s k = Some x"
  obtains r s_rem where "get s k = Ret (Some r)" "deref s r = Ret x"
    "\<forall>f. \<exists>s'. modify s r f = Ret s' \<and> inv s' \<and> look s' = (look s)(k \<mapsto> f x)"
    "rem s r = Ret (x, s_rem)" "inv s_rem" "look s_rem = (look s)(k := None)"
proof -
  obtain r where r: "get s k = Ret (Some r)" using get_some [OF assms] by blast
  from rem_ret [OF assms r] obtain s_rem where
    "rem s r = Ret (x, s_rem)" "inv s_rem" "look s_rem = (look s)(k := None)"
    by blast
  then show thesis
    using that [OF r deref_ret [OF assms r]] modify_ret [OF assms r] by blast
qed

lemma get_iff:
  assumes "inv s"
  shows "get s k = Ret None \<longleftrightarrow> look s k = None"
  using get_none [OF assms] get_some [OF assms] by (cases "look s k") fastforce+

lemma get_never_fails:
  assumes "inv s"
  shows "\<exists>ro. get s k = Ret ro \<and> (ro = None \<longleftrightarrow> look s k = None)"
  using get_none [OF assms] get_some [OF assms] by (cases "look s k") fastforce+

text \<open>A key is free again once the value behind it is removed, and a fresh key never collides.\<close>

lemma rem_then_get:
  assumes "inv s" and "look s k = Some x" and "get s k = Ret (Some r)" and "rem s r = Ret (y, s')"
  shows "y = x \<and> inv s' \<and> get s' k = Ret None \<and> (\<forall>j. j \<noteq> k \<longrightarrow> look s' j = look s j)"
  using rem_ret [OF assms(1-3)] assms(4) get_none by fastforce

lemma ins_fresh:
  assumes "inv s" and "ins s v = Ret (k, s')"
  shows "get s k = Ret None"
  using ins_ret [OF assms] get_none assms(1) by blast

end

end
