(* ===== verification/Slab.thy ===== *)
theory Slab
  imports Keyed_Store
begin

text \<open>
  The slab of in-flight operations (\<^verbatim>\<open>runtime/src/utils/slab.rs\<close>): an array of 26 lazily allocated
  pages, page \<open>i\<close> holding \<open>64 * 2 ^ i\<close> slots, each page with an intrusive free list threaded through
  its vacant slots. A key is a slot index shifted by the number of slots of the pages before its
  page. The slots are \<^verbatim>\<open>MaybeUninit\<close> memory, so a slot is \<open>None\<close> until it is written, and the
  unchecked reads of the source are \<open>Undefined\<close> on an uninitialised slot. The theory shows that on
  every slab the operations can build no unchecked read is undefined and no index subtraction
  underflows, and that the slab refines a finite map from keys to values.
\<close>

section \<open>Data\<close>

datatype 'a entry = Vacant nat | Occupied 'a

record 'a page =
  slots :: "'a entry option list"
  used :: nat
  initialized :: nat
  next_slot :: nat
  prev_len :: nat

record 'a slab =
  pages :: "'a page option list"
  w_page_id :: nat
  generation :: u32

definition NUM_PAGES :: nat where
  "NUM_PAGES = 26"

definition PAGE_INITIAL_SIZE :: nat where
  "PAGE_INITIAL_SIZE = 64"

definition COMPACT_INTERVAL :: u32 where
  "COMPACT_INTERVAL = 2048"

section \<open>Entries and pages\<close>

fun entry_as_ref :: "'a entry \<Rightarrow> 'a option" where
  "entry_as_ref (Vacant n) = None"
| "entry_as_ref (Occupied x) = Some x"

fun is_vacant :: "'a entry \<Rightarrow> bool" where
  "is_vacant (Vacant n) = True"
| "is_vacant (Occupied x) = False"

fun entry_unwrap_unchecked :: "'a entry \<Rightarrow> 'a outcome" where
  "entry_unwrap_unchecked (Vacant n) = Undefined ''unreachable_unchecked''"
| "entry_unwrap_unchecked (Occupied x) = Ret x"

definition page_new :: "nat \<Rightarrow> nat \<Rightarrow> 'a page" where
  "page_new sz prev =
     \<lparr>slots = replicate sz None, used = 0, initialized = 0, next_slot = 0, prev_len = prev\<rparr>"

definition page_is_empty :: "'a page \<Rightarrow> bool" where
  "page_is_empty p \<longleftrightarrow> used p = 0"

definition page_is_full :: "'a page \<Rightarrow> bool" where
  "page_is_full p \<longleftrightarrow> used p = length (slots p)"

text \<open>
  \<^verbatim>\<open>slots.get_unchecked(i).assume_init_ref()\<close>: undefined out of range and on an uninitialised slot.
\<close>

definition slot_unchecked :: "'a page \<Rightarrow> nat \<Rightarrow> 'a entry outcome" where
  "slot_unchecked p i =
     (if i < length (slots p)
      then case slots p ! i of None \<Rightarrow> Undefined ''assume_init'' | Some e \<Rightarrow> Ret e
      else Undefined ''get_unchecked'')"

definition page_alloc :: "'a page \<Rightarrow> (nat option \<times> 'a page) outcome" where
  "page_alloc p =
     (let nxt = next_slot p in
      if page_is_full p then
        (if nxt = length (slots p) then Ret (None, p)
         else Panic ''next should eq to slots.len()'')
      else if initialized p \<le> nxt then
        (if nxt = initialized p then
           Ret (Some nxt, p\<lparr>initialized := initialized p + 1, next_slot := nxt + 1,
                            used := used p + 1\<rparr>)
         else Panic ''next should eq to initialized'')
      else
        bind_outcome (slot_unchecked p nxt) (\<lambda>e.
          case e of
            Vacant nn \<Rightarrow> Ret (Some nxt, p\<lparr>next_slot := nn, used := used p + 1\<rparr>)
          | Occupied x \<Rightarrow> Undefined ''unreachable_unchecked''))"

definition page_set :: "'a page \<Rightarrow> nat \<Rightarrow> 'a \<Rightarrow> 'a page outcome" where
  "page_set p i v =
     (if i < length (slots p) then Ret (p\<lparr>slots := (slots p)[i := Some (Occupied v)]\<rparr>)
      else Undefined ''get_unchecked_mut'')"

definition page_get_entry :: "'a page \<Rightarrow> nat \<Rightarrow> 'a entry option outcome" where
  "page_get_entry p i =
     (if initialized p \<le> i then Ret None
      else bind_outcome (slot_unchecked p i) (\<lambda>e. Ret (Some e)))"

definition page_get :: "'a page \<Rightarrow> nat \<Rightarrow> 'a option outcome" where
  "page_get p i =
     (if initialized p \<le> i then Ret None
      else bind_outcome (slot_unchecked p i) (\<lambda>e. Ret (entry_as_ref e)))"

text \<open>\<^verbatim>\<open>get_mut\<close> hands out a mutable reference; the model applies the client's update through it.\<close>

definition page_get_mut :: "'a page \<Rightarrow> nat \<Rightarrow> ('a \<Rightarrow> 'a) \<Rightarrow> ('a option \<times> 'a page) outcome" where
  "page_get_mut p i f =
     (if initialized p \<le> i then Ret (None, p)
      else bind_outcome (slot_unchecked p i) (\<lambda>e.
        case entry_as_ref e of
          None \<Rightarrow> Ret (None, p)
        | Some x \<Rightarrow> Ret (Some (f x), p\<lparr>slots := (slots p)[i := Some (Occupied (f x))]\<rparr>)))"

definition page_remove :: "'a page \<Rightarrow> nat \<Rightarrow> ('a option \<times> 'a page) outcome" where
  "page_remove p i =
     (if initialized p \<le> i then Ret (None, p)
      else bind_outcome (slot_unchecked p i) (\<lambda>e.
        if is_vacant e then Ret (None, p)
        else bind_outcome (usize_sub (used p) 1) (\<lambda>u.
          bind_outcome (entry_unwrap_unchecked e) (\<lambda>x.
            Ret (Some x, p\<lparr>slots := (slots p)[i := Some (Vacant (next_slot p))],
                           next_slot := i, used := u\<rparr>)))))"

text \<open>
  \<^verbatim>\<open>Drop for Page\<close>: nothing to drop in an empty page; otherwise the first \<open>initialized\<close> slots are taken as
  a vector of entries, whose occupied values are dropped in order.
\<close>

definition page_drop :: "'a page \<Rightarrow> 'a list outcome" where
  "page_drop p =
     (if page_is_empty p then Ret []
      else if initialized p \<le> length (slots p) \<and> None \<notin> set (take (initialized p) (slots p))
      then Ret (List.map_filter (\<lambda>e. entry_as_ref (the e)) (take (initialized p) (slots p)))
      else Undefined ''transmute'')"

section \<open>The slab\<close>

definition slab_new :: "'a slab" where
  "slab_new = \<lparr>pages = replicate NUM_PAGES None, w_page_id = 0, generation = 0\<rparr>"

definition slab_len :: "'a slab \<Rightarrow> nat" where
  "slab_len s =
     fold (\<lambda>page acc. case page of Some p \<Rightarrow> acc + used p | None \<Rightarrow> acc) (pages s) 0"

text \<open>The number of significant bits of \<open>n\<close>: \<open>64 - n.leading_zeros()\<close> for a \<open>usize\<close>.\<close>

fun bit_width :: "nat \<Rightarrow> nat" where
  "bit_width n = (if n = 0 then 0 else Suc (bit_width (n div 2)))"

declare bit_width.simps [simp del]

definition leading_zeros :: "nat \<Rightarrow> nat" where
  "leading_zeros n = 64 - bit_width n"

definition get_page_id :: "nat \<Rightarrow> nat" where
  "get_page_id key =
     (let slot_shifted = min (key + PAGE_INITIAL_SIZE) usize_max div 2 ^ 7
      in min (64 - leading_zeros slot_shifted) (NUM_PAGES - 1))"

text \<open>
  \<^verbatim>\<open>self.pages.get_unchecked_mut(id)\<close> on the fixed array of 26 optional pages.
\<close>

definition page_unchecked :: "'a slab \<Rightarrow> nat \<Rightarrow> 'a page option outcome" where
  "page_unchecked s i =
     (if i < length (pages s) then Ret (pages s ! i) else Undefined ''get_unchecked_mut'')"

text \<open>
  \<^verbatim>\<open>Slab::get\<close> returns a \<^verbatim>\<open>Ref\<close>: the page and the slot index of an occupied slot. The model returns
  the page's number and the index.
\<close>

definition slab_get :: "'a slab \<Rightarrow> nat \<Rightarrow> (nat \<times> nat) option outcome" where
  "slab_get s key =
     (let page_id = get_page_id key in
      bind_outcome (page_unchecked s page_id) (\<lambda>po.
        case po of
          None \<Rightarrow> Ret None
        | Some p \<Rightarrow>
            bind_outcome (usize_sub key (prev_len p)) (\<lambda>index.
              bind_outcome (page_get_entry p index) (\<lambda>eo.
                case eo of
                  None \<Rightarrow> Ret None
                | Some (Vacant n) \<Rightarrow> Ret None
                | Some (Occupied x) \<Rightarrow> Ret (Some (page_id, index))))))"

text \<open>The page that \<^verbatim>\<open>insert\<close> looks at: the allocated one, or a new one of the page's size.\<close>

definition page_or_new :: "'a page option \<Rightarrow> nat \<Rightarrow> 'a page" where
  "page_or_new po i =
     (case po of
        Some p \<Rightarrow> p
      | None \<Rightarrow> page_new (PAGE_INITIAL_SIZE * 2 ^ i)
                         (PAGE_INITIAL_SIZE * 2 ^ i - PAGE_INITIAL_SIZE))"

fun slab_insert_from :: "nat \<Rightarrow> nat \<Rightarrow> 'a slab \<Rightarrow> 'a \<Rightarrow> (nat \<times> 'a slab) outcome" where
  "slab_insert_from 0 i s v = Panic ''out of slot''"
| "slab_insert_from (Suc n) i s v =
     bind_outcome (page_unchecked s i) (\<lambda>po.
       bind_outcome (page_alloc (page_or_new po i)) (\<lambda>(slot, p1).
         case slot of
           Some k \<Rightarrow>
             bind_outcome (page_set p1 k v) (\<lambda>p2.
               Ret (k + prev_len p2,
                    s\<lparr>pages := (pages s)[i := Some p2], w_page_id := i\<rparr>))
         | None \<Rightarrow> slab_insert_from n (Suc i) (s\<lparr>pages := (pages s)[i := Some p1]\<rparr>) v))"

definition slab_insert :: "'a slab \<Rightarrow> 'a \<Rightarrow> (nat \<times> 'a slab) outcome" where
  "slab_insert s v = slab_insert_from (NUM_PAGES - w_page_id s) (w_page_id s) s v"

text \<open>The last allocated page and its number (\<^verbatim>\<open>enumerate().rev().find_map\<close>).\<close>

fun last_page :: "'a page option list \<Rightarrow> (nat \<times> 'a page) option" where
  "last_page [] = None"
| "last_page (x # xs) =
     (case last_page xs of
        Some (i, p) \<Rightarrow> Some (Suc i, p)
      | None \<Rightarrow> map_option (\<lambda>p. (0, p)) x)"

definition slab_mark_remove :: "'a slab \<Rightarrow> 'a slab" where
  "slab_mark_remove s =
     (let g = generation s + 1; s1 = s\<lparr>generation := g\<rparr> in
      if g mod COMPACT_INTERVAL = 0 then
        (let s2 = s1\<lparr>w_page_id := 0\<rparr> in
         case last_page (pages s2) of
           Some (i, p) \<Rightarrow>
             (if page_is_empty p \<and> 0 < i then s2\<lparr>pages := (pages s2)[i := None]\<rparr> else s2)
         | None \<Rightarrow> s2)
      else s1)"

definition slab_remove :: "'a slab \<Rightarrow> nat \<Rightarrow> ('a option \<times> 'a slab) outcome" where
  "slab_remove s key =
     (let page_id = get_page_id key in
      bind_outcome (page_unchecked s page_id) (\<lambda>po.
        case po of
          None \<Rightarrow> Ret (None, s)
        | Some p \<Rightarrow>
            bind_outcome (usize_sub key (prev_len p)) (\<lambda>index.
              bind_outcome (page_remove p index) (\<lambda>(val, p1).
                Ret (val, slab_mark_remove (s\<lparr>pages := (pages s)[page_id := Some p1]\<rparr>))))))"

section \<open>References into the slab\<close>

text \<open>
  A \<^verbatim>\<open>Ref\<close> keeps exclusive access to its page and slot; the unchecked unwraps are undefined when
  the slot is not occupied.
\<close>

definition ref_page :: "'a slab \<Rightarrow> nat \<times> nat \<Rightarrow> 'a page outcome" where
  "ref_page s r =
     (case r of (page_id, index) \<Rightarrow>
        if page_id < length (pages s)
        then case pages s ! page_id of
               Some p \<Rightarrow> Ret p | None \<Rightarrow> Undefined ''dangling page''
        else Undefined ''dangling page'')"

definition ref_as_ref :: "'a slab \<Rightarrow> nat \<times> nat \<Rightarrow> 'a outcome" where
  "ref_as_ref s r =
     bind_outcome (ref_page s r) (\<lambda>p.
       bind_outcome (page_get p (snd r)) (\<lambda>xo.
         case xo of Some x \<Rightarrow> Ret x | None \<Rightarrow> Undefined ''unwrap_unchecked''))"

definition ref_as_mut :: "'a slab \<Rightarrow> nat \<times> nat \<Rightarrow> ('a \<Rightarrow> 'a) \<Rightarrow> 'a slab outcome" where
  "ref_as_mut s r f =
     bind_outcome (ref_page s r) (\<lambda>p.
       bind_outcome (page_get_mut p (snd r) f) (\<lambda>(xo, p1).
         case xo of
           Some x \<Rightarrow> Ret (s\<lparr>pages := (pages s)[fst r := Some p1]\<rparr>)
         | None \<Rightarrow> Undefined ''unwrap_unchecked''))"

definition ref_remove :: "'a slab \<Rightarrow> nat \<times> nat \<Rightarrow> ('a \<times> 'a slab) outcome" where
  "ref_remove s r =
     bind_outcome (ref_page s r) (\<lambda>p.
       bind_outcome (page_remove p (snd r)) (\<lambda>(xo, p1).
         case xo of
           Some x \<Rightarrow> Ret (x, slab_mark_remove (s\<lparr>pages := (pages s)[fst r := Some p1]\<rparr>))
         | None \<Rightarrow> Undefined ''unwrap_unchecked''))"

section \<open>Keys and pages\<close>

definition page_begin :: "nat \<Rightarrow> nat" where
  "page_begin i = 64 * 2 ^ i - 64"

lemma bit_width_0 [simp]: "bit_width 0 = 0"
  by (simp add: bit_width.simps)

lemma bit_width_bounds: "0 < n \<Longrightarrow> 2 ^ (bit_width n - 1) \<le> n \<and> n < 2 ^ bit_width n \<and> 0 < bit_width n"
proof (induction n rule: bit_width.induct)
  case (1 n)
  show ?case
  proof (cases "n div 2 = 0")
    case True
    with "1.prems" have "n = 1" by arith
    then show ?thesis by (simp add: bit_width.simps)
  next
    case False
    with "1.IH" "1.prems"
    have IH: "2 ^ (bit_width (n div 2) - 1) \<le> n div 2" "n div 2 < 2 ^ bit_width (n div 2)"
      "0 < bit_width (n div 2)"
      by auto
    then obtain b where b: "bit_width (n div 2) = Suc b"
      by (cases "bit_width (n div 2)") auto
    from "1.prems" have "bit_width n = Suc (Suc b)"
      by (subst bit_width.simps) (simp add: b)
    moreover from IH b have "2 ^ Suc b \<le> n" "n < 2 ^ Suc (Suc b)"
      by auto
    ultimately show ?thesis by simp
  qed
qed

lemma bit_width_unique: "2 ^ b \<le> n \<Longrightarrow> n < 2 ^ Suc b \<Longrightarrow> bit_width n = Suc b"
proof -
  assume lo: "2 ^ b \<le> n" and hi: "n < 2 ^ Suc b"
  then have "0 < n" by (metis gr0I not_le zero_less_numeral zero_less_power)
  then have bnd: "2 ^ (bit_width n - 1) \<le> n" "n < 2 ^ bit_width n" "0 < bit_width n"
    using bit_width_bounds by auto
  from lo bnd(2) have "(2::nat) ^ b < 2 ^ bit_width n" by (rule le_less_trans)
  then have "b < bit_width n" by (simp add: power_strict_increasing_iff)
  moreover from bnd(1) hi have "(2::nat) ^ (bit_width n - 1) < 2 ^ Suc b" by (rule le_less_trans)
  then have "bit_width n - 1 < Suc b" by (subst (asm) power_strict_increasing_iff) auto
  ultimately show ?thesis using bnd(3) by arith
qed

lemma bit_width_le: "n < 2 ^ b \<Longrightarrow> bit_width n \<le> b"
proof (cases "n = 0")
  case False
  assume "n < 2 ^ b"
  moreover have "2 ^ (bit_width n - 1) \<le> n" using False bit_width_bounds by blast
  ultimately have "(2::nat) ^ (bit_width n - 1) < 2 ^ b" by (rule le_less_trans [rotated])
  then have "bit_width n - 1 < b" by (subst (asm) power_strict_increasing_iff) auto
  then show ?thesis by arith
qed simp

lemma get_page_id_less: "get_page_id key < NUM_PAGES"
  by (simp add: get_page_id_def NUM_PAGES_def Let_def)

lemma get_page_id_eq:
  assumes "i < NUM_PAGES" and "page_begin i \<le> key" and "key < page_begin (Suc i)"
  shows "get_page_id key = i"
proof -
  have pow: "(2::nat) ^ i \<le> 2 ^ 25"
    using assms(1) by (intro power_increasing) (auto simp: NUM_PAGES_def)
  have lo: "64 * 2 ^ i \<le> key + 64" and hi: "key + 64 < 128 * 2 ^ i"
    using assms(2,3) by (auto simp: page_begin_def)
  then have small: "min (key + 64) usize_max = key + 64" using pow by simp
  have "bit_width ((key + 64) div 128) = i"
  proof (cases i)
    case 0
    with hi show ?thesis by simp
  next
    case (Suc j)
    with lo hi have "2 ^ j \<le> (key + 64) div 128" "(key + 64) div 128 < 2 ^ Suc j"
      by (auto simp: less_mult_imp_div_less)
    then show ?thesis using Suc by (simp add: bit_width_unique)
  qed
  with assms(1) small show ?thesis
    by (simp add: get_page_id_def leading_zeros_def NUM_PAGES_def PAGE_INITIAL_SIZE_def Let_def)
qed

lemma get_page_id_ge:
  assumes i: "Suc i < NUM_PAGES" and key: "page_begin (Suc i) \<le> key"
  shows "Suc i \<le> get_page_id key"
proof -
  define x where "x = min (key + 64) usize_max div 128"
  have "(2::nat) ^ i \<le> 2 ^ 24"
    using i by (intro power_increasing) (auto simp: NUM_PAGES_def)
  moreover have "128 * 2 ^ i \<le> key + 64" using key by (simp add: page_begin_def)
  ultimately have "2 ^ i * 128 \<le> min (key + 64) usize_max" by simp
  then have "2 ^ i \<le> x" unfolding x_def by (subst less_eq_div_iff_mult_less_eq) auto
  moreover have "x < 2 ^ bit_width x" using bit_width_bounds [of x] by (cases "x = 0") auto
  ultimately have "(2::nat) ^ i < 2 ^ bit_width x" by (rule le_less_trans)
  then have "i < bit_width x" by (simp add: power_strict_increasing_iff)
  with i show ?thesis
    by (simp add: get_page_id_def leading_zeros_def x_def PAGE_INITIAL_SIZE_def NUM_PAGES_def
        Let_def)
qed

lemma page_begin_get_page_id: "page_begin (get_page_id key) \<le> key"
proof -
  define x where "x = min (key + 64) usize_max div 128"
  have id: "get_page_id key \<le> bit_width x"
    by (auto simp: get_page_id_def leading_zeros_def x_def PAGE_INITIAL_SIZE_def Let_def
        intro: min.coboundedI1)
  show ?thesis
  proof (cases "bit_width x = 0")
    case True
    with id show ?thesis by (simp add: page_begin_def)
  next
    case False
    then have "0 < x" by (cases "x = 0") auto
    then have "2 ^ (bit_width x - 1) \<le> x" using bit_width_bounds by blast
    then have "2 * 2 ^ (bit_width x - 1) \<le> 2 * x" by simp
    then have "(2::nat) ^ bit_width x \<le> 2 * x"
      using False by (metis bot_nat_0.not_eq_extremum power_minus_mult mult.commute)
    moreover have "2 ^ get_page_id key \<le> (2::nat) ^ bit_width x"
      using id by (intro power_increasing) auto
    moreover have "128 * x \<le> key + 64"
      unfolding x_def by (metis min.cobounded1 mult.commute order_trans div_times_less_eq_dividend)
    ultimately have "64 * 2 ^ get_page_id key \<le> key + 64" by linarith
    then show ?thesis by (simp add: page_begin_def)
  qed
qed

section \<open>Pages: the free list and the contents\<close>

fun free_chain :: "'a entry option list \<Rightarrow> nat \<Rightarrow> nat list \<Rightarrow> nat \<Rightarrow> bool" where
  "free_chain sl a [] e \<longleftrightarrow> a = e"
| "free_chain sl a (k # ks) e \<longleftrightarrow>
     a = k \<and> k < length sl \<and>
     (case sl ! k of Some (Vacant n) \<Rightarrow> free_chain sl n ks e | _ \<Rightarrow> False)"

definition vacant_slots :: "'a page \<Rightarrow> nat set" where
  "vacant_slots p = {k. k < initialized p \<and> (\<exists>n. slots p ! k = Some (Vacant n))}"

definition page_inv :: "'a page \<Rightarrow> bool" where
  "page_inv p \<longleftrightarrow>
     initialized p \<le> length (slots p) \<and>
     (\<forall>k < initialized p. slots p ! k \<noteq> None) \<and>
     (\<exists>fl. free_chain (slots p) (next_slot p) fl (initialized p) \<and> distinct fl \<and>
           set fl = vacant_slots p \<and> used p + length fl = initialized p)"

definition page_map :: "'a page \<Rightarrow> nat \<rightharpoonup> 'a" where
  "page_map p k =
     (if k < initialized p
      then case slots p ! k of Some (Occupied x) \<Rightarrow> Some x | _ \<Rightarrow> None
      else None)"

lemma free_chain_update:
  "k \<notin> set ks \<Longrightarrow> free_chain (sl[k := v]) a ks e = free_chain sl a ks e"
  by (induction sl a ks e rule: free_chain.induct) (auto split: option.splits entry.splits)

lemma finite_vacant_slots [simp]: "finite (vacant_slots p)"
  by (simp add: vacant_slots_def)

lemma page_inv_slot:
  assumes "page_inv p" and "k < initialized p"
  obtains e where "slots p ! k = Some e" "slot_unchecked p k = Ret e"
  using assms by (auto simp: page_inv_def slot_unchecked_def)

lemma vacant_slots_iff:
  assumes "page_inv p"
  shows "vacant_slots p = {k. k < initialized p} - dom (page_map p)"
  using assms unfolding page_inv_def vacant_slots_def page_map_def
  by (auto split: option.splits entry.splits)

lemma dom_page_map: "dom (page_map p) \<subseteq> {k. k < initialized p}"
  by (auto simp: page_map_def split: if_splits)

lemma finite_dom_page_map [simp]: "finite (dom (page_map p))"
  by (rule finite_subset [OF dom_page_map]) simp

lemma page_inv_used: "page_inv p \<Longrightarrow> used p = card (dom (page_map p))"
proof -
  assume inv: "page_inv p"
  then obtain fl where fl: "distinct fl" "set fl = vacant_slots p"
      "used p + length fl = initialized p"
    by (auto simp: page_inv_def)
  have "length fl = card (vacant_slots p)"
    using fl(1,2) by (metis distinct_card)
  moreover have "card (vacant_slots p) = initialized p - card (dom (page_map p))"
    using inv dom_page_map [of p] by (simp add: vacant_slots_iff card_Diff_subset)
  moreover have "card (dom (page_map p)) \<le> initialized p"
    using card_mono [OF _ dom_page_map, of p] by simp
  ultimately show ?thesis using fl(3) by simp
qed

lemma page_inv_new [simp]: "page_inv (page_new n pl)"
  by (auto simp: page_inv_def page_new_def vacant_slots_def intro: exI [of _ "[]"])

lemma page_map_new [simp]: "page_map (page_new n pl) = Map.empty"
  by (rule ext) (simp add: page_map_def page_new_def)

lemma page_map_outside: "page_inv p \<Longrightarrow> length (slots p) \<le> k \<Longrightarrow> page_map p k = None"
  by (auto simp: page_inv_def page_map_def)

lemma page_alloc_full:
  assumes "page_inv p" and "page_is_full p"
  shows "page_alloc p = Ret (None, p)"
proof -
  from assms(1) obtain fl where fl: "free_chain (slots p) (next_slot p) fl (initialized p)"
      "used p + length fl = initialized p" "initialized p \<le> length (slots p)"
    by (auto simp: page_inv_def)
  with assms(2) have "length fl = 0" "initialized p = length (slots p)"
    by (auto simp: page_is_full_def simp del: length_0_conv)
  with fl(1) assms(2) show ?thesis by (simp add: page_alloc_def Let_def)
qed

text \<open>The fresh slot comes from the uninitialised part of the page: the free list is empty.\<close>

lemma page_alloc_fresh:
  assumes inv: "page_inv p" and nf: "\<not> page_is_full p" and empty: "vacant_slots p = {}"
  shows "page_alloc p = Ret (Some (initialized p), p\<lparr>initialized := initialized p + 1,
           next_slot := initialized p + 1, used := used p + 1\<rparr>)"
    and "initialized p < length (slots p)" and "next_slot p = initialized p"
    and "used p = initialized p"
proof -
  from inv obtain fl where fl: "free_chain (slots p) (next_slot p) fl (initialized p)"
      "set fl = vacant_slots p" "used p + length fl = initialized p"
      "initialized p \<le> length (slots p)"
    by (auto simp: page_inv_def)
  with empty have "fl = []" by auto
  with fl show "next_slot p = initialized p" "used p = initialized p" by auto
  with nf fl show "initialized p < length (slots p)"
    by (simp add: page_is_full_def)
  with \<open>next_slot p = initialized p\<close> \<open>used p = initialized p\<close> nf
  show "page_alloc p = Ret (Some (initialized p), p\<lparr>initialized := initialized p + 1,
           next_slot := initialized p + 1, used := used p + 1\<rparr>)"
    by (simp add: page_alloc_def Let_def)
qed

text \<open>Otherwise the head of the free list is popped.\<close>

lemma page_alloc_reuse:
  assumes inv: "page_inv p" and ne: "vacant_slots p \<noteq> {}"
  obtains k n ks where "page_alloc p = Ret (Some k, p\<lparr>next_slot := n, used := used p + 1\<rparr>)"
    "slots p ! k = Some (Vacant n)" "k < initialized p" "free_chain (slots p) n ks (initialized p)"
    "distinct (k # ks)" "set (k # ks) = vacant_slots p"
    "used p + length (k # ks) = initialized p"
proof -
  from inv obtain fl where fl: "free_chain (slots p) (next_slot p) fl (initialized p)"
      "distinct fl" "set fl = vacant_slots p" "used p + length fl = initialized p"
      "initialized p \<le> length (slots p)"
    by (auto simp: page_inv_def)
  with ne obtain k ks where kks: "fl = k # ks" by (cases fl) auto
  with fl(3) have k: "k < initialized p" by (auto simp: vacant_slots_def)
  from fl(1) kks have nx: "next_slot p = k" by simp
  from fl(1) kks obtain n where n: "slots p ! k = Some (Vacant n)"
      "free_chain (slots p) n ks (initialized p)"
    by (auto split: option.splits entry.splits)
  have nf: "\<not> page_is_full p" using fl(4,5) kks by (auto simp: page_is_full_def)
  have "page_alloc p = Ret (Some k, p\<lparr>next_slot := n, used := used p + 1\<rparr>)"
    using nf nx k n(1) fl(5) by (simp add: page_alloc_def Let_def slot_unchecked_def)
  then show thesis using that n k fl kks by blast
qed

lemma page_alloc_set:
  assumes inv: "page_inv p" and nf: "\<not> page_is_full p"
  obtains k p1 p2 where "page_alloc p = Ret (Some k, p1)" "page_set p1 k v = Ret p2"
    "page_inv p2" "page_map p k = None" "page_map p2 = (page_map p)(k \<mapsto> v)"
    "k < length (slots p)" "length (slots p2) = length (slots p)" "prev_len p2 = prev_len p"
proof (cases "vacant_slots p = {}")
  case True
  define k where "k = initialized p"
  define p1 where "p1 = p\<lparr>initialized := k + 1, next_slot := k + 1, used := used p + 1\<rparr>"
  define p2 where "p2 = p1\<lparr>slots := (slots p1)[k := Some (Occupied v)]\<rparr>"
  note fresh = page_alloc_fresh [OF inv nf True]
  have al: "page_alloc p = Ret (Some k, p1)" using fresh(1) by (simp add: p1_def k_def)
  have se: "page_set p1 k v = Ret p2"
    using fresh(2) by (simp add: page_set_def p1_def p2_def k_def)
  have vac: "vacant_slots p2 = {}"
    using True fresh(2)
    by (auto simp: vacant_slots_def p1_def p2_def k_def nth_list_update split: if_splits)
  have init: "\<forall>j < initialized p. slots p ! j \<noteq> None" using inv by (simp add: page_inv_def)
  have "page_inv p2"
    unfolding page_inv_def vac using fresh init
    by (auto simp: p1_def p2_def k_def nth_list_update less_Suc_eq intro: exI [of _ "[]"])
  moreover have "page_map p2 = (page_map p)(k \<mapsto> v)"
    using fresh by (auto simp: page_map_def p1_def p2_def k_def nth_list_update)
  moreover have "page_map p k = None" by (simp add: page_map_def k_def)
  ultimately show thesis
    using that [OF al se] fresh by (simp add: p1_def p2_def k_def)
next
  case False
  from page_alloc_reuse [OF inv False] obtain k n ks where r:
    "page_alloc p = Ret (Some k, p\<lparr>next_slot := n, used := used p + 1\<rparr>)"
    "slots p ! k = Some (Vacant n)" "k < initialized p" "free_chain (slots p) n ks (initialized p)"
    "distinct (k # ks)" "set (k # ks) = vacant_slots p"
    "used p + length (k # ks) = initialized p" .
  have len: "initialized p \<le> length (slots p)" and init: "\<forall>j < initialized p. slots p ! j \<noteq> None"
    using inv by (auto simp: page_inv_def)
  define p1 where "p1 = p\<lparr>next_slot := n, used := used p + 1\<rparr>"
  define p2 where "p2 = p1\<lparr>slots := (slots p)[k := Some (Occupied v)]\<rparr>"
  have se: "page_set p1 k v = Ret p2"
    using r(3) len by (simp add: page_set_def p1_def p2_def)
  have vac: "vacant_slots p2 = vacant_slots p - {k}"
    using r(3) len by (auto simp: vacant_slots_def p1_def p2_def nth_list_update split: if_splits)
  have "page_inv p2"
    unfolding page_inv_def vac
    using r len init
    by (auto simp: p1_def p2_def nth_list_update free_chain_update intro!: exI [of _ ks])
  moreover have "page_map p2 = (page_map p)(k \<mapsto> v)"
    using r(3) len by (auto simp: page_map_def p1_def p2_def nth_list_update)
  moreover have "page_map p k = None" using r(2) by (simp add: page_map_def)
  ultimately show thesis
    using that [OF _ se] r(1,3) len by (simp add: p1_def p2_def)
qed

lemma page_get_entry_map:
  assumes "page_inv p"
  shows "page_get_entry p i = Ret (if i < initialized p then slots p ! i else None)"
proof (cases "i < initialized p")
  case True
  with assms obtain e where "slots p ! i = Some e" "slot_unchecked p i = Ret e"
    by (rule page_inv_slot)
  with True show ?thesis by (simp add: page_get_entry_def)
qed (simp add: page_get_entry_def)

lemma page_get_map: "page_inv p \<Longrightarrow> page_get p i = Ret (page_map p i)"
proof (cases "i < initialized p")
  case True
  assume "page_inv p"
  with True obtain e where "slots p ! i = Some e" "slot_unchecked p i = Ret e"
    by (auto elim: page_inv_slot)
  with True show ?thesis by (cases e) (auto simp: page_get_def page_map_def)
qed (simp add: page_get_def page_map_def)

lemma page_remove_None:
  assumes "page_inv p" and "page_map p i = None"
  shows "page_remove p i = Ret (None, p)"
proof (cases "i < initialized p")
  case True
  with assms(1) obtain e where e: "slots p ! i = Some e" "slot_unchecked p i = Ret e"
    by (rule page_inv_slot)
  with assms(2) True have "is_vacant e" by (cases e) (auto simp: page_map_def)
  with e True show ?thesis by (simp add: page_remove_def)
qed (simp add: page_remove_def)

lemma page_remove_Some:
  assumes inv: "page_inv p" and x: "page_map p i = Some x"
  obtains p1 where "page_remove p i = Ret (Some x, p1)" "page_inv p1"
    "page_map p1 = (page_map p)(i := None)" "length (slots p1) = length (slots p)"
    "prev_len p1 = prev_len p"
proof -
  from x have i: "i < initialized p" and occ: "slots p ! i = Some (Occupied x)"
    by (auto simp: page_map_def split: if_splits option.splits entry.splits)
  from inv obtain fl where fl: "free_chain (slots p) (next_slot p) fl (initialized p)"
      "distinct fl" "set fl = vacant_slots p" "used p + length fl = initialized p"
    and len: "initialized p \<le> length (slots p)" and init: "\<forall>j < initialized p. slots p ! j \<noteq> None"
    by (auto simp: page_inv_def)
  have nin: "i \<notin> set fl" using occ fl(3) by (auto simp: vacant_slots_def)
  have "i \<in> dom (page_map p)" using x by auto
  then have used: "0 < used p"
    using page_inv_used [OF inv] by (metis card_gt_0_iff empty_iff finite_dom_page_map)
  define p1 where "p1 = p\<lparr>slots := (slots p)[i := Some (Vacant (next_slot p))], next_slot := i,
                          used := used p - 1\<rparr>"
  have rm: "page_remove p i = Ret (Some x, p1)"
    using i occ len used by (simp add: page_remove_def slot_unchecked_def p1_def)
  have vac: "vacant_slots p1 = insert i (vacant_slots p)"
    using i len by (auto simp: vacant_slots_def p1_def nth_list_update split: if_splits)
  have "page_inv p1"
    unfolding page_inv_def vac using fl len init i nin used
    by (auto simp: p1_def nth_list_update free_chain_update intro!: exI [of _ "i # fl"])
  moreover have "page_map p1 = (page_map p)(i := None)"
    using i len by (auto simp: page_map_def p1_def nth_list_update)
  ultimately show thesis using that [OF rm] by (simp add: p1_def)
qed

lemma page_map_entry:
  assumes "page_inv p" and "k < initialized p"
  shows "page_map p k = entry_as_ref (the (slots p ! k))"
proof -
  obtain e where "slots p ! k = Some e" using assms by (auto simp: page_inv_def)
  then show ?thesis using assms(2) by (cases e) (simp_all add: page_map_def)
qed

lemma page_drop_contents:
  assumes inv: "page_inv p"
  shows "page_drop p = Ret (List.map_filter (page_map p) [0..<initialized p])"
proof (cases "page_is_empty p")
  case True
  then have "page_map p = Map.empty"
    using page_inv_used [OF inv] by (simp add: page_is_empty_def)
  then have "List.map_filter (page_map p) [0..<initialized p] = []"
    by (simp add: List.map_filter_def)
  with True show ?thesis by (simp add: page_drop_def)
next
  case False
  have len: "initialized p \<le> length (slots p)" and init: "\<forall>j < initialized p. slots p ! j \<noteq> None"
    using inv by (auto simp: page_inv_def)
  have tk: "take (initialized p) (slots p) = map ((!) (slots p)) [0..<initialized p]"
    using len by (simp add: list_eq_iff_nth_eq)
  have "None \<notin> set (take (initialized p) (slots p))" unfolding tk using init by auto
  moreover have "List.map_filter (\<lambda>e. entry_as_ref (the e)) (take (initialized p) (slots p))
      = List.map_filter (page_map p) [0..<initialized p]"
    unfolding tk List.map_filter_def using page_map_entry [OF inv]
    by (auto simp: filter_map comp_def intro!: map_cong filter_cong)
  ultimately show ?thesis using False len by (simp add: page_drop_def)
qed

section \<open>The slab invariant and its contents\<close>

definition slab_inv :: "'a slab \<Rightarrow> bool" where
  "slab_inv s \<longleftrightarrow>
     length (pages s) = NUM_PAGES \<and> w_page_id s < NUM_PAGES \<and>
     (\<forall>i p. i < NUM_PAGES \<longrightarrow> pages s ! i = Some p \<longrightarrow>
        page_inv p \<and> length (slots p) = 64 * 2 ^ i \<and> prev_len p = page_begin i)"

definition slab_map :: "'a slab \<Rightarrow> nat \<rightharpoonup> 'a" where
  "slab_map s key =
     (case pages s ! get_page_id key of
        None \<Rightarrow> None
      | Some p \<Rightarrow> page_map p (key - prev_len p))"

definition page_full_at :: "'a slab \<Rightarrow> nat \<Rightarrow> bool" where
  "page_full_at s i \<longleftrightarrow> (case pages s ! i of None \<Rightarrow> False | Some p \<Rightarrow> page_is_full p)"

lemma slab_inv_page:
  assumes "slab_inv s" and "i < NUM_PAGES" and "pages s ! i = Some p"
  shows "page_inv p" "length (slots p) = 64 * 2 ^ i" "prev_len p = page_begin i"
  using assms by (auto simp: slab_inv_def)

lemma page_unchecked_inv [simp]:
  "slab_inv s \<Longrightarrow> i < NUM_PAGES \<Longrightarrow> page_unchecked s i = Ret (pages s ! i)"
  by (simp add: page_unchecked_def slab_inv_def)

lemma page_begin_Suc: "page_begin (Suc i) = page_begin i + 64 * 2 ^ i"
proof -
  have "(1::nat) \<le> 2 ^ i" by simp
  then have "64 \<le> (64::nat) * 2 ^ i" by simp
  then show ?thesis by (simp add: page_begin_def)
qed

lemma get_page_id_slot:
  "i < NUM_PAGES \<Longrightarrow> k < 64 * 2 ^ i \<Longrightarrow> get_page_id (k + page_begin i) = i"
  by (rule get_page_id_eq) (auto simp: page_begin_Suc)

lemma slab_inv_update:
  assumes "slab_inv s" and "i < NUM_PAGES" and "page_inv p" and "length (slots p) = 64 * 2 ^ i"
    and "prev_len p = page_begin i"
  shows "slab_inv (s\<lparr>pages := (pages s)[i := Some p]\<rparr>)"
  using assms by (auto simp: slab_inv_def nth_list_update split: if_splits)

text \<open>Writing a page whose contents differ at one slot changes the contents at one key.\<close>

lemma slab_map_update:
  assumes inv: "slab_inv s" and i: "i < NUM_PAGES" and k: "k < 64 * 2 ^ i"
    and map: "page_map p' = (case pages s ! i of None \<Rightarrow> Map.empty | Some p \<Rightarrow> page_map p)(k := v)"
    and prev: "prev_len p' = page_begin i"
  shows "slab_map (s\<lparr>pages := (pages s)[i := Some p']\<rparr>) = (slab_map s)(k + page_begin i := v)"
proof
  fix key
  have len: "length (pages s) = NUM_PAGES" using inv by (simp add: slab_inv_def)
  show "slab_map (s\<lparr>pages := (pages s)[i := Some p']\<rparr>) key
      = ((slab_map s)(k + page_begin i := v)) key"
  proof (cases "get_page_id key = i")
    case True
    then have ge: "page_begin i \<le> key" using page_begin_get_page_id [of key] by simp
    then have "key - page_begin i = k \<longleftrightarrow> key = k + page_begin i" by auto
    moreover have "slab_map s key
        = (case pages s ! i of None \<Rightarrow> None | Some p \<Rightarrow> page_map p (key - page_begin i))"
      using True slab_inv_page(3) [OF inv i] by (auto simp: slab_map_def split: option.split)
    ultimately show ?thesis
      using True i len map prev by (auto simp: slab_map_def split: option.splits)
  next
    case False
    then have "key \<noteq> k + page_begin i" using get_page_id_slot [OF i k] by auto
    then show ?thesis using False by (simp add: slab_map_def)
  qed
qed

lemma slab_inv_new [simp]: "slab_inv slab_new"
  by (simp add: slab_inv_def slab_new_def NUM_PAGES_def)

lemma slab_map_new [simp]: "slab_map slab_new = Map.empty"
  using get_page_id_less by (auto simp: slab_map_def slab_new_def)

section \<open>Lookup and insertion\<close>

lemma slab_get_correct:
  assumes inv: "slab_inv s"
  shows "slab_get s key = Ret (case slab_map s key of
           None \<Rightarrow> None | Some x \<Rightarrow> Some (get_page_id key, key - page_begin (get_page_id key)))"
proof (cases "pages s ! get_page_id key")
  case None
  with inv get_page_id_less show ?thesis by (simp add: slab_get_def slab_map_def)
next
  case (Some p)
  note p = slab_inv_page [OF inv get_page_id_less Some]
  have le: "prev_len p \<le> key" using p(3) page_begin_get_page_id by simp
  show ?thesis
    using inv get_page_id_less [of key] Some p le page_get_entry_map [OF p(1)]
    by (auto simp: slab_get_def slab_map_def page_map_def Let_def split: option.split entry.split)
qed

lemma page_or_new_inv:
  assumes "slab_inv s" and "i < NUM_PAGES"
  shows "page_inv (page_or_new (pages s ! i) i)"
    and "length (slots (page_or_new (pages s ! i) i)) = 64 * 2 ^ i"
    and "prev_len (page_or_new (pages s ! i) i) = page_begin i"
    and "page_map (page_or_new (pages s ! i) i)
           = (case pages s ! i of None \<Rightarrow> Map.empty | Some p \<Rightarrow> page_map p)"
  using slab_inv_page [OF assms]
  by (simp_all add: page_or_new_def split: option.split)
    (simp_all add: page_new_def PAGE_INITIAL_SIZE_def page_begin_def)

lemma page_or_new_full:
  "page_is_full (page_or_new (pages s ! i) i) \<longleftrightarrow> page_full_at s i"
  by (auto simp: page_or_new_def page_full_at_def page_is_full_def page_new_def
      PAGE_INITIAL_SIZE_def split: option.split)

lemma slab_insert_from_skip:
  assumes inv: "slab_inv s" and i: "i < NUM_PAGES" and full: "page_full_at s i"
  shows "slab_insert_from (Suc n) i s v = slab_insert_from n (Suc i) s v"
proof -
  define p where "p = page_or_new (pages s ! i) i"
  have al: "page_alloc p = Ret (None, p)"
    using page_alloc_full page_or_new_inv(1) [OF inv i] page_or_new_full [of s i] full
    by (simp add: p_def)
  have "pages s ! i = Some p"
    using full by (auto simp: page_full_at_def p_def page_or_new_def split: option.splits)
  then have "(pages s)[i := Some p] = pages s" by (metis list_update_id)
  then show ?thesis using inv i al by (simp add: p_def)
qed

lemma slab_insert_from_here:
  assumes inv: "slab_inv s" and i: "i < NUM_PAGES" and nf: "\<not> page_full_at s i"
  shows "\<exists>k s'. slab_insert_from (Suc n) i s v = Ret (k, s') \<and> slab_inv s' \<and>
           slab_map s k = None \<and> slab_map s' = (slab_map s)(k \<mapsto> v)"
proof -
  define p where "p = page_or_new (pages s ! i) i"
  note p = page_or_new_inv [OF inv i, folded p_def]
  have "\<not> page_is_full p" using nf page_or_new_full [of s i] by (simp add: p_def)
  from page_alloc_set [OF p(1) this, where v = v] obtain k p1 p2 where a:
    "page_alloc p = Ret (Some k, p1)" "page_set p1 k v = Ret p2"
    "page_inv p2" "page_map p k = None" "page_map p2 = (page_map p)(k \<mapsto> v)"
    "k < length (slots p)" "length (slots p2) = length (slots p)" "prev_len p2 = prev_len p" .
  define s1 where "s1 = s\<lparr>pages := (pages s)[i := Some p2]\<rparr>"
  have k: "k < 64 * 2 ^ i" using a(6) p(2) by simp
  have ins: "slab_insert_from (Suc n) i s v = Ret (k + page_begin i, s1\<lparr>w_page_id := i\<rparr>)"
    using inv i a p by (simp add: p_def [symmetric] s1_def)
  have "slab_inv s1"
    unfolding s1_def using slab_inv_update [OF inv i a(3)] a(7,8) p by simp
  then have inv': "slab_inv (s1\<lparr>w_page_id := i\<rparr>)" using i by (simp add: slab_inv_def)
  have fresh: "slab_map s (k + page_begin i) = None"
    using get_page_id_slot [OF i k] a(4) p(3,4) slab_inv_page(3) [OF inv i]
    by (simp add: slab_map_def split: option.splits)
  have "slab_map s1 = (slab_map s)(k + page_begin i \<mapsto> v)"
    unfolding s1_def using a p by (intro slab_map_update [OF inv i k]) auto
  then have "slab_map (s1\<lparr>w_page_id := i\<rparr>) = (slab_map s)(k + page_begin i \<mapsto> v)"
    by (simp add: slab_map_def fun_eq_iff)
  with ins inv' fresh show ?thesis by blast
qed

lemma slab_insert_from_correct:
  assumes "slab_inv s" and "i + n = NUM_PAGES"
  shows "if \<exists>j. i \<le> j \<and> j < NUM_PAGES \<and> \<not> page_full_at s j
         then \<exists>k s'. slab_insert_from n i s v = Ret (k, s') \<and> slab_inv s' \<and>
                slab_map s k = None \<and> slab_map s' = (slab_map s)(k \<mapsto> v)
         else slab_insert_from n i s v = Panic ''out of slot''"
  using assms
proof (induction n arbitrary: i)
  case 0
  then show ?case by auto
next
  case (Suc n)
  then have i: "i < NUM_PAGES" by simp
  show ?case
  proof (cases "page_full_at s i")
    case True
    then have "(\<exists>j. i \<le> j \<and> j < NUM_PAGES \<and> \<not> page_full_at s j) \<longleftrightarrow>
          (\<exists>j. Suc i \<le> j \<and> j < NUM_PAGES \<and> \<not> page_full_at s j)"
      by (metis Suc_leD le_antisym not_less_eq_eq)
    with Suc.IH [OF Suc.prems(1), of "Suc i"] Suc.prems(2) True show ?thesis
      unfolding slab_insert_from_skip [OF Suc.prems(1) i True] by simp
  next
    case False
    then have "\<exists>j. i \<le> j \<and> j < NUM_PAGES \<and> \<not> page_full_at s j" using i by blast
    with slab_insert_from_here [OF Suc.prems(1) i False] show ?thesis by presburger
  qed
qed

section \<open>Removal and compaction\<close>

lemma last_page_Some:
  "last_page ps = Some (i, p) \<Longrightarrow> i < length ps \<and> ps ! i = Some p"
  by (induction ps arbitrary: i) (auto split: option.splits)

lemma slab_inv_drop_page:
  "slab_inv s \<Longrightarrow> slab_inv (s\<lparr>pages := (pages s)[i := None]\<rparr>)"
  unfolding slab_inv_def by (auto simp: nth_list_update split: if_splits)
    (metis list_update_beyond not_le nth_list_update option.distinct(1))+

lemma slab_map_drop_empty_page:
  assumes "slab_inv s" and "i < NUM_PAGES" and "pages s ! i = Some p" and "page_is_empty p"
  shows "slab_map (s\<lparr>pages := (pages s)[i := None]\<rparr>) = slab_map s"
proof -
  have "used p = card (dom (page_map p))"
    using slab_inv_page(1) [OF assms(1-3)] by (rule page_inv_used)
  with assms(4) have "page_map p = Map.empty"
    by (simp add: page_is_empty_def)
  with assms(1-3) show ?thesis
    by (auto simp: slab_map_def slab_inv_def fun_eq_iff nth_list_update)
qed

lemma slab_map_congs [simp]:
  "slab_map (s\<lparr>generation := g\<rparr>) = slab_map s"
  "slab_map (s\<lparr>w_page_id := w\<rparr>) = slab_map s"
  by (simp_all add: slab_map_def fun_eq_iff)

lemma slab_inv_congs [simp]:
  "slab_inv (s\<lparr>generation := g\<rparr>) = slab_inv s"
  "slab_inv s \<Longrightarrow> slab_inv (s\<lparr>w_page_id := 0\<rparr>)"
  by (simp_all add: slab_inv_def NUM_PAGES_def)

lemma slab_mark_remove_correct:
  assumes inv: "slab_inv s"
  shows "slab_inv (slab_mark_remove s) \<and> slab_map (slab_mark_remove s) = slab_map s"
proof -
  define s2 where "s2 = s\<lparr>generation := generation s + 1, w_page_id := 0\<rparr>"
  have inv2: "slab_inv s2" and map2: "slab_map s2 = slab_map s" and pg: "pages s2 = pages s"
    using inv by (simp_all add: s2_def)
  have drop: "slab_inv (s2\<lparr>pages := (pages s2)[i := None]\<rparr>) \<and>
      slab_map (s2\<lparr>pages := (pages s2)[i := None]\<rparr>) = slab_map s"
    if "last_page (pages s2) = Some (i, p)" "page_is_empty p" for i p
  proof -
    have "i < NUM_PAGES" "pages s2 ! i = Some p"
      using last_page_Some [OF that(1)] inv2 by (auto simp: slab_inv_def)
    then show ?thesis
      using slab_inv_drop_page [OF inv2] slab_map_drop_empty_page [OF inv2 _ _ that(2)] map2
      by simp
  qed
  show ?thesis
    using inv inv2 map2 drop
    by (auto simp: slab_mark_remove_def Let_def s2_def split: option.splits)
qed

text \<open>Removing through a page: the contents lose one key, whether or not it was there.\<close>

lemma page_remove_correct:
  assumes inv: "page_inv p"
  shows "\<exists>p1. page_remove p i = Ret (page_map p i, p1) \<and> page_inv p1 \<and>
           page_map p1 = (page_map p)(i := None) \<and> length (slots p1) = length (slots p) \<and>
           prev_len p1 = prev_len p"
proof (cases "page_map p i")
  case None
  with page_remove_None [OF inv None] inv show ?thesis by (auto simp: fun_upd_idem)
next
  case (Some x)
  from page_remove_Some [OF inv Some] show ?thesis unfolding Some by metis
qed

lemma slab_page_remove:
  assumes inv: "slab_inv s" and i: "i < NUM_PAGES" and p: "pages s ! i = Some p"
  shows "\<exists>p1. page_remove p k = Ret (page_map p k, p1) \<and>
           slab_inv (s\<lparr>pages := (pages s)[i := Some p1]\<rparr>) \<and>
           (get_page_id (k + page_begin i) = i \<longrightarrow>
            slab_map (s\<lparr>pages := (pages s)[i := Some p1]\<rparr>) = (slab_map s)(k + page_begin i := None))"
proof -
  note pi = slab_inv_page [OF inv i p]
  from page_remove_correct [OF pi(1), of k] obtain p1 where rm:
    "page_remove p k = Ret (page_map p k, p1)" "page_inv p1"
    "page_map p1 = (page_map p)(k := None)" "length (slots p1) = length (slots p)"
    "prev_len p1 = prev_len p"
    by blast
  have inv1: "slab_inv (s\<lparr>pages := (pages s)[i := Some p1]\<rparr>)"
    using slab_inv_update [OF inv i rm(2)] rm(4,5) pi by simp
  have map1: "slab_map (s\<lparr>pages := (pages s)[i := Some p1]\<rparr>) = (slab_map s)(k + page_begin i := None)"
    if id: "get_page_id (k + page_begin i) = i"
  proof (cases "k < 64 * 2 ^ i")
    case True
    with rm pi p show ?thesis by (intro slab_map_update [OF inv i]) auto
  next
    case False
    then have out: "page_map p k = None"
      by (intro page_map_outside [OF pi(1)]) (simp add: pi(2))
    with rm(1) page_remove_None [OF pi(1)] have "p1 = p" by simp
    with p have "(pages s)[i := Some p1] = pages s" by (metis list_update_id)
    then have "s\<lparr>pages := (pages s)[i := Some p1]\<rparr> = s" by simp
    moreover have "slab_map s (k + page_begin i) = None"
      using id p pi(3) out by (simp add: slab_map_def)
    ultimately show ?thesis by (simp add: fun_upd_idem)
  qed
  from rm(1) inv1 map1 show ?thesis by blast
qed

lemma slab_remove_correct:
  assumes inv: "slab_inv s"
  shows "\<exists>s'. slab_remove s key = Ret (slab_map s key, s') \<and> slab_inv s' \<and>
           slab_map s' = (slab_map s)(key := None)"
proof (cases "pages s ! get_page_id key")
  case None
  then have "slab_map s key = None" by (simp add: slab_map_def)
  with None inv get_page_id_less show ?thesis by (auto simp: slab_remove_def fun_upd_idem)
next
  case (Some p)
  define i where "i = get_page_id key"
  define k where "k = key - page_begin i"
  have i: "i < NUM_PAGES" using get_page_id_less by (simp add: i_def)
  note p = slab_inv_page [OF inv i Some [folded i_def]]
  have key: "key = k + page_begin i" and le: "page_begin i \<le> key"
    using page_begin_get_page_id [of key] by (auto simp: i_def k_def)
  have id: "get_page_id (k + page_begin i) = i" using key i_def by metis
  have look: "slab_map s key = page_map p k"
    using Some p(3) by (simp add: slab_map_def i_def k_def)
  from slab_page_remove [OF inv i Some [folded i_def], of k] obtain p1 where rm:
    "page_remove p k = Ret (page_map p k, p1)" "slab_inv (s\<lparr>pages := (pages s)[i := Some p1]\<rparr>)"
    "slab_map (s\<lparr>pages := (pages s)[i := Some p1]\<rparr>) = (slab_map s)(key := None)"
    using id by (auto simp: key [symmetric])
  have "slab_remove s key
      = Ret (slab_map s key, slab_mark_remove (s\<lparr>pages := (pages s)[i := Some p1]\<rparr>))"
    using inv i Some le rm(1) look p(3)
    by (simp add: slab_remove_def i_def [symmetric] k_def [symmetric])
  with slab_mark_remove_correct [OF rm(2)] rm(3) show ?thesis by auto
qed

section \<open>The number of entries\<close>

definition page_keys :: "'a slab \<Rightarrow> nat \<Rightarrow> nat set" where
  "page_keys s i = {key \<in> dom (slab_map s). get_page_id key = i}"

lemma page_keys_eq:
  assumes inv: "slab_inv s" and i: "i < NUM_PAGES"
  shows "page_keys s i = (case pages s ! i of None \<Rightarrow> {}
           | Some p \<Rightarrow> (\<lambda>k. k + page_begin i) ` dom (page_map p))"
proof (cases "pages s ! i")
  case None
  then show ?thesis by (auto simp: page_keys_def slab_map_def)
next
  case (Some p)
  note p = slab_inv_page [OF inv i Some]
  have "get_page_id (k + page_begin i) = i" if "k \<in> dom (page_map p)" for k
  proof (rule get_page_id_slot [OF i])
    from that p(1,2) show "k < 64 * 2 ^ i"
      using page_map_outside [of p k] by (cases "k < 64 * 2 ^ i") auto
  qed
  moreover have "key = (key - page_begin i) + page_begin i" if "get_page_id key = i" for key
    using that page_begin_get_page_id [of key] by simp
  ultimately have "key \<in> page_keys s i \<longleftrightarrow> key \<in> (\<lambda>k. k + page_begin i) ` dom (page_map p)" for key
    using Some p(3) by (force simp: page_keys_def slab_map_def)
  then show ?thesis using Some by auto
qed

lemma slab_len_sum:
  "slab_len s = (\<Sum>i < length (pages s). case pages s ! i of None \<Rightarrow> 0 | Some p \<Rightarrow> used p)"
proof -
  let ?u = "\<lambda>po. case po of None \<Rightarrow> 0 | Some p \<Rightarrow> used p"
  have fold: "fold (\<lambda>page acc. case page of Some p \<Rightarrow> acc + used p | None \<Rightarrow> acc) ps a
      = a + sum_list (map ?u ps)" for ps a
    by (induction ps arbitrary: a) (auto split: option.split)
  have "sum_list (map ?u (pages s)) = (\<Sum>i < length (pages s). ?u (pages s ! i))"
    by (simp add: sum_list_sum_nth atLeast0LessThan)
  then show ?thesis unfolding slab_len_def fold by simp
qed

lemma slab_len_card:
  assumes inv: "slab_inv s"
  shows "slab_len s = card (dom (slab_map s))"
proof -
  have len: "length (pages s) = NUM_PAGES" using inv by (simp add: slab_inv_def)
  have per: "finite (page_keys s i) \<and>
      card (page_keys s i) = (case pages s ! i of None \<Rightarrow> 0 | Some p \<Rightarrow> used p)"
    if i: "i < NUM_PAGES" for i
    using page_keys_eq [OF inv i] page_inv_used [OF slab_inv_page(1) [OF inv i]]
    by (auto split: option.split simp: card_image)
  have "dom (slab_map s) = (\<Union>i<NUM_PAGES. page_keys s i)"
    using get_page_id_less by (auto simp: page_keys_def)
  also have "card \<dots> = (\<Sum>i<NUM_PAGES. card (page_keys s i))"
    using per by (intro card_UN_disjoint) (auto simp: page_keys_def)
  also have "\<dots> = slab_len s"
    using per by (simp add: slab_len_sum len)
  finally show ?thesis by simp
qed

lemma finite_dom_slab_map: "slab_inv s \<Longrightarrow> finite (dom (slab_map s))"
proof -
  assume inv: "slab_inv s"
  have "finite (page_keys s i)" if i: "i < NUM_PAGES" for i
    using page_keys_eq [OF inv i] by (auto split: option.splits)
  moreover have "dom (slab_map s) = (\<Union>i<NUM_PAGES. page_keys s i)"
    using get_page_id_less by (auto simp: page_keys_def)
  ultimately show ?thesis by simp
qed

section \<open>References\<close>

lemma ref_page_get:
  assumes inv: "slab_inv s" and x: "slab_map s key = Some x"
  obtains p where "slab_get s key = Ret (Some (get_page_id key, key - page_begin (get_page_id key)))"
    "pages s ! get_page_id key = Some p"
    "\<forall>k. ref_page s (get_page_id key, k) = Ret p"
    "page_map p (key - page_begin (get_page_id key)) = Some x"
proof -
  from x obtain p where p: "pages s ! get_page_id key = Some p"
      "page_map p (key - prev_len p) = Some x"
    by (auto simp: slab_map_def split: option.splits)
  have "prev_len p = page_begin (get_page_id key)"
    by (rule slab_inv_page(3) [OF inv get_page_id_less p(1)])
  moreover have "ref_page s (get_page_id key, k) = Ret p" for k
    using inv get_page_id_less [of key] p(1) by (simp add: ref_page_def slab_inv_def)
  ultimately show thesis using that slab_get_correct [OF inv, of key] x p by simp
qed

lemma page_get_mut_Some:
  assumes inv: "page_inv p" and x: "page_map p k = Some x"
  shows "\<exists>p1. page_get_mut p k f = Ret (Some (f x), p1) \<and> page_inv p1 \<and>
           page_map p1 = (page_map p)(k \<mapsto> f x) \<and> length (slots p1) = length (slots p) \<and>
           prev_len p1 = prev_len p"
proof -
  from x have k: "k < initialized p" and occ: "slots p ! k = Some (Occupied x)"
    by (auto simp: page_map_def split: if_splits option.splits entry.splits)
  from inv obtain fl where fl: "free_chain (slots p) (next_slot p) fl (initialized p)"
      "distinct fl" "set fl = vacant_slots p" "used p + length fl = initialized p"
    and len: "initialized p \<le> length (slots p)" and init: "\<forall>j < initialized p. slots p ! j \<noteq> None"
    by (auto simp: page_inv_def)
  define p1 where "p1 = p\<lparr>slots := (slots p)[k := Some (Occupied (f x))]\<rparr>"
  have vac: "vacant_slots p1 = vacant_slots p"
    using k occ len by (auto simp: vacant_slots_def p1_def nth_list_update split: if_splits)
  have nin: "k \<notin> set fl" using occ fl(3) by (auto simp: vacant_slots_def)
  have "page_inv p1"
    unfolding page_inv_def vac using fl len init nin k
    by (auto simp: p1_def nth_list_update free_chain_update intro!: exI [of _ fl])
  moreover have "page_map p1 = (page_map p)(k \<mapsto> f x)"
    using k len by (auto simp: page_map_def p1_def nth_list_update)
  moreover have "page_get_mut p k f = Ret (Some (f x), p1)"
    using k occ len by (simp add: page_get_mut_def slot_unchecked_def p1_def)
  ultimately show ?thesis by (auto simp: p1_def)
qed

lemma slab_ref_as_ref:
  assumes "slab_inv s" and "slab_map s key = Some x"
  shows "\<exists>r. slab_get s key = Ret (Some r) \<and> ref_as_ref s r = Ret x"
proof -
  obtain p where p: "slab_get s key = Ret (Some (get_page_id key, key - page_begin (get_page_id key)))"
    "pages s ! get_page_id key = Some p" "\<forall>k. ref_page s (get_page_id key, k) = Ret p"
    "page_map p (key - page_begin (get_page_id key)) = Some x"
    using ref_page_get [OF assms] by blast
  with page_get_map [OF slab_inv_page(1) [OF assms(1) get_page_id_less p(2)]]
  show ?thesis by (simp add: ref_as_ref_def)
qed

lemma slab_ref_as_mut:
  assumes inv: "slab_inv s" and x: "slab_map s key = Some x"
  shows "\<exists>r s'. slab_get s key = Ret (Some r) \<and> ref_as_mut s r f = Ret s' \<and> slab_inv s' \<and>
           slab_map s' = (slab_map s)(key \<mapsto> f x)"
proof -
  define i k where "i = get_page_id key" and "k = key - page_begin i"
  have i: "i < NUM_PAGES" using get_page_id_less by (simp add: i_def)
  obtain p where p: "slab_get s key = Ret (Some (i, k))" "pages s ! i = Some p"
    "\<forall>k. ref_page s (i, k) = Ret p" "page_map p k = Some x"
    using ref_page_get [OF inv x] unfolding i_def k_def by blast
  note pi = slab_inv_page [OF inv i p(2)]
  from page_get_mut_Some [OF pi(1) p(4), of f] obtain p1 where p1:
    "page_get_mut p k f = Ret (Some (f x), p1)" "page_inv p1"
    "page_map p1 = (page_map p)(k \<mapsto> f x)" "length (slots p1) = length (slots p)"
    "prev_len p1 = prev_len p"
    by blast
  have key: "k + page_begin i = key" using page_begin_get_page_id [of key] by (simp add: i_def k_def)
  have k: "k < 64 * 2 ^ i"
    using page_map_outside [OF pi(1), of k] pi(2) p(4) by (cases "k < 64 * 2 ^ i") auto
  have "ref_as_mut s (i, k) f = Ret (s\<lparr>pages := (pages s)[i := Some p1]\<rparr>)"
    using p(3) p1(1) by (simp add: ref_as_mut_def)
  moreover have "slab_inv (s\<lparr>pages := (pages s)[i := Some p1]\<rparr>)"
    using slab_inv_update [OF inv i p1(2)] p1(4,5) pi by simp
  moreover have "slab_map (s\<lparr>pages := (pages s)[i := Some p1]\<rparr>) = (slab_map s)(key \<mapsto> f x)"
    unfolding key [symmetric] using p1 p(2) pi by (intro slab_map_update [OF inv i k]) auto
  ultimately show ?thesis using p(1) by blast
qed

lemma slab_ref_remove:
  assumes inv: "slab_inv s" and x: "slab_map s key = Some x"
  shows "\<exists>r s'. slab_get s key = Ret (Some r) \<and> ref_remove s r = Ret (x, s') \<and> slab_inv s' \<and>
           slab_map s' = (slab_map s)(key := None)"
proof -
  define i k where "i = get_page_id key" and "k = key - page_begin i"
  have i: "i < NUM_PAGES" using get_page_id_less by (simp add: i_def)
  obtain p where p: "slab_get s key = Ret (Some (i, k))" "pages s ! i = Some p"
    "\<forall>k. ref_page s (i, k) = Ret p" "page_map p k = Some x"
    using ref_page_get [OF inv x] unfolding i_def k_def by blast
  have key: "k + page_begin i = key" using page_begin_get_page_id [of key] by (simp add: i_def k_def)
  have id: "get_page_id (k + page_begin i) = i" unfolding key by (simp add: i_def)
  from slab_page_remove [OF inv i p(2), of k] id obtain p1 where p1:
    "page_remove p k = Ret (Some x, p1)" "slab_inv (s\<lparr>pages := (pages s)[i := Some p1]\<rparr>)"
    "slab_map (s\<lparr>pages := (pages s)[i := Some p1]\<rparr>) = (slab_map s)(key := None)"
    unfolding key p(4) by auto
  have "ref_remove s (i, k) = Ret (x, slab_mark_remove (s\<lparr>pages := (pages s)[i := Some p1]\<rparr>))"
    using p(3) p1(1) by (simp add: ref_remove_def)
  with slab_mark_remove_correct [OF p1(2)] p1(3) p(1) show ?thesis by auto
qed

section \<open>The slab as a keyed store\<close>

lemma slab_insert_ret_or_full:
  assumes inv: "slab_inv s"
  shows "if \<exists>j. w_page_id s \<le> j \<and> j < NUM_PAGES \<and> \<not> page_full_at s j
         then \<exists>k s'. slab_insert s v = Ret (k, s') \<and> slab_inv s' \<and>
                slab_map s k = None \<and> slab_map s' = (slab_map s)(k \<mapsto> v)
         else slab_insert s v = Panic ''out of slot''"
proof -
  have "w_page_id s + (NUM_PAGES - w_page_id s) = NUM_PAGES"
    using inv by (simp add: slab_inv_def)
  from slab_insert_from_correct [OF inv this] show ?thesis by (simp add: slab_insert_def)
qed

lemma slab_insert_cases:
  assumes "slab_inv s"
  obtains (room) k s' where "slab_insert s v = Ret (k, s')" "slab_inv s'" "slab_map s k = None"
    "slab_map s' = (slab_map s)(k \<mapsto> v)"
  | (full) "slab_insert s v = Panic ''out of slot''"
  using slab_insert_ret_or_full [OF assms, of v] by (auto split: if_splits)

interpretation slab: keyed_store slab_inv slab_map slab_insert slab_get ref_as_ref ref_as_mut
  ref_remove
proof unfold_locales
  fix s :: "'a slab" and v k s'
  assume inv: "slab_inv s"
  show "\<not> is_undefined (slab_insert s v)" using inv by (cases rule: slab_insert_cases [where v = v]) auto
  show "slab_inv s' \<and> slab_map s k = None \<and> slab_map s' = (slab_map s)(k \<mapsto> v)"
    if "slab_insert s v = Ret (k, s')"
    using inv that by (cases rule: slab_insert_cases [where v = v]) auto
next
  fix s :: "'a slab" and k
  assume "slab_inv s" "slab_map s k = None"
  then show "slab_get s k = Ret None" by (simp add: slab_get_correct)
next
  fix s :: "'a slab" and k x
  assume "slab_inv s" "slab_map s k = Some x"
  then show "\<exists>r. slab_get s k = Ret (Some r)" by (simp add: slab_get_correct)
next
  fix s :: "'a slab" and k x r
  assume a: "slab_inv s" "slab_map s k = Some x" "slab_get s k = Ret (Some r)"
  show "ref_as_ref s r = Ret x" using slab_ref_as_ref [OF a(1,2)] a(3) by auto
  show "\<exists>s'. ref_remove s r = Ret (x, s') \<and> slab_inv s' \<and> slab_map s' = (slab_map s)(k := None)"
    using slab_ref_remove [OF a(1,2)] a(3) by auto
  show "\<exists>s'. ref_as_mut s r f = Ret s' \<and> slab_inv s' \<and> slab_map s' = (slab_map s)(k \<mapsto> f x)" for f
    using slab_ref_as_mut [OF a(1,2)] a(3) by auto
qed

section \<open>Reachable slabs\<close>

text \<open>
  The slabs a client can build: from an empty one by insertions, removals, updates through a
  reference and removals through a reference.
\<close>

inductive slab_reachable :: "'a slab \<Rightarrow> bool" where
  new: "slab_reachable slab_new"
| insert: "slab_reachable s \<Longrightarrow> slab_insert s v = Ret (k, s') \<Longrightarrow> slab_reachable s'"
| remove: "slab_reachable s \<Longrightarrow> slab_remove s k = Ret (x, s') \<Longrightarrow> slab_reachable s'"
| update: "slab_reachable s \<Longrightarrow> slab_get s k = Ret (Some r) \<Longrightarrow> ref_as_mut s r f = Ret s' \<Longrightarrow>
    slab_reachable s'"
| take: "slab_reachable s \<Longrightarrow> slab_get s k = Ret (Some r) \<Longrightarrow> ref_remove s r = Ret (x, s') \<Longrightarrow>
    slab_reachable s'"

lemma slab_reachable_inv: "slab_reachable s \<Longrightarrow> slab_inv s"
proof (induction rule: slab_reachable.induct)
  case (insert s v k s')
  then show ?case using slab.ins_ret [OF insert.IH] by simp
next
  case (remove s k x s')
  then show ?case using slab_remove_correct [of s k] by auto
next
  case (update s k r f s')
  then obtain x where "slab_map s k = Some x" using slab.get_iff [of s k] by auto
  with update show ?case using slab.modify_ret [of s k x r f] by auto
next
  case (take s k r x s')
  then obtain y where "slab_map s k = Some y" using slab.get_iff [of s k] by auto
  with take show ?case using slab.rem_ret [of s k y r] by auto
qed simp

section \<open>Properties\<close>

text \<open>
  C1. On every slab a client can build, no operation reads uninitialised memory, follows a dangling
  index, unwraps a vacant slot or underflows a subtraction: lookup and removal return, a reference
  that lookup hands out can be read, updated and removed, and insertion either returns or reports
  that no slot is left.
\<close>

theorem slab_operations_safe:
  assumes "slab_reachable s"
  shows "(\<exists>ro. slab_get s key = Ret ro \<and>
            (\<forall>r. ro = Some r \<longrightarrow> (\<exists>x. ref_as_ref s r = Ret x) \<and> (\<exists>s'. ref_as_mut s r f = Ret s') \<and>
                   (\<exists>x s'. ref_remove s r = Ret (x, s')))) \<and>
         (\<exists>x s'. slab_remove s key = Ret (x, s')) \<and>
         (slab_insert s v = Panic ''out of slot'' \<or> (\<exists>k s'. slab_insert s v = Ret (k, s')))"
proof -
  have inv: "slab_inv s" using assms by (rule slab_reachable_inv)
  obtain ro where ro: "slab_get s key = Ret ro" "ro = None \<longleftrightarrow> slab_map s key = None"
    using slab.get_never_fails [OF inv] by blast
  have "(\<exists>x. ref_as_ref s r = Ret x) \<and> (\<exists>s'. ref_as_mut s r f = Ret s') \<and>
      (\<exists>x s'. ref_remove s r = Ret (x, s'))" if "ro = Some r" for r
  proof -
    from ro that obtain x where "slab_map s key = Some x" by auto
    with ro that show ?thesis
      using slab.deref_ret slab.modify_ret slab.rem_ret inv by metis
  qed
  moreover have "\<exists>x s'. slab_remove s key = Ret (x, s')" using slab_remove_correct [OF inv] by blast
  moreover have "slab_insert s v = Panic ''out of slot'' \<or> (\<exists>k s'. slab_insert s v = Ret (k, s'))"
    using inv by (cases rule: slab_insert_cases [where v = v]) auto
  ultimately show ?thesis using ro(1) by blast
qed

text \<open>The slab after the first insertion; with the value 7, a concrete slab for the witnesses.\<close>

definition first_slab :: "'a \<Rightarrow> 'a slab" where
  "first_slab v =
     \<lparr>pages = Some \<lparr>slots = Some (Occupied v) # replicate 63 None, used = 1, initialized = 1,
                      next_slot = 1, prev_len = 0\<rparr> # replicate 25 None,
      w_page_id = 0, generation = 0\<rparr>"

lemma slab_insert_first: "slab_insert slab_new v = Ret (0, first_slab v)"
  by (simp add: slab_insert_def slab_new_def NUM_PAGES_def PAGE_INITIAL_SIZE_def page_or_new_def
      page_new_def page_alloc_def page_set_def page_is_full_def page_unchecked_def first_slab_def
      numeral_eq_Suc Let_def)

definition example_slab :: "nat slab" where
  "example_slab = first_slab 7"

lemma example_slab_insert: "slab_insert slab_new 7 = Ret (0, example_slab)"
  by (simp add: slab_insert_first example_slab_def)

lemma example_slab_reachable: "slab_reachable example_slab"
  by (rule slab_reachable.insert [OF slab_reachable.new example_slab_insert])

lemma example_slab_map: "slab_map example_slab 0 = Some 7"
  by (simp add: slab_map_def example_slab_def first_slab_def page_map_def get_page_id_eq [of 0 0] NUM_PAGES_def
      page_begin_def)

theorem slab_operations_safe_witness:
  "slab_get example_slab 0 = Ret (Some (0, 0)) \<and> (\<exists>x. ref_as_ref example_slab (0, 0) = Ret x)"
proof -
  have "slab_get example_slab 0 = Ret (Some (0, 0))"
    using slab_get_correct [OF slab_reachable_inv [OF example_slab_reachable], of 0]
    by (simp add: example_slab_map get_page_id_eq [of 0 0] NUM_PAGES_def page_begin_def)
  with slab_operations_safe [OF example_slab_reachable, of 0] show ?thesis by auto
qed

text \<open>
  C2. Insertion refines a map update at a fresh key: while a page from the write page on has room,
  the value is stored under a key that held nothing, lookup finds it there, every other key keeps
  its value and the number of entries grows by one.
\<close>

theorem slab_insert_refines:
  assumes "slab_reachable s" and "w_page_id s \<le> j" and "j < NUM_PAGES" and "\<not> page_full_at s j"
  shows "\<exists>k s' r. slab_insert s v = Ret (k, s') \<and> slab_get s k = Ret None \<and>
           slab_get s' k = Ret (Some r) \<and> ref_as_ref s' r = Ret v \<and>
           slab_map s' = (slab_map s)(k \<mapsto> v) \<and> slab_len s' = slab_len s + 1"
proof -
  have inv: "slab_inv s" using assms(1) by (rule slab_reachable_inv)
  from slab_insert_ret_or_full [OF inv, of v] assms(2-4) obtain k s' where
    ins: "slab_insert s v = Ret (k, s')" "slab_inv s'" "slab_map s k = None"
      "slab_map s' = (slab_map s)(k \<mapsto> v)"
    by (auto split: if_splits)
  have "finite (dom (slab_map s))" by (rule finite_dom_slab_map [OF inv])
  then have "slab_len s' = slab_len s + 1"
    using ins inv by (simp add: slab_len_card domIff)
  moreover obtain r where "slab_get s' k = Ret (Some r)" "ref_as_ref s' r = Ret v"
    using slab.ins_then_deref [OF inv ins(1)] by blast
  ultimately show ?thesis using ins slab.ins_fresh [OF inv ins(1)] by blast
qed

theorem slab_insert_refines_witness:
  "w_page_id example_slab = 0 \<and> \<not> page_full_at example_slab 0 \<and>
   (\<exists>k s'. slab_insert example_slab 9 = Ret (k, s') \<and>
           slab_map s' = (slab_map example_slab)(k \<mapsto> 9))"
proof -
  have "w_page_id example_slab = 0" "0 < NUM_PAGES" "\<not> page_full_at example_slab 0"
    by (simp_all add: example_slab_def first_slab_def NUM_PAGES_def page_full_at_def page_is_full_def)
  with slab_insert_refines [OF example_slab_reachable, of 0 9] show ?thesis by auto
qed

text \<open>
  C3. Removal refines deleting a key of a map: it returns what the key held, forgets that key and
  no other, also when the removal triggers the compaction that frees an empty last page.
\<close>

theorem slab_remove_refines:
  assumes "slab_reachable s"
  shows "\<exists>s'. slab_remove s key = Ret (slab_map s key, s') \<and> slab_reachable s' \<and>
           slab_get s' key = Ret None \<and> slab_map s' = (slab_map s)(key := None) \<and>
           slab_len s' = card (dom (slab_map s) - {key})"
proof -
  have inv: "slab_inv s" using assms by (rule slab_reachable_inv)
  from slab_remove_correct [OF inv, of key] obtain s' where s': "slab_remove s key = Ret (slab_map s key, s')"
      "slab_inv s'" "slab_map s' = (slab_map s)(key := None)"
    by blast
  moreover have "slab_reachable s'" using slab_reachable.remove [OF assms s'(1)] .
  moreover have "slab_get s' key = Ret None" using slab.get_none [OF s'(2)] s'(3) by simp
  ultimately show ?thesis using slab_len_card [OF s'(2)] by auto
qed

theorem slab_remove_refines_witness:
  "\<exists>s'. slab_remove example_slab 0 = Ret (Some 7, s') \<and> slab_get s' 0 = Ret None"
  using slab_remove_refines [OF example_slab_reachable, of 0] by (auto simp: example_slab_map)

text \<open>
  The shift arithmetic of the page number is right: the keys of page \<open>i\<close> are exactly the
  interval of \<open>64 * 2 ^ i\<close> keys after those of the earlier pages, and no key lies before its page.
\<close>

lemma get_page_id_interval:
  "i < NUM_PAGES - 1 \<Longrightarrow> get_page_id key = i \<longleftrightarrow> 64 * 2 ^ i - 64 \<le> key \<and> key < 128 * 2 ^ i - 64"
proof -
  assume i: "i < NUM_PAGES - 1"
  have iff: "get_page_id key = i" if "page_begin i \<le> key" "key < page_begin (Suc i)"
    using get_page_id_eq [OF _ that] i by simp
  have "key < page_begin (Suc i)" if "get_page_id key = i"
  proof (rule ccontr)
    assume "\<not> key < page_begin (Suc i)"
    then have "page_begin (Suc i) \<le> key" by simp
    then have "Suc i \<le> get_page_id key" using i by (intro get_page_id_ge) auto
    with that show False by simp
  qed
  with iff page_begin_get_page_id [of key] show ?thesis by (auto simp: page_begin_def)
qed

end
