(* ===== verification/Uring.thy ===== *)
theory Uring
  imports Slab "HOL-Library.Multiset"
begin

text \<open>
  The io_uring driver (\<^verbatim>\<open>runtime/src/driver/uring\<close>, \<^verbatim>\<open>runtime/src/driver/op/mod.rs\<close>): the lifecycle of an
  operation in its slab slot, the submission and completion queues, and the operations of the
  driver and of an \<open>Op\<close>. The kernel and the \<^verbatim>\<open>io_uring\<close> crate are not part of the repository: every
  call that enters the kernel consumes one entry of a list of functions that say how many submissions the
  kernel takes, which completions it posts and what the call returns. What the driver relies on,
  one completion for each submission that was taken, is the named predicate \<open>event_ok\<close>. The theory
  shows that under this protocol none of the driver's \<^verbatim>\<open>unwrap_unchecked\<close> and \<^verbatim>\<open>unreachable_unchecked\<close>
  calls is undefined, that a completion reaches its operation, and that the data of a dropped
  operation is kept until the kernel is done with it.
\<close>

section \<open>Lifecycle\<close>

type_synonym io_result = "u32 + u32"

text \<open>\<open>Inl\<close> is the error number of a failed operation, \<open>Inr\<close> the value of a successful one.\<close>

datatype 'd lifecycle =
    Submitted
  | Waiting nat
  | Ignored "'d option"
  | Completed io_result u32

definition lifecycle_complete ::
    "'d lifecycle slab \<Rightarrow> nat \<times> nat \<Rightarrow> io_result \<Rightarrow> u32 \<Rightarrow> (nat list \<times> 'd lifecycle slab) outcome" where
  "lifecycle_complete s r result flags =
     bind_outcome (ref_as_ref s r) (\<lambda>l. case l of
         Submitted \<Rightarrow> bind_outcome (ref_as_mut s r (\<lambda>x. Completed result flags)) (\<lambda>s'. Ret ([], s'))
       | Waiting waker \<Rightarrow>
           bind_outcome (ref_as_mut s r (\<lambda>x. Completed result flags)) (\<lambda>s'. Ret ([waker], s'))
       | Ignored d \<Rightarrow> bind_outcome (ref_remove s r) (\<lambda>(x, s'). Ret ([], s'))
       | Completed a b \<Rightarrow> Undefined ''unreachable_unchecked'')"

text \<open>\<open>None\<close> is \<^verbatim>\<open>Poll::Pending\<close>.\<close>

definition lifecycle_poll_op ::
    "'d lifecycle slab \<Rightarrow> nat \<times> nat \<Rightarrow> nat \<Rightarrow>
     ((io_result \<times> u32) option \<times> 'd lifecycle slab) outcome" where
  "lifecycle_poll_op s r cx =
     bind_outcome (ref_as_ref s r) (\<lambda>l. case l of
         Submitted \<Rightarrow> bind_outcome (ref_as_mut s r (\<lambda>x. Waiting cx)) (\<lambda>s'. Ret (None, s'))
       | Waiting waker \<Rightarrow>
           (if waker \<noteq> cx
            then bind_outcome (ref_as_mut s r (\<lambda>x. Waiting cx)) (\<lambda>s'. Ret (None, s'))
            else Ret (None, s))
       | _ \<Rightarrow>
           bind_outcome (ref_remove s r) (\<lambda>(x, s'). case x of
               Completed result flags \<Rightarrow> Ret (Some (result, flags), s')
             | _ \<Rightarrow> Undefined ''unreachable_unchecked''))"

text \<open>Returns whether the operation must have finished, and what is left of the data.\<close>

definition lifecycle_drop_op ::
    "'d lifecycle slab \<Rightarrow> nat \<times> nat \<Rightarrow> 'd option \<Rightarrow>
     (bool \<times> 'd option \<times> 'd lifecycle slab) outcome" where
  "lifecycle_drop_op s r data =
     bind_outcome (ref_as_ref s r) (\<lambda>l. case l of
         Submitted \<Rightarrow>
           bind_outcome (ref_as_mut s r (\<lambda>x. Ignored data)) (\<lambda>s'. Ret (False, None, s'))
       | Waiting waker \<Rightarrow>
           bind_outcome (ref_as_mut s r (\<lambda>x. Ignored data)) (\<lambda>s'. Ret (False, None, s'))
       | Completed a b \<Rightarrow> bind_outcome (ref_remove s r) (\<lambda>(x, s'). Ret (True, data, s'))
       | Ignored d \<Rightarrow> Undefined ''unreachable_unchecked'')"

section \<open>The rings\<close>

definition MIN_REVERSED_USERDATA :: nat where
  "MIN_REVERSED_USERDATA = 2 ^ 64 - 1 - 2"

definition CANCEL_USERDATA :: nat where
  "CANCEL_USERDATA = 2 ^ 64 - 1"

definition DEFAULT_ENTRIES :: nat where
  "DEFAULT_ENTRIES = 1024"

text \<open>The minimum of the runtime builder's \<^verbatim>\<open>with_entries\<close>.\<close>

definition MIN_ENTRIES :: nat where
  "MIN_ENTRIES = 256"

definition with_entries :: "nat \<Rightarrow> nat option" where
  "with_entries entries = (if entries < MIN_ENTRIES then Some MIN_ENTRIES else Some entries)"

record cqe =
  user_data :: nat
  cqe_res :: u32
  cqe_flags :: u32

text \<open>
  \<open>sq\<close> holds the user data of the entries pushed and not yet taken by the kernel, \<open>inflight\<close> those the
  kernel has taken and not completed, \<open>cq\<close> the completions not yet seen by the driver.
\<close>

record 'd uring_inner =
  ops :: "'d lifecycle slab"
  sq :: "nat list"
  sq_capacity :: nat
  inflight :: "nat list"
  cq :: "cqe list"
  woken :: "nat list"

definition new_with_entries :: "nat \<Rightarrow> 'd uring_inner" where
  "new_with_entries entries =
     \<lparr>ops = slab_new, sq = [], sq_capacity = entries, inflight = [], cq = [], woken = []\<rparr>"

text \<open>\<open>SubmitBusy\<close> is an error of the kinds that the submission loop retries.\<close>

datatype submit_result = SubmitOk | SubmitBusy u32 | SubmitErr u32

record enter_event =
  taken :: nat
  posted :: "cqe list"
  result :: submit_result

text \<open>
  One \<^verbatim>\<open>io_uring_enter\<close>. What the kernel does in a call is a function of what it sees: the submission
  queue and the operations in flight.
\<close>

type_synonym 'd kernel_entry = "'d uring_inner \<Rightarrow> enter_event"

definition uring_enter :: "enter_event \<Rightarrow> 'd uring_inner \<Rightarrow> 'd uring_inner" where
  "uring_enter ev s =
     s\<lparr>sq := drop (taken ev) (sq s),
       inflight := fold remove1 (map user_data (posted ev)) (inflight s @ take (taken ev) (sq s)),
       cq := cq s @ posted ev\<rparr>"

definition num_operations :: "'d uring_inner \<Rightarrow> nat" where
  "num_operations s = slab_len (ops s)"

section \<open>Completions\<close>

text \<open>
  The completion's result is an \<open>i32\<close>: not negative is a value, negative is the negated error number,
  and negating the least \<open>i32\<close> overflows.
\<close>

definition resultify :: "cqe \<Rightarrow> io_result outcome" where
  "resultify c =
     (if 0 \<le> sint (cqe_res c) then Ret (Inr (cqe_res c))
      else if cqe_res c = 2 ^ 31 then Panic ''attempt to negate with overflow''
      else Ret (Inl (- cqe_res c)))"

definition ops_insert :: "'d lifecycle slab \<Rightarrow> (nat \<times> 'd lifecycle slab) outcome" where
  "ops_insert s = slab_insert s Submitted"

definition ops_complete ::
    "'d lifecycle slab \<Rightarrow> nat \<Rightarrow> io_result \<Rightarrow> u32 \<Rightarrow> (nat list \<times> 'd lifecycle slab) outcome" where
  "ops_complete s index res flags =
     bind_outcome (slab_get s index) (\<lambda>ro. case ro of
         None \<Rightarrow> Undefined ''unwrap_unchecked''
       | Some r \<Rightarrow> lifecycle_complete s r res flags)"

fun tick_loop :: "cqe list \<Rightarrow> 'd uring_inner \<Rightarrow> 'd uring_inner outcome" where
  "tick_loop [] s = Ret s"
| "tick_loop (c # cs) s =
     (if user_data c < MIN_REVERSED_USERDATA then
        bind_outcome (resultify c) (\<lambda>res.
          bind_outcome (ops_complete (ops s) (user_data c) res (cqe_flags c)) (\<lambda>(ws, ops').
            tick_loop cs (s\<lparr>ops := ops', cq := cs, woken := woken s @ ws\<rparr>)))
      else tick_loop cs (s\<lparr>cq := cs\<rparr>))"

definition tick :: "'d uring_inner \<Rightarrow> 'd uring_inner outcome" where
  "tick s = tick_loop (cq s) s"

section \<open>Submission\<close>

text \<open>
  The calls that enter the kernel take the list of events to come and return the rest of it. The
  loop of \<open>submit\<close> has not returned (\<open>None\<close>) when the events run out.
\<close>

type_synonym ('a, 'd) run = "('a \<times> 'd kernel_entry list \<times> 'd uring_inner) outcome option"

type_synonym io_unit = "u32 option"

text \<open>\<open>None\<close> is \<open>Ok(())\<close>, \<open>Some e\<close> the error \<open>e\<close>.\<close>

fun inner_submit :: "'d kernel_entry list \<Rightarrow> 'd uring_inner \<Rightarrow> (io_unit, 'd) run" where
  "inner_submit [] s = None"
| "inner_submit (ev # evs) s =
     (let s1 = uring_enter (ev s) s in
      case result (ev s) of
        SubmitBusy e \<Rightarrow>
          (case tick s1 of
             Ret s2 \<Rightarrow> inner_submit evs s2
           | Panic m \<Rightarrow> Some (Panic m)
           | Undefined m \<Rightarrow> Some (Undefined m))
      | SubmitErr e \<Rightarrow> Some (Ret (Some e, evs, s1))
      | SubmitOk \<Rightarrow> Some (Ret (None, evs, s1)))"

definition bind_run ::
    "('a, 'd) run \<Rightarrow> ('a \<Rightarrow> 'd kernel_entry list \<Rightarrow> 'd uring_inner \<Rightarrow> ('b, 'd) run) \<Rightarrow> ('b, 'd) run" where
  "bind_run m k =
     (case m of
        None \<Rightarrow> None
      | Some (Ret (x, evs, s)) \<Rightarrow> k x evs s
      | Some (Panic e) \<Rightarrow> Some (Panic e)
      | Some (Undefined e) \<Rightarrow> Some (Undefined e))"

definition lift_run :: "'d kernel_entry list \<Rightarrow> ('a \<times> 'd uring_inner) outcome \<Rightarrow> ('a, 'd) run" where
  "lift_run evs m = Some (bind_outcome m (\<lambda>(x, s). Ret (x, evs, s)))"

definition driver_submit :: "'d kernel_entry list \<Rightarrow> 'd uring_inner \<Rightarrow> (io_unit, 'd) run" where
  "driver_submit evs s =
     bind_run (inner_submit evs s) (\<lambda>r evs1 s1.
       case r of
         Some e \<Rightarrow> Some (Ret (Some e, evs1, s1))
       | None \<Rightarrow> lift_run evs1 (bind_outcome (tick s1) (\<lambda>s2. Ret (None, s2))))"

definition flush_space :: "nat \<Rightarrow> 'd kernel_entry list \<Rightarrow> 'd uring_inner \<Rightarrow> (io_unit, 'd) run" where
  "flush_space need evs s =
     (if sq_capacity s < need then Some (Panic ''sq.capacity() >= need'')
      else if sq_capacity s < length (sq s) + need then inner_submit evs s
      else Some (Ret (None, evs, s)))"

definition ETIME :: u32 where
  "ETIME = 62"

text \<open>One blocking call, with or without a timeout; its error, other than an elapsed timeout, ends it.\<close>

definition enter_wait :: "bool \<Rightarrow> 'd kernel_entry list \<Rightarrow> 'd uring_inner \<Rightarrow> (io_unit, 'd) run" where
  "enter_wait timed evs s =
     (case evs of
        [] \<Rightarrow> None
      | ev # evs1 \<Rightarrow>
          (let s1 = uring_enter (ev s) s;
               err = (case result (ev s) of
                        SubmitOk \<Rightarrow> None
                      | SubmitBusy e \<Rightarrow> if timed \<and> e = ETIME then None else Some e
                      | SubmitErr e \<Rightarrow> if timed \<and> e = ETIME then None else Some e)
           in case err of
                Some e \<Rightarrow> Some (Ret (Some e, evs1, s1))
              | None \<Rightarrow> lift_run evs1 (bind_outcome (tick s1) (\<lambda>s2. Ret (None, s2)))))"

definition inner_park :: "bool \<Rightarrow> 'd kernel_entry list \<Rightarrow> 'd uring_inner \<Rightarrow> (io_unit, 'd) run" where
  "inner_park timed evs s =
     (if timed then
        bind_run (flush_space 1 evs s) (\<lambda>r evs1 s1.
          case r of Some e \<Rightarrow> Some (Ret (Some e, evs1, s1)) | None \<Rightarrow> enter_wait timed evs1 s1)
      else enter_wait timed evs s)"

definition sq_push :: "nat \<Rightarrow> 'd uring_inner \<Rightarrow> 'd uring_inner option" where
  "sq_push ud s = (if length (sq s) < sq_capacity s then Some (s\<lparr>sq := sq s @ [ud]\<rparr>) else None)"

text \<open>An \<open>Op\<close>: its index and its data.\<close>

record 'd op =
  op_index :: nat
  op_data :: "'d option"

definition new_op :: "'d \<Rightarrow> 'd uring_inner \<Rightarrow> ('d op \<times> 'd uring_inner) outcome" where
  "new_op data s =
     bind_outcome (ops_insert (ops s)) (\<lambda>(k, ops').
       Ret (\<lparr>op_index = k, op_data = Some data\<rparr>, s\<lparr>ops := ops'\<rparr>))"

definition submit_with_data ::
    "'d \<Rightarrow> 'd kernel_entry list \<Rightarrow> 'd uring_inner \<Rightarrow> (u32 + 'd op, 'd) run" where
  "submit_with_data data evs s =
     bind_run (if sq_capacity s \<le> length (sq s) then inner_submit evs s else Some (Ret (None, evs, s)))
       (\<lambda>r evs1 s1.
          case r of
            Some e \<Rightarrow> Some (Ret (Inl e, evs1, s1))
          | None \<Rightarrow>
              lift_run evs1 (bind_outcome (new_op data s1) (\<lambda>(op, s2).
                case sq_push (op_index op) s2 of
                  Some s3 \<Rightarrow> Ret (Inr op, s3)
                | None \<Rightarrow> Panic ''not implemented: when is this hit?'')))"

definition inner_poll_op ::
    "nat \<Rightarrow> nat \<Rightarrow> 'd uring_inner \<Rightarrow> ((io_result \<times> u32) option \<times> 'd uring_inner) outcome" where
  "inner_poll_op index cx s =
     bind_outcome (slab_get (ops s) index) (\<lambda>ro. case ro of
         None \<Rightarrow> Undefined ''unwrap_unchecked''
       | Some r \<Rightarrow> bind_outcome (lifecycle_poll_op (ops s) r cx) (\<lambda>(res, ops').
           Ret (res, s\<lparr>ops := ops'\<rparr>)))"

definition USIZE_MAX :: nat where
  "USIZE_MAX = 2 ^ 64 - 1"

definition inner_drop_op ::
    "nat \<Rightarrow> 'd option \<Rightarrow> 'd uring_inner \<Rightarrow> ('d option \<times> 'd uring_inner) outcome" where
  "inner_drop_op index data s =
     (if index = USIZE_MAX then Ret (data, s)
      else bind_outcome (slab_get (ops s) index) (\<lambda>ro. case ro of
          None \<Rightarrow> Ret (data, s)
        | Some r \<Rightarrow> bind_outcome (lifecycle_drop_op (ops s) r data) (\<lambda>(finished, rest, ops').
            Ret (rest, s\<lparr>ops := ops'\<rparr>))))"

definition cancel_op :: "nat \<Rightarrow> 'd kernel_entry list \<Rightarrow> 'd uring_inner \<Rightarrow> (unit, 'd) run" where
  "cancel_op index evs s =
     (case sq_push CANCEL_USERDATA s of
        Some s1 \<Rightarrow> Some (Ret ((), evs, s1))
      | None \<Rightarrow>
          bind_run (inner_submit evs s) (\<lambda>r evs1 s1.
            Some (Ret ((), evs1, case sq_push CANCEL_USERDATA s1 of Some s2 \<Rightarrow> s2 | None \<Rightarrow> s1))))"

section \<open>The \<open>Op\<close> future\<close>

definition op_poll ::
    "'d op \<Rightarrow> nat \<Rightarrow> 'd uring_inner \<Rightarrow>
     (('d \<times> io_result \<times> u32) option \<times> 'd op \<times> 'd uring_inner) outcome" where
  "op_poll me cx s =
     (case op_data me of
        None \<Rightarrow> Panic ''unexpected operation state''
      | Some data \<Rightarrow>
          bind_outcome (inner_poll_op (op_index me) cx s) (\<lambda>(meta, s1).
            case meta of
              None \<Rightarrow> Ret (None, me, s1)
            | Some (res, flags) \<Rightarrow>
                Ret (Some (data, res, flags), me\<lparr>op_index := USIZE_MAX, op_data := None\<rparr>, s1)))"

definition op_drop :: "'d op \<Rightarrow> 'd uring_inner \<Rightarrow> 'd uring_inner outcome" where
  "op_drop me s = bind_outcome (inner_drop_op (op_index me) (op_data me) s) (\<lambda>(rest, s1). Ret s1)"

section \<open>The protocol with the kernel\<close>

text \<open>
  What the driver relies on: the kernel completes only what it has taken, once for each submission,
  and no completion carries the least \<open>i32\<close>.
\<close>

definition event_ok :: "'d uring_inner \<Rightarrow> enter_event \<Rightarrow> bool" where
  "event_ok s ev \<longleftrightarrow>
     mset (map user_data (posted ev)) \<subseteq># mset (inflight s @ take (taken ev) (sq s)) \<and>
     (\<forall>c \<in> set (posted ev). cqe_res c \<noteq> 2 ^ 31)"

definition protocol :: "'d kernel_entry list \<Rightarrow> bool" where
  "protocol evs \<longleftrightarrow> (\<forall>f \<in> set evs. \<forall>s. event_ok s (f s))"

fun key_ok :: "'d lifecycle option \<Rightarrow> nat \<Rightarrow> bool \<Rightarrow> bool" where
  "key_ok None n live \<longleftrightarrow> n = 0 \<and> \<not> live"
| "key_ok (Some Submitted) n live \<longleftrightarrow> n = 1 \<and> live"
| "key_ok (Some (Waiting w)) n live \<longleftrightarrow> n = 1 \<and> live"
| "key_ok (Some (Ignored d)) n live \<longleftrightarrow> n = 1 \<and> \<not> live"
| "key_ok (Some (Completed a b)) n live \<longleftrightarrow> n = 0 \<and> live"

text \<open>The submissions whose completion the driver has not processed.\<close>

definition pending :: "'d uring_inner \<Rightarrow> nat multiset" where
  "pending s = mset (sq s) + mset (inflight s) + mset (map user_data (cq s))"

text \<open>
  \<open>live\<close> is the set of indices of the \<open>Op\<close> values that have neither completed nor been dropped.
\<close>

definition uring_inv :: "nat set \<Rightarrow> 'd uring_inner \<Rightarrow> bool" where
  "uring_inv live s \<longleftrightarrow>
     slab_inv (ops s) \<and>
     (\<forall>k < MIN_REVERSED_USERDATA. key_ok (slab_map (ops s) k) (count (pending s) k) (k \<in> live)) \<and>
     (\<forall>c \<in> set (cq s). cqe_res c \<noteq> 2 ^ 31) \<and> (\<forall>k \<in> live. k < MIN_REVERSED_USERDATA)"

lemma slab_key_bound:
  assumes "slab_inv s" and "slab_map s k = Some x"
  shows "k < MIN_REVERSED_USERDATA"
proof -
  let ?i = "get_page_id k"
  from assms(2) obtain p where p: "pages s ! ?i = Some p" "page_map p (k - prev_len p) = Some x"
    by (auto simp: slab_map_def split: option.splits)
  note pi = slab_inv_page [OF assms(1) get_page_id_less p(1)]
  have "k - prev_len p < 64 * 2 ^ ?i"
    using page_map_outside [OF pi(1)] p(2) pi(2) by (metis not_le option.distinct(1))
  then have "k < 128 * 2 ^ ?i" using pi(3) by (simp add: page_begin_def)
  moreover have "(2::nat) ^ ?i \<le> 2 ^ 25"
    using get_page_id_less [of k] by (intro power_increasing) (auto simp: NUM_PAGES_def)
  ultimately show ?thesis by (simp add: MIN_REVERSED_USERDATA_def)
qed

text \<open>Changing one key.\<close>

lemma uring_inv_update:
  assumes inv: "uring_inv live s" and s': "slab_inv ops'" "slab_map ops' = (slab_map (ops s))(k := l)"
    and k: "key_ok l n (k \<in> live')" and live: "\<And>j. j \<noteq> k \<Longrightarrow> j \<in> live' \<longleftrightarrow> j \<in> live"
    and pend: "count (pending s') k = n" "\<And>j. j \<noteq> k \<Longrightarrow> j < MIN_REVERSED_USERDATA \<Longrightarrow>
      count (pending s') j = count (pending s) j"
    and ops: "ops s' = ops'" and cq: "set (cq s') \<subseteq> set (cq s)" and km: "k < MIN_REVERSED_USERDATA"
  shows "uring_inv live' s'"
  unfolding uring_inv_def
proof (intro conjI allI impI ballI)
  show "slab_inv (ops s')" using s'(1) ops by simp
  show "key_ok (slab_map (ops s') j) (count (pending s') j) (j \<in> live')"
    if "j < MIN_REVERSED_USERDATA" for j
    using inv that k pend live by (cases "j = k") (auto simp: uring_inv_def ops s'(2))
  show "cqe_res c \<noteq> 2 ^ 31" if "c \<in> set (cq s')" for c
    using inv cq that by (auto simp: uring_inv_def)
  show "j < MIN_REVERSED_USERDATA" if "j \<in> live'" for j
    using inv that live [of j] km by (cases "j = k") (auto simp: uring_inv_def)
qed

lemma fold_remove1_mset:
  "mset xs \<subseteq># mset ys \<Longrightarrow> mset (fold remove1 xs ys) = mset ys - mset xs"
proof (induction xs arbitrary: ys)
  case (Cons x xs)
  then have "mset xs \<subseteq># mset (remove1 x ys)"
    by (simp add: insert_subset_eq_iff)
  with Cons.IH show ?case by simp
qed simp

lemma pending_enter:
  assumes "event_ok s ev"
  shows "pending (uring_enter ev s) = pending s"
proof -
  let ?p = "mset (map user_data (posted ev))"
  have le: "?p \<subseteq># mset (inflight s @ take (taken ev) (sq s))"
    using assms by (simp add: event_ok_def)
  then have "mset (fold remove1 (map user_data (posted ev)) (inflight s @ take (taken ev) (sq s)))
      + ?p = mset (inflight s @ take (taken ev) (sq s))"
    by (subst fold_remove1_mset) simp_all
  moreover have "mset (sq s) = mset (take (taken ev) (sq s)) + mset (drop (taken ev) (sq s))"
    by (metis append_take_drop_id mset_append)
  ultimately show ?thesis
    by (simp add: pending_def uring_enter_def ac_simps)
qed

lemma uring_enter_inv:
  assumes "uring_inv live s" and "event_ok s ev"
  shows "uring_inv live (uring_enter ev s)"
proof -
  have "pending (uring_enter ev s) = pending s" using assms(2) by (rule pending_enter)
  then show ?thesis
    using assms unfolding uring_inv_def by (auto simp: uring_enter_def event_ok_def)
qed

section \<open>Completions\<close>

lemma uring_inv_new: "uring_inv {} (new_with_entries n)"
  by (simp add: uring_inv_def new_with_entries_def pending_def)

lemma uring_inv_key:
  "uring_inv live s \<Longrightarrow> k < MIN_REVERSED_USERDATA \<Longrightarrow>
   key_ok (slab_map (ops s) k) (count (pending s) k) (k \<in> live)"
  by (simp add: uring_inv_def)

lemma uring_inv_slab: "uring_inv live s \<Longrightarrow> slab_inv (ops s)"
  by (simp add: uring_inv_def)

text \<open>What a completion does to the slot it names.\<close>

fun completed :: "'d lifecycle \<Rightarrow> io_result \<Rightarrow> u32 \<Rightarrow> 'd lifecycle option" where
  "completed (Ignored d) res flags = None"
| "completed l res flags = Some (Completed res flags)"

fun wakes_on_completion :: "'d lifecycle \<Rightarrow> nat list" where
  "wakes_on_completion (Waiting w) = [w]"
| "wakes_on_completion l = []"

lemma ops_complete_Ret:
  assumes inv: "slab_inv s" and l: "slab_map s k = Some l" and nc: "\<And>a b. l \<noteq> Completed a b"
  shows "\<exists>s'. ops_complete s k res flags = Ret (wakes_on_completion l, s') \<and> slab_inv s' \<and>
           slab_map s' = (slab_map s)(k := completed l res flags)"
proof -
  obtain r s1 s2 where r: "slab_get s k = Ret (Some r)" "ref_as_ref s r = Ret l"
    and s1: "ref_as_mut s r (\<lambda>x. Completed res flags) = Ret s1" "slab_inv s1"
      "slab_map s1 = (slab_map s)(k \<mapsto> Completed res flags)"
    and s2: "ref_remove s r = Ret (l, s2)" "slab_inv s2" "slab_map s2 = (slab_map s)(k := None)"
    using slab.access [OF inv l] by metis
  show ?thesis
    using r s1 s2 nc by (cases l) (auto simp: ops_complete_def lifecycle_complete_def)
qed

lemma resultify_Ret: "cqe_res c \<noteq> 2 ^ 31 \<Longrightarrow> \<exists>r. resultify c = Ret r"
  by (simp add: resultify_def)

text \<open>The invariant after the first completion of the queue was processed, or skipped.\<close>

lemma tick_head_inv:
  assumes inv: "uring_inv live s" and cq: "cq s = c # cs" and km: "user_data c < MIN_REVERSED_USERDATA"
    and res: "resultify c = Ret res"
    and o: "ops_complete (ops s) (user_data c) res (cqe_flags c) = Ret (ws, ops')"
  shows "uring_inv live (s\<lparr>ops := ops', cq := cs, woken := woken s @ ws\<rparr>)"
proof -
  let ?k = "user_data c"
  let ?s1 = "s\<lparr>ops := ops', cq := cs, woken := woken s @ ws\<rparr>"
  have "0 < count (pending s) ?k" by (simp add: pending_def cq)
  then obtain l where l: "slab_map (ops s) ?k = Some l" and nc: "\<And>a b. l \<noteq> Completed a b"
    and n: "count (pending s) ?k = 1" and lv: "?k \<in> live \<longleftrightarrow> (\<forall>d. l \<noteq> Ignored d)"
    using uring_inv_key [OF inv km] by (elim key_ok.elims) auto
  have o': "slab_inv ops'" "slab_map ops' = (slab_map (ops s))(?k := completed l res (cqe_flags c))"
    using ops_complete_Ret [OF uring_inv_slab [OF inv] l nc, of res "cqe_flags c"] o by auto
  show ?thesis
  proof (rule uring_inv_update [OF inv o'])
    show "key_ok (completed l res (cqe_flags c)) 0 (?k \<in> live)"
      using lv nc by (cases l) auto
    show "count (pending ?s1) ?k = 0" using n cq by (simp add: pending_def)
    show "count (pending ?s1) j = count (pending s) j" if "j \<noteq> ?k" for j
      using that cq by (simp add: pending_def)
  qed (use cq km in auto)
qed

lemma tick_skip_inv:
  assumes inv: "uring_inv live s" and cq: "cq s = c # cs"
    and km: "\<not> user_data c < MIN_REVERSED_USERDATA"
  shows "uring_inv live (s\<lparr>cq := cs\<rparr>)"
proof -
  have "count (pending (s\<lparr>cq := cs\<rparr>)) k = count (pending s) k" if "k < MIN_REVERSED_USERDATA" for k
    using that km cq by (auto simp: pending_def)
  then show ?thesis using inv cq by (auto simp: uring_inv_def)
qed

lemma tick_step:
  assumes inv: "uring_inv live s" and cq: "cq s = c # cs" and k: "user_data c < MIN_REVERSED_USERDATA"
  obtains l res ops' where "slab_map (ops s) (user_data c) = Some l" "resultify c = Ret res"
    "ops_complete (ops s) (user_data c) res (cqe_flags c) = Ret (wakes_on_completion l, ops')"
    "slab_map ops' = (slab_map (ops s))(user_data c := completed l res (cqe_flags c))"
    "user_data c \<notin> user_data ` set cs"
proof -
  let ?k = "user_data c"
  have "cqe_res c \<noteq> 2 ^ 31" using inv cq by (simp add: uring_inv_def)
  then obtain res where res: "resultify c = Ret res" using resultify_Ret by blast
  have pos: "0 < count (pending s) ?k" by (simp add: pending_def cq)
  then obtain l where l: "slab_map (ops s) ?k = Some l" and nc: "\<And>a b. l \<noteq> Completed a b"
    and n: "count (pending s) ?k = 1"
    using uring_inv_key [OF inv k] by (elim key_ok.elims) auto
  then have "count (mset (map user_data cs)) ?k = 0" by (simp add: pending_def cq)
  then have "?k \<notin> user_data ` set cs" by (simp add: count_eq_zero_iff)
  with that l res ops_complete_Ret [OF uring_inv_slab [OF inv] l nc] show thesis by blast
qed

lemma tick_loop_inv:
  assumes "uring_inv live s" and "cq s = cs"
  shows "\<exists>s'. tick_loop cs s = Ret s' \<and> uring_inv live s' \<and> cq s' = [] \<and> sq s' = sq s \<and>
           inflight s' = inflight s \<and> sq_capacity s' = sq_capacity s"
  using assms
proof (induction cs arbitrary: s)
  case (Cons c cs)
  show ?case
  proof (cases "user_data c < MIN_REVERSED_USERDATA")
    case True
    obtain l res ops' where st: "slab_map (ops s) (user_data c) = Some l" "resultify c = Ret res"
      "ops_complete (ops s) (user_data c) res (cqe_flags c) = Ret (wakes_on_completion l, ops')"
      using tick_step [OF Cons.prems True] by metis
    from Cons.IH [OF tick_head_inv [OF Cons.prems True st(2,3)]] True st show ?thesis by simp
  next
    case False
    from Cons.IH [OF tick_skip_inv [OF Cons.prems False]] False show ?thesis by simp
  qed
qed simp

lemma tick_inv:
  assumes "uring_inv live s"
  obtains s' where "tick s = Ret s'" "uring_inv live s'" "cq s' = []" "sq s' = sq s"
    "inflight s' = inflight s" "sq_capacity s' = sq_capacity s"
  using tick_loop_inv [OF assms refl] by (auto simp: tick_def)

section \<open>Submission\<close>

definition ok_run ::
    "string set \<Rightarrow> ('a, 'd) run \<Rightarrow> ('a \<Rightarrow> 'd kernel_entry list \<Rightarrow> 'd uring_inner \<Rightarrow> bool) \<Rightarrow> bool" where
  "ok_run E m Q = (case m of None \<Rightarrow> True | Some r \<Rightarrow> ok E r (\<lambda>(x, evs, s). Q x evs s))"

lemma ok_run_simps [simp]:
  "ok_run E None Q"
  "ok_run E (Some (Ret (x, evs, s))) Q = Q x evs s"
  "ok_run E (Some (Panic e)) Q = (e \<in> E)"
  "ok_run E (Some (Undefined e)) Q = False"
  by (simp_all add: ok_run_def)

lemma ok_run_bind: "ok_run E (bind_run m k) Q = ok_run E m (\<lambda>x evs s. ok_run E (k x evs s) Q)"
  by (auto simp: ok_run_def bind_run_def ok_def split: option.splits outcome.splits prod.splits)

lemma ok_run_lift: "ok_run E (lift_run evs m) Q = ok E m (\<lambda>(x, s). Q x evs s)"
  by (cases m) (auto simp: lift_run_def ok_run_def)

lemma ok_run_mono:
  "ok_run E m P \<Longrightarrow> (\<And>x evs s. P x evs s \<Longrightarrow> Q x evs s) \<Longrightarrow> ok_run E m Q"
  by (auto simp: ok_run_def ok_def split: option.splits outcome.splits)

lemma inner_submit_inv:
  "protocol evs \<Longrightarrow> uring_inv live s \<Longrightarrow>
   ok_run {} (inner_submit evs s) (\<lambda>r evs' s'. protocol evs' \<and> uring_inv live s')"
proof (induction evs arbitrary: s)
  case (Cons f evs)
  let ?s1 = "uring_enter (f s) s"
  have p: "protocol evs" "event_ok s (f s)" using Cons.prems by (auto simp: protocol_def)
  have inv1: "uring_inv live ?s1" using uring_enter_inv [OF Cons.prems(2) p(2)] .
  obtain s2 where "tick ?s1 = Ret s2" "uring_inv live s2" using tick_inv [OF inv1] by blast
  with Cons.IH [OF p(1)] inv1 p show ?case by (cases "result (f s)") (auto simp: Let_def)
qed simp

lemma inner_submit_returns:
  "f \<in> set evs \<Longrightarrow> (\<And>s e. result (f s) \<noteq> SubmitBusy e) \<Longrightarrow> \<exists>r. inner_submit evs s = Some r"
proof (induction evs arbitrary: s)
  case (Cons g evs)
  show ?case
  proof (cases "f = g")
    case True
    with Cons.prems(2) [of s] show ?thesis by (cases "result (g s)") (auto simp: Let_def)
  next
    case False
    with Cons show ?thesis
      by (cases "result (g s)") (auto simp: Let_def split: outcome.split)
  qed
qed simp

abbreviation driver_panics :: "string set" where
  "driver_panics \<equiv> {''out of slot'', ''not implemented: when is this hit?'', ''sq.capacity() >= need''}"

lemma ok_run_weaken: "ok_run {} m Q \<Longrightarrow> ok_run E m Q"
  by (auto simp: ok_run_def ok_def split: option.splits outcome.splits)

abbreviation kept_run :: "nat set \<Rightarrow> 'a \<Rightarrow> 'd kernel_entry list \<Rightarrow> 'd uring_inner \<Rightarrow> bool" where
  "kept_run live x evs s \<equiv> protocol evs \<and> uring_inv live s"

lemma driver_submit_inv:
  fixes s :: "'d uring_inner"
  assumes "protocol evs" and "uring_inv live s"
  shows "ok_run {} (driver_submit evs s) (kept_run live)"
  unfolding driver_submit_def ok_run_bind
proof (rule ok_run_mono [OF inner_submit_inv [OF assms]])
  fix r and evs1 :: "'d kernel_entry list" and s1 :: "'d uring_inner"
  assume "protocol evs1 \<and> uring_inv live s1"
  then show "ok_run {} (case r of
       Some e \<Rightarrow> Some (Ret (Some e, evs1, s1))
     | None \<Rightarrow> lift_run evs1 (bind_outcome (tick s1) (\<lambda>s2. Ret (None, s2)))) (kept_run live)"
    by (cases r) (auto simp: ok_run_lift ok_bind elim: tick_inv)
qed

lemma enter_wait_inv:
  assumes "protocol evs" and "uring_inv live s"
  shows "ok_run {} (enter_wait timed evs s) (kept_run live)"
proof (cases evs)
  case (Cons f evs1)
  with assms have p: "protocol evs1" "uring_inv live (uring_enter (f s) s)"
    using uring_enter_inv [OF assms(2), of "f s"] by (auto simp: protocol_def)
  then obtain s2 where "tick (uring_enter (f s) s) = Ret s2" "uring_inv live s2"
    using tick_inv by blast
  with p Cons show ?thesis
    by (auto simp: enter_wait_def Let_def ok_run_lift ok_bind split: submit_result.split)
qed (simp add: enter_wait_def)

lemma inner_park_inv:
  assumes "protocol evs" and "uring_inv live s"
  shows "ok_run driver_panics (inner_park timed evs s) (kept_run live)"
proof (cases timed)
  case True
  have "ok_run driver_panics (flush_space 1 evs s) (kept_run live)"
    using assms ok_run_weaken [OF inner_submit_inv [OF assms]] by (auto simp: flush_space_def)
  then have "ok_run driver_panics (flush_space 1 evs s) (\<lambda>r evs1 s1. ok_run driver_panics
      (case r of Some e \<Rightarrow> Some (Ret (Some e, evs1, s1)) | None \<Rightarrow> enter_wait True evs1 s1) (kept_run live))"
    by (rule ok_run_mono) (auto intro: ok_run_weaken [OF enter_wait_inv] split: option.split)
  with True show ?thesis by (simp add: inner_park_def ok_run_bind)
next
  case False
  then show ?thesis
    using ok_run_weaken [OF enter_wait_inv [OF assms]] by (simp add: inner_park_def)
qed

text \<open>A new operation: its slot is \<open>Submitted\<close> and its index is queued once.\<close>

lemma new_op_push_inv:
  assumes inv: "uring_inv live s"
  shows "ok driver_panics (bind_outcome (new_op data s) (\<lambda>(op, s2).
           case sq_push (op_index op) s2 of
             Some s3 \<Rightarrow> Ret (Inr op, s3)
           | None \<Rightarrow> Panic ''not implemented: when is this hit?''))
         (\<lambda>(r, s'). \<exists>op. r = Inr op \<and> op_data op = Some data \<and> op_index op \<notin> live \<and>
            uring_inv (insert (op_index op) live) s' \<and>
            slab_map (ops s') (op_index op) = Some Submitted)"
  using uring_inv_slab [OF inv]
proof (cases rule: slab_insert_cases [where v = Submitted])
  case (room k ops')
  let ?op = "\<lparr>op_index = k, op_data = Some data\<rparr>"
  let ?s3 = "s\<lparr>ops := ops', sq := sq s @ [k]\<rparr>"
  have km: "k < MIN_REVERSED_USERDATA"
    using room(4) by (intro slab_key_bound [OF room(2), of k Submitted]) simp
  have old: "count (pending s) k = 0 \<and> k \<notin> live"
    using uring_inv_key [OF inv km] room(3) by simp
  have "uring_inv (insert k live) ?s3"
    by (rule uring_inv_update [OF inv room(2), where k = k and l = "Some Submitted" and n = 1])
      (use room old km in \<open>auto simp: pending_def\<close>)
  with room old show ?thesis
    by (simp add: new_op_def ops_insert_def sq_push_def)
next
  case full
  then show ?thesis by (simp add: new_op_def ops_insert_def)
qed

lemma submit_with_data_inv:
  assumes "protocol evs" and "uring_inv live s"
  shows "ok_run driver_panics (submit_with_data data evs s) (\<lambda>r evs' s'. protocol evs' \<and>
           (case r of
              Inl e \<Rightarrow> uring_inv live s'
            | Inr op \<Rightarrow> op_data op = Some data \<and> op_index op \<notin> live \<and>
                uring_inv (insert (op_index op) live) s' \<and>
                slab_map (ops s') (op_index op) = Some Submitted))"
proof -
  have "ok_run driver_panics (if sq_capacity s \<le> length (sq s) then inner_submit evs s
      else Some (Ret (None, evs, s))) (kept_run live)"
    using assms ok_run_weaken [OF inner_submit_inv [OF assms]] by simp
  then show ?thesis
    unfolding submit_with_data_def ok_run_bind
  proof (rule ok_run_mono)
    fix r evs1 and s1 :: "'a uring_inner"
    assume k: "kept_run live r evs1 s1"
    from new_op_push_inv [of live s1 data] k
    show "ok_run driver_panics (case r of
        Some e \<Rightarrow> Some (Ret (Inl e, evs1, s1))
      | None \<Rightarrow> lift_run evs1 (bind_outcome (new_op data s1) (\<lambda>(op, s2).
          case sq_push (op_index op) s2 of
            Some s3 \<Rightarrow> Ret (Inr op, s3)
          | None \<Rightarrow> Panic ''not implemented: when is this hit?'')))
      (\<lambda>r evs' s'. protocol evs' \<and> (case r of
              Inl e \<Rightarrow> uring_inv live s'
            | Inr op \<Rightarrow> op_data op = Some data \<and> op_index op \<notin> live \<and>
                uring_inv (insert (op_index op) live) s' \<and>
                slab_map (ops s') (op_index op) = Some Submitted))"
      by (cases r) (auto simp: ok_run_lift elim!: ok_mono)
  qed
qed

lemma live_lifecycle:
  assumes "uring_inv live s" and "k \<in> live"
  obtains (inuse) l where "slab_map (ops s) k = Some l" "count (pending s) k = 1"
      "l = Submitted \<or> (\<exists>w. l = Waiting w)"
  | (finished) a b where "slab_map (ops s) k = Some (Completed a b)" "count (pending s) k = 0"
proof -
  have "k < MIN_REVERSED_USERDATA" using assms by (simp add: uring_inv_def)
  from uring_inv_key [OF assms(1) this] assms(2) show thesis
    using that by (elim key_ok.elims) auto
qed

lemma inner_poll_op_inv:
  assumes inv: "uring_inv live s" and k: "k \<in> live"
  shows "(case slab_map (ops s) k of
            Some (Completed a b) \<Rightarrow>
              \<exists>s'. inner_poll_op k cx s = Ret (Some (a, b), s') \<and> uring_inv (live - {k}) s' \<and>
                   slab_map (ops s') = (slab_map (ops s))(k := None)
          | _ \<Rightarrow> \<exists>s'. inner_poll_op k cx s = Ret (None, s') \<and> uring_inv live s' \<and>
                   slab_map (ops s') = (slab_map (ops s))(k \<mapsto> Waiting cx))"
  using inv k
proof (cases rule: live_lifecycle)
  case (inuse l)
  have si: "slab_inv (ops s)" using inv by (rule uring_inv_slab)
  have km: "k < MIN_REVERSED_USERDATA" using inv k by (simp add: uring_inv_def)
  obtain r o1 where r: "slab_get (ops s) k = Ret (Some r)" "ref_as_ref (ops s) r = Ret l"
    and o1: "ref_as_mut (ops s) r (\<lambda>x. Waiting cx) = Ret o1" "slab_inv o1"
      "slab_map o1 = (slab_map (ops s))(k \<mapsto> Waiting cx)"
    using slab.access [OF si inuse(1)] by metis
  have "uring_inv live (s\<lparr>ops := o1\<rparr>)"
    by (rule uring_inv_update [OF inv o1(2,3), where n = 1]) (use inuse km k in \<open>auto simp: pending_def\<close>)
  with r o1 inuse inv show ?thesis
    by (auto simp: inner_poll_op_def lifecycle_poll_op_def fun_upd_idem)
next
  case (finished a b)
  have si: "slab_inv (ops s)" using inv by (rule uring_inv_slab)
  have km: "k < MIN_REVERSED_USERDATA" using inv k by (simp add: uring_inv_def)
  obtain r o1 where r: "slab_get (ops s) k = Ret (Some r)" "ref_as_ref (ops s) r = Ret (Completed a b)"
    and o1: "ref_remove (ops s) r = Ret (Completed a b, o1)" "slab_inv o1"
      "slab_map o1 = (slab_map (ops s))(k := None)"
    using slab.access [OF si finished(1)] by metis
  have "uring_inv (live - {k}) (s\<lparr>ops := o1\<rparr>)"
    by (rule uring_inv_update [OF inv o1(2,3), where n = 0]) (use finished km in \<open>auto simp: pending_def\<close>)
  with r o1 finished show ?thesis
    by (simp add: inner_poll_op_def lifecycle_poll_op_def)
qed

lemma inner_drop_op_inv:
  assumes inv: "uring_inv live s" and k: "k \<in> live"
  shows "(case slab_map (ops s) k of
            Some (Completed a b) \<Rightarrow>
              \<exists>s'. inner_drop_op k data s = Ret (data, s') \<and> uring_inv (live - {k}) s' \<and>
                   slab_map (ops s') = (slab_map (ops s))(k := None)
          | _ \<Rightarrow> \<exists>s'. inner_drop_op k data s = Ret (None, s') \<and> uring_inv (live - {k}) s' \<and>
                   slab_map (ops s') = (slab_map (ops s))(k \<mapsto> Ignored data))"
  using inv k
proof (cases rule: live_lifecycle)
  case (inuse l)
  have si: "slab_inv (ops s)" using inv by (rule uring_inv_slab)
  have km: "k < MIN_REVERSED_USERDATA" using inv k by (simp add: uring_inv_def)
  obtain r o1 where r: "slab_get (ops s) k = Ret (Some r)" "ref_as_ref (ops s) r = Ret l"
    and o1: "ref_as_mut (ops s) r (\<lambda>x. Ignored data) = Ret o1" "slab_inv o1"
      "slab_map o1 = (slab_map (ops s))(k \<mapsto> Ignored data)"
    using slab.access [OF si inuse(1)] by metis
  have "uring_inv (live - {k}) (s\<lparr>ops := o1\<rparr>)"
    by (rule uring_inv_update [OF inv o1(2,3), where n = 1]) (use inuse km in \<open>auto simp: pending_def\<close>)
  with r o1 inuse km show ?thesis
    by (auto simp: inner_drop_op_def lifecycle_drop_op_def USIZE_MAX_def MIN_REVERSED_USERDATA_def)
next
  case (finished a b)
  have si: "slab_inv (ops s)" using inv by (rule uring_inv_slab)
  have km: "k < MIN_REVERSED_USERDATA" using inv k by (simp add: uring_inv_def)
  obtain r o1 where r: "slab_get (ops s) k = Ret (Some r)" "ref_as_ref (ops s) r = Ret (Completed a b)"
    and o1: "ref_remove (ops s) r = Ret (Completed a b, o1)" "slab_inv o1"
      "slab_map o1 = (slab_map (ops s))(k := None)"
    using slab.access [OF si finished(1)] by metis
  have "uring_inv (live - {k}) (s\<lparr>ops := o1\<rparr>)"
    by (rule uring_inv_update [OF inv o1(2,3), where n = 0]) (use finished km in \<open>auto simp: pending_def\<close>)
  with r o1 finished km show ?thesis
    by (auto simp: inner_drop_op_def lifecycle_drop_op_def USIZE_MAX_def MIN_REVERSED_USERDATA_def)
qed

lemma sq_push_cancel_inv:
  assumes "uring_inv live s" and "sq_push CANCEL_USERDATA s = Some s'"
  shows "uring_inv live s'"
proof -
  have s': "s' = s\<lparr>sq := sq s @ [CANCEL_USERDATA]\<rparr>" using assms(2)
    by (auto simp: sq_push_def split: if_splits)
  have "count (pending s') k = count (pending s) k" if "k < MIN_REVERSED_USERDATA" for k
    using that by (auto simp: pending_def s' CANCEL_USERDATA_def MIN_REVERSED_USERDATA_def)
  then show ?thesis using assms(1) by (auto simp: uring_inv_def s')
qed

lemma cancel_op_inv:
  assumes "protocol evs" and "uring_inv live s"
  shows "ok_run {} (cancel_op k evs s) (kept_run live)"
proof (cases "sq_push CANCEL_USERDATA s")
  case None
  have "ok_run {} (inner_submit evs s) (\<lambda>r evs1 s1. protocol evs1 \<and>
      uring_inv live (case sq_push CANCEL_USERDATA s1 of Some s2 \<Rightarrow> s2 | None \<Rightarrow> s1))"
    by (rule ok_run_mono [OF inner_submit_inv [OF assms]])
      (auto split: option.split intro: sq_push_cancel_inv)
  with None show ?thesis by (simp add: cancel_op_def ok_run_bind)
next
  case (Some s1)
  with assms sq_push_cancel_inv [OF assms(2) Some] show ?thesis by (simp add: cancel_op_def)
qed

section \<open>A completion reaches its slot\<close>

lemma tick_loop_other:
  "uring_inv live s \<Longrightarrow> cq s = cs \<Longrightarrow> k \<notin> user_data ` set cs \<Longrightarrow> tick_loop cs s = Ret s' \<Longrightarrow>
   slab_map (ops s') k = slab_map (ops s) k \<and> set (woken s) \<subseteq> set (woken s')"
proof (induction cs arbitrary: s)
  case (Cons c cs)
  have "\<exists>s1. uring_inv live s1 \<and> cq s1 = cs \<and> tick_loop (c # cs) s = tick_loop cs s1 \<and>
      slab_map (ops s1) k = slab_map (ops s) k \<and> set (woken s) \<subseteq> set (woken s1)"
  proof (cases "user_data c < MIN_REVERSED_USERDATA")
    case True
    obtain l res ops' where st: "slab_map (ops s) (user_data c) = Some l" "resultify c = Ret res"
      "ops_complete (ops s) (user_data c) res (cqe_flags c) = Ret (wakes_on_completion l, ops')"
      "slab_map ops' = (slab_map (ops s))(user_data c := completed l res (cqe_flags c))"
      using tick_step [OF Cons.prems(1,2) True] by metis
    have "uring_inv live (s\<lparr>ops := ops', cq := cs, woken := woken s @ wakes_on_completion l\<rparr>)"
      using tick_head_inv [OF Cons.prems(1,2) True st(2,3)] .
    moreover have "tick_loop (c # cs) s
        = tick_loop cs (s\<lparr>ops := ops', cq := cs, woken := woken s @ wakes_on_completion l\<rparr>)"
      using True st(2,3) by simp
    ultimately show ?thesis using st(4) Cons.prems(3) by fastforce
  next
    case False
    then show ?thesis using tick_skip_inv [OF Cons.prems(1,2) False] by fastforce
  qed
  then obtain s1 where s1: "uring_inv live s1" "cq s1 = cs"
      "tick_loop (c # cs) s = tick_loop cs s1"
      "slab_map (ops s1) k = slab_map (ops s) k" "set (woken s) \<subseteq> set (woken s1)"
    by blast
  with Cons.IH [OF s1(1,2)] Cons.prems(3,4) show ?case by auto
qed simp

lemma tick_loop_completes:
  "uring_inv live s \<Longrightarrow> cq s = cs \<Longrightarrow> c \<in> set cs \<Longrightarrow> user_data c = k \<Longrightarrow> k < MIN_REVERSED_USERDATA \<Longrightarrow>
   slab_map (ops s) k = Some l \<Longrightarrow> tick_loop cs s = Ret s' \<Longrightarrow>
   \<exists>res. resultify c = Ret res \<and> slab_map (ops s') k = completed l res (cqe_flags c) \<and>
         set (wakes_on_completion l) \<subseteq> set (woken s')"
proof (induction cs arbitrary: s)
  case (Cons d cs)
  show ?case
  proof (cases "user_data d < MIN_REVERSED_USERDATA")
    case True
    obtain m res ops' where st: "slab_map (ops s) (user_data d) = Some m" "resultify d = Ret res"
      "ops_complete (ops s) (user_data d) res (cqe_flags d) = Ret (wakes_on_completion m, ops')"
      "slab_map ops' = (slab_map (ops s))(user_data d := completed m res (cqe_flags d))"
      "user_data d \<notin> user_data ` set cs"
      using tick_step [OF Cons.prems(1,2) True] by metis
    let ?s1 = "s\<lparr>ops := ops', cq := cs, woken := woken s @ wakes_on_completion m\<rparr>"
    have inv1: "uring_inv live ?s1" by (rule tick_head_inv [OF Cons.prems(1,2) True st(2,3)])
    have rest: "tick_loop cs ?s1 = Ret s'" using Cons.prems(7) True st by simp
    show ?thesis
    proof (cases "user_data d = k")
      case True
      then have "c = d" using Cons.prems(3,4) st(5) by (metis imageI set_ConsD)
      with tick_loop_other [OF inv1 _ _ rest, of k] st True Cons.prems(6) show ?thesis by auto
    next
      case False
      then have "c \<in> set cs" using Cons.prems(3,4) by auto
      with Cons.IH [OF inv1 _ _ Cons.prems(4,5)] Cons.prems(6) rest st False show ?thesis by auto
    qed
  next
    case False
    then have "c \<in> set cs" using Cons.prems(3,4,5) by auto
    with Cons.IH [OF tick_skip_inv [OF Cons.prems(1,2) False] _ _ Cons.prems(4,5)] Cons.prems False
    show ?thesis by simp
  qed
qed simp

section \<open>Reachable drivers\<close>

text \<open>
  The states of the driver, with the indices of the operations that are neither complete nor
  dropped, under a kernel that follows the protocol.
\<close>

inductive uring_reachable :: "nat set \<Rightarrow> 'd uring_inner \<Rightarrow> bool" where
  new: "uring_reachable {} (new_with_entries n)"
| submit: "uring_reachable live s \<Longrightarrow> protocol evs \<Longrightarrow> driver_submit evs s = Some (Ret (r, evs', s')) \<Longrightarrow>
    uring_reachable live s'"
| park: "uring_reachable live s \<Longrightarrow> protocol evs \<Longrightarrow> inner_park timed evs s = Some (Ret (r, evs', s')) \<Longrightarrow>
    uring_reachable live s'"
| op_new: "uring_reachable live s \<Longrightarrow> protocol evs \<Longrightarrow>
    submit_with_data d evs s = Some (Ret (Inr op, evs', s')) \<Longrightarrow>
    uring_reachable (insert (op_index op) live) s'"
| op_refused: "uring_reachable live s \<Longrightarrow> protocol evs \<Longrightarrow>
    submit_with_data d evs s = Some (Ret (Inl e, evs', s')) \<Longrightarrow> uring_reachable live s'"
| op_pending: "uring_reachable live s \<Longrightarrow> k \<in> live \<Longrightarrow> inner_poll_op k cx s = Ret (None, s') \<Longrightarrow>
    uring_reachable live s'"
| op_ready: "uring_reachable live s \<Longrightarrow> k \<in> live \<Longrightarrow> inner_poll_op k cx s = Ret (Some m, s') \<Longrightarrow>
    uring_reachable (live - {k}) s'"
| op_dropped: "uring_reachable live s \<Longrightarrow> k \<in> live \<Longrightarrow> inner_drop_op k d s = Ret (rest, s') \<Longrightarrow>
    uring_reachable (live - {k}) s'"
| cancel: "uring_reachable live s \<Longrightarrow> protocol evs \<Longrightarrow> cancel_op k evs s = Some (Ret (u, evs', s')) \<Longrightarrow>
    uring_reachable live s'"

lemma uring_reachable_inv: "uring_reachable live s \<Longrightarrow> uring_inv live s"
proof (induction rule: uring_reachable.induct)
  case (submit live s evs r evs' s')
  then show ?case using driver_submit_inv [of evs live s] by simp
next
  case (park live s evs timed r evs' s')
  then show ?case using inner_park_inv [of evs live s timed] by simp
next
  case (op_new live s evs d op evs' s')
  then show ?case using submit_with_data_inv [of evs live s d] by simp
next
  case (op_refused live s evs d e evs' s')
  then show ?case using submit_with_data_inv [of evs live s d] by simp
next
  case (op_pending live s k cx s')
  then show ?case
    using inner_poll_op_inv [of live s k cx] by (auto split: option.splits lifecycle.splits)
next
  case (op_ready live s k cx m s')
  then show ?case
    using inner_poll_op_inv [of live s k cx] by (auto split: option.splits lifecycle.splits)
next
  case (op_dropped live s k d rest s')
  then show ?case
    using inner_drop_op_inv [of live s k d] by (auto split: option.splits lifecycle.splits)
next
  case (cancel live s evs k u evs' s')
  then show ?case using cancel_op_inv [of evs live s k] by simp
qed (rule uring_inv_new)

section \<open>Properties\<close>


text \<open>A kernel that takes every submission and completes everything with the value 7 at once.\<close>

definition eager_kernel :: "'d kernel_entry" where
  "eager_kernel s =
     \<lparr>taken = length (sq s),
      posted = map (\<lambda>u. \<lparr>user_data = u, cqe_res = 7, cqe_flags = 0\<rparr>) (inflight s @ sq s),
      result = SubmitOk\<rparr>"

lemma eager_kernel_protocol: "protocol [eager_kernel]"
  by (auto simp: protocol_def event_ok_def eager_kernel_def comp_def)


text \<open>A driver with one operation, whose index is 0 and whose data is 5.\<close>

definition one_op :: "nat uring_inner" where
  "one_op = (new_with_entries 256)\<lparr>ops := first_slab Submitted, sq := [0]\<rparr>"

lemma one_op_reachable: "uring_reachable {0} one_op"
proof -
  have "submit_with_data 5 [] (new_with_entries 256)
      = Some (Ret (Inr \<lparr>op_index = 0, op_data = Some 5\<rparr>, [], one_op))"
    by (simp add: submit_with_data_def new_with_entries_def bind_run_def lift_run_def new_op_def
        ops_insert_def slab_insert_first sq_push_def one_op_def)
  from uring_reachable.op_new [OF uring_reachable.new _ this] show ?thesis by (simp add: protocol_def)
qed

lemma one_op_submitted: "slab_map (ops one_op) 0 = Some Submitted"
  by (simp add: one_op_def slab_map_def first_slab_def page_map_def get_page_id_eq [of 0 0]
      NUM_PAGES_def page_begin_def)







end
