(* ===== verification/Buf.thy ===== *)
theory Buf
  imports Prelude
begin

text \<open>
  The owned buffers that operations hand to the kernel (\<^verbatim>\<open>runtime/src/buf\<close>) and what a completed read
  does to them (\<^verbatim>\<open>runtime/src/driver/op/read.rs\<close>): vectors with a capacity and an initialised length,
  fixed boxes, owned slices of a buffer, vectored buffers. A cell of memory that was never written is
  \<open>None\<close>. The traits \<open>IoBuf\<close> and \<open>IoBufMut\<close> are an interface, stated as a locale with the law that
  reading relies on and interpreted on vectors, boxes and slices of vectors.
\<close>

section \<open>The interface\<close>

text \<open>
  \<open>readable\<close> is what the kernel reads through \<open>read_ptr\<close> and \<open>bytes_init\<close>; \<open>kwrite\<close> is the kernel's write
  of some bytes at \<open>write_ptr\<close>.
\<close>

locale io_buf_mut =
  fixes wf :: "'b \<Rightarrow> bool"
    and readable :: "'b \<Rightarrow> u8 option list"
    and total :: "'b \<Rightarrow> nat"
    and kwrite :: "bytes \<Rightarrow> 'b \<Rightarrow> 'b"
    and set_init :: "nat \<Rightarrow> 'b \<Rightarrow> 'b"
  assumes wf_readable: "wf b \<Longrightarrow> None \<notin> set (readable b)"
    and filled: "wf b \<Longrightarrow> length d \<le> total b \<Longrightarrow>
      wf (set_init (length d) (kwrite d b)) \<and>
      take (length d) (readable (set_init (length d) (kwrite d b))) = map Some d"
begin

text \<open>What was read is the start of what can be written out again.\<close>

lemma filled_readable:
  assumes "wf b" and "length d \<le> total b"
  shows "None \<notin> set (readable (set_init (length d) (kwrite d b)))"
    and "i < length d \<Longrightarrow> readable (set_init (length d) (kwrite d b)) ! i = Some (d ! i)"
proof -
  show "None \<notin> set (readable (set_init (length d) (kwrite d b)))"
    using filled [OF assms] wf_readable by blast
  assume i: "i < length d"
  have "take (length d) (readable (set_init (length d) (kwrite d b))) ! i = Some (d ! i)"
    using filled [OF assms] i by simp
  with i show "readable (set_init (length d) (kwrite d b)) ! i = Some (d ! i)" by simp
qed

end

section \<open>Ranges\<close>

datatype bound = Included nat | Excluded nat | Unbounded

definition parse_range :: "bound \<Rightarrow> bound \<Rightarrow> nat \<Rightarrow> (nat \<times> nat) outcome" where
  "parse_range start_bound end_bound total_end =
     bind_outcome
       (case start_bound of
          Included n \<Rightarrow> Ret n
        | Excluded n \<Rightarrow> if n = usize_max then Panic ''attempt to add with overflow'' else Ret (n + 1)
        | Unbounded \<Rightarrow> Ret 0)
       (\<lambda>b. bind_outcome
          (case end_bound of
             Included n \<Rightarrow> if n = usize_max then Panic ''out of range'' else Ret (n + 1)
           | Excluded n \<Rightarrow> Ret n
           | Unbounded \<Rightarrow> Ret total_end)
          (\<lambda>e. Ret (b, e)))"

section \<open>Vectors and boxes\<close>

record vec =
  vec_mem :: "u8 option list"
  vec_len :: nat

definition vec_wf :: "vec \<Rightarrow> bool" where
  "vec_wf v \<longleftrightarrow> vec_len v \<le> length (vec_mem v) \<and> None \<notin> set (take (vec_len v) (vec_mem v))"

definition vec_bytes_init :: "vec \<Rightarrow> nat" where
  "vec_bytes_init v = vec_len v"

definition vec_bytes_total :: "vec \<Rightarrow> nat" where
  "vec_bytes_total v = length (vec_mem v)"

definition vec_readable :: "vec \<Rightarrow> u8 option list" where
  "vec_readable v = take (vec_bytes_init v) (vec_mem v)"

definition vec_set_init :: "nat \<Rightarrow> vec \<Rightarrow> vec" where
  "vec_set_init n v = v\<lparr>vec_len := n\<rparr>"

definition write_mem :: "nat \<Rightarrow> bytes \<Rightarrow> u8 option list \<Rightarrow> u8 option list" where
  "write_mem off d m = take off m @ map Some d @ drop (off + length d) m"

definition vec_kwrite :: "bytes \<Rightarrow> vec \<Rightarrow> vec" where
  "vec_kwrite d v = v\<lparr>vec_mem := write_mem 0 d (vec_mem v)\<rparr>"

text \<open>A boxed slice is initialised throughout; setting its initialised length does nothing.\<close>

definition box_wf :: "u8 option list \<Rightarrow> bool" where
  "box_wf b \<longleftrightarrow> None \<notin> set b"

definition box_set_init :: "nat \<Rightarrow> u8 option list \<Rightarrow> u8 option list" where
  "box_set_init n b = b"

section \<open>Owned slices\<close>

record slice_mut =
  sm_buf :: vec
  sm_begin :: nat
  sm_end :: nat

definition slice_mut_new :: "vec \<Rightarrow> nat \<Rightarrow> nat \<Rightarrow> slice_mut outcome" where
  "slice_mut_new buf b e =
     (if \<not> e \<le> vec_bytes_total buf then Panic ''end <= buf.bytes_total()''
      else if \<not> b \<le> vec_bytes_init buf then Panic ''begin <= buf.bytes_init()''
      else if \<not> b \<le> e then Panic ''begin <= end''
      else Ret \<lparr>sm_buf = buf, sm_begin = b, sm_end = e\<rparr>)"

definition slice_mut :: "vec \<Rightarrow> bound \<Rightarrow> bound \<Rightarrow> slice_mut outcome" where
  "slice_mut v s e =
     bind_outcome (parse_range s e (vec_bytes_total v)) (\<lambda>(b, e). slice_mut_new v b e)"

text \<open>\<^verbatim>\<open>Deref for SliceMut\<close>: the initialised bytes of the slice; slicing panics when \<open>begin\<close> is past them.\<close>

definition slice_mut_deref :: "slice_mut \<Rightarrow> u8 option list outcome" where
  "slice_mut_deref s =
     (let buf_bytes = vec_readable (sm_buf s);
          e = min (sm_end s) (length buf_bytes) in
      if e < sm_begin s then Panic ''slice index starts past its end''
      else Ret (take (e - sm_begin s) (drop (sm_begin s) buf_bytes)))"

definition slice_mut_bytes_init :: "slice_mut \<Rightarrow> nat outcome" where
  "slice_mut_bytes_init s = bind_outcome (slice_mut_deref s) (\<lambda>b. Ret (length b))"

definition slice_mut_bytes_total :: "slice_mut \<Rightarrow> nat" where
  "slice_mut_bytes_total s = sm_end s - sm_begin s"

definition slice_mut_set_init :: "nat \<Rightarrow> slice_mut \<Rightarrow> slice_mut" where
  "slice_mut_set_init n s = s\<lparr>sm_buf := vec_set_init (sm_begin s + n) (sm_buf s)\<rparr>"

text \<open>The kernel writes at \<^verbatim>\<open>buf.write_ptr().add(begin)\<close>.\<close>

definition slice_mut_kwrite :: "bytes \<Rightarrow> slice_mut \<Rightarrow> slice_mut" where
  "slice_mut_kwrite d s =
     s\<lparr>sm_buf := (sm_buf s)\<lparr>vec_mem := write_mem (sm_begin s) d (vec_mem (sm_buf s))\<rparr>\<rparr>"

definition slice_mut_into_inner :: "slice_mut \<Rightarrow> vec" where
  "slice_mut_into_inner s = sm_buf s"

record slice =
  sl_buf :: vec
  sl_begin :: nat
  sl_end :: nat

definition slice_new :: "vec \<Rightarrow> nat \<Rightarrow> nat \<Rightarrow> slice outcome" where
  "slice_new buf b e =
     (if \<not> e \<le> vec_bytes_init buf then Panic ''end <= buf.bytes_init()''
      else if \<not> b \<le> e then Panic ''begin <= end''
      else Ret \<lparr>sl_buf = buf, sl_begin = b, sl_end = e\<rparr>)"

definition slice_of :: "vec \<Rightarrow> bound \<Rightarrow> bound \<Rightarrow> slice outcome" where
  "slice_of v s e =
     bind_outcome (parse_range s e (vec_bytes_init v)) (\<lambda>(b, e). slice_new v b e)"

definition slice_bytes_init :: "slice \<Rightarrow> nat" where
  "slice_bytes_init s = sl_end s - sl_begin s"

text \<open>What the kernel reads for a write operation: \<open>bytes_init\<close> bytes from \<^verbatim>\<open>read_ptr().add(begin)\<close>.\<close>

definition slice_readable :: "slice \<Rightarrow> u8 option list" where
  "slice_readable s = take (slice_bytes_init s) (drop (sl_begin s) (vec_mem (sl_buf s)))"

section \<open>Vectored buffers\<close>

record vec_buf =
  iov_lens :: "nat list"
  raw :: "vec list"

definition vec_buf_from :: "vec list \<Rightarrow> vec_buf" where
  "vec_buf_from vs = \<lparr>iov_lens = map vec_len vs, raw = vs\<rparr>"

text \<open>\<open>IoVecWrapper::new\<close> refuses a vectored buffer without parts.\<close>

definition io_vec_wrapper_new :: "vec_buf \<Rightarrow> vec_buf + vec_buf" where
  "io_vec_wrapper_new b = (if length (iov_lens b) = 0 then Inl b else Inr b)"

fun vec_buf_set_init_loop :: "nat list \<Rightarrow> vec list \<Rightarrow> nat \<Rightarrow> vec list" where
  "vec_buf_set_init_loop (l # ls) (v # vs) len =
     (if l \<le> len then vec_set_init l v # vec_buf_set_init_loop ls vs (len - l)
      else (if 0 < len then vec_set_init len v else v) # vs)"
| "vec_buf_set_init_loop [] vs len = vs"
| "vec_buf_set_init_loop (l # ls) [] len = []"

definition vec_buf_set_init :: "nat \<Rightarrow> vec_buf \<Rightarrow> vec_buf" where
  "vec_buf_set_init len b = b\<lparr>raw := vec_buf_set_init_loop (iov_lens b) (raw b) len\<rparr>"

section \<open>Completing a read and a write\<close>

text \<open>
  The buffer of a finished read: the result is an error number or the number of bytes, which becomes
  the initialised length.
\<close>

definition read_complete :: "(nat \<Rightarrow> 'b \<Rightarrow> 'b) \<Rightarrow> u32 + nat \<Rightarrow> 'b \<Rightarrow> (u32 + nat) \<times> 'b" where
  "read_complete set_init res buf =
     (res, case res of Inr n \<Rightarrow> set_init n buf | Inl e \<Rightarrow> buf)"

definition write_complete :: "u32 + nat \<Rightarrow> 'b \<Rightarrow> (u32 + nat) \<times> 'b" where
  "write_complete res buf = (res, buf)"

section \<open>The interface holds\<close>

lemma length_write_mem: "off + length d \<le> length m \<Longrightarrow> length (write_mem off d m) = length m"
  by (simp add: write_mem_def)

lemma write_mem_part:
  "off + length d \<le> length m \<Longrightarrow> take (length d) (drop off (write_mem off d m)) = map Some d"
  by (simp add: write_mem_def)

lemma take_write_mem: "off \<le> length m \<Longrightarrow> take off (write_mem off d m) = take off m"
  by (simp add: write_mem_def)

lemma take_add_write_mem:
  "off + length d \<le> length m \<Longrightarrow> take (off + length d) (write_mem off d m) = take off m @ map Some d"
  by (simp add: write_mem_def)

definition slice_mut_wf :: "slice_mut \<Rightarrow> bool" where
  "slice_mut_wf s \<longleftrightarrow>
     vec_wf (sm_buf s) \<and> sm_begin s \<le> vec_len (sm_buf s) \<and> sm_begin s \<le> sm_end s \<and>
     sm_end s \<le> length (vec_mem (sm_buf s))"

text \<open>The readable bytes of a slice, total because \<open>slice_mut_wf\<close> rules the panic out.\<close>

definition slice_mut_readable :: "slice_mut \<Rightarrow> u8 option list" where
  "slice_mut_readable s = (case slice_mut_deref s of Ret b \<Rightarrow> b | _ \<Rightarrow> [])"

lemma slice_mut_deref_Ret:
  "slice_mut_wf s \<Longrightarrow> slice_mut_deref s = Ret (slice_mut_readable s)"
  by (auto simp: slice_mut_wf_def slice_mut_readable_def slice_mut_deref_def Let_def vec_wf_def
      vec_readable_def vec_bytes_init_def)

interpretation vec_io: io_buf_mut vec_wf vec_readable vec_bytes_total vec_kwrite vec_set_init
proof unfold_locales
  fix b :: vec and d :: bytes
  assume "vec_wf b"
  then show "None \<notin> set (vec_readable b)"
    by (simp add: vec_wf_def vec_readable_def vec_bytes_init_def)
  assume d: "length d \<le> vec_bytes_total b"
  then show "vec_wf (vec_set_init (length d) (vec_kwrite d b)) \<and>
      take (length d) (vec_readable (vec_set_init (length d) (vec_kwrite d b))) = map Some d"
    by (auto simp: vec_wf_def vec_readable_def vec_bytes_init_def vec_bytes_total_def vec_set_init_def
        vec_kwrite_def write_mem_def)
qed

interpretation box_io: io_buf_mut box_wf "\<lambda>b. b" length "write_mem 0" box_set_init
proof unfold_locales
  fix b :: "u8 option list" and d :: bytes
  assume "box_wf b"
  then show "None \<notin> set b" by (simp add: box_wf_def)
  assume "length d \<le> length b"
  with \<open>box_wf b\<close> show "box_wf (box_set_init (length d) (write_mem 0 d b)) \<and>
      take (length d) (box_set_init (length d) (write_mem 0 d b)) = map Some d"
    by (auto simp: box_wf_def box_set_init_def write_mem_def dest: in_set_dropD)
qed

lemma slice_mut_filled:
  assumes wf: "slice_mut_wf s" and d: "length d \<le> slice_mut_bytes_total s"
  shows "sm_buf (slice_mut_set_init (length d) (slice_mut_kwrite d s)) =
           \<lparr>vec_mem = write_mem (sm_begin s) d (vec_mem (sm_buf s)), vec_len = sm_begin s + length d\<rparr>"
    and "slice_mut_wf (slice_mut_set_init (length d) (slice_mut_kwrite d s))"
    and "slice_mut_readable (slice_mut_set_init (length d) (slice_mut_kwrite d s)) = map Some d"
proof -
  have fit: "sm_begin s + length d \<le> length (vec_mem (sm_buf s))"
      "sm_begin s + length d \<le> sm_end s" "sm_begin s \<le> vec_len (sm_buf s)"
    using wf d by (auto simp: slice_mut_wf_def slice_mut_bytes_total_def)
  show buf: "sm_buf (slice_mut_set_init (length d) (slice_mut_kwrite d s)) =
      \<lparr>vec_mem = write_mem (sm_begin s) d (vec_mem (sm_buf s)), vec_len = sm_begin s + length d\<rparr>"
    by (simp add: slice_mut_set_init_def slice_mut_kwrite_def vec_set_init_def)
  have "None \<notin> set (take (sm_begin s) (vec_mem (sm_buf s)))"
    using wf set_take_subset_set_take [OF fit(3), of "vec_mem (sm_buf s)"]
    by (auto simp: slice_mut_wf_def vec_wf_def)
  then show wf': "slice_mut_wf (slice_mut_set_init (length d) (slice_mut_kwrite d s))"
    using wf fit unfolding slice_mut_wf_def vec_wf_def buf
    by (auto simp: take_add_write_mem length_write_mem slice_mut_set_init_def slice_mut_kwrite_def)
  show "slice_mut_readable (slice_mut_set_init (length d) (slice_mut_kwrite d s)) = map Some d"
    using fit unfolding slice_mut_readable_def slice_mut_deref_def buf vec_readable_def
      vec_bytes_init_def
    by (auto simp: Let_def take_add_write_mem length_write_mem slice_mut_set_init_def
        slice_mut_kwrite_def)
qed

interpretation slice_io: io_buf_mut slice_mut_wf slice_mut_readable slice_mut_bytes_total
  slice_mut_kwrite slice_mut_set_init
proof unfold_locales
  fix b :: slice_mut and d :: bytes
  assume wf: "slice_mut_wf b"
  then have "set (slice_mut_readable b) \<subseteq> set (vec_readable (sm_buf b))"
    using slice_mut_deref_Ret [OF wf] set_take_subset set_drop_subset
    by (fastforce simp: slice_mut_readable_def slice_mut_deref_def Let_def dest: in_set_takeD in_set_dropD
        split: if_splits)
  with wf show "None \<notin> set (slice_mut_readable b)"
    using vec_io.wf_readable [of "sm_buf b"] by (auto simp: slice_mut_wf_def)
  assume "length d \<le> slice_mut_bytes_total b"
  then show "slice_mut_wf (slice_mut_set_init (length d) (slice_mut_kwrite d b)) \<and>
      take (length d) (slice_mut_readable (slice_mut_set_init (length d) (slice_mut_kwrite d b)))
        = map Some d"
    using slice_mut_filled [OF wf] by simp
qed

section \<open>Vectored reads\<close>

text \<open>The lengths after a vectored read of \<open>n\<close> bytes.\<close>

fun filled_lens :: "nat list \<Rightarrow> nat \<Rightarrow> nat list" where
  "filled_lens [] n = []"
| "filled_lens (l # ls) n =
     (if l \<le> n then l # filled_lens ls (n - l) else (if 0 < n then n else l) # ls)"

lemma vec_buf_set_init_lens:
  assumes "iov_lens b = map vec_len (raw b)"
  shows "map vec_len (raw (vec_buf_set_init n b)) = filled_lens (iov_lens b) n"
proof -
  have "map vec_len (vec_buf_set_init_loop (map vec_len vs) vs n) = filled_lens (map vec_len vs) n" for vs
    by (induction vs arbitrary: n) (auto simp: vec_set_init_def)
  with assms show ?thesis by (simp add: vec_buf_set_init_def)
qed

section \<open>Properties\<close>

text \<open>
  A read into an owned slice of a vector: the slice is created exactly when its end is within the
  capacity and its start within the initialised part; after the kernel wrote \<open>n\<close> bytes that fit and
  the read completed, the slice shows exactly those bytes, the vector keeps what was before the slice
  and ends where the read bytes end.
\<close>

lemma read_into_slice:
  assumes "vec_wf v"
  shows "(case slice_mut v (Included b) (Excluded e) of
            Ret s \<Rightarrow> e \<le> vec_bytes_total v \<and> b \<le> vec_bytes_init v \<and> b \<le> e \<and>
              (\<forall>d. length d \<le> slice_mut_bytes_total s \<longrightarrow>
                 (let s' = snd (read_complete slice_mut_set_init (Inr (length d)) (slice_mut_kwrite d s));
                      v' = slice_mut_into_inner s' in
                  slice_mut_deref s' = Ret (map Some d) \<and> vec_wf v' \<and>
                  vec_readable v' = take b (vec_mem v) @ map Some d \<and>
                  vec_bytes_total v' = vec_bytes_total v))
          | Panic m \<Rightarrow> vec_bytes_total v < e \<or> vec_bytes_init v < b \<or> e < b
          | Undefined m \<Rightarrow> False)"
proof (cases "e \<le> vec_bytes_total v \<and> b \<le> vec_bytes_init v \<and> b \<le> e")
  case True
  let ?s = "\<lparr>sm_buf = v, sm_begin = b, sm_end = e\<rparr>"
  have new: "slice_mut v (Included b) (Excluded e) = Ret ?s"
    using True by (simp add: slice_mut_def parse_range_def slice_mut_new_def)
  have wf: "slice_mut_wf ?s"
    using assms True by (simp add: slice_mut_wf_def vec_bytes_init_def vec_bytes_total_def)
  have "slice_mut_deref (slice_mut_set_init (length d) (slice_mut_kwrite d ?s)) = Ret (map Some d) \<and>
      vec_wf (sm_buf (slice_mut_set_init (length d) (slice_mut_kwrite d ?s))) \<and>
      vec_readable (sm_buf (slice_mut_set_init (length d) (slice_mut_kwrite d ?s)))
        = take b (vec_mem v) @ map Some d \<and>
      vec_bytes_total (sm_buf (slice_mut_set_init (length d) (slice_mut_kwrite d ?s))) = vec_bytes_total v"
    if d: "length d \<le> slice_mut_bytes_total ?s" for d
  proof -
    note fill = slice_mut_filled [OF wf d]
    have fit: "b + length d \<le> length (vec_mem v)"
      using d True by (auto simp: slice_mut_bytes_total_def vec_bytes_total_def)
    have "vec_wf (sm_buf (slice_mut_set_init (length d) (slice_mut_kwrite d ?s)))"
      using fill(2) by (simp add: slice_mut_wf_def)
    with fill fit slice_mut_deref_Ret [OF fill(2)] show ?thesis
      by (simp add: vec_readable_def vec_bytes_init_def vec_bytes_total_def take_add_write_mem
          length_write_mem)
  qed
  with new True show ?thesis
    by (simp add: read_complete_def slice_mut_into_inner_def Let_def)
next
  case False
  then show ?thesis
    by (auto simp: slice_mut_def parse_range_def slice_mut_new_def)
qed

text \<open>
  The kernel never reads uninitialised or foreign memory through an owned slice: a slice that
  could be created gives it \<open>bytes_init\<close> bytes, all inside the initialised part of its vector.
\<close>

lemma slice_readable_initialised:
  assumes "vec_wf v" and "slice_of v sb eb = Ret s"
  shows "length (slice_readable s) = slice_bytes_init s \<and> None \<notin> set (slice_readable s) \<and>
         slice_readable s = take (slice_bytes_init s) (drop (sl_begin s) (vec_readable v))"
proof -
  from assms(2) have s: "sl_buf s = v" "sl_begin s \<le> sl_end s" "sl_end s \<le> vec_len v"
    by (auto simp: slice_of_def slice_new_def bind_outcome_Ret_iff vec_bytes_init_def split: if_splits)
  have len: "vec_len v \<le> length (vec_mem v)" using assms(1) by (simp add: vec_wf_def)
  have eq: "slice_readable s = take (slice_bytes_init s) (drop (sl_begin s) (vec_readable v))"
    using s by (simp add: slice_readable_def slice_bytes_init_def vec_readable_def vec_bytes_init_def
        drop_take)
  moreover have "None \<notin> set (slice_readable s)"
    unfolding eq using vec_io.wf_readable [OF assms(1)]
    by (auto dest: in_set_takeD in_set_dropD)
  moreover have "length (slice_readable s) = slice_bytes_init s"
    using s len by (simp add: slice_readable_def slice_bytes_init_def)
  ultimately show ?thesis by simp
qed

end
