(* ===== verification/Mount_Options.thy ===== *)
theory Mount_Options
  imports Prelude "HOL-Library.Sublist"
begin

text \<open>
  The mount options (\<^verbatim>\<open>fuse/src/uring_fuse/mount/mount_options.rs\<close>): their parsing from a string, their
  printing for the kernel, the conflicts between them and the parsing of a command line. The theory
  shows for which options printing and parsing are inverse, that the conflict check accepts exactly
  the lists without a conflicting pair, and that a command line built from options is read back.
\<close>

section \<open>Options\<close>

datatype mount_option =
    FSName string
  | Subtype string
  | CUSTOM string
  | AllowOther
  | AllowRoot
  | AutoUnmount
  | DefaultPermissions
  | Dev
  | NoDev
  | Suid
  | NoSuid
  | RO
  | RW
  | Exec
  | NoExec
  | Atime
  | NoAtime
  | DirSync
  | Sync
  | Async

definition from_str :: "string \<Rightarrow> mount_option" where
  "from_str s =
     (if s = ''auto_unmount'' then AutoUnmount
      else if s = ''allow_other'' then AllowOther
      else if s = ''allow_root'' then AllowRoot
      else if s = ''default_permissions'' then DefaultPermissions
      else if s = ''dev'' then Dev
      else if s = ''nodev'' then NoDev
      else if s = ''suid'' then Suid
      else if s = ''nosuid'' then NoSuid
      else if s = ''ro'' then RO
      else if s = ''rw'' then RW
      else if s = ''exec'' then Exec
      else if s = ''noexec'' then NoExec
      else if s = ''atime'' then Atime
      else if s = ''noatime'' then NoAtime
      else if s = ''dirsync'' then DirSync
      else if s = ''sync'' then Sync
      else if s = ''async'' then Async
      else if prefix ''fsname='' s then FSName (drop 7 s)
      else if prefix ''subtype='' s then Subtype (drop 8 s)
      else CUSTOM s)"

fun option_to_string :: "mount_option \<Rightarrow> string" where
  "option_to_string (FSName name) = ''fsname='' @ name"
| "option_to_string (Subtype subtype) = ''subtype='' @ subtype"
| "option_to_string (CUSTOM value) = value"
| "option_to_string AutoUnmount = ''auto_unmount''"
| "option_to_string AllowOther = ''allow_other''"
| "option_to_string AllowRoot = ''allow_other''"
| "option_to_string DefaultPermissions = ''default_permissions''"
| "option_to_string Dev = ''dev''"
| "option_to_string NoDev = ''nodev''"
| "option_to_string Suid = ''suid''"
| "option_to_string NoSuid = ''nosuid''"
| "option_to_string RO = ''ro''"
| "option_to_string RW = ''rw''"
| "option_to_string Exec = ''exec''"
| "option_to_string NoExec = ''noexec''"
| "option_to_string Atime = ''atime''"
| "option_to_string NoAtime = ''noatime''"
| "option_to_string DirSync = ''dirsync''"
| "option_to_string Sync = ''sync''"
| "option_to_string Async = ''async''"

fun conflicts_with :: "mount_option \<Rightarrow> mount_option list" where
  "conflicts_with (FSName n) = []"
| "conflicts_with (Subtype n) = []"
| "conflicts_with (CUSTOM v) = []"
| "conflicts_with AllowOther = [AllowRoot]"
| "conflicts_with AllowRoot = [AllowOther]"
| "conflicts_with AutoUnmount = []"
| "conflicts_with DefaultPermissions = []"
| "conflicts_with Dev = [NoDev]"
| "conflicts_with NoDev = [Dev]"
| "conflicts_with Suid = [NoSuid]"
| "conflicts_with NoSuid = [Suid]"
| "conflicts_with RO = [RW]"
| "conflicts_with RW = [RO]"
| "conflicts_with Exec = [NoExec]"
| "conflicts_with NoExec = [Exec]"
| "conflicts_with Atime = [NoAtime]"
| "conflicts_with NoAtime = [Atime]"
| "conflicts_with DirSync = []"
| "conflicts_with Sync = [Async]"
| "conflicts_with Async = [Sync]"

text \<open>\<open>Inl\<close> is an \<^verbatim>\<open>InvalidInput\<close> error, here with the offending options.\<close>

definition check_option_conflicts :: "mount_option list \<Rightarrow> mount_option set + unit" where
  "check_option_conflicts options =
     (let options_set = set options;
          conflicting = set (concat (map conflicts_with options));
          intersection = conflicting \<inter> options_set in
      if intersection \<noteq> {} then Inl intersection else Inr ())"

section \<open>Command lines\<close>

text \<open>\<^verbatim>\<open>str::split(',')\<close>: the parts between the commas, at least one.\<close>

fun split_comma :: "string \<Rightarrow> string list" where
  "split_comma [] = [[]]"
| "split_comma (c # cs) =
     (if c = CHR '','' then [] # split_comma cs
      else case split_comma cs of [] \<Rightarrow> [[c]] | p # ps \<Rightarrow> (c # p) # ps)"

datatype parse_error = InvalidUtf8 | ExpectedOption | ExpectedDashO string

fun parse_args_loop :: "string list \<Rightarrow> mount_option list \<Rightarrow> parse_error + mount_option list" where
  "parse_args_loop [] out = Inr out"
| "parse_args_loop (x # it) out =
     (if x = ''-o'' then
        (case it of
           [] \<Rightarrow> Inl ExpectedOption
         | opt # it' \<Rightarrow> parse_args_loop it' (out @ map from_str (split_comma opt)))
      else if prefix ''-o'' x then parse_args_loop it (out @ map from_str (split_comma (drop 2 x)))
      else Inl (ExpectedDashO x))"

text \<open>An argument that is not UTF-8 is \<open>None\<close>.\<close>

definition parse_options_from_args ::
    "string option list \<Rightarrow> parse_error + mount_option list" where
  "parse_options_from_args args =
     (if None \<in> set args then Inl InvalidUtf8 else parse_args_loop (map the args) [])"

section \<open>Lemmas\<close>

text \<open>The strings that name an option other than a custom one.\<close>

definition reserved :: "string \<Rightarrow> bool" where
  "reserved s \<longleftrightarrow>
     s \<in> {''auto_unmount'', ''allow_other'', ''allow_root'', ''default_permissions'',
          ''dev'', ''nodev'', ''suid'', ''nosuid'', ''ro'', ''rw'', ''exec'', ''noexec'',
          ''atime'', ''noatime'', ''dirsync'', ''sync'', ''async''} \<or>
     prefix ''fsname='' s \<or> prefix ''subtype='' s"

lemma prefix_literal:
  "prefix (x # xs) ys \<longleftrightarrow> (\<exists>zs. ys = x # zs \<and> prefix xs zs)"
  by (cases ys) auto

lemma from_str_custom: "\<not> reserved s \<Longrightarrow> from_str s = CUSTOM s"
  by (simp add: reserved_def from_str_def)

lemma from_str_reserved: "reserved s \<Longrightarrow> from_str s \<noteq> CUSTOM v"
  by (auto simp: reserved_def from_str_def)

lemma from_str_fsname: "from_str (''fsname='' @ n) = FSName n"
  by (simp add: from_str_def)

lemma from_str_subtype: "from_str (''subtype='' @ n) = Subtype n"
  by (simp add: from_str_def)

lemma from_to_string:
  "from_str (option_to_string opt) = opt \<longleftrightarrow>
     opt \<noteq> AllowRoot \<and> (\<forall>v. opt = CUSTOM v \<longrightarrow> \<not> reserved v)"
proof (cases opt)
  case (FSName n)
  then show ?thesis using from_str_fsname by simp
next
  case (Subtype n)
  then show ?thesis using from_str_subtype by simp
next
  case (CUSTOM v)
  then show ?thesis using from_str_custom from_str_reserved by auto
qed (simp_all add: from_str_def)

lemma to_string_from:
  "option_to_string (from_str s) = (if s = ''allow_root'' then ''allow_other'' else s)"
  by (auto simp: from_str_def elim: prefixE)

lemma conflicts_symmetric: "a \<in> set (conflicts_with b) \<longleftrightarrow> b \<in> set (conflicts_with a)"
  by (cases a; cases b) simp_all

lemma split_comma_nonempty: "split_comma s \<noteq> []"
  by (induction s) (auto split: list.split)

text \<open>Joining parts with commas.\<close>

fun join_comma :: "string list \<Rightarrow> string" where
  "join_comma [] = []"
| "join_comma [p] = p"
| "join_comma (p # q # ps) = p @ '','' @ join_comma (q # ps)"

lemma split_comma_append:
  "CHR '','' \<notin> set p \<Longrightarrow> split_comma (p @ '','' @ s) = p # split_comma s"
  by (induction p) auto

lemma split_comma_plain: "CHR '','' \<notin> set p \<Longrightarrow> split_comma p = [p]"
  by (induction p) auto

lemma split_join_comma:
  "ps \<noteq> [] \<Longrightarrow> (\<And>p. p \<in> set ps \<Longrightarrow> CHR '','' \<notin> set p) \<Longrightarrow> split_comma (join_comma ps) = ps"
proof (induction ps rule: join_comma.induct)
  case (3 p q ps)
  then show ?case using split_comma_append [of p "join_comma (q # ps)"] by simp
qed (simp_all add: split_comma_plain)

lemma parse_args_loop_append:
  "parse_args_loop (concat (map (\<lambda>s. [''-o'', s]) ss) @ rest) out =
   parse_args_loop rest (out @ concat (map (\<lambda>s. map from_str (split_comma s)) ss))"
  by (induction ss arbitrary: out) simp_all

section \<open>Properties\<close>

text \<open>
  Printing an option and parsing it again gives the option back, except for \<open>AllowRoot\<close>, which is
  printed as \<open>allow_other\<close>, and for custom options whose text is the name of another option; parsing
  and printing again gives the text back for every string but \<open>allow_root\<close>.
\<close>

lemma mount_option_round_trip:
  "(from_str (option_to_string opt) = opt \<longleftrightarrow>
      opt \<noteq> AllowRoot \<and> (\<forall>v. opt = CUSTOM v \<longrightarrow> \<not> reserved v)) \<and>
   option_to_string (from_str s) = (if s = ''allow_root'' then ''allow_other'' else s)"
  using from_to_string to_string_from by blast

text \<open>
  The conflict check rejects a list of options exactly when it holds two options that exclude each
  other, and exclusion is symmetric.
\<close>

lemma check_option_conflicts_correct:
  "(check_option_conflicts options = Inr () \<longleftrightarrow>
      \<not> (\<exists>a \<in> set options. \<exists>b \<in> set options. b \<in> set (conflicts_with a))) \<and>
   (b \<in> set (conflicts_with a) \<longleftrightarrow> a \<in> set (conflicts_with b))"
  using conflicts_symmetric [of a b] by (auto simp: check_option_conflicts_def Let_def)

text \<open>
  A command line of option groups, each after its own \<open>-o\<close> and its options joined by commas, is
  read back as exactly those options in order.
\<close>

lemma parse_options_round_trip:
  assumes "\<And>g. g \<in> set groups \<Longrightarrow> g \<noteq> []"
    and "\<And>g opt. g \<in> set groups \<Longrightarrow> opt \<in> set g \<Longrightarrow>
           CHR '','' \<notin> set (option_to_string opt) \<and> from_str (option_to_string opt) = opt"
  shows "parse_options_from_args
           (map Some (concat (map (\<lambda>g. [''-o'', join_comma (map option_to_string g)]) groups)))
         = Inr (concat groups)"
proof -
  have split: "map from_str (split_comma (join_comma (map option_to_string g))) = g"
    if "g \<in> set groups" for g
  proof -
    have "split_comma (join_comma (map option_to_string g)) = map option_to_string g"
      using assms that by (intro split_join_comma) auto
    moreover have "map (from_str \<circ> option_to_string) g = g"
      using assms(2) that by (intro map_idI) auto
    ultimately show ?thesis by simp
  qed
  have "concat (map (\<lambda>g. [''-o'', join_comma (map option_to_string g)]) groups)
      = concat (map (\<lambda>s. [''-o'', s]) (map (\<lambda>g. join_comma (map option_to_string g)) groups)) @ []"
    by (simp add: comp_def)
  then show ?thesis
    using split parse_args_loop_append [of "map (\<lambda>g. join_comma (map option_to_string g)) groups" "[]" "[]"]
    by (simp add: parse_options_from_args_def comp_def cong: map_cong)
qed

end
