(* ===== verification/Mounting.thy ===== *)
theory Mounting
  imports Mount_Options
begin

unbundle bit_operations_syntax

text \<open>
  Mounting and unmounting (\<^verbatim>\<open>src/fuse/src/uring_fuse/mount/\<close>): the flags and the option string of the system
  call, the fall-back to the helper program and the message with which it hands over the device, and what
  dropping a mount does. What the system answers is given by the record \<open>mount_env\<close>, one answer per call; the
  calls that change something outside are listed in order as effects. The two loops that repeat interrupted
  calls run over the answers they get, and have no value yet when these run out.
\<close>

section \<open>The system\<close>

type_synonym c_int = "32 word"

datatype io_kind = PermissionDenied | Interrupted | UnexpectedEof | InvalidData | OtherKind nat

datatype recv_answer = RecvErr io_kind | RecvMsg nat "(c_int \<times> c_int) option"

datatype poll_answer = PollErr io_kind | PollReady nat c_int

datatype mount_effect =
    EMount string string u64 string
  | EUmount string
  | EUmountDetach string
  | ESpawn string "string list"
  | EWait
  | ECloseDevice c_int
  | ECloseSocket c_int

text \<open>
  Whether debugging messages are printed, whether a path is UTF-8, and a path with what is not replaced; and
  the answers. An output is what a program wrote as its errors.
\<close>

record mount_env =
  env_debug :: bool
  env_utf8 :: "string \<Rightarrow> bool"
  env_lossy :: "string \<Rightarrow> string"
  env_canonicalize :: "string \<Rightarrow> io_kind + string"
  env_mode :: "string \<Rightarrow> io_kind + u32"
  env_open_device :: "io_kind + c_int"
  env_uid :: u32
  env_gid :: u32
  env_mount :: "string \<Rightarrow> string \<Rightarrow> u64 \<Rightarrow> string \<Rightarrow> io_kind + unit"
  env_umount :: "string \<Rightarrow> io_kind + unit"
  env_umount_detach :: "string \<Rightarrow> bool"
  env_probe :: "string \<Rightarrow> bool"
  env_socketpair :: "io_kind + c_int \<times> c_int"
  env_spawn :: "string \<Rightarrow> string list \<Rightarrow> io_kind + unit"
  env_recv :: "recv_answer list"
  env_output :: "io_kind + string"

section \<open>Flags and options\<close>

abbreviation (input) MS_RDONLY :: u64 where "MS_RDONLY \<equiv> 0x1"
abbreviation (input) MS_NOSUID :: u64 where "MS_NOSUID \<equiv> 0x2"
abbreviation (input) MS_NODEV :: u64 where "MS_NODEV \<equiv> 0x4"
abbreviation (input) MS_NOEXEC :: u64 where "MS_NOEXEC \<equiv> 0x8"
abbreviation (input) MS_SYNCHRONOUS :: u64 where "MS_SYNCHRONOUS \<equiv> 0x10"
abbreviation (input) MS_DIRSYNC :: u64 where "MS_DIRSYNC \<equiv> 0x80"
abbreviation (input) MS_NOATIME :: u64 where "MS_NOATIME \<equiv> 0x400"
abbreviation (input) POLLERR :: c_int where "POLLERR \<equiv> 0x8"
abbreviation (input) SCM_RIGHTS :: c_int where "SCM_RIGHTS \<equiv> 1"

datatype mount_option_group = KernelOption | KernelFlag | Fusermount

fun option_group :: "mount_option \<Rightarrow> mount_option_group" where
  "option_group (FSName name) = Fusermount"
| "option_group (Subtype subtype) = Fusermount"
| "option_group (CUSTOM value) = KernelOption"
| "option_group AutoUnmount = Fusermount"
| "option_group AllowOther = KernelOption"
| "option_group Dev = KernelFlag"
| "option_group NoDev = KernelFlag"
| "option_group Suid = KernelFlag"
| "option_group NoSuid = KernelFlag"
| "option_group RO = KernelFlag"
| "option_group RW = KernelFlag"
| "option_group Exec = KernelFlag"
| "option_group NoExec = KernelFlag"
| "option_group Atime = KernelFlag"
| "option_group NoAtime = KernelFlag"
| "option_group DirSync = KernelFlag"
| "option_group Sync = KernelFlag"
| "option_group Async = KernelFlag"
| "option_group AllowRoot = KernelOption"
| "option_group DefaultPermissions = KernelOption"

fun option_to_flag :: "mount_option \<Rightarrow> u64 outcome" where
  "option_to_flag Dev = Ret 0"
| "option_to_flag NoDev = Ret MS_NODEV"
| "option_to_flag Suid = Ret 0"
| "option_to_flag NoSuid = Ret MS_NOSUID"
| "option_to_flag RW = Ret 0"
| "option_to_flag RO = Ret MS_RDONLY"
| "option_to_flag Exec = Ret 0"
| "option_to_flag NoExec = Ret MS_NOEXEC"
| "option_to_flag Atime = Ret 0"
| "option_to_flag NoAtime = Ret MS_NOATIME"
| "option_to_flag Async = Ret 0"
| "option_to_flag Sync = Ret MS_SYNCHRONOUS"
| "option_to_flag DirSync = Ret MS_DIRSYNC"
| "option_to_flag _ = Panic ''internal error: entered unreachable code''"

fun add_flags :: "mount_option list \<Rightarrow> u64 \<Rightarrow> u64 outcome" where
  "add_flags [] flags = Ret flags"
| "add_flags (x # xs) flags = bind_outcome (option_to_flag x) (\<lambda>f. add_flags xs (flags OR f))"

definition mount_flags :: "mount_option list \<Rightarrow> u64 outcome" where
  "mount_flags options =
     (let f0 = (if Dev \<notin> set options then MS_NODEV else 0);
          f1 = (if Suid \<notin> set options then f0 OR MS_NOSUID else f0) in
      add_flags (filter (\<lambda>x. option_group x = KernelFlag) options) f1)"

fun show_radix :: "nat \<Rightarrow> nat \<Rightarrow> string" where
  "show_radix b n =
     (if b < 2 \<or> n < b then [''0123456789'' ! n] else show_radix b (n div b) @ [''0123456789'' ! (n mod b)])"

declare show_radix.simps [simp del]

definition mount_option_string :: "mount_env \<Rightarrow> c_int \<Rightarrow> u32 \<Rightarrow> mount_option list \<Rightarrow> string" where
  "mount_option_string env fd mode options =
     ''fd='' @ show_radix 10 (unat fd) @ '',rootmode='' @ show_radix 8 (unat mode) @
     '',user_id='' @ show_radix 10 (unat (env_uid env)) @ '',group_id='' @ show_radix 10 (unat (env_gid env)) @
     concat (map (\<lambda>x. '','' @ option_to_string x) (filter (\<lambda>x. option_group x = KernelOption) options))"

fun find_subtype :: "mount_option list \<Rightarrow> string option" where
  "find_subtype [] = None"
| "find_subtype (x # xs) = (case x of Subtype s \<Rightarrow> Some s | _ \<Rightarrow> find_subtype xs)"

fun find_fsname :: "mount_option list \<Rightarrow> string option" where
  "find_fsname [] = None"
| "find_fsname (x # xs) = (case x of FSName s \<Rightarrow> Some s | _ \<Rightarrow> find_fsname xs)"

definition mount_source :: "mount_option list \<Rightarrow> string" where
  "mount_source options =
     (case find_fsname options of
        Some name \<Rightarrow> name
      | None \<Rightarrow> (case find_subtype options of Some subtype \<Rightarrow> subtype | None \<Rightarrow> ''/dev/fuse''))"

section \<open>Mounting\<close>

definition has_nul :: "string \<Rightarrow> bool" where
  "has_nul s \<longleftrightarrow> CHR 0x00 \<in> set s"

text \<open>Without a value, the helper program is to be tried; a device that is not returned is closed.\<close>

definition fuse_mount_sys ::
    "mount_env \<Rightarrow> string \<Rightarrow> mount_option list \<Rightarrow> ((io_kind + c_int option) \<times> mount_effect list) outcome" where
  "fuse_mount_sys env mountpoint options =
     (case env_mode env mountpoint of
        Inl e \<Rightarrow> Ret (Inl e, [])
      | Inr mode \<Rightarrow>
          if AutoUnmount \<in> set options then Panic ''assertion failed: !options.contains(&MountOption::AutoUnmount)''
          else (case env_open_device env of
            Inl e \<Rightarrow> Ret (Inl e, [])
          | Inr fd \<Rightarrow>
              if sint fd \<le> 2 then Panic ''Conflict with stdin/stdout/stderr''
              else
                bind_outcome (mount_flags options) (\<lambda>flags.
                  let opts = mount_option_string env fd mode options; source = mount_source options in
                  if has_nul source \<or> has_nul mountpoint \<or> has_nul opts then Panic ''called unwrap on an Err value''
                  else
                    (case env_mount env source mountpoint flags opts of
                       Inl e \<Rightarrow>
                         Ret (if e = PermissionDenied then Inr None else Inl e,
                              [EMount source mountpoint flags opts, ECloseDevice fd])
                     | Inr _ \<Rightarrow> Ret (Inr (Some fd), [EMount source mountpoint flags opts])))))"

definition detect_fusermount_bin :: "mount_env \<Rightarrow> string" where
  "detect_fusermount_bin env =
     (case find (env_probe env) [''fusermount3'', ''fusermount'', ''/bin/fusermount3'', ''/bin/fusermount''] of
        Some name \<Rightarrow> name
      | None \<Rightarrow> ''fusermount3'')"

text \<open>A message with data need not have a control message; reading one that is not there is undefined.\<close>

fun receive_fusermount_message :: "recv_answer list \<Rightarrow> (io_kind + c_int) outcome option" where
  "receive_fusermount_message [] = None"
| "receive_fusermount_message (RecvErr e # answers) =
     (if e = Interrupted then receive_fusermount_message answers else Some (Ret (Inl e)))"
| "receive_fusermount_message (RecvMsg n control # answers) =
     Some (if n = 0 then Ret (Inl UnexpectedEof)
           else case control of
             None \<Rightarrow> Undefined ''null control message''
           | Some (cmsg_type, fd) \<Rightarrow>
               if cmsg_type \<noteq> SCM_RIGHTS then Ret (Inl InvalidData)
               else if sint fd < 0 then Ret (Inl InvalidData)
               else Ret (Inr fd))"

definition needs_allow_other :: "string \<Rightarrow> bool" where
  "needs_allow_other s \<longleftrightarrow> sublist ''only allowed if 'user_allow_other' is set'' s"

definition fusermount_args :: "string \<Rightarrow> mount_option list \<Rightarrow> string list" where
  "fusermount_args mountpoint options =
     (if options = [] then [] else [''-o'', join_comma (map option_to_string options)]) @ [''--'', mountpoint]"

definition fuse_mount_fusermount ::
    "mount_env \<Rightarrow> string \<Rightarrow> mount_option list \<Rightarrow> ((io_kind + c_int \<times> c_int option) \<times> mount_effect list) outcome option" where
  "fuse_mount_fusermount env mountpoint options =
     (if env_debug env \<and> \<not> env_utf8 env mountpoint then Some (Panic ''called unwrap on a None value'')
      else case env_socketpair env of
        Inl e \<Rightarrow> Some (Ret (Inl e, []))
      | Inr (child_socket, receive_socket) \<Rightarrow>
          let bin = detect_fusermount_bin env; args = fusermount_args mountpoint options in
          (case env_spawn env bin args of
             Inl e \<Rightarrow> Some (Ret (Inl e, [ECloseSocket receive_socket, ECloseSocket child_socket]))
           | Inr _ \<Rightarrow>
               let spawned = [ESpawn bin args, ECloseSocket child_socket] in
               map_option (\<lambda>r. bind_outcome r (\<lambda>msg.
                 case msg of
                   Inl _ \<Rightarrow>
                     (case env_output env of
                        Inl _ \<Rightarrow> Panic ''called unwrap on an Err value''
                      | Inr stderr \<Rightarrow>
                          Ret (Inl (if needs_allow_other stderr then PermissionDenied else OtherKind 0),
                               spawned @ [ECloseSocket receive_socket, EWait]))
                 | Inr fd \<Rightarrow>
                     if AutoUnmount \<notin> set options then
                       (case env_output env of
                          Inl e \<Rightarrow> Ret (Inl e, spawned @ [ECloseSocket receive_socket, EWait, ECloseDevice fd])
                        | Inr _ \<Rightarrow> Ret (Inr (fd, None), spawned @ [ECloseSocket receive_socket, EWait]))
                     else Ret (Inr (fd, Some receive_socket), spawned)))
                 (receive_fusermount_message (env_recv env))))"

definition fuse_mount_pure ::
    "mount_env \<Rightarrow> string \<Rightarrow> mount_option list \<Rightarrow> ((io_kind + c_int \<times> c_int option) \<times> mount_effect list) outcome option" where
  "fuse_mount_pure env mountpoint options =
     (if AutoUnmount \<in> set options then fuse_mount_fusermount env mountpoint options
      else case fuse_mount_sys env mountpoint options of
        Panic m \<Rightarrow> Some (Panic m)
      | Undefined m \<Rightarrow> Some (Undefined m)
      | Ret (res, es) \<Rightarrow>
          (case res of
             Inl e \<Rightarrow> Some (Ret (Inl e, es))
           | Inr (Some file) \<Rightarrow> Some (Ret (Inr (file, None), es))
           | Inr None \<Rightarrow>
               map_option (\<lambda>r. bind_outcome r (\<lambda>(res1, es1). Ret (res1, es @ es1)))
                 (fuse_mount_fusermount env mountpoint options)))"

record mount =
  mountpoint :: string
  auto_unmount_socket :: "c_int option"
  fuse_device :: c_int

definition mount_new ::
    "mount_env \<Rightarrow> string \<Rightarrow> mount_option list \<Rightarrow> ((io_kind + c_int \<times> mount) \<times> mount_effect list) outcome option" where
  "mount_new env path options =
     (case env_canonicalize env path of
        Inl e \<Rightarrow> Some (Ret (Inl e, []))
      | Inr real \<Rightarrow>
          map_option (\<lambda>r. bind_outcome r (\<lambda>(res, es).
            case res of
              Inl e \<Rightarrow> Ret (Inl e, es)
            | Inr (file, sock) \<Rightarrow>
                if has_nul real then
                  Ret (Inl (OtherKind 1), es @ (case sock of Some s \<Rightarrow> [ECloseSocket s] | None \<Rightarrow> []) @ [ECloseDevice file])
                else Ret (Inr (file, \<lparr>mountpoint = real, auto_unmount_socket = sock, fuse_device = file\<rparr>), es)))
            (fuse_mount_pure env real options))"

section \<open>Unmounting\<close>

fun is_mounted :: "poll_answer list \<Rightarrow> bool outcome option" where
  "is_mounted [] = None"
| "is_mounted (PollErr e # answers) =
     (if e = Interrupted then is_mounted answers else Some (Panic ''Poll failed with error''))"
| "is_mounted (PollReady res revents # answers) =
     Some (if res = 0 then Ret True
           else if res = 1 then Ret (revents AND POLLERR \<noteq> 0)
           else Panic ''internal error: entered unreachable code'')"

definition fuse_unmount_pure :: "mount_env \<Rightarrow> string \<Rightarrow> mount_effect list" where
  "fuse_unmount_pure env mp =
     EUmountDetach mp #
     (if env_umount_detach env mp then []
      else let bin = detect_fusermount_bin env; args = [''-u'', ''-q'', ''-z'', ''--'', env_lossy env mp] in
        (case env_spawn env bin args of Inl _ \<Rightarrow> [] | Inr _ \<Rightarrow> [ESpawn bin args, EWait]))"

definition mount_drop :: "mount_env \<Rightarrow> poll_answer list \<Rightarrow> mount \<Rightarrow> mount_effect list outcome option" where
  "mount_drop env polls m =
     map_option (\<lambda>r. bind_outcome r (\<lambda>mounted.
       Ret (if \<not> mounted then []
            else case auto_unmount_socket m of
              Some sock \<Rightarrow> [ECloseSocket sock]
            | None \<Rightarrow>
                EUmount (mountpoint m) #
                (case env_umount env (mountpoint m) of
                   Inr _ \<Rightarrow> []
                 | Inl e \<Rightarrow> if e = PermissionDenied then fuse_unmount_pure env (mountpoint m) else []))))
       (is_mounted polls)"

section \<open>Which flags are set\<close>

definition flag_of :: "mount_option \<Rightarrow> u64" where
  "flag_of x = (case option_to_flag x of Ret f \<Rightarrow> f | _ \<Rightarrow> 0)"

lemma option_to_flag_Ret: "option_group x = KernelFlag \<Longrightarrow> option_to_flag x = Ret (flag_of x)"
  by (cases x) (simp_all add: flag_of_def)

lemma add_flags_bit:
  assumes "\<forall>x \<in> set xs. option_group x = KernelFlag"
  shows "\<exists>g. add_flags xs f = Ret g \<and> (\<forall>n. bit g n \<longleftrightarrow> bit f n \<or> (\<exists>x \<in> set xs. bit (flag_of x) n))"
  using assms
proof (induction xs arbitrary: f)
  case (Cons x xs)
  then obtain g where "add_flags xs (f OR flag_of x) = Ret g"
      "\<forall>n. bit g n \<longleftrightarrow> bit (f OR flag_of x) n \<or> (\<exists>x \<in> set xs. bit (flag_of x) n)"
    by (metis list.set_intros(2))
  with Cons.prems show ?case by (auto simp: option_to_flag_Ret bit_or_iff)
qed simp

lemma mount_flags_bit:
  "\<exists>g. mount_flags options = Ret g \<and>
     (\<forall>n. bit g n \<longleftrightarrow> n = 2 \<and> Dev \<notin> set options \<or> n = 1 \<and> Suid \<notin> set options \<or>
        (\<exists>x \<in> set options. option_group x = KernelFlag \<and> bit (flag_of x) n))"
proof -
  let ?f = "(if Suid \<notin> set options then (if Dev \<notin> set options then MS_NODEV else 0) OR MS_NOSUID
    else (if Dev \<notin> set options then MS_NODEV else 0)) :: u64"
  have "bit (4 :: u64) n \<longleftrightarrow> n = 2" "bit (2 :: u64) n \<longleftrightarrow> n = 1" for n
    using bit_exp_iff [where m = 2 and n = n and 'a = "64 word"] bit_exp_iff [where m = 1 and n = n and 'a = "64 word"] by auto
  then have start: "bit ?f n \<longleftrightarrow> n = 2 \<and> Dev \<notin> set options \<or> n = 1 \<and> Suid \<notin> set options" for n
    by (simp add: bit_or_iff)
  let ?xs = "filter (\<lambda>x. option_group x = KernelFlag) options"
  have "\<forall>x \<in> set ?xs. option_group x = KernelFlag" by simp
  from add_flags_bit [OF this, of ?f] obtain g where g: "add_flags ?xs ?f = Ret g"
      "\<And>n. bit g n \<longleftrightarrow> bit ?f n \<or> (\<exists>x \<in> set ?xs. bit (flag_of x) n)" by blast
  have "mount_flags options = Ret g" unfolding mount_flags_def Let_def using g(1) by (simp only: if_distrib)
  moreover have "bit g n \<longleftrightarrow> n = 2 \<and> Dev \<notin> set options \<or> n = 1 \<and> Suid \<notin> set options \<or>
      (\<exists>x \<in> set options. option_group x = KernelFlag \<and> bit (flag_of x) n)" for n
    unfolding g(2) start by auto
  ultimately show ?thesis by blast
qed

text \<open>The options that set a bit.\<close>

lemma flag_of_bits:
  assumes "option_group x = KernelFlag"
  shows "bit (flag_of x) 0 = (x = RO)" "bit (flag_of x) 1 = (x = NoSuid)" "bit (flag_of x) 2 = (x = NoDev)"
    "bit (flag_of x) 3 = (x = NoExec)" "bit (flag_of x) 4 = (x = Sync)" "bit (flag_of x) 7 = (x = DirSync)"
    "bit (flag_of x) 10 = (x = NoAtime)"
  using assms by (cases x; simp add: flag_of_def bit_numeral_rec)+

lemma mount_flags_exact:
  assumes "mount_flags options = Ret flags"
  shows "(flags AND MS_NODEV \<noteq> 0 \<longleftrightarrow> Dev \<notin> set options \<or> NoDev \<in> set options) \<and>
    (flags AND MS_NOSUID \<noteq> 0 \<longleftrightarrow> Suid \<notin> set options \<or> NoSuid \<in> set options) \<and>
    (flags AND MS_RDONLY \<noteq> 0 \<longleftrightarrow> RO \<in> set options) \<and> (flags AND MS_NOEXEC \<noteq> 0 \<longleftrightarrow> NoExec \<in> set options) \<and>
    (flags AND MS_SYNCHRONOUS \<noteq> 0 \<longleftrightarrow> Sync \<in> set options) \<and> (flags AND MS_DIRSYNC \<noteq> 0 \<longleftrightarrow> DirSync \<in> set options) \<and>
    (flags AND MS_NOATIME \<noteq> 0 \<longleftrightarrow> NoAtime \<in> set options)"
proof -
  have bits: "bit flags n \<longleftrightarrow> n = 2 \<and> Dev \<notin> set options \<or> n = 1 \<and> Suid \<notin> set options \<or>
      (\<exists>x \<in> set options. option_group x = KernelFlag \<and> bit (flag_of x) n)" for n
    using mount_flags_bit [of options] assms by auto
  have test: "flags AND 2 ^ n \<noteq> 0 \<longleftrightarrow> bit flags n" for n by (simp add: and_exp_eq_0_iff_not_bit)
  have ex: "(\<exists>x \<in> set options. option_group x = KernelFlag \<and> bit (flag_of x) n) \<longleftrightarrow> y \<in> set options"
    if "\<And>x. option_group x = KernelFlag \<Longrightarrow> bit (flag_of x) n = (x = y)" "option_group y = KernelFlag" for n y
    using that by blast
  have "bit flags 2 \<longleftrightarrow> Dev \<notin> set options \<or> NoDev \<in> set options"
    "bit flags 1 \<longleftrightarrow> Suid \<notin> set options \<or> NoSuid \<in> set options"
    "bit flags 0 \<longleftrightarrow> RO \<in> set options" "bit flags 3 \<longleftrightarrow> NoExec \<in> set options" "bit flags 4 \<longleftrightarrow> Sync \<in> set options"
    "bit flags 7 \<longleftrightarrow> DirSync \<in> set options" "bit flags 10 \<longleftrightarrow> NoAtime \<in> set options"
    unfolding bits using ex [of 2 NoDev] ex [of 1 NoSuid] ex [of 0 RO] ex [of 3 NoExec] ex [of 4 Sync] ex [of 7 DirSync]
      ex [of 10 NoAtime] flag_of_bits by simp_all
  then show ?thesis
    using test [of 2] test [of 1] test [of 0] test [of 3] test [of 4] test [of 7] test [of 10] by simp
qed

section \<open>Properties\<close>

text \<open>The system call never reaches unreachable code; it panics for standard descriptors and zero bytes only.\<close>

lemma mount_sys_ok:
  assumes "AutoUnmount \<notin> set options"
  shows "ok {''Conflict with stdin/stdout/stderr'', ''called unwrap on an Err value''} (fuse_mount_sys env mp options) (\<lambda>_. True)"
  using assms mount_flags_bit [of options] by (auto simp: fuse_mount_sys_def Let_def ok_bind split: sum.split)

lemma fusermount_socket:
  assumes "fuse_mount_fusermount env mp options = Some (Ret (Inr (file, sock), es))"
  shows "(sock \<noteq> None \<longleftrightarrow> AutoUnmount \<in> set options) \<and> (\<forall>e \<in> set es. \<forall>a b c d. e \<noteq> EMount a b c d)"
  using assms
  by (auto simp: fuse_mount_fusermount_def Let_def split: if_splits sum.splits elim!: bind_outcome_RetE)

lemma mount_sys_flags:
  assumes "fuse_mount_sys env mp options = Ret (r, es)" and "EMount src m flags opts \<in> set es"
  shows "m = mp \<and> mount_flags options = Ret flags \<and> AutoUnmount \<notin> set options"
  using assms
  by (auto simp: fuse_mount_sys_def Let_def split: if_splits sum.splits elim!: bind_outcome_RetE)

text \<open>
  A mount that succeeds has a socket to the helper program exactly when it is to be unmounted automatically.
  If the system call was made, it was made with the path asked for and with the flags the options ask for:
  devices and set-user-id bits are off unless they are asked for.
\<close>

lemma mount_options_honoured:
  assumes "fuse_mount_pure env mp options = Some (Ret (Inr (file, sock), es))"
  shows "(sock \<noteq> None \<longleftrightarrow> AutoUnmount \<in> set options) \<and>
    (\<forall>src m flags opts. EMount src m flags opts \<in> set es \<longrightarrow>
       m = mp \<and> (flags AND MS_NODEV \<noteq> 0 \<longleftrightarrow> Dev \<notin> set options \<or> NoDev \<in> set options) \<and>
       (flags AND MS_NOSUID \<noteq> 0 \<longleftrightarrow> Suid \<notin> set options \<or> NoSuid \<in> set options) \<and>
       (flags AND MS_RDONLY \<noteq> 0 \<longleftrightarrow> RO \<in> set options) \<and> (flags AND MS_NOEXEC \<noteq> 0 \<longleftrightarrow> NoExec \<in> set options))"
proof (cases "AutoUnmount \<in> set options")
  case True
  with assms have "fuse_mount_fusermount env mp options = Some (Ret (Inr (file, sock), es))" by (simp add: fuse_mount_pure_def)
  from fusermount_socket [OF this] show ?thesis by blast
next
  case False
  have "\<exists>r es0 es1. fuse_mount_sys env mp options = Ret (r, es0) \<and> es = es0 @ es1 \<and>
      (es1 = [] \<and> sock = None \<or> fuse_mount_fusermount env mp options = Some (Ret (Inr (file, sock), es1)))"
    using assms False
    by (auto simp: fuse_mount_pure_def split: outcome.splits prod.splits sum.splits option.splits elim!: bind_outcome_RetE)
  then obtain r es0 es1 where sys: "fuse_mount_sys env mp options = Ret (r, es0)" "es = es0 @ es1"
    and rest: "es1 = [] \<and> sock = None \<or> fuse_mount_fusermount env mp options = Some (Ret (Inr (file, sock), es1))" by blast
  have "m = mp \<and> mount_flags options = Ret flags" if "EMount src m flags opts \<in> set es" for src m flags opts
  proof -
    have "EMount src m flags opts \<in> set es0" using rest that sys(2) fusermount_socket by fastforce
    from mount_sys_flags [OF sys(1) this] show ?thesis by simp
  qed
  moreover have "sock = None" using rest fusermount_socket False by blast
  ultimately show ?thesis using mount_flags_exact False by blast
qed


section \<open>Witnesses\<close>

definition example_env :: mount_env where
  "example_env =
     \<lparr>env_debug = False, env_utf8 = (\<lambda>_. True), env_lossy = (\<lambda>s. s), env_canonicalize = Inr, env_mode = (\<lambda>_. Inr 0x41ED),
      env_open_device = Inr 3, env_uid = 0, env_gid = 0, env_mount = (\<lambda>_ _ _ _. Inr ()), env_umount = (\<lambda>_. Inr ()),
      env_umount_detach = (\<lambda>_. True), env_probe = (\<lambda>_. True), env_socketpair = Inr (4, 5), env_spawn = (\<lambda>_ _. Inr ()),
      env_recv = [], env_output = Inr []\<rparr>"


end
