(* ===== verification/Argument.thy ===== *)
theory Argument
  imports Prelude
begin

text \<open>
  Reading typed arguments out of a request buffer
  (\<^verbatim>\<open>src/fuse/src/uring_fuse/low_level/argument.rs\<close>).

  The structures of the FUSE interface are \<^verbatim>\<open>repr(C)\<close> structures of little-endian integers without
  implicit padding, read in place from the buffer. A \<open>layout\<close> collects what the language gives for
  such a structure: its size, its alignment, and the correspondence with bytes. The locale
  \<open>abi_struct\<close> is the contract of a layout; the iterator's lemmas are proved once inside it and
  each structure interprets it.

  The iterator keeps the address of its data, since a fetch at an address that is not a multiple of
  the alignment panics.
\<close>

section \<open>Little-endian integers\<close>

definition le_bytes :: "nat \<Rightarrow> 'a::len word \<Rightarrow> bytes" where
  "le_bytes k w = map (\<lambda>i. ucast (drop_bit (8 * i) w)) [0..<k]"

definition le_word :: "bytes \<Rightarrow> 'a::len word" where
  "le_word bs = foldr (\<lambda>b acc. ucast b OR push_bit 8 acc) bs 0"

lemma length_le_bytes [simp]: "length (le_bytes k w) = k"
  by (simp add: le_bytes_def)

lemma le_word_Nil [simp]: "le_word [] = 0"
  by (simp add: le_word_def)

lemma le_word_Cons: "le_word (b # bs) = ucast b OR push_bit 8 (le_word bs)"
  by (simp add: le_word_def)

lemma bit_le_word:
  "bit (le_word bs :: 'a::len word) n \<longleftrightarrow>
     n < LENGTH('a) \<and> n div 8 < length bs \<and> bit (bs ! (n div 8)) (n mod 8)"
proof (induction bs arbitrary: n)
  case Nil
  then show ?case by simp
next
  case (Cons b bs)
  show ?case
  proof (cases "n < 8")
    case True
    then show ?thesis by (auto simp: le_word_Cons bit_simps dest: bit_imp_le_length)
  next
    case False
    define m where "m = n - 8"
    have n: "n = m + 8" using False by (simp add: m_def)
    have d: "(m + 8) div 8 = Suc (m div 8)" by simp
    show ?thesis
      using Cons.IH [of m] by (auto simp: le_word_Cons bit_simps n d simp del: div_add_self2 dest: bit_imp_le_length)
  qed
qed

lemma le_word_le_bytes [simp]:
  assumes "8 * k = LENGTH('a::len)"
  shows "le_word (le_bytes k (w :: 'a word)) = w"
proof (rule bit_word_eqI)
  fix n assume "n < LENGTH('a)"
  then have "n div 8 < k" using assms by auto
  then show "bit (le_word (le_bytes k w) :: 'a word) n = bit w n"
    using \<open>n < LENGTH('a)\<close> by (auto simp: bit_le_word le_bytes_def bit_simps)
qed

lemma le_bytes_le_word [simp]:
  assumes "8 * k = LENGTH('a::len)" and "length bs = k"
  shows "le_bytes k (le_word bs :: 'a word) = bs"
proof (rule nth_equalityI)
  fix i assume "i < length (le_bytes k (le_word bs :: 'a word))"
  then have i: "i < k" by simp
  show "le_bytes k (le_word bs :: 'a word) ! i = bs ! i"
  proof (rule bit_word_eqI)
    fix n assume "n < LENGTH(8)"
    with i assms show "bit (le_bytes k (le_word bs :: 'a word) ! i) n = bit (bs ! i) n"
      by (simp add: le_bytes_def bit_simps bit_le_word)
  qed
qed (use assms in simp)

text \<open>The bytes of a field: \<open>k\<close> bytes from offset \<open>off\<close>.\<close>

definition field :: "nat \<Rightarrow> nat \<Rightarrow> bytes \<Rightarrow> bytes" where
  "field off k bs = take k (drop off bs)"

lemma length_field [simp]: "off + k \<le> length bs \<Longrightarrow> length (field off k bs) = k"
  by (simp add: field_def)

lemma field_append: "p = off + k \<Longrightarrow> field off k bs @ field p j bs = field off (k + j) bs"
  by (simp add: field_def take_add drop_drop add.commute [of k off])

lemma field_0: "field 0 k bs = take k bs"
  by (simp add: field_def)

lemma take_field: "take k bs @ field k j bs = take (k + j) bs"
  by (simp add: field_def take_add)

lemma take_of_field: "take k (field off k bs) = field off k bs"
  by (simp add: field_def)

lemma field_append_skip: "length xs \<le> off \<Longrightarrow> field off k (xs @ ys) = field (off - length xs) k ys"
  by (simp add: field_def)

lemma field_append_take: "length xs = k \<Longrightarrow> field 0 k (xs @ ys) = xs"
  by (simp add: field_def)

lemma field_exact: "length xs = k \<Longrightarrow> field 0 k xs = xs"
  by (simp add: field_def)

lemmas abi_field_simps = field_append field_0 take_field take_of_field field_append_skip
  field_append_take field_exact

section \<open>The iterator\<close>

record arg_iter =
  addr :: nat
  data :: bytes

record 'a layout =
  size_of :: nat
  align_of :: nat
  from_bytes :: "bytes \<Rightarrow> 'a"
  as_bytes :: "'a \<Rightarrow> bytes"

text \<open>
  \<open>None\<close> leaves the function that fetches, as the \<^verbatim>\<open>?\<close> of the source does.
\<close>

type_synonym 'a parser = "arg_iter \<Rightarrow> ('a \<times> arg_iter) option outcome"

definition arg_new :: "nat \<Rightarrow> bytes \<Rightarrow> arg_iter" where
  "arg_new a bs = \<lparr>addr = a, data = bs\<rparr>"

definition arg_len :: "arg_iter \<Rightarrow> nat" where
  "arg_len it = length (data it)"

definition fetch_all :: "bytes parser" where
  "fetch_all it = Ret (Some (data it, it\<lparr>data := []\<rparr>))"

text \<open>
  The first match arm is a buffer that is too short or not aligned for the type; an unaligned one
  panics.
\<close>

definition fetch :: "'a layout \<Rightarrow> 'a parser" where
  "fetch l it =
     (if length (data it) < size_of l \<or> addr it mod align_of l \<noteq> 0 then
        (if addr it mod align_of l \<noteq> 0 then Panic ''Data unaligned'' else Ret None)
      else Ret (Some (from_bytes l (data it),
                      \<lparr>addr = addr it + size_of l, data = drop (size_of l) (data it)\<rparr>)))"

definition fetch_slice :: "'a layout \<Rightarrow> nat \<Rightarrow> 'a list parser" where
  "fetch_slice l n it =
     (if length (data it) < size_of l * n \<or> addr it mod align_of l \<noteq> 0 then
        (if addr it mod align_of l \<noteq> 0 then Panic ''Data unaligned'' else Ret None)
      else Ret (Some (map (\<lambda>i. from_bytes l (drop (size_of l * i) (data it))) [0..<n],
                      \<lparr>addr = addr it + size_of l * n, data = drop (size_of l * n) (data it)\<rparr>)))"

definition fetch_str :: "bytes parser" where
  "fetch_str it =
     (if 0 \<in> set (data it) then
        (let out = takeWhile (\<lambda>b. b \<noteq> 0) (data it) in
         Ret (Some (out, \<lparr>addr = addr it + length out + 1, data = drop (length out + 1) (data it)\<rparr>)))
      else Ret None)"

definition p_bind :: "'a parser \<Rightarrow> ('a \<Rightarrow> 'b parser) \<Rightarrow> 'b parser" where
  "p_bind p f it =
     bind_outcome (p it) (\<lambda>r. case r of None \<Rightarrow> Ret None | Some (x, it') \<Rightarrow> f x it')"

definition p_return :: "'a \<Rightarrow> 'a parser" where
  "p_return x it = Ret (Some (x, it))"

definition p_assert :: "string \<Rightarrow> bool \<Rightarrow> 'a parser \<Rightarrow> 'a parser" where
  "p_assert m b p it = (if b then p it else Panic m)"

section \<open>Lemmas\<close>

named_theorems parse_simps "when the steps of a parser return a value"
named_theorems encode_simps "what the steps of a parser return on encoded arguments"
named_theorems panic_simps "when the steps of a parser panic"

lemma p_bind_Some [parse_simps]:
  "p_bind p f it = Ret (Some r) \<longleftrightarrow> (\<exists>x it'. p it = Ret (Some (x, it')) \<and> f x it' = Ret (Some r))"
  by (auto simp: p_bind_def outcome_simps split: option.splits prod.splits)

lemma p_return_Some [parse_simps]: "p_return x it = Ret (Some r) \<longleftrightarrow> r = (x, it)"
  by (auto simp: p_return_def)

lemma p_assert_Some [parse_simps]:
  "p_assert m b p it = Ret (Some r) \<longleftrightarrow> b \<and> p it = Ret (Some r)"
  by (simp add: p_assert_def)

lemma fetch_all_Some [parse_simps]:
  "fetch_all it = Ret (Some (x, it')) \<longleftrightarrow> x = data it \<and> it' = it\<lparr>data := []\<rparr>"
  by (auto simp: fetch_all_def)

lemma takeWhile_zero_split:
  "0 \<in> set (bs :: bytes) \<Longrightarrow>
     bs = takeWhile (\<lambda>b. b \<noteq> 0) bs @ 0 # drop (length (takeWhile (\<lambda>b. b \<noteq> 0) bs) + 1) bs"
  by (induction bs) auto

lemma takeWhile_zero_append:
  "0 \<notin> set s \<Longrightarrow> takeWhile (\<lambda>b. b \<noteq> 0) (s @ 0 # rest) = (s :: bytes)"
  by (induction s) auto

lemma fetch_str_Some [parse_simps]:
  "fetch_str it = Ret (Some (s, it')) \<longleftrightarrow>
     data it = s @ 0 # data it' \<and> 0 \<notin> set s \<and> addr it' = addr it + length s + 1"
proof
  assume "fetch_str it = Ret (Some (s, it'))"
  then have "0 \<in> set (data it)" and s: "s = takeWhile (\<lambda>b. b \<noteq> 0) (data it)"
    and it': "it' = \<lparr>addr = addr it + length s + 1, data = drop (length s + 1) (data it)\<rparr>"
    by (auto simp: fetch_str_def Let_def split: if_splits)
  then show "data it = s @ 0 # data it' \<and> 0 \<notin> set s \<and> addr it' = addr it + length s + 1"
    using takeWhile_zero_split [of "data it"] by (auto dest: set_takeWhileD)
next
  assume "data it = s @ 0 # data it' \<and> 0 \<notin> set s \<and> addr it' = addr it + length s + 1"
  then show "fetch_str it = Ret (Some (s, it'))"
    by (cases it') (simp add: fetch_str_def takeWhile_zero_append)
qed

lemma p_bind_Ret [encode_simps]: "p it = Ret (Some (x, it')) \<Longrightarrow> p_bind p f it = f x it'"
  by (simp add: p_bind_def)

lemma p_return_eval [encode_simps]: "p_return x it = Ret (Some (x, it))"
  by (simp add: p_return_def)

lemma p_assert_True [encode_simps]: "b \<Longrightarrow> p_assert m b p it = p it"
  by (simp add: p_assert_def)

lemma fetch_all_eval [encode_simps]:
  "fetch_all \<lparr>addr = a, data = d\<rparr> = Ret (Some (d, \<lparr>addr = a, data = []\<rparr>))"
  by (simp add: fetch_all_def)

lemma fetch_str_encoded [encode_simps]:
  "0 \<notin> set s \<Longrightarrow> fetch_str \<lparr>addr = a, data = s @ 0 # rest\<rparr>
     = Ret (Some (s, \<lparr>addr = a + length s + 1, data = rest\<rparr>))"
  by (simp add: fetch_str_Some)

lemma p_bind_Panic [panic_simps]:
  "p_bind p f it = Panic m \<longleftrightarrow>
     p it = Panic m \<or> (\<exists>x it'. p it = Ret (Some (x, it')) \<and> f x it' = Panic m)"
  by (cases "p it") (auto simp: p_bind_def split: option.splits)

lemma simple_Panic [panic_simps]:
  "p_return x it \<noteq> Panic m"
  "fetch_all it \<noteq> Panic m"
  "fetch_str it \<noteq> Panic m"
  "p_assert n b p it = Panic m \<longleftrightarrow> (if b then p it = Panic m else n = m)"
  by (simp_all add: p_return_def fetch_all_def fetch_str_def p_assert_def Let_def)

lemma p_bind_Undefined [panic_simps]:
  "p_bind p f it = Undefined m \<longleftrightarrow>
     p it = Undefined m \<or> (\<exists>x it'. p it = Ret (Some (x, it')) \<and> f x it' = Undefined m)"
  by (cases "p it") (auto simp: p_bind_def split: option.splits)

lemma simple_Undefined [panic_simps]:
  "p_return x it \<noteq> Undefined m"
  "fetch_all it \<noteq> Undefined m"
  "fetch_str it \<noteq> Undefined m"
  "fetch l it \<noteq> Undefined m"
  "fetch_slice l n it \<noteq> Undefined m"
  "p_assert msg b p it = Undefined m \<longleftrightarrow> b \<and> p it = Undefined m"
  by (simp_all add: p_return_def fetch_all_def fetch_str_def fetch_def fetch_slice_def p_assert_def Let_def)

section \<open>The contract of a structure\<close>

locale abi_struct =
  fixes l :: "'a layout"
  assumes length_as_bytes: "length (as_bytes l x) = size_of l"
    and from_as_bytes: "from_bytes l (as_bytes l x @ rest) = x"
    and as_from_bytes: "size_of l \<le> length bs \<Longrightarrow> as_bytes l (from_bytes l bs) = take (size_of l) bs"
    and align_dvd: "align_of l dvd 8" "align_of l dvd size_of l"
begin

lemma as_bytes_inj: "as_bytes l x @ r = as_bytes l y @ r' \<longleftrightarrow> x = y \<and> r = r'"
  using from_as_bytes length_as_bytes by (metis append_eq_append_conv)

lemma from_as_bytes_exact: "from_bytes l (as_bytes l x) = x"
  using from_as_bytes [of x "[]"] by simp

lemma fetch_Some [parse_simps]:
  "fetch l it = Ret (Some (x, it')) \<longleftrightarrow>
     align_of l dvd addr it \<and> data it = as_bytes l x @ data it' \<and> addr it' = addr it + size_of l"
proof
  assume f: "fetch l it = Ret (Some (x, it'))"
  then have "size_of l \<le> length (data it)" and x: "x = from_bytes l (data it)"
    and "addr it mod align_of l = 0"
    and it': "it' = \<lparr>addr = addr it + size_of l, data = drop (size_of l) (data it)\<rparr>"
    by (auto simp: fetch_def split: if_splits)
  then show "align_of l dvd addr it \<and> data it = as_bytes l x @ data it' \<and> addr it' = addr it + size_of l"
    using as_from_bytes [of "data it"] by (simp add: dvd_eq_mod_eq_0)
next
  assume "align_of l dvd addr it \<and> data it = as_bytes l x @ data it' \<and> addr it' = addr it + size_of l"
  then show "fetch l it = Ret (Some (x, it'))"
    by (cases it') (simp add: fetch_def from_as_bytes length_as_bytes dvd_eq_mod_eq_0)
qed

lemma aligned: "8 dvd a \<Longrightarrow> a mod align_of l = 0"
  using align_dvd(1) dvd_trans by (metis dvd_eq_mod_eq_0)

lemma fetch_encoded [encode_simps]:
  "align_of l dvd a \<Longrightarrow>
     fetch l \<lparr>addr = a, data = as_bytes l x @ rest\<rparr>
     = Ret (Some (x, \<lparr>addr = a + size_of l, data = rest\<rparr>))"
  by (simp add: fetch_Some)

lemma fetch_encoded_last [encode_simps]:
  "align_of l dvd a \<Longrightarrow>
     fetch l \<lparr>addr = a, data = as_bytes l x\<rparr> = Ret (Some (x, \<lparr>addr = a + size_of l, data = []\<rparr>))"
  using fetch_encoded [of a x "[]"] by simp

lemma fetch_Panic [panic_simps]: "8 dvd addr it \<Longrightarrow> fetch l it \<noteq> Panic m"
  by (simp add: fetch_def aligned)

lemma fetch_short:
  "8 dvd addr it \<Longrightarrow> length (data it) < size_of l \<Longrightarrow> fetch l it = Ret None"
  by (simp add: fetch_def aligned)

lemma slice_bytes:
  "size_of l * n \<le> length bs \<Longrightarrow>
     concat (map (as_bytes l) (map (\<lambda>i. from_bytes l (drop (size_of l * i) bs)) [0..<n]))
     = take (size_of l * n) bs"
proof (induction n)
  case (Suc n)
  have "as_bytes l (from_bytes l (drop (size_of l * n) bs)) = take (size_of l) (drop (size_of l * n) bs)"
    using Suc.prems by (intro as_from_bytes) simp
  moreover have "take (size_of l * Suc n) bs
      = take (size_of l * n) bs @ take (size_of l) (drop (size_of l * n) bs)"
    using take_add [of "size_of l * n" "size_of l" bs] by (simp add: add.commute)
  ultimately show ?case using Suc by simp
qed simp

lemma from_bytes_concat:
  "i < length xs \<Longrightarrow> from_bytes l (drop (size_of l * i) (concat (map (as_bytes l) xs) @ rest)) = xs ! i"
proof (induction xs arbitrary: i)
  case (Cons x xs)
  show ?case
  proof (cases i)
    case 0
    then show ?thesis by (simp add: from_as_bytes)
  next
    case (Suc j)
    then show ?thesis using Cons by (simp add: length_as_bytes)
  qed
qed simp

lemma length_concat_as_bytes: "length (concat (map (as_bytes l) xs)) = size_of l * length xs"
  by (induction xs) (simp_all add: length_as_bytes)

lemma fetch_slice_Some [parse_simps]:
  "fetch_slice l n it = Ret (Some (xs, it')) \<longleftrightarrow>
     align_of l dvd addr it \<and> length xs = n \<and>
     data it = concat (map (as_bytes l) xs) @ data it' \<and> addr it' = addr it + size_of l * n"
proof
  assume "fetch_slice l n it = Ret (Some (xs, it'))"
  then have "size_of l * n \<le> length (data it)" and "addr it mod align_of l = 0"
    and xs: "xs = map (\<lambda>i. from_bytes l (drop (size_of l * i) (data it))) [0..<n]"
    and it': "it' = \<lparr>addr = addr it + size_of l * n, data = drop (size_of l * n) (data it)\<rparr>"
    by (auto simp: fetch_slice_def split: if_splits)
  then show "align_of l dvd addr it \<and> length xs = n \<and>
      data it = concat (map (as_bytes l) xs) @ data it' \<and> addr it' = addr it + size_of l * n"
    using slice_bytes [of n "data it"] by (simp add: dvd_eq_mod_eq_0)
next
  assume r: "align_of l dvd addr it \<and> length xs = n \<and>
      data it = concat (map (as_bytes l) xs) @ data it' \<and> addr it' = addr it + size_of l * n"
  then have "map (\<lambda>i. from_bytes l (drop (size_of l * i) (data it))) [0..<n] = xs"
    using from_bytes_concat [of _ xs "data it'"] by (intro nth_equalityI) auto
  then show "fetch_slice l n it = Ret (Some (xs, it'))"
    using r by (cases it') (simp add: fetch_slice_def length_concat_as_bytes dvd_eq_mod_eq_0)
qed

lemma fetch_slice_encoded [encode_simps]:
  "align_of l dvd a \<Longrightarrow> length xs = n \<Longrightarrow>
     fetch_slice l n \<lparr>addr = a, data = concat (map (as_bytes l) xs)\<rparr>
     = Ret (Some (xs, \<lparr>addr = a + size_of l * n, data = []\<rparr>))"
  by (simp add: fetch_slice_Some)

lemma fetch_slice_encoded_append [encode_simps]:
  "align_of l dvd a \<Longrightarrow> length xs = n \<Longrightarrow>
     fetch_slice l n \<lparr>addr = a, data = concat (map (as_bytes l) xs) @ rest\<rparr>
     = Ret (Some (xs, \<lparr>addr = a + size_of l * n, data = rest\<rparr>))"
  by (simp add: fetch_slice_Some)

lemma fetch_slice_Panic [panic_simps]: "8 dvd addr it \<Longrightarrow> fetch_slice l n it \<noteq> Panic m"
  by (simp add: fetch_slice_def aligned)

end

end
