(* ===== verification/Fuse_Abi.thy ===== *)
theory Fuse_Abi
  imports Argument
begin

text \<open>
  The kernel interface (\<^verbatim>\<open>src/fuse/src/uring_fuse/low_level/kernel_interface.rs\<close>) at the version the
  crate builds by default, 7.30, on Linux: the constants, the operation codes, and the structures of
  requests and replies that the sources use, each with its layout and an interpretation of the
  contract \<open>abi_struct\<close>. Signed integers are words too, read with \<open>sint\<close>.
\<close>

type_synonym i32 = "32 word"
type_synonym i64 = "64 word"

named_theorems abi_codec "laws of fields and nested structures"

declare abi_field_simps [abi_codec]

section \<open>Constants\<close>

definition FUSE_KERNEL_VERSION :: u32 where
  "FUSE_KERNEL_VERSION = 7"

definition FUSE_KERNEL_MINOR_VERSION :: u32 where
  "FUSE_KERNEL_MINOR_VERSION = 30"

definition FUSE_ROOT_ID :: u64 where
  "FUSE_ROOT_ID = 1"

definition FATTR_MODE :: u32 where
  "FATTR_MODE = push_bit 0 1"

definition FATTR_UID :: u32 where
  "FATTR_UID = push_bit 1 1"

definition FATTR_GID :: u32 where
  "FATTR_GID = push_bit 2 1"

definition FATTR_SIZE :: u32 where
  "FATTR_SIZE = push_bit 3 1"

definition FATTR_ATIME :: u32 where
  "FATTR_ATIME = push_bit 4 1"

definition FATTR_MTIME :: u32 where
  "FATTR_MTIME = push_bit 5 1"

definition FATTR_FH :: u32 where
  "FATTR_FH = push_bit 6 1"

definition FATTR_ATIME_NOW :: u32 where
  "FATTR_ATIME_NOW = push_bit 7 1"

definition FATTR_MTIME_NOW :: u32 where
  "FATTR_MTIME_NOW = push_bit 8 1"

definition FATTR_LOCKOWNER :: u32 where
  "FATTR_LOCKOWNER = push_bit 9 1"

definition FATTR_CTIME :: u32 where
  "FATTR_CTIME = push_bit 10 1"

definition FOPEN_DIRECT_IO :: u32 where
  "FOPEN_DIRECT_IO = push_bit 0 1"

definition FOPEN_KEEP_CACHE :: u32 where
  "FOPEN_KEEP_CACHE = push_bit 1 1"

definition FOPEN_NONSEEKABLE :: u32 where
  "FOPEN_NONSEEKABLE = push_bit 2 1"

definition FOPEN_CACHE_DIR :: u32 where
  "FOPEN_CACHE_DIR = push_bit 3 1"

definition FUSE_ASYNC_READ :: u32 where
  "FUSE_ASYNC_READ = push_bit 0 1"

definition FUSE_POSIX_LOCKS :: u32 where
  "FUSE_POSIX_LOCKS = push_bit 1 1"

definition FUSE_FILE_OPS :: u32 where
  "FUSE_FILE_OPS = push_bit 2 1"

definition FUSE_ATOMIC_O_TRUNC :: u32 where
  "FUSE_ATOMIC_O_TRUNC = push_bit 3 1"

definition FUSE_EXPORT_SUPPORT :: u32 where
  "FUSE_EXPORT_SUPPORT = push_bit 4 1"

definition FUSE_BIG_WRITES :: u32 where
  "FUSE_BIG_WRITES = push_bit 5 1"

definition FUSE_DONT_MASK :: u32 where
  "FUSE_DONT_MASK = push_bit 6 1"

definition FUSE_SPLICE_WRITE :: u32 where
  "FUSE_SPLICE_WRITE = push_bit 7 1"

definition FUSE_SPLICE_MOVE :: u32 where
  "FUSE_SPLICE_MOVE = push_bit 8 1"

definition FUSE_SPLICE_READ :: u32 where
  "FUSE_SPLICE_READ = push_bit 9 1"

definition FUSE_FLOCK_LOCKS :: u32 where
  "FUSE_FLOCK_LOCKS = push_bit 10 1"

definition FUSE_HAS_IOCTL_DIR :: u32 where
  "FUSE_HAS_IOCTL_DIR = push_bit 11 1"

definition FUSE_AUTO_INVAL_DATA :: u32 where
  "FUSE_AUTO_INVAL_DATA = push_bit 12 1"

definition FUSE_DO_READDIRPLUS :: u32 where
  "FUSE_DO_READDIRPLUS = push_bit 13 1"

definition FUSE_READDIRPLUS_AUTO :: u32 where
  "FUSE_READDIRPLUS_AUTO = push_bit 14 1"

definition FUSE_ASYNC_DIO :: u32 where
  "FUSE_ASYNC_DIO = push_bit 15 1"

definition FUSE_WRITEBACK_CACHE :: u32 where
  "FUSE_WRITEBACK_CACHE = push_bit 16 1"

definition FUSE_NO_OPEN_SUPPORT :: u32 where
  "FUSE_NO_OPEN_SUPPORT = push_bit 17 1"

definition FUSE_PARALLEL_DIROPS :: u32 where
  "FUSE_PARALLEL_DIROPS = push_bit 18 1"

definition FUSE_HANDLE_KILLPRIV :: u32 where
  "FUSE_HANDLE_KILLPRIV = push_bit 19 1"

definition FUSE_POSIX_ACL :: u32 where
  "FUSE_POSIX_ACL = push_bit 20 1"

definition FUSE_ABORT_ERROR :: u32 where
  "FUSE_ABORT_ERROR = push_bit 21 1"

definition FUSE_MAX_PAGES :: u32 where
  "FUSE_MAX_PAGES = push_bit 22 1"

definition FUSE_CACHE_SYMLINKS :: u32 where
  "FUSE_CACHE_SYMLINKS = push_bit 23 1"

definition FUSE_NO_OPENDIR_SUPPORT :: u32 where
  "FUSE_NO_OPENDIR_SUPPORT = push_bit 24 1"

definition FUSE_EXPLICIT_INVAL_DATA :: u32 where
  "FUSE_EXPLICIT_INVAL_DATA = push_bit 25 1"

definition CUSE_UNRESTRICTED_IOCTL :: u32 where
  "CUSE_UNRESTRICTED_IOCTL = push_bit 0 1"

definition FUSE_RELEASE_FLUSH :: u32 where
  "FUSE_RELEASE_FLUSH = push_bit 0 1"

definition FUSE_RELEASE_FLOCK_UNLOCK :: u32 where
  "FUSE_RELEASE_FLOCK_UNLOCK = push_bit 1 1"

definition FUSE_GETATTR_FH :: u32 where
  "FUSE_GETATTR_FH = push_bit 0 1"

definition FUSE_LK_FLOCK :: u32 where
  "FUSE_LK_FLOCK = push_bit 0 1"

definition FUSE_WRITE_CACHE :: u32 where
  "FUSE_WRITE_CACHE = push_bit 0 1"

definition FUSE_WRITE_LOCKOWNER :: u32 where
  "FUSE_WRITE_LOCKOWNER = push_bit 1 1"

definition FUSE_READ_LOCKOWNER :: u32 where
  "FUSE_READ_LOCKOWNER = push_bit 1 1"

definition FUSE_IOCTL_COMPAT :: u32 where
  "FUSE_IOCTL_COMPAT = push_bit 0 1"

definition FUSE_IOCTL_UNRESTRICTED :: u32 where
  "FUSE_IOCTL_UNRESTRICTED = push_bit 1 1"

definition FUSE_IOCTL_RETRY :: u32 where
  "FUSE_IOCTL_RETRY = push_bit 2 1"

definition FUSE_IOCTL_32BIT :: u32 where
  "FUSE_IOCTL_32BIT = push_bit 3 1"

definition FUSE_IOCTL_DIR :: u32 where
  "FUSE_IOCTL_DIR = push_bit 4 1"

definition FUSE_IOCTL_COMPAT_X32 :: u32 where
  "FUSE_IOCTL_COMPAT_X32 = push_bit 5 1"

definition FUSE_IOCTL_MAX_IOV :: u32 where
  "FUSE_IOCTL_MAX_IOV = 256"

definition FUSE_POLL_SCHEDULE_NOTIFY :: u32 where
  "FUSE_POLL_SCHEDULE_NOTIFY = push_bit 0 1"

definition FUSE_FSYNC_FDATASYNC :: u32 where
  "FUSE_FSYNC_FDATASYNC = push_bit 0 1"

definition FUSE_MIN_READ_BUFFER :: nat where
  "FUSE_MIN_READ_BUFFER = 8192"

section \<open>Operation codes\<close>

datatype fuse_opcode =
    FUSE_LOOKUP
  | FUSE_FORGET
  | FUSE_GETATTR
  | FUSE_SETATTR
  | FUSE_READLINK
  | FUSE_SYMLINK
  | FUSE_MKNOD
  | FUSE_MKDIR
  | FUSE_UNLINK
  | FUSE_RMDIR
  | FUSE_RENAME
  | FUSE_LINK
  | FUSE_OPEN
  | FUSE_READ
  | FUSE_WRITE
  | FUSE_STATFS
  | FUSE_RELEASE
  | FUSE_FSYNC
  | FUSE_SETXATTR
  | FUSE_GETXATTR
  | FUSE_LISTXATTR
  | FUSE_REMOVEXATTR
  | FUSE_FLUSH
  | FUSE_INIT
  | FUSE_OPENDIR
  | FUSE_READDIR
  | FUSE_RELEASEDIR
  | FUSE_FSYNCDIR
  | FUSE_GETLK
  | FUSE_SETLK
  | FUSE_SETLKW
  | FUSE_ACCESS
  | FUSE_CREATE
  | FUSE_INTERRUPT
  | FUSE_BMAP
  | FUSE_DESTROY
  | FUSE_IOCTL
  | FUSE_POLL
  | FUSE_NOTIFY_REPLY
  | FUSE_BATCH_FORGET
  | FUSE_FALLOCATE
  | FUSE_READDIRPLUS
  | FUSE_RENAME2
  | FUSE_LSEEK
  | FUSE_COPY_FILE_RANGE
  | CUSE_INIT

fun opcode_value :: "fuse_opcode \<Rightarrow> u32" where
  "opcode_value FUSE_LOOKUP = 1"
| "opcode_value FUSE_FORGET = 2"
| "opcode_value FUSE_GETATTR = 3"
| "opcode_value FUSE_SETATTR = 4"
| "opcode_value FUSE_READLINK = 5"
| "opcode_value FUSE_SYMLINK = 6"
| "opcode_value FUSE_MKNOD = 8"
| "opcode_value FUSE_MKDIR = 9"
| "opcode_value FUSE_UNLINK = 10"
| "opcode_value FUSE_RMDIR = 11"
| "opcode_value FUSE_RENAME = 12"
| "opcode_value FUSE_LINK = 13"
| "opcode_value FUSE_OPEN = 14"
| "opcode_value FUSE_READ = 15"
| "opcode_value FUSE_WRITE = 16"
| "opcode_value FUSE_STATFS = 17"
| "opcode_value FUSE_RELEASE = 18"
| "opcode_value FUSE_FSYNC = 20"
| "opcode_value FUSE_SETXATTR = 21"
| "opcode_value FUSE_GETXATTR = 22"
| "opcode_value FUSE_LISTXATTR = 23"
| "opcode_value FUSE_REMOVEXATTR = 24"
| "opcode_value FUSE_FLUSH = 25"
| "opcode_value FUSE_INIT = 26"
| "opcode_value FUSE_OPENDIR = 27"
| "opcode_value FUSE_READDIR = 28"
| "opcode_value FUSE_RELEASEDIR = 29"
| "opcode_value FUSE_FSYNCDIR = 30"
| "opcode_value FUSE_GETLK = 31"
| "opcode_value FUSE_SETLK = 32"
| "opcode_value FUSE_SETLKW = 33"
| "opcode_value FUSE_ACCESS = 34"
| "opcode_value FUSE_CREATE = 35"
| "opcode_value FUSE_INTERRUPT = 36"
| "opcode_value FUSE_BMAP = 37"
| "opcode_value FUSE_DESTROY = 38"
| "opcode_value FUSE_IOCTL = 39"
| "opcode_value FUSE_POLL = 40"
| "opcode_value FUSE_NOTIFY_REPLY = 41"
| "opcode_value FUSE_BATCH_FORGET = 42"
| "opcode_value FUSE_FALLOCATE = 43"
| "opcode_value FUSE_READDIRPLUS = 44"
| "opcode_value FUSE_RENAME2 = 45"
| "opcode_value FUSE_LSEEK = 46"
| "opcode_value FUSE_COPY_FILE_RANGE = 47"
| "opcode_value CUSE_INIT = 4096"

definition opcode_try_from :: "u32 \<Rightarrow> fuse_opcode option" where
  "opcode_try_from n =
     (if n = 1 then Some FUSE_LOOKUP
      else if n = 2 then Some FUSE_FORGET
      else if n = 3 then Some FUSE_GETATTR
      else if n = 4 then Some FUSE_SETATTR
      else if n = 5 then Some FUSE_READLINK
      else if n = 6 then Some FUSE_SYMLINK
      else if n = 8 then Some FUSE_MKNOD
      else if n = 9 then Some FUSE_MKDIR
      else if n = 10 then Some FUSE_UNLINK
      else if n = 11 then Some FUSE_RMDIR
      else if n = 12 then Some FUSE_RENAME
      else if n = 13 then Some FUSE_LINK
      else if n = 14 then Some FUSE_OPEN
      else if n = 15 then Some FUSE_READ
      else if n = 16 then Some FUSE_WRITE
      else if n = 17 then Some FUSE_STATFS
      else if n = 18 then Some FUSE_RELEASE
      else if n = 20 then Some FUSE_FSYNC
      else if n = 21 then Some FUSE_SETXATTR
      else if n = 22 then Some FUSE_GETXATTR
      else if n = 23 then Some FUSE_LISTXATTR
      else if n = 24 then Some FUSE_REMOVEXATTR
      else if n = 25 then Some FUSE_FLUSH
      else if n = 26 then Some FUSE_INIT
      else if n = 27 then Some FUSE_OPENDIR
      else if n = 28 then Some FUSE_READDIR
      else if n = 29 then Some FUSE_RELEASEDIR
      else if n = 30 then Some FUSE_FSYNCDIR
      else if n = 31 then Some FUSE_GETLK
      else if n = 32 then Some FUSE_SETLK
      else if n = 33 then Some FUSE_SETLKW
      else if n = 34 then Some FUSE_ACCESS
      else if n = 35 then Some FUSE_CREATE
      else if n = 36 then Some FUSE_INTERRUPT
      else if n = 37 then Some FUSE_BMAP
      else if n = 38 then Some FUSE_DESTROY
      else if n = 39 then Some FUSE_IOCTL
      else if n = 40 then Some FUSE_POLL
      else if n = 41 then Some FUSE_NOTIFY_REPLY
      else if n = 42 then Some FUSE_BATCH_FORGET
      else if n = 43 then Some FUSE_FALLOCATE
      else if n = 44 then Some FUSE_READDIRPLUS
      else if n = 45 then Some FUSE_RENAME2
      else if n = 46 then Some FUSE_LSEEK
      else if n = 47 then Some FUSE_COPY_FILE_RANGE
      else if n = 4096 then Some CUSE_INIT
      else None)"

section \<open>Structures of requests\<close>

record fuse_attr =
  attr_ino :: u64
  attr_size :: u64
  attr_blocks :: u64
  attr_atime :: i64
  attr_mtime :: i64
  attr_ctime :: i64
  attr_atimensec :: u32
  attr_mtimensec :: u32
  attr_ctimensec :: u32
  attr_mode :: u32
  attr_nlink :: u32
  attr_uid :: u32
  attr_gid :: u32
  attr_rdev :: u32
  attr_blksize :: u32
  attr_padding :: u32

definition attr_layout :: "fuse_attr layout" where
  "attr_layout = \<lparr>size_of = 88, align_of = 8,
     from_bytes = (\<lambda>bs.
       \<lparr>attr_ino = le_word (field 0 8 bs),
        attr_size = le_word (field 8 8 bs),
        attr_blocks = le_word (field 16 8 bs),
        attr_atime = le_word (field 24 8 bs),
        attr_mtime = le_word (field 32 8 bs),
        attr_ctime = le_word (field 40 8 bs),
        attr_atimensec = le_word (field 48 4 bs),
        attr_mtimensec = le_word (field 52 4 bs),
        attr_ctimensec = le_word (field 56 4 bs),
        attr_mode = le_word (field 60 4 bs),
        attr_nlink = le_word (field 64 4 bs),
        attr_uid = le_word (field 68 4 bs),
        attr_gid = le_word (field 72 4 bs),
        attr_rdev = le_word (field 76 4 bs),
        attr_blksize = le_word (field 80 4 bs),
        attr_padding = le_word (field 84 4 bs)\<rparr>),
     as_bytes = (\<lambda>x.
       le_bytes 8 (attr_ino x) @
       le_bytes 8 (attr_size x) @
       le_bytes 8 (attr_blocks x) @
       le_bytes 8 (attr_atime x) @
       le_bytes 8 (attr_mtime x) @
       le_bytes 8 (attr_ctime x) @
       le_bytes 4 (attr_atimensec x) @
       le_bytes 4 (attr_mtimensec x) @
       le_bytes 4 (attr_ctimensec x) @
       le_bytes 4 (attr_mode x) @
       le_bytes 4 (attr_nlink x) @
       le_bytes 4 (attr_uid x) @
       le_bytes 4 (attr_gid x) @
       le_bytes 4 (attr_rdev x) @
       le_bytes 4 (attr_blksize x) @
       le_bytes 4 (attr_padding x))\<rparr>"

lemma attr_sizes [simp]:
  "size_of attr_layout = 88" "align_of attr_layout = 8"
  by (simp_all add: attr_layout_def)

interpretation attr: abi_struct attr_layout
  by unfold_locales (simp_all add: attr_layout_def abi_codec)

lemmas attr_codec [abi_codec] =
  attr.length_as_bytes attr.from_as_bytes_exact attr.as_from_bytes

record fuse_file_lock =
  file_lock_start :: u64
  file_lock_end :: u64
  file_lock_typ :: i32
  file_lock_pid :: u32

definition file_lock_layout :: "fuse_file_lock layout" where
  "file_lock_layout = \<lparr>size_of = 24, align_of = 8,
     from_bytes = (\<lambda>bs.
       \<lparr>file_lock_start = le_word (field 0 8 bs),
        file_lock_end = le_word (field 8 8 bs),
        file_lock_typ = le_word (field 16 4 bs),
        file_lock_pid = le_word (field 20 4 bs)\<rparr>),
     as_bytes = (\<lambda>x.
       le_bytes 8 (file_lock_start x) @
       le_bytes 8 (file_lock_end x) @
       le_bytes 4 (file_lock_typ x) @
       le_bytes 4 (file_lock_pid x))\<rparr>"

lemma file_lock_sizes [simp]:
  "size_of file_lock_layout = 24" "align_of file_lock_layout = 8"
  by (simp_all add: file_lock_layout_def)

interpretation file_lock: abi_struct file_lock_layout
  by unfold_locales (simp_all add: file_lock_layout_def abi_codec)

lemmas file_lock_codec [abi_codec] =
  file_lock.length_as_bytes file_lock.from_as_bytes_exact file_lock.as_from_bytes

record fuse_forget_in =
  forget_in_nlookup :: u64

definition forget_in_layout :: "fuse_forget_in layout" where
  "forget_in_layout = \<lparr>size_of = 8, align_of = 8,
     from_bytes = (\<lambda>bs.
       \<lparr>forget_in_nlookup = le_word (field 0 8 bs)\<rparr>),
     as_bytes = (\<lambda>x.
       le_bytes 8 (forget_in_nlookup x))\<rparr>"

lemma forget_in_sizes [simp]:
  "size_of forget_in_layout = 8" "align_of forget_in_layout = 8"
  by (simp_all add: forget_in_layout_def)

interpretation forget_in: abi_struct forget_in_layout
  by unfold_locales (simp_all add: forget_in_layout_def abi_codec)

record fuse_forget_one =
  forget_one_nodeid :: u64
  forget_one_nlookup :: u64

definition forget_one_layout :: "fuse_forget_one layout" where
  "forget_one_layout = \<lparr>size_of = 16, align_of = 8,
     from_bytes = (\<lambda>bs.
       \<lparr>forget_one_nodeid = le_word (field 0 8 bs),
        forget_one_nlookup = le_word (field 8 8 bs)\<rparr>),
     as_bytes = (\<lambda>x.
       le_bytes 8 (forget_one_nodeid x) @
       le_bytes 8 (forget_one_nlookup x))\<rparr>"

lemma forget_one_sizes [simp]:
  "size_of forget_one_layout = 16" "align_of forget_one_layout = 8"
  by (simp_all add: forget_one_layout_def)

interpretation forget_one: abi_struct forget_one_layout
  by unfold_locales (simp_all add: forget_one_layout_def abi_codec)

record fuse_batch_forget_in =
  batch_forget_in_count :: u32
  batch_forget_in_dummy :: u32

definition batch_forget_in_layout :: "fuse_batch_forget_in layout" where
  "batch_forget_in_layout = \<lparr>size_of = 8, align_of = 4,
     from_bytes = (\<lambda>bs.
       \<lparr>batch_forget_in_count = le_word (field 0 4 bs),
        batch_forget_in_dummy = le_word (field 4 4 bs)\<rparr>),
     as_bytes = (\<lambda>x.
       le_bytes 4 (batch_forget_in_count x) @
       le_bytes 4 (batch_forget_in_dummy x))\<rparr>"

lemma batch_forget_in_sizes [simp]:
  "size_of batch_forget_in_layout = 8" "align_of batch_forget_in_layout = 4"
  by (simp_all add: batch_forget_in_layout_def)

interpretation batch_forget_in: abi_struct batch_forget_in_layout
  by unfold_locales (simp_all add: batch_forget_in_layout_def abi_codec)

record fuse_mknod_in =
  mknod_in_mode :: u32
  mknod_in_rdev :: u32
  mknod_in_umask :: u32
  mknod_in_padding :: u32

definition mknod_in_layout :: "fuse_mknod_in layout" where
  "mknod_in_layout = \<lparr>size_of = 16, align_of = 4,
     from_bytes = (\<lambda>bs.
       \<lparr>mknod_in_mode = le_word (field 0 4 bs),
        mknod_in_rdev = le_word (field 4 4 bs),
        mknod_in_umask = le_word (field 8 4 bs),
        mknod_in_padding = le_word (field 12 4 bs)\<rparr>),
     as_bytes = (\<lambda>x.
       le_bytes 4 (mknod_in_mode x) @
       le_bytes 4 (mknod_in_rdev x) @
       le_bytes 4 (mknod_in_umask x) @
       le_bytes 4 (mknod_in_padding x))\<rparr>"

lemma mknod_in_sizes [simp]:
  "size_of mknod_in_layout = 16" "align_of mknod_in_layout = 4"
  by (simp_all add: mknod_in_layout_def)

interpretation mknod_in: abi_struct mknod_in_layout
  by unfold_locales (simp_all add: mknod_in_layout_def abi_codec)

record fuse_mkdir_in =
  mkdir_in_mode :: u32
  mkdir_in_umask :: u32

definition mkdir_in_layout :: "fuse_mkdir_in layout" where
  "mkdir_in_layout = \<lparr>size_of = 8, align_of = 4,
     from_bytes = (\<lambda>bs.
       \<lparr>mkdir_in_mode = le_word (field 0 4 bs),
        mkdir_in_umask = le_word (field 4 4 bs)\<rparr>),
     as_bytes = (\<lambda>x.
       le_bytes 4 (mkdir_in_mode x) @
       le_bytes 4 (mkdir_in_umask x))\<rparr>"

lemma mkdir_in_sizes [simp]:
  "size_of mkdir_in_layout = 8" "align_of mkdir_in_layout = 4"
  by (simp_all add: mkdir_in_layout_def)

interpretation mkdir_in: abi_struct mkdir_in_layout
  by unfold_locales (simp_all add: mkdir_in_layout_def abi_codec)

record fuse_rename_in =
  rename_in_newdir :: u64

definition rename_in_layout :: "fuse_rename_in layout" where
  "rename_in_layout = \<lparr>size_of = 8, align_of = 8,
     from_bytes = (\<lambda>bs.
       \<lparr>rename_in_newdir = le_word (field 0 8 bs)\<rparr>),
     as_bytes = (\<lambda>x.
       le_bytes 8 (rename_in_newdir x))\<rparr>"

lemma rename_in_sizes [simp]:
  "size_of rename_in_layout = 8" "align_of rename_in_layout = 8"
  by (simp_all add: rename_in_layout_def)

interpretation rename_in: abi_struct rename_in_layout
  by unfold_locales (simp_all add: rename_in_layout_def abi_codec)

record fuse_rename2_in =
  rename2_in_newdir :: u64
  rename2_in_flags :: u32
  rename2_in_padding :: u32

definition rename2_in_layout :: "fuse_rename2_in layout" where
  "rename2_in_layout = \<lparr>size_of = 16, align_of = 8,
     from_bytes = (\<lambda>bs.
       \<lparr>rename2_in_newdir = le_word (field 0 8 bs),
        rename2_in_flags = le_word (field 8 4 bs),
        rename2_in_padding = le_word (field 12 4 bs)\<rparr>),
     as_bytes = (\<lambda>x.
       le_bytes 8 (rename2_in_newdir x) @
       le_bytes 4 (rename2_in_flags x) @
       le_bytes 4 (rename2_in_padding x))\<rparr>"

lemma rename2_in_sizes [simp]:
  "size_of rename2_in_layout = 16" "align_of rename2_in_layout = 8"
  by (simp_all add: rename2_in_layout_def)

interpretation rename2_in: abi_struct rename2_in_layout
  by unfold_locales (simp_all add: rename2_in_layout_def abi_codec)

record fuse_link_in =
  link_in_oldnodeid :: u64

definition link_in_layout :: "fuse_link_in layout" where
  "link_in_layout = \<lparr>size_of = 8, align_of = 8,
     from_bytes = (\<lambda>bs.
       \<lparr>link_in_oldnodeid = le_word (field 0 8 bs)\<rparr>),
     as_bytes = (\<lambda>x.
       le_bytes 8 (link_in_oldnodeid x))\<rparr>"

lemma link_in_sizes [simp]:
  "size_of link_in_layout = 8" "align_of link_in_layout = 8"
  by (simp_all add: link_in_layout_def)

interpretation link_in: abi_struct link_in_layout
  by unfold_locales (simp_all add: link_in_layout_def abi_codec)

record fuse_setattr_in =
  setattr_in_valid :: u32
  setattr_in_padding :: u32
  setattr_in_fh :: u64
  setattr_in_size :: u64
  setattr_in_lock_owner :: u64
  setattr_in_atime :: i64
  setattr_in_mtime :: i64
  setattr_in_ctime :: i64
  setattr_in_atimensec :: u32
  setattr_in_mtimensec :: u32
  setattr_in_ctimensec :: u32
  setattr_in_mode :: u32
  setattr_in_unused4 :: u32
  setattr_in_uid :: u32
  setattr_in_gid :: u32
  setattr_in_unused5 :: u32

definition setattr_in_layout :: "fuse_setattr_in layout" where
  "setattr_in_layout = \<lparr>size_of = 88, align_of = 8,
     from_bytes = (\<lambda>bs.
       \<lparr>setattr_in_valid = le_word (field 0 4 bs),
        setattr_in_padding = le_word (field 4 4 bs),
        setattr_in_fh = le_word (field 8 8 bs),
        setattr_in_size = le_word (field 16 8 bs),
        setattr_in_lock_owner = le_word (field 24 8 bs),
        setattr_in_atime = le_word (field 32 8 bs),
        setattr_in_mtime = le_word (field 40 8 bs),
        setattr_in_ctime = le_word (field 48 8 bs),
        setattr_in_atimensec = le_word (field 56 4 bs),
        setattr_in_mtimensec = le_word (field 60 4 bs),
        setattr_in_ctimensec = le_word (field 64 4 bs),
        setattr_in_mode = le_word (field 68 4 bs),
        setattr_in_unused4 = le_word (field 72 4 bs),
        setattr_in_uid = le_word (field 76 4 bs),
        setattr_in_gid = le_word (field 80 4 bs),
        setattr_in_unused5 = le_word (field 84 4 bs)\<rparr>),
     as_bytes = (\<lambda>x.
       le_bytes 4 (setattr_in_valid x) @
       le_bytes 4 (setattr_in_padding x) @
       le_bytes 8 (setattr_in_fh x) @
       le_bytes 8 (setattr_in_size x) @
       le_bytes 8 (setattr_in_lock_owner x) @
       le_bytes 8 (setattr_in_atime x) @
       le_bytes 8 (setattr_in_mtime x) @
       le_bytes 8 (setattr_in_ctime x) @
       le_bytes 4 (setattr_in_atimensec x) @
       le_bytes 4 (setattr_in_mtimensec x) @
       le_bytes 4 (setattr_in_ctimensec x) @
       le_bytes 4 (setattr_in_mode x) @
       le_bytes 4 (setattr_in_unused4 x) @
       le_bytes 4 (setattr_in_uid x) @
       le_bytes 4 (setattr_in_gid x) @
       le_bytes 4 (setattr_in_unused5 x))\<rparr>"

lemma setattr_in_sizes [simp]:
  "size_of setattr_in_layout = 88" "align_of setattr_in_layout = 8"
  by (simp_all add: setattr_in_layout_def)

interpretation setattr_in: abi_struct setattr_in_layout
  by unfold_locales (simp_all add: setattr_in_layout_def abi_codec)

record fuse_open_in =
  open_in_flags :: i32
  open_in_unused :: u32

definition open_in_layout :: "fuse_open_in layout" where
  "open_in_layout = \<lparr>size_of = 8, align_of = 4,
     from_bytes = (\<lambda>bs.
       \<lparr>open_in_flags = le_word (field 0 4 bs),
        open_in_unused = le_word (field 4 4 bs)\<rparr>),
     as_bytes = (\<lambda>x.
       le_bytes 4 (open_in_flags x) @
       le_bytes 4 (open_in_unused x))\<rparr>"

lemma open_in_sizes [simp]:
  "size_of open_in_layout = 8" "align_of open_in_layout = 4"
  by (simp_all add: open_in_layout_def)

interpretation open_in: abi_struct open_in_layout
  by unfold_locales (simp_all add: open_in_layout_def abi_codec)

record fuse_create_in =
  create_in_flags :: i32
  create_in_mode :: u32
  create_in_umask :: u32
  create_in_padding :: u32

definition create_in_layout :: "fuse_create_in layout" where
  "create_in_layout = \<lparr>size_of = 16, align_of = 4,
     from_bytes = (\<lambda>bs.
       \<lparr>create_in_flags = le_word (field 0 4 bs),
        create_in_mode = le_word (field 4 4 bs),
        create_in_umask = le_word (field 8 4 bs),
        create_in_padding = le_word (field 12 4 bs)\<rparr>),
     as_bytes = (\<lambda>x.
       le_bytes 4 (create_in_flags x) @
       le_bytes 4 (create_in_mode x) @
       le_bytes 4 (create_in_umask x) @
       le_bytes 4 (create_in_padding x))\<rparr>"

lemma create_in_sizes [simp]:
  "size_of create_in_layout = 16" "align_of create_in_layout = 4"
  by (simp_all add: create_in_layout_def)

interpretation create_in: abi_struct create_in_layout
  by unfold_locales (simp_all add: create_in_layout_def abi_codec)

record fuse_release_in =
  release_in_fh :: u64
  release_in_flags :: i32
  release_in_release_flags :: u32
  release_in_lock_owner :: u64

definition release_in_layout :: "fuse_release_in layout" where
  "release_in_layout = \<lparr>size_of = 24, align_of = 8,
     from_bytes = (\<lambda>bs.
       \<lparr>release_in_fh = le_word (field 0 8 bs),
        release_in_flags = le_word (field 8 4 bs),
        release_in_release_flags = le_word (field 12 4 bs),
        release_in_lock_owner = le_word (field 16 8 bs)\<rparr>),
     as_bytes = (\<lambda>x.
       le_bytes 8 (release_in_fh x) @
       le_bytes 4 (release_in_flags x) @
       le_bytes 4 (release_in_release_flags x) @
       le_bytes 8 (release_in_lock_owner x))\<rparr>"

lemma release_in_sizes [simp]:
  "size_of release_in_layout = 24" "align_of release_in_layout = 8"
  by (simp_all add: release_in_layout_def)

interpretation release_in: abi_struct release_in_layout
  by unfold_locales (simp_all add: release_in_layout_def abi_codec)

record fuse_flush_in =
  flush_in_fh :: u64
  flush_in_unused :: u32
  flush_in_padding :: u32
  flush_in_lock_owner :: u64

definition flush_in_layout :: "fuse_flush_in layout" where
  "flush_in_layout = \<lparr>size_of = 24, align_of = 8,
     from_bytes = (\<lambda>bs.
       \<lparr>flush_in_fh = le_word (field 0 8 bs),
        flush_in_unused = le_word (field 8 4 bs),
        flush_in_padding = le_word (field 12 4 bs),
        flush_in_lock_owner = le_word (field 16 8 bs)\<rparr>),
     as_bytes = (\<lambda>x.
       le_bytes 8 (flush_in_fh x) @
       le_bytes 4 (flush_in_unused x) @
       le_bytes 4 (flush_in_padding x) @
       le_bytes 8 (flush_in_lock_owner x))\<rparr>"

lemma flush_in_sizes [simp]:
  "size_of flush_in_layout = 24" "align_of flush_in_layout = 8"
  by (simp_all add: flush_in_layout_def)

interpretation flush_in: abi_struct flush_in_layout
  by unfold_locales (simp_all add: flush_in_layout_def abi_codec)

record fuse_read_in =
  read_in_fh :: u64
  read_in_offset :: i64
  read_in_size :: u32
  read_in_read_flags :: u32
  read_in_lock_owner :: u64
  read_in_flags :: i32
  read_in_padding :: u32

definition read_in_layout :: "fuse_read_in layout" where
  "read_in_layout = \<lparr>size_of = 40, align_of = 8,
     from_bytes = (\<lambda>bs.
       \<lparr>read_in_fh = le_word (field 0 8 bs),
        read_in_offset = le_word (field 8 8 bs),
        read_in_size = le_word (field 16 4 bs),
        read_in_read_flags = le_word (field 20 4 bs),
        read_in_lock_owner = le_word (field 24 8 bs),
        read_in_flags = le_word (field 32 4 bs),
        read_in_padding = le_word (field 36 4 bs)\<rparr>),
     as_bytes = (\<lambda>x.
       le_bytes 8 (read_in_fh x) @
       le_bytes 8 (read_in_offset x) @
       le_bytes 4 (read_in_size x) @
       le_bytes 4 (read_in_read_flags x) @
       le_bytes 8 (read_in_lock_owner x) @
       le_bytes 4 (read_in_flags x) @
       le_bytes 4 (read_in_padding x))\<rparr>"

lemma read_in_sizes [simp]:
  "size_of read_in_layout = 40" "align_of read_in_layout = 8"
  by (simp_all add: read_in_layout_def)

interpretation read_in: abi_struct read_in_layout
  by unfold_locales (simp_all add: read_in_layout_def abi_codec)

record fuse_write_in =
  write_in_fh :: u64
  write_in_offset :: i64
  write_in_size :: u32
  write_in_write_flags :: u32
  write_in_lock_owner :: u64
  write_in_flags :: i32
  write_in_padding :: u32

definition write_in_layout :: "fuse_write_in layout" where
  "write_in_layout = \<lparr>size_of = 40, align_of = 8,
     from_bytes = (\<lambda>bs.
       \<lparr>write_in_fh = le_word (field 0 8 bs),
        write_in_offset = le_word (field 8 8 bs),
        write_in_size = le_word (field 16 4 bs),
        write_in_write_flags = le_word (field 20 4 bs),
        write_in_lock_owner = le_word (field 24 8 bs),
        write_in_flags = le_word (field 32 4 bs),
        write_in_padding = le_word (field 36 4 bs)\<rparr>),
     as_bytes = (\<lambda>x.
       le_bytes 8 (write_in_fh x) @
       le_bytes 8 (write_in_offset x) @
       le_bytes 4 (write_in_size x) @
       le_bytes 4 (write_in_write_flags x) @
       le_bytes 8 (write_in_lock_owner x) @
       le_bytes 4 (write_in_flags x) @
       le_bytes 4 (write_in_padding x))\<rparr>"

lemma write_in_sizes [simp]:
  "size_of write_in_layout = 40" "align_of write_in_layout = 8"
  by (simp_all add: write_in_layout_def)

interpretation write_in: abi_struct write_in_layout
  by unfold_locales (simp_all add: write_in_layout_def abi_codec)

record fuse_fsync_in =
  fsync_in_fh :: u64
  fsync_in_fsync_flags :: u32
  fsync_in_padding :: u32

definition fsync_in_layout :: "fuse_fsync_in layout" where
  "fsync_in_layout = \<lparr>size_of = 16, align_of = 8,
     from_bytes = (\<lambda>bs.
       \<lparr>fsync_in_fh = le_word (field 0 8 bs),
        fsync_in_fsync_flags = le_word (field 8 4 bs),
        fsync_in_padding = le_word (field 12 4 bs)\<rparr>),
     as_bytes = (\<lambda>x.
       le_bytes 8 (fsync_in_fh x) @
       le_bytes 4 (fsync_in_fsync_flags x) @
       le_bytes 4 (fsync_in_padding x))\<rparr>"

lemma fsync_in_sizes [simp]:
  "size_of fsync_in_layout = 16" "align_of fsync_in_layout = 8"
  by (simp_all add: fsync_in_layout_def)

interpretation fsync_in: abi_struct fsync_in_layout
  by unfold_locales (simp_all add: fsync_in_layout_def abi_codec)

record fuse_setxattr_in =
  setxattr_in_size :: u32
  setxattr_in_flags :: i32

definition setxattr_in_layout :: "fuse_setxattr_in layout" where
  "setxattr_in_layout = \<lparr>size_of = 8, align_of = 4,
     from_bytes = (\<lambda>bs.
       \<lparr>setxattr_in_size = le_word (field 0 4 bs),
        setxattr_in_flags = le_word (field 4 4 bs)\<rparr>),
     as_bytes = (\<lambda>x.
       le_bytes 4 (setxattr_in_size x) @
       le_bytes 4 (setxattr_in_flags x))\<rparr>"

lemma setxattr_in_sizes [simp]:
  "size_of setxattr_in_layout = 8" "align_of setxattr_in_layout = 4"
  by (simp_all add: setxattr_in_layout_def)

interpretation setxattr_in: abi_struct setxattr_in_layout
  by unfold_locales (simp_all add: setxattr_in_layout_def abi_codec)

record fuse_getxattr_in =
  getxattr_in_size :: u32
  getxattr_in_padding :: u32

definition getxattr_in_layout :: "fuse_getxattr_in layout" where
  "getxattr_in_layout = \<lparr>size_of = 8, align_of = 4,
     from_bytes = (\<lambda>bs.
       \<lparr>getxattr_in_size = le_word (field 0 4 bs),
        getxattr_in_padding = le_word (field 4 4 bs)\<rparr>),
     as_bytes = (\<lambda>x.
       le_bytes 4 (getxattr_in_size x) @
       le_bytes 4 (getxattr_in_padding x))\<rparr>"

lemma getxattr_in_sizes [simp]:
  "size_of getxattr_in_layout = 8" "align_of getxattr_in_layout = 4"
  by (simp_all add: getxattr_in_layout_def)

interpretation getxattr_in: abi_struct getxattr_in_layout
  by unfold_locales (simp_all add: getxattr_in_layout_def abi_codec)

record fuse_lk_in =
  lk_in_fh :: u64
  lk_in_owner :: u64
  lk_in_lk :: fuse_file_lock
  lk_in_lk_flags :: u32
  lk_in_padding :: u32

definition lk_in_layout :: "fuse_lk_in layout" where
  "lk_in_layout = \<lparr>size_of = 48, align_of = 8,
     from_bytes = (\<lambda>bs.
       \<lparr>lk_in_fh = le_word (field 0 8 bs),
        lk_in_owner = le_word (field 8 8 bs),
        lk_in_lk = from_bytes file_lock_layout (field 16 24 bs),
        lk_in_lk_flags = le_word (field 40 4 bs),
        lk_in_padding = le_word (field 44 4 bs)\<rparr>),
     as_bytes = (\<lambda>x.
       le_bytes 8 (lk_in_fh x) @
       le_bytes 8 (lk_in_owner x) @
       as_bytes file_lock_layout (lk_in_lk x) @
       le_bytes 4 (lk_in_lk_flags x) @
       le_bytes 4 (lk_in_padding x))\<rparr>"

lemma lk_in_sizes [simp]:
  "size_of lk_in_layout = 48" "align_of lk_in_layout = 8"
  by (simp_all add: lk_in_layout_def)

interpretation lk_in: abi_struct lk_in_layout
  by unfold_locales (simp_all add: lk_in_layout_def abi_codec)

record fuse_access_in =
  access_in_mask :: i32
  access_in_padding :: u32

definition access_in_layout :: "fuse_access_in layout" where
  "access_in_layout = \<lparr>size_of = 8, align_of = 4,
     from_bytes = (\<lambda>bs.
       \<lparr>access_in_mask = le_word (field 0 4 bs),
        access_in_padding = le_word (field 4 4 bs)\<rparr>),
     as_bytes = (\<lambda>x.
       le_bytes 4 (access_in_mask x) @
       le_bytes 4 (access_in_padding x))\<rparr>"

lemma access_in_sizes [simp]:
  "size_of access_in_layout = 8" "align_of access_in_layout = 4"
  by (simp_all add: access_in_layout_def)

interpretation access_in: abi_struct access_in_layout
  by unfold_locales (simp_all add: access_in_layout_def abi_codec)

record fuse_init_in =
  init_in_major :: u32
  init_in_minor :: u32
  init_in_max_readahead :: u32
  init_in_flags :: u32

definition init_in_layout :: "fuse_init_in layout" where
  "init_in_layout = \<lparr>size_of = 16, align_of = 4,
     from_bytes = (\<lambda>bs.
       \<lparr>init_in_major = le_word (field 0 4 bs),
        init_in_minor = le_word (field 4 4 bs),
        init_in_max_readahead = le_word (field 8 4 bs),
        init_in_flags = le_word (field 12 4 bs)\<rparr>),
     as_bytes = (\<lambda>x.
       le_bytes 4 (init_in_major x) @
       le_bytes 4 (init_in_minor x) @
       le_bytes 4 (init_in_max_readahead x) @
       le_bytes 4 (init_in_flags x))\<rparr>"

lemma init_in_sizes [simp]:
  "size_of init_in_layout = 16" "align_of init_in_layout = 4"
  by (simp_all add: init_in_layout_def)

interpretation init_in: abi_struct init_in_layout
  by unfold_locales (simp_all add: init_in_layout_def abi_codec)

record fuse_interrupt_in =
  interrupt_in_unique :: u64

definition interrupt_in_layout :: "fuse_interrupt_in layout" where
  "interrupt_in_layout = \<lparr>size_of = 8, align_of = 8,
     from_bytes = (\<lambda>bs.
       \<lparr>interrupt_in_unique = le_word (field 0 8 bs)\<rparr>),
     as_bytes = (\<lambda>x.
       le_bytes 8 (interrupt_in_unique x))\<rparr>"

lemma interrupt_in_sizes [simp]:
  "size_of interrupt_in_layout = 8" "align_of interrupt_in_layout = 8"
  by (simp_all add: interrupt_in_layout_def)

interpretation interrupt_in: abi_struct interrupt_in_layout
  by unfold_locales (simp_all add: interrupt_in_layout_def abi_codec)

record fuse_bmap_in =
  bmap_in_block :: u64
  bmap_in_blocksize :: u32
  bmap_in_padding :: u32

definition bmap_in_layout :: "fuse_bmap_in layout" where
  "bmap_in_layout = \<lparr>size_of = 16, align_of = 8,
     from_bytes = (\<lambda>bs.
       \<lparr>bmap_in_block = le_word (field 0 8 bs),
        bmap_in_blocksize = le_word (field 8 4 bs),
        bmap_in_padding = le_word (field 12 4 bs)\<rparr>),
     as_bytes = (\<lambda>x.
       le_bytes 8 (bmap_in_block x) @
       le_bytes 4 (bmap_in_blocksize x) @
       le_bytes 4 (bmap_in_padding x))\<rparr>"

lemma bmap_in_sizes [simp]:
  "size_of bmap_in_layout = 16" "align_of bmap_in_layout = 8"
  by (simp_all add: bmap_in_layout_def)

interpretation bmap_in: abi_struct bmap_in_layout
  by unfold_locales (simp_all add: bmap_in_layout_def abi_codec)

record fuse_ioctl_in =
  ioctl_in_fh :: u64
  ioctl_in_flags :: u32
  ioctl_in_cmd :: u32
  ioctl_in_arg :: u64
  ioctl_in_in_size :: u32
  ioctl_in_out_size :: u32

definition ioctl_in_layout :: "fuse_ioctl_in layout" where
  "ioctl_in_layout = \<lparr>size_of = 32, align_of = 8,
     from_bytes = (\<lambda>bs.
       \<lparr>ioctl_in_fh = le_word (field 0 8 bs),
        ioctl_in_flags = le_word (field 8 4 bs),
        ioctl_in_cmd = le_word (field 12 4 bs),
        ioctl_in_arg = le_word (field 16 8 bs),
        ioctl_in_in_size = le_word (field 24 4 bs),
        ioctl_in_out_size = le_word (field 28 4 bs)\<rparr>),
     as_bytes = (\<lambda>x.
       le_bytes 8 (ioctl_in_fh x) @
       le_bytes 4 (ioctl_in_flags x) @
       le_bytes 4 (ioctl_in_cmd x) @
       le_bytes 8 (ioctl_in_arg x) @
       le_bytes 4 (ioctl_in_in_size x) @
       le_bytes 4 (ioctl_in_out_size x))\<rparr>"

lemma ioctl_in_sizes [simp]:
  "size_of ioctl_in_layout = 32" "align_of ioctl_in_layout = 8"
  by (simp_all add: ioctl_in_layout_def)

interpretation ioctl_in: abi_struct ioctl_in_layout
  by unfold_locales (simp_all add: ioctl_in_layout_def abi_codec)

record fuse_poll_in =
  poll_in_fh :: u64
  poll_in_kh :: u64
  poll_in_flags :: u32
  poll_in_events :: u32

definition poll_in_layout :: "fuse_poll_in layout" where
  "poll_in_layout = \<lparr>size_of = 24, align_of = 8,
     from_bytes = (\<lambda>bs.
       \<lparr>poll_in_fh = le_word (field 0 8 bs),
        poll_in_kh = le_word (field 8 8 bs),
        poll_in_flags = le_word (field 16 4 bs),
        poll_in_events = le_word (field 20 4 bs)\<rparr>),
     as_bytes = (\<lambda>x.
       le_bytes 8 (poll_in_fh x) @
       le_bytes 8 (poll_in_kh x) @
       le_bytes 4 (poll_in_flags x) @
       le_bytes 4 (poll_in_events x))\<rparr>"

lemma poll_in_sizes [simp]:
  "size_of poll_in_layout = 24" "align_of poll_in_layout = 8"
  by (simp_all add: poll_in_layout_def)

interpretation poll_in: abi_struct poll_in_layout
  by unfold_locales (simp_all add: poll_in_layout_def abi_codec)

record fuse_fallocate_in =
  fallocate_in_fh :: u64
  fallocate_in_offset :: i64
  fallocate_in_length :: i64
  fallocate_in_mode :: i32
  fallocate_in_padding :: u32

definition fallocate_in_layout :: "fuse_fallocate_in layout" where
  "fallocate_in_layout = \<lparr>size_of = 32, align_of = 8,
     from_bytes = (\<lambda>bs.
       \<lparr>fallocate_in_fh = le_word (field 0 8 bs),
        fallocate_in_offset = le_word (field 8 8 bs),
        fallocate_in_length = le_word (field 16 8 bs),
        fallocate_in_mode = le_word (field 24 4 bs),
        fallocate_in_padding = le_word (field 28 4 bs)\<rparr>),
     as_bytes = (\<lambda>x.
       le_bytes 8 (fallocate_in_fh x) @
       le_bytes 8 (fallocate_in_offset x) @
       le_bytes 8 (fallocate_in_length x) @
       le_bytes 4 (fallocate_in_mode x) @
       le_bytes 4 (fallocate_in_padding x))\<rparr>"

lemma fallocate_in_sizes [simp]:
  "size_of fallocate_in_layout = 32" "align_of fallocate_in_layout = 8"
  by (simp_all add: fallocate_in_layout_def)

interpretation fallocate_in: abi_struct fallocate_in_layout
  by unfold_locales (simp_all add: fallocate_in_layout_def abi_codec)

record fuse_in_header =
  in_header_len :: u32
  in_header_opcode :: u32
  in_header_unique :: u64
  in_header_nodeid :: u64
  in_header_uid :: u32
  in_header_gid :: u32
  in_header_pid :: u32
  in_header_padding :: u32

definition in_header_layout :: "fuse_in_header layout" where
  "in_header_layout = \<lparr>size_of = 40, align_of = 8,
     from_bytes = (\<lambda>bs.
       \<lparr>in_header_len = le_word (field 0 4 bs),
        in_header_opcode = le_word (field 4 4 bs),
        in_header_unique = le_word (field 8 8 bs),
        in_header_nodeid = le_word (field 16 8 bs),
        in_header_uid = le_word (field 24 4 bs),
        in_header_gid = le_word (field 28 4 bs),
        in_header_pid = le_word (field 32 4 bs),
        in_header_padding = le_word (field 36 4 bs)\<rparr>),
     as_bytes = (\<lambda>x.
       le_bytes 4 (in_header_len x) @
       le_bytes 4 (in_header_opcode x) @
       le_bytes 8 (in_header_unique x) @
       le_bytes 8 (in_header_nodeid x) @
       le_bytes 4 (in_header_uid x) @
       le_bytes 4 (in_header_gid x) @
       le_bytes 4 (in_header_pid x) @
       le_bytes 4 (in_header_padding x))\<rparr>"

lemma in_header_sizes [simp]:
  "size_of in_header_layout = 40" "align_of in_header_layout = 8"
  by (simp_all add: in_header_layout_def)

interpretation in_header: abi_struct in_header_layout
  by unfold_locales (simp_all add: in_header_layout_def abi_codec)

record fuse_lseek_in =
  lseek_in_fh :: u64
  lseek_in_offset :: i64
  lseek_in_whence :: i32
  lseek_in_padding :: u32

definition lseek_in_layout :: "fuse_lseek_in layout" where
  "lseek_in_layout = \<lparr>size_of = 24, align_of = 8,
     from_bytes = (\<lambda>bs.
       \<lparr>lseek_in_fh = le_word (field 0 8 bs),
        lseek_in_offset = le_word (field 8 8 bs),
        lseek_in_whence = le_word (field 16 4 bs),
        lseek_in_padding = le_word (field 20 4 bs)\<rparr>),
     as_bytes = (\<lambda>x.
       le_bytes 8 (lseek_in_fh x) @
       le_bytes 8 (lseek_in_offset x) @
       le_bytes 4 (lseek_in_whence x) @
       le_bytes 4 (lseek_in_padding x))\<rparr>"

lemma lseek_in_sizes [simp]:
  "size_of lseek_in_layout = 24" "align_of lseek_in_layout = 8"
  by (simp_all add: lseek_in_layout_def)

interpretation lseek_in: abi_struct lseek_in_layout
  by unfold_locales (simp_all add: lseek_in_layout_def abi_codec)

record fuse_copy_file_range_in =
  copy_file_range_in_fh_in :: u64
  copy_file_range_in_off_in :: i64
  copy_file_range_in_nodeid_out :: u64
  copy_file_range_in_fh_out :: u64
  copy_file_range_in_off_out :: i64
  copy_file_range_in_len :: u64
  copy_file_range_in_flags :: u64

definition copy_file_range_in_layout :: "fuse_copy_file_range_in layout" where
  "copy_file_range_in_layout = \<lparr>size_of = 56, align_of = 8,
     from_bytes = (\<lambda>bs.
       \<lparr>copy_file_range_in_fh_in = le_word (field 0 8 bs),
        copy_file_range_in_off_in = le_word (field 8 8 bs),
        copy_file_range_in_nodeid_out = le_word (field 16 8 bs),
        copy_file_range_in_fh_out = le_word (field 24 8 bs),
        copy_file_range_in_off_out = le_word (field 32 8 bs),
        copy_file_range_in_len = le_word (field 40 8 bs),
        copy_file_range_in_flags = le_word (field 48 8 bs)\<rparr>),
     as_bytes = (\<lambda>x.
       le_bytes 8 (copy_file_range_in_fh_in x) @
       le_bytes 8 (copy_file_range_in_off_in x) @
       le_bytes 8 (copy_file_range_in_nodeid_out x) @
       le_bytes 8 (copy_file_range_in_fh_out x) @
       le_bytes 8 (copy_file_range_in_off_out x) @
       le_bytes 8 (copy_file_range_in_len x) @
       le_bytes 8 (copy_file_range_in_flags x))\<rparr>"

lemma copy_file_range_in_sizes [simp]:
  "size_of copy_file_range_in_layout = 56" "align_of copy_file_range_in_layout = 8"
  by (simp_all add: copy_file_range_in_layout_def)

interpretation copy_file_range_in: abi_struct copy_file_range_in_layout
  by unfold_locales (simp_all add: copy_file_range_in_layout_def abi_codec)

section \<open>Structures of replies\<close>

record fuse_entry_out =
  entry_out_nodeid :: u64
  entry_out_generation :: u64
  entry_out_entry_valid :: u64
  entry_out_attr_valid :: u64
  entry_out_entry_valid_nsec :: u32
  entry_out_attr_valid_nsec :: u32
  entry_out_attr :: fuse_attr

definition entry_out_layout :: "fuse_entry_out layout" where
  "entry_out_layout = \<lparr>size_of = 128, align_of = 8,
     from_bytes = (\<lambda>bs.
       \<lparr>entry_out_nodeid = le_word (field 0 8 bs),
        entry_out_generation = le_word (field 8 8 bs),
        entry_out_entry_valid = le_word (field 16 8 bs),
        entry_out_attr_valid = le_word (field 24 8 bs),
        entry_out_entry_valid_nsec = le_word (field 32 4 bs),
        entry_out_attr_valid_nsec = le_word (field 36 4 bs),
        entry_out_attr = from_bytes attr_layout (field 40 88 bs)\<rparr>),
     as_bytes = (\<lambda>x.
       le_bytes 8 (entry_out_nodeid x) @
       le_bytes 8 (entry_out_generation x) @
       le_bytes 8 (entry_out_entry_valid x) @
       le_bytes 8 (entry_out_attr_valid x) @
       le_bytes 4 (entry_out_entry_valid_nsec x) @
       le_bytes 4 (entry_out_attr_valid_nsec x) @
       as_bytes attr_layout (entry_out_attr x))\<rparr>"

lemma entry_out_sizes [simp]:
  "size_of entry_out_layout = 128" "align_of entry_out_layout = 8"
  by (simp_all add: entry_out_layout_def)

interpretation entry_out: abi_struct entry_out_layout
  by unfold_locales (simp_all add: entry_out_layout_def abi_codec)

lemmas entry_out_codec [abi_codec] =
  entry_out.length_as_bytes entry_out.from_as_bytes_exact entry_out.as_from_bytes

record fuse_attr_out =
  attr_out_attr_valid :: u64
  attr_out_attr_valid_nsec :: u32
  attr_out_dummy :: u32
  attr_out_attr :: fuse_attr

definition attr_out_layout :: "fuse_attr_out layout" where
  "attr_out_layout = \<lparr>size_of = 104, align_of = 8,
     from_bytes = (\<lambda>bs.
       \<lparr>attr_out_attr_valid = le_word (field 0 8 bs),
        attr_out_attr_valid_nsec = le_word (field 8 4 bs),
        attr_out_dummy = le_word (field 12 4 bs),
        attr_out_attr = from_bytes attr_layout (field 16 88 bs)\<rparr>),
     as_bytes = (\<lambda>x.
       le_bytes 8 (attr_out_attr_valid x) @
       le_bytes 4 (attr_out_attr_valid_nsec x) @
       le_bytes 4 (attr_out_dummy x) @
       as_bytes attr_layout (attr_out_attr x))\<rparr>"

lemma attr_out_sizes [simp]:
  "size_of attr_out_layout = 104" "align_of attr_out_layout = 8"
  by (simp_all add: attr_out_layout_def)

interpretation attr_out: abi_struct attr_out_layout
  by unfold_locales (simp_all add: attr_out_layout_def abi_codec)

record fuse_open_out =
  open_out_fh :: u64
  open_out_open_flags :: u32
  open_out_padding :: u32

definition open_out_layout :: "fuse_open_out layout" where
  "open_out_layout = \<lparr>size_of = 16, align_of = 8,
     from_bytes = (\<lambda>bs.
       \<lparr>open_out_fh = le_word (field 0 8 bs),
        open_out_open_flags = le_word (field 8 4 bs),
        open_out_padding = le_word (field 12 4 bs)\<rparr>),
     as_bytes = (\<lambda>x.
       le_bytes 8 (open_out_fh x) @
       le_bytes 4 (open_out_open_flags x) @
       le_bytes 4 (open_out_padding x))\<rparr>"

lemma open_out_sizes [simp]:
  "size_of open_out_layout = 16" "align_of open_out_layout = 8"
  by (simp_all add: open_out_layout_def)

interpretation open_out: abi_struct open_out_layout
  by unfold_locales (simp_all add: open_out_layout_def abi_codec)

record fuse_write_out =
  write_out_size :: u32
  write_out_padding :: u32

definition write_out_layout :: "fuse_write_out layout" where
  "write_out_layout = \<lparr>size_of = 8, align_of = 4,
     from_bytes = (\<lambda>bs.
       \<lparr>write_out_size = le_word (field 0 4 bs),
        write_out_padding = le_word (field 4 4 bs)\<rparr>),
     as_bytes = (\<lambda>x.
       le_bytes 4 (write_out_size x) @
       le_bytes 4 (write_out_padding x))\<rparr>"

lemma write_out_sizes [simp]:
  "size_of write_out_layout = 8" "align_of write_out_layout = 4"
  by (simp_all add: write_out_layout_def)

interpretation write_out: abi_struct write_out_layout
  by unfold_locales (simp_all add: write_out_layout_def abi_codec)

record fuse_getxattr_out =
  getxattr_out_size :: u32
  getxattr_out_padding :: u32

definition getxattr_out_layout :: "fuse_getxattr_out layout" where
  "getxattr_out_layout = \<lparr>size_of = 8, align_of = 4,
     from_bytes = (\<lambda>bs.
       \<lparr>getxattr_out_size = le_word (field 0 4 bs),
        getxattr_out_padding = le_word (field 4 4 bs)\<rparr>),
     as_bytes = (\<lambda>x.
       le_bytes 4 (getxattr_out_size x) @
       le_bytes 4 (getxattr_out_padding x))\<rparr>"

lemma getxattr_out_sizes [simp]:
  "size_of getxattr_out_layout = 8" "align_of getxattr_out_layout = 4"
  by (simp_all add: getxattr_out_layout_def)

interpretation getxattr_out: abi_struct getxattr_out_layout
  by unfold_locales (simp_all add: getxattr_out_layout_def abi_codec)

record fuse_lk_out =
  lk_out_lk :: fuse_file_lock

definition lk_out_layout :: "fuse_lk_out layout" where
  "lk_out_layout = \<lparr>size_of = 24, align_of = 8,
     from_bytes = (\<lambda>bs.
       \<lparr>lk_out_lk = from_bytes file_lock_layout (field 0 24 bs)\<rparr>),
     as_bytes = (\<lambda>x.
       as_bytes file_lock_layout (lk_out_lk x))\<rparr>"

lemma lk_out_sizes [simp]:
  "size_of lk_out_layout = 24" "align_of lk_out_layout = 8"
  by (simp_all add: lk_out_layout_def)

interpretation lk_out: abi_struct lk_out_layout
  by unfold_locales (simp_all add: lk_out_layout_def abi_codec)

record fuse_bmap_out =
  bmap_out_block :: u64

definition bmap_out_layout :: "fuse_bmap_out layout" where
  "bmap_out_layout = \<lparr>size_of = 8, align_of = 8,
     from_bytes = (\<lambda>bs.
       \<lparr>bmap_out_block = le_word (field 0 8 bs)\<rparr>),
     as_bytes = (\<lambda>x.
       le_bytes 8 (bmap_out_block x))\<rparr>"

lemma bmap_out_sizes [simp]:
  "size_of bmap_out_layout = 8" "align_of bmap_out_layout = 8"
  by (simp_all add: bmap_out_layout_def)

interpretation bmap_out: abi_struct bmap_out_layout
  by unfold_locales (simp_all add: bmap_out_layout_def abi_codec)

record fuse_ioctl_out =
  ioctl_out_result :: i32
  ioctl_out_flags :: u32
  ioctl_out_in_iovs :: u32
  ioctl_out_out_iovs :: u32

definition ioctl_out_layout :: "fuse_ioctl_out layout" where
  "ioctl_out_layout = \<lparr>size_of = 16, align_of = 4,
     from_bytes = (\<lambda>bs.
       \<lparr>ioctl_out_result = le_word (field 0 4 bs),
        ioctl_out_flags = le_word (field 4 4 bs),
        ioctl_out_in_iovs = le_word (field 8 4 bs),
        ioctl_out_out_iovs = le_word (field 12 4 bs)\<rparr>),
     as_bytes = (\<lambda>x.
       le_bytes 4 (ioctl_out_result x) @
       le_bytes 4 (ioctl_out_flags x) @
       le_bytes 4 (ioctl_out_in_iovs x) @
       le_bytes 4 (ioctl_out_out_iovs x))\<rparr>"

lemma ioctl_out_sizes [simp]:
  "size_of ioctl_out_layout = 16" "align_of ioctl_out_layout = 4"
  by (simp_all add: ioctl_out_layout_def)

interpretation ioctl_out: abi_struct ioctl_out_layout
  by unfold_locales (simp_all add: ioctl_out_layout_def abi_codec)

record fuse_lseek_out =
  lseek_out_offset :: i64

definition lseek_out_layout :: "fuse_lseek_out layout" where
  "lseek_out_layout = \<lparr>size_of = 8, align_of = 8,
     from_bytes = (\<lambda>bs.
       \<lparr>lseek_out_offset = le_word (field 0 8 bs)\<rparr>),
     as_bytes = (\<lambda>x.
       le_bytes 8 (lseek_out_offset x))\<rparr>"

lemma lseek_out_sizes [simp]:
  "size_of lseek_out_layout = 8" "align_of lseek_out_layout = 8"
  by (simp_all add: lseek_out_layout_def)

interpretation lseek_out: abi_struct lseek_out_layout
  by unfold_locales (simp_all add: lseek_out_layout_def abi_codec)

record fuse_out_header =
  out_header_len :: u32
  out_header_error :: i32
  out_header_unique :: u64

definition out_header_layout :: "fuse_out_header layout" where
  "out_header_layout = \<lparr>size_of = 16, align_of = 8,
     from_bytes = (\<lambda>bs.
       \<lparr>out_header_len = le_word (field 0 4 bs),
        out_header_error = le_word (field 4 4 bs),
        out_header_unique = le_word (field 8 8 bs)\<rparr>),
     as_bytes = (\<lambda>x.
       le_bytes 4 (out_header_len x) @
       le_bytes 4 (out_header_error x) @
       le_bytes 8 (out_header_unique x))\<rparr>"

lemma out_header_sizes [simp]:
  "size_of out_header_layout = 16" "align_of out_header_layout = 8"
  by (simp_all add: out_header_layout_def)

interpretation out_header: abi_struct out_header_layout
  by unfold_locales (simp_all add: out_header_layout_def abi_codec)

record fuse_dirent =
  dirent_ino :: u64
  dirent_off :: i64
  dirent_namelen :: u32
  dirent_typ :: u32

definition dirent_layout :: "fuse_dirent layout" where
  "dirent_layout = \<lparr>size_of = 24, align_of = 8,
     from_bytes = (\<lambda>bs.
       \<lparr>dirent_ino = le_word (field 0 8 bs),
        dirent_off = le_word (field 8 8 bs),
        dirent_namelen = le_word (field 16 4 bs),
        dirent_typ = le_word (field 20 4 bs)\<rparr>),
     as_bytes = (\<lambda>x.
       le_bytes 8 (dirent_ino x) @
       le_bytes 8 (dirent_off x) @
       le_bytes 4 (dirent_namelen x) @
       le_bytes 4 (dirent_typ x))\<rparr>"

lemma dirent_sizes [simp]:
  "size_of dirent_layout = 24" "align_of dirent_layout = 8"
  by (simp_all add: dirent_layout_def)

interpretation dirent: abi_struct dirent_layout
  by unfold_locales (simp_all add: dirent_layout_def abi_codec)

lemmas dirent_codec [abi_codec] =
  dirent.length_as_bytes dirent.from_as_bytes_exact dirent.as_from_bytes

record fuse_direntplus =
  direntplus_entry_out :: fuse_entry_out
  direntplus_dirent :: fuse_dirent

definition direntplus_layout :: "fuse_direntplus layout" where
  "direntplus_layout = \<lparr>size_of = 152, align_of = 8,
     from_bytes = (\<lambda>bs.
       \<lparr>direntplus_entry_out = from_bytes entry_out_layout (field 0 128 bs),
        direntplus_dirent = from_bytes dirent_layout (field 128 24 bs)\<rparr>),
     as_bytes = (\<lambda>x.
       as_bytes entry_out_layout (direntplus_entry_out x) @
       as_bytes dirent_layout (direntplus_dirent x))\<rparr>"

lemma direntplus_sizes [simp]:
  "size_of direntplus_layout = 152" "align_of direntplus_layout = 8"
  by (simp_all add: direntplus_layout_def)

interpretation direntplus: abi_struct direntplus_layout
  by unfold_locales (simp_all add: direntplus_layout_def abi_codec)

record fuse_create_out =
  create_out_entry :: fuse_entry_out
  create_out_open :: fuse_open_out

definition create_out_bytes :: "fuse_create_out \<Rightarrow> bytes" where
  "create_out_bytes x = as_bytes entry_out_layout (create_out_entry x) @ as_bytes open_out_layout (create_out_open x)"

record fuse_kstatfs =
  kstatfs_blocks :: u64
  kstatfs_bfree :: u64
  kstatfs_bavail :: u64
  kstatfs_files :: u64
  kstatfs_ffree :: u64
  kstatfs_bsize :: u32
  kstatfs_namelen :: u32
  kstatfs_frsize :: u32
  kstatfs_padding :: u32
  kstatfs_spare :: "u32 list"

definition kstatfs_bytes :: "fuse_kstatfs \<Rightarrow> bytes" where
  "kstatfs_bytes x =
     le_bytes 8 (kstatfs_blocks x) @
     le_bytes 8 (kstatfs_bfree x) @
     le_bytes 8 (kstatfs_bavail x) @
     le_bytes 8 (kstatfs_files x) @
     le_bytes 8 (kstatfs_ffree x) @
     le_bytes 4 (kstatfs_bsize x) @
     le_bytes 4 (kstatfs_namelen x) @
     le_bytes 4 (kstatfs_frsize x) @
     le_bytes 4 (kstatfs_padding x) @
     concat (map (le_bytes 4) (kstatfs_spare x))"

record fuse_statfs_out =
  statfs_out_st :: fuse_kstatfs

definition statfs_out_bytes :: "fuse_statfs_out \<Rightarrow> bytes" where
  "statfs_out_bytes x =
     kstatfs_bytes (statfs_out_st x)"

record fuse_init_out =
  init_out_major :: u32
  init_out_minor :: u32
  init_out_max_readahead :: u32
  init_out_flags :: u32
  init_out_max_background :: u16
  init_out_congestion_threshold :: u16
  init_out_max_write :: u32
  init_out_time_gran :: u32
  init_out_max_pages :: u16
  init_out_unused2 :: u16
  init_out_reserved :: "u32 list"

definition init_out_bytes :: "fuse_init_out \<Rightarrow> bytes" where
  "init_out_bytes x =
     le_bytes 4 (init_out_major x) @
     le_bytes 4 (init_out_minor x) @
     le_bytes 4 (init_out_max_readahead x) @
     le_bytes 4 (init_out_flags x) @
     le_bytes 2 (init_out_max_background x) @
     le_bytes 2 (init_out_congestion_threshold x) @
     le_bytes 4 (init_out_max_write x) @
     le_bytes 4 (init_out_time_gran x) @
     le_bytes 2 (init_out_max_pages x) @
     le_bytes 2 (init_out_unused2 x) @
     concat (map (le_bytes 4) (init_out_reserved x))"

end
