(* ===== verification/Fuse_Request.thy ===== *)
theory Fuse_Request
  imports Fuse_Abi
begin

text \<open>
  Requests of the kernel (\<^verbatim>\<open>src/fuse/src/uring_fuse/low_level/op.rs\<close>, \<^verbatim>\<open>operation.rs\<close>,
  \<^verbatim>\<open>request.rs\<close>, \<^verbatim>\<open>version.rs\<close>, \<^verbatim>\<open>lock.rs\<close>): the structure of every operation, their accessors,
  reading the header of a packet and parsing the arguments of the operation it carries.

  File names are byte strings. A point in time is a number of nanoseconds relative to the epoch,
  within the range the platform's \<^verbatim>\<open>SystemTime\<close> can hold.
\<close>

section \<open>Operations\<close>

record FilenameInDir =
  FilenameInDir_dir :: u64
  FilenameInDir_name :: bytes

record Lookup =
  Lookup_header :: fuse_in_header
  Lookup_name :: bytes

record Forget =
  Forget_header :: fuse_in_header
  Forget_arg :: fuse_forget_in

record GetAttr =
  GetAttr_header :: fuse_in_header

record SetAttr =
  SetAttr_header :: fuse_in_header
  SetAttr_arg :: fuse_setattr_in

record ReadLink =
  ReadLink_header :: fuse_in_header

record SymLink =
  SymLink_header :: fuse_in_header
  SymLink_target :: bytes
  SymLink_link :: bytes

record MkNod =
  MkNod_header :: fuse_in_header
  MkNod_arg :: fuse_mknod_in
  MkNod_name :: bytes

record MkDir =
  MkDir_header :: fuse_in_header
  MkDir_arg :: fuse_mkdir_in
  MkDir_name :: bytes

record Unlink =
  Unlink_header :: fuse_in_header
  Unlink_name :: bytes

record RmDir =
  RmDir_header :: fuse_in_header
  RmDir_name :: bytes

record Rename =
  Rename_header :: fuse_in_header
  Rename_arg :: fuse_rename_in
  Rename_name :: bytes
  Rename_newname :: bytes

record Link =
  Link_header :: fuse_in_header
  Link_arg :: fuse_link_in
  Link_name :: bytes

record Open =
  Open_header :: fuse_in_header
  Open_arg :: fuse_open_in

record Read =
  Read_header :: fuse_in_header
  Read_arg :: fuse_read_in

record Write =
  Write_header :: fuse_in_header
  Write_arg :: fuse_write_in
  Write_data :: bytes

record StatFs =
  StatFs_header :: fuse_in_header

record Release =
  Release_header :: fuse_in_header
  Release_arg :: fuse_release_in

record FSync =
  FSync_header :: fuse_in_header
  FSync_arg :: fuse_fsync_in

record SetXAttr =
  SetXAttr_header :: fuse_in_header
  SetXAttr_arg :: fuse_setxattr_in
  SetXAttr_name :: bytes
  SetXAttr_value :: bytes

record GetXAttr =
  GetXAttr_header :: fuse_in_header
  GetXAttr_arg :: fuse_getxattr_in
  GetXAttr_name :: bytes

record ListXAttr =
  ListXAttr_header :: fuse_in_header
  ListXAttr_arg :: fuse_getxattr_in

record RemoveXAttr =
  RemoveXAttr_header :: fuse_in_header
  RemoveXAttr_name :: bytes

record Flush =
  Flush_header :: fuse_in_header
  Flush_arg :: fuse_flush_in

record Init =
  Init_header :: fuse_in_header
  Init_arg :: fuse_init_in

record OpenDir =
  OpenDir_header :: fuse_in_header
  OpenDir_arg :: fuse_open_in

record ReadDir =
  ReadDir_header :: fuse_in_header
  ReadDir_arg :: fuse_read_in

record ReleaseDir =
  ReleaseDir_header :: fuse_in_header
  ReleaseDir_arg :: fuse_release_in

record FSyncDir =
  FSyncDir_header :: fuse_in_header
  FSyncDir_arg :: fuse_fsync_in

record GetLk =
  GetLk_header :: fuse_in_header
  GetLk_arg :: fuse_lk_in

record SetLk =
  SetLk_header :: fuse_in_header
  SetLk_arg :: fuse_lk_in

record SetLkW =
  SetLkW_header :: fuse_in_header
  SetLkW_arg :: fuse_lk_in

record Access =
  Access_header :: fuse_in_header
  Access_arg :: fuse_access_in

record Create =
  Create_header :: fuse_in_header
  Create_arg :: fuse_create_in
  Create_name :: bytes

record Interrupt =
  Interrupt_header :: fuse_in_header
  Interrupt_arg :: fuse_interrupt_in

record BMap =
  BMap_header :: fuse_in_header
  BMap_arg :: fuse_bmap_in

record Destroy =
  Destroy_header :: fuse_in_header

record IoCtl =
  IoCtl_header :: fuse_in_header
  IoCtl_arg :: fuse_ioctl_in
  IoCtl_data :: bytes

record Poll =
  Poll_header :: fuse_in_header
  Poll_arg :: fuse_poll_in

record NotifyReply =
  NotifyReply_header :: fuse_in_header
  NotifyReply_arg :: bytes

record BatchForget =
  BatchForget_header :: fuse_in_header
  BatchForget_arg :: fuse_batch_forget_in
  BatchForget_nodes :: "fuse_forget_one list"

record FAllocate =
  FAllocate_header :: fuse_in_header
  FAllocate_arg :: fuse_fallocate_in

record ReadDirPlus =
  ReadDirPlus_header :: fuse_in_header
  ReadDirPlus_arg :: fuse_read_in

record Rename2 =
  Rename2_header :: fuse_in_header
  Rename2_arg :: fuse_rename2_in
  Rename2_name :: bytes
  Rename2_newname :: bytes
  Rename2_old_parent :: u64

record Lseek =
  Lseek_header :: fuse_in_header
  Lseek_arg :: fuse_lseek_in

record CopyFileRangeFile =
  CopyFileRangeFile_inode :: u64
  CopyFileRangeFile_file_handle :: u64
  CopyFileRangeFile_offset :: i64

record CopyFileRange =
  CopyFileRange_header :: fuse_in_header
  CopyFileRange_arg :: fuse_copy_file_range_in

record CuseInit =
  CuseInit_header :: fuse_in_header
  CuseInit_arg :: fuse_init_in

datatype operation =
    Lookup Lookup
  | Forget Forget
  | GetAttr GetAttr
  | SetAttr SetAttr
  | ReadLink ReadLink
  | SymLink SymLink
  | MkNod MkNod
  | MkDir MkDir
  | Unlink Unlink
  | RmDir RmDir
  | Rename Rename
  | Link Link
  | Open Open
  | Read Read
  | Write Write
  | StatFs StatFs
  | Release Release
  | FSync FSync
  | SetXAttr SetXAttr
  | GetXAttr GetXAttr
  | ListXAttr ListXAttr
  | RemoveXAttr RemoveXAttr
  | Flush Flush
  | Init Init
  | OpenDir OpenDir
  | ReadDir ReadDir
  | ReleaseDir ReleaseDir
  | FSyncDir FSyncDir
  | GetLk GetLk
  | SetLk SetLk
  | SetLkW SetLkW
  | Access Access
  | Create Create
  | Interrupt Interrupt
  | BMap BMap
  | Destroy Destroy
  | IoCtl IoCtl
  | Poll Poll
  | NotifyReply NotifyReply
  | BatchForget BatchForget
  | FAllocate FAllocate
  | ReadDirPlus ReadDirPlus
  | Rename2 Rename2
  | Lseek Lseek
  | CopyFileRange CopyFileRange
  | CuseInit CuseInit

section \<open>Accessors\<close>

type_synonym system_time = int

datatype time_or_now = SpecificTime system_time | Now

record lock =
  lock_range :: "u64 \<times> u64"
  lock_typ :: i32
  lock_pid :: u32

definition lock_from_abi :: "fuse_file_lock \<Rightarrow> lock" where
  "lock_from_abi x =
     \<lparr>lock_range = (file_lock_start x, file_lock_end x), lock_typ = file_lock_typ x, lock_pid = file_lock_pid x\<rparr>"

datatype version = Version (version_major: u32) (version_minor: u32)

text \<open>The derived order compares the major version first.\<close>

definition version_less :: "version \<Rightarrow> version \<Rightarrow> bool" where
  "version_less v w \<longleftrightarrow>
     version_major v < version_major w \<or>
     version_major v = version_major w \<and> version_minor v < version_minor w"

text \<open>
  \<^verbatim>\<open>SystemTime\<close> holds whole seconds as an \<open>i64\<close>; adding or subtracting a duration panics outside of it.
\<close>

definition nanos_per_sec :: int where
  "nanos_per_sec = 1000000000"

definition in_i64 :: "int \<Rightarrow> bool" where
  "in_i64 x \<longleftrightarrow> - (2 ^ 63) \<le> x \<and> x < 2 ^ 63"

definition system_time_at :: "string \<Rightarrow> int \<Rightarrow> system_time outcome" where
  "system_time_at m t = (if in_i64 (t div nanos_per_sec) then Ret t else Panic m)"

definition system_time_from_time :: "i64 \<Rightarrow> u32 \<Rightarrow> system_time outcome" where
  "system_time_from_time secs nsecs =
     (if 0 \<le> sint secs then
        system_time_at ''overflow when adding duration to instant''
          (sint secs * nanos_per_sec + uint nsecs)
      else if sint secs = - (2 ^ 63) then Panic ''attempt to negate with overflow''
      else
        system_time_at ''overflow when subtracting duration from instant''
          (- ((- sint secs) * nanos_per_sec + uint nsecs)))"

definition atime_now :: "fuse_setattr_in \<Rightarrow> bool" where
  "atime_now x \<longleftrightarrow> setattr_in_valid x AND FATTR_ATIME_NOW \<noteq> 0"

definition mtime_now :: "fuse_setattr_in \<Rightarrow> bool" where
  "mtime_now x \<longleftrightarrow> setattr_in_valid x AND FATTR_MTIME_NOW \<noteq> 0"

datatype getxattr_size = GetSize | Size u32

definition Forget_nlookup :: "Forget \<Rightarrow> u64" where
  "Forget_nlookup x =
     forget_in_nlookup (Forget_arg x)"

definition SetAttr_mode :: "SetAttr \<Rightarrow> u32 option" where
  "SetAttr_mode x =
     (if setattr_in_valid (SetAttr_arg x) AND FATTR_MODE = 0 then None else Some (setattr_in_mode (SetAttr_arg x)))"

definition SetAttr_uid :: "SetAttr \<Rightarrow> u32 option" where
  "SetAttr_uid x =
     (if setattr_in_valid (SetAttr_arg x) AND FATTR_UID = 0 then None else Some (setattr_in_uid (SetAttr_arg x)))"

definition SetAttr_gid :: "SetAttr \<Rightarrow> u32 option" where
  "SetAttr_gid x =
     (if setattr_in_valid (SetAttr_arg x) AND FATTR_GID = 0 then None else Some (setattr_in_gid (SetAttr_arg x)))"

definition SetAttr_size :: "SetAttr \<Rightarrow> u64 option" where
  "SetAttr_size x =
     (if setattr_in_valid (SetAttr_arg x) AND FATTR_SIZE = 0 then None else Some (setattr_in_size (SetAttr_arg x)))"

definition SetAttr_atime :: "SetAttr \<Rightarrow> time_or_now option outcome" where
  "SetAttr_atime x =
     (if setattr_in_valid (SetAttr_arg x) AND FATTR_ATIME = 0 then Ret None
      else if atime_now (SetAttr_arg x) then Ret (Some Now)
      else bind_outcome (system_time_from_time (setattr_in_atime (SetAttr_arg x)) (setattr_in_atimensec (SetAttr_arg x))) (\<lambda>t. Ret (Some (SpecificTime t))))"

definition SetAttr_mtime :: "SetAttr \<Rightarrow> time_or_now option outcome" where
  "SetAttr_mtime x =
     (if setattr_in_valid (SetAttr_arg x) AND FATTR_MTIME = 0 then Ret None
      else if mtime_now (SetAttr_arg x) then Ret (Some Now)
      else bind_outcome (system_time_from_time (setattr_in_mtime (SetAttr_arg x)) (setattr_in_mtimensec (SetAttr_arg x))) (\<lambda>t. Ret (Some (SpecificTime t))))"

definition SetAttr_ctime :: "SetAttr \<Rightarrow> system_time option outcome" where
  "SetAttr_ctime x =
     (if setattr_in_valid (SetAttr_arg x) AND FATTR_CTIME = 0 then Ret None
      else bind_outcome (system_time_from_time (setattr_in_ctime (SetAttr_arg x)) (setattr_in_ctimensec (SetAttr_arg x))) (\<lambda>t. Ret (Some t)))"

definition SetAttr_file_handle :: "SetAttr \<Rightarrow> u64 option" where
  "SetAttr_file_handle x =
     (if setattr_in_valid (SetAttr_arg x) AND FATTR_FH = 0 then None else Some (setattr_in_fh (SetAttr_arg x)))"

definition SetAttr_crtime :: "SetAttr \<Rightarrow> system_time option" where
  "SetAttr_crtime x =
     None"

definition SetAttr_chgtime :: "SetAttr \<Rightarrow> system_time option" where
  "SetAttr_chgtime x =
     None"

definition SetAttr_bkuptime :: "SetAttr \<Rightarrow> system_time option" where
  "SetAttr_bkuptime x =
     None"

definition SetAttr_flags :: "SetAttr \<Rightarrow> u32 option" where
  "SetAttr_flags x =
     None"

definition MkNod_mode :: "MkNod \<Rightarrow> u32" where
  "MkNod_mode x =
     mknod_in_mode (MkNod_arg x)"

definition MkNod_umask :: "MkNod \<Rightarrow> u32" where
  "MkNod_umask x =
     mknod_in_umask (MkNod_arg x)"

definition MkNod_rdev :: "MkNod \<Rightarrow> u32" where
  "MkNod_rdev x =
     mknod_in_rdev (MkNod_arg x)"

definition MkDir_mode :: "MkDir \<Rightarrow> u32" where
  "MkDir_mode x =
     mkdir_in_mode (MkDir_arg x)"

definition MkDir_umask :: "MkDir \<Rightarrow> u32" where
  "MkDir_umask x =
     mkdir_in_umask (MkDir_arg x)"

definition Rename_src :: "Rename \<Rightarrow> FilenameInDir" where
  "Rename_src x =
     \<lparr>FilenameInDir_dir = in_header_nodeid (Rename_header x), FilenameInDir_name = Rename_name x\<rparr>"

definition Rename_dest :: "Rename \<Rightarrow> FilenameInDir" where
  "Rename_dest x =
     \<lparr>FilenameInDir_dir = rename_in_newdir (Rename_arg x), FilenameInDir_name = Rename_newname x\<rparr>"

definition Link_inode_no :: "Link \<Rightarrow> u64" where
  "Link_inode_no x =
     link_in_oldnodeid (Link_arg x)"

definition Link_dest :: "Link \<Rightarrow> FilenameInDir" where
  "Link_dest x =
     \<lparr>FilenameInDir_dir = Link_inode_no x, FilenameInDir_name = Link_name x\<rparr>"

definition Open_flags :: "Open \<Rightarrow> i32" where
  "Open_flags x =
     open_in_flags (Open_arg x)"

definition Read_file_handle :: "Read \<Rightarrow> u64" where
  "Read_file_handle x =
     read_in_fh (Read_arg x)"

definition Read_offset :: "Read \<Rightarrow> i64" where
  "Read_offset x =
     read_in_offset (Read_arg x)"

definition Read_size :: "Read \<Rightarrow> u32" where
  "Read_size x =
     read_in_size (Read_arg x)"

definition Read_lock_owner :: "Read \<Rightarrow> u64 option" where
  "Read_lock_owner x =
     (if read_in_read_flags (Read_arg x) AND FUSE_READ_LOCKOWNER \<noteq> 0 then Some (read_in_lock_owner (Read_arg x)) else None)"

definition Read_flags :: "Read \<Rightarrow> i32" where
  "Read_flags x =
     read_in_flags (Read_arg x)"

definition Write_file_handle :: "Write \<Rightarrow> u64" where
  "Write_file_handle x =
     write_in_fh (Write_arg x)"

definition Write_offset :: "Write \<Rightarrow> i64" where
  "Write_offset x =
     write_in_offset (Write_arg x)"

definition Write_write_flags :: "Write \<Rightarrow> u32" where
  "Write_write_flags x =
     write_in_write_flags (Write_arg x)"

definition Write_lock_owner :: "Write \<Rightarrow> u64 option" where
  "Write_lock_owner x =
     (if write_in_write_flags (Write_arg x) AND FUSE_WRITE_LOCKOWNER \<noteq> 0 then Some (write_in_lock_owner (Write_arg x)) else None)"

definition Write_flags :: "Write \<Rightarrow> i32" where
  "Write_flags x =
     write_in_flags (Write_arg x)"

definition Release_flush :: "Release \<Rightarrow> bool" where
  "Release_flush x \<longleftrightarrow>
     release_in_release_flags (Release_arg x) AND FUSE_RELEASE_FLUSH \<noteq> 0"

definition Release_file_handle :: "Release \<Rightarrow> u64" where
  "Release_file_handle x =
     release_in_fh (Release_arg x)"

definition Release_flags :: "Release \<Rightarrow> i32" where
  "Release_flags x =
     release_in_flags (Release_arg x)"

definition Release_lock_owner :: "Release \<Rightarrow> u64 option" where
  "Release_lock_owner x =
     (if release_in_release_flags (Release_arg x) AND FUSE_RELEASE_FLOCK_UNLOCK \<noteq> 0 then Some (release_in_lock_owner (Release_arg x)) else None)"

definition FSync_file_handle :: "FSync \<Rightarrow> u64" where
  "FSync_file_handle x =
     fsync_in_fh (FSync_arg x)"

definition FSync_fdatasync :: "FSync \<Rightarrow> bool" where
  "FSync_fdatasync x \<longleftrightarrow>
     fsync_in_fsync_flags (FSync_arg x) AND FUSE_FSYNC_FDATASYNC \<noteq> 0"

definition SetXAttr_flags :: "SetXAttr \<Rightarrow> i32" where
  "SetXAttr_flags x =
     setxattr_in_flags (SetXAttr_arg x)"

definition SetXAttr_position :: "SetXAttr \<Rightarrow> u32" where
  "SetXAttr_position x =
     0"

definition GetXAttr_size :: "GetXAttr \<Rightarrow> getxattr_size" where
  "GetXAttr_size x =
     (if getxattr_in_size (GetXAttr_arg x) = 0 then GetSize else Size (getxattr_in_size (GetXAttr_arg x)))"

definition GetXAttr_size_u32 :: "GetXAttr \<Rightarrow> u32" where
  "GetXAttr_size_u32 x =
     getxattr_in_size (GetXAttr_arg x)"

definition ListXAttr_size :: "ListXAttr \<Rightarrow> u32" where
  "ListXAttr_size x =
     getxattr_in_size (ListXAttr_arg x)"

definition Flush_file_handle :: "Flush \<Rightarrow> u64" where
  "Flush_file_handle x =
     flush_in_fh (Flush_arg x)"

definition Flush_lock_owner :: "Flush \<Rightarrow> u64" where
  "Flush_lock_owner x =
     flush_in_lock_owner (Flush_arg x)"

definition Init_capabilities :: "Init \<Rightarrow> u32" where
  "Init_capabilities x =
     init_in_flags (Init_arg x)"

definition Init_max_readahead :: "Init \<Rightarrow> u32" where
  "Init_max_readahead x =
     init_in_max_readahead (Init_arg x)"

definition Init_version :: "Init \<Rightarrow> version" where
  "Init_version x =
     Version (init_in_major (Init_arg x)) (init_in_minor (Init_arg x))"

definition OpenDir_flags :: "OpenDir \<Rightarrow> i32" where
  "OpenDir_flags x =
     open_in_flags (OpenDir_arg x)"

definition ReadDir_file_handle :: "ReadDir \<Rightarrow> u64" where
  "ReadDir_file_handle x =
     read_in_fh (ReadDir_arg x)"

definition ReadDir_offset :: "ReadDir \<Rightarrow> i64" where
  "ReadDir_offset x =
     read_in_offset (ReadDir_arg x)"

definition ReadDir_size :: "ReadDir \<Rightarrow> u32" where
  "ReadDir_size x =
     read_in_size (ReadDir_arg x)"

definition ReleaseDir_file_handle :: "ReleaseDir \<Rightarrow> u64" where
  "ReleaseDir_file_handle x =
     release_in_fh (ReleaseDir_arg x)"

definition ReleaseDir_flush :: "ReleaseDir \<Rightarrow> bool" where
  "ReleaseDir_flush x \<longleftrightarrow>
     release_in_release_flags (ReleaseDir_arg x) AND FUSE_RELEASE_FLUSH \<noteq> 0"

definition ReleaseDir_lock_owner :: "ReleaseDir \<Rightarrow> u64 option" where
  "ReleaseDir_lock_owner x =
     (if release_in_release_flags (ReleaseDir_arg x) AND FUSE_RELEASE_FLOCK_UNLOCK \<noteq> 0 then Some (release_in_lock_owner (ReleaseDir_arg x)) else None)"

definition ReleaseDir_flags :: "ReleaseDir \<Rightarrow> i32" where
  "ReleaseDir_flags x =
     release_in_flags (ReleaseDir_arg x)"

definition FSyncDir_file_handle :: "FSyncDir \<Rightarrow> u64" where
  "FSyncDir_file_handle x =
     fsync_in_fh (FSyncDir_arg x)"

definition FSyncDir_fdatasync :: "FSyncDir \<Rightarrow> bool" where
  "FSyncDir_fdatasync x \<longleftrightarrow>
     fsync_in_fsync_flags (FSyncDir_arg x) AND FUSE_FSYNC_FDATASYNC \<noteq> 0"

definition GetLk_file_handle :: "GetLk \<Rightarrow> u64" where
  "GetLk_file_handle x =
     lk_in_fh (GetLk_arg x)"

definition GetLk_lock :: "GetLk \<Rightarrow> lock" where
  "GetLk_lock x =
     lock_from_abi (lk_in_lk (GetLk_arg x))"

definition GetLk_lock_owner :: "GetLk \<Rightarrow> u64" where
  "GetLk_lock_owner x =
     lk_in_owner (GetLk_arg x)"

definition SetLk_file_handle :: "SetLk \<Rightarrow> u64" where
  "SetLk_file_handle x =
     lk_in_fh (SetLk_arg x)"

definition SetLk_lock :: "SetLk \<Rightarrow> lock" where
  "SetLk_lock x =
     lock_from_abi (lk_in_lk (SetLk_arg x))"

definition SetLk_lock_owner :: "SetLk \<Rightarrow> u64" where
  "SetLk_lock_owner x =
     lk_in_owner (SetLk_arg x)"

definition SetLkW_file_handle :: "SetLkW \<Rightarrow> u64" where
  "SetLkW_file_handle x =
     lk_in_fh (SetLkW_arg x)"

definition SetLkW_lock :: "SetLkW \<Rightarrow> lock" where
  "SetLkW_lock x =
     lock_from_abi (lk_in_lk (SetLkW_arg x))"

definition SetLkW_lock_owner :: "SetLkW \<Rightarrow> u64" where
  "SetLkW_lock_owner x =
     lk_in_owner (SetLkW_arg x)"

definition Access_mask :: "Access \<Rightarrow> i32" where
  "Access_mask x =
     access_in_mask (Access_arg x)"

definition Create_mode :: "Create \<Rightarrow> u32" where
  "Create_mode x =
     create_in_mode (Create_arg x)"

definition Create_flags :: "Create \<Rightarrow> i32" where
  "Create_flags x =
     create_in_flags (Create_arg x)"

definition Create_umask :: "Create \<Rightarrow> u32" where
  "Create_umask x =
     create_in_umask (Create_arg x)"

definition Interrupt_unique :: "Interrupt \<Rightarrow> u64" where
  "Interrupt_unique x =
     interrupt_in_unique (Interrupt_arg x)"

definition BMap_block_size :: "BMap \<Rightarrow> u32" where
  "BMap_block_size x =
     bmap_in_blocksize (BMap_arg x)"

definition BMap_block :: "BMap \<Rightarrow> u64" where
  "BMap_block x =
     bmap_in_block (BMap_arg x)"

definition IoCtl_in_data :: "IoCtl \<Rightarrow> bytes outcome" where
  "IoCtl_in_data x =
     (if length (IoCtl_data x) < unat (ioctl_in_in_size (IoCtl_arg x)) then Panic ''range end index out of range''
      else Ret (take (unat (ioctl_in_in_size (IoCtl_arg x))) (IoCtl_data x)))"

definition IoCtl_unrestricted :: "IoCtl \<Rightarrow> bool" where
  "IoCtl_unrestricted x \<longleftrightarrow>
     ioctl_in_flags (IoCtl_arg x) AND FUSE_IOCTL_UNRESTRICTED \<noteq> 0"

definition IoCtl_file_handle :: "IoCtl \<Rightarrow> u64" where
  "IoCtl_file_handle x =
     ioctl_in_fh (IoCtl_arg x)"

definition IoCtl_flags :: "IoCtl \<Rightarrow> u32" where
  "IoCtl_flags x =
     ioctl_in_flags (IoCtl_arg x)"

definition IoCtl_command :: "IoCtl \<Rightarrow> u32" where
  "IoCtl_command x =
     ioctl_in_cmd (IoCtl_arg x)"

definition IoCtl_out_size :: "IoCtl \<Rightarrow> u32" where
  "IoCtl_out_size x =
     ioctl_in_out_size (IoCtl_arg x)"

definition Poll_file_handle :: "Poll \<Rightarrow> u64" where
  "Poll_file_handle x =
     poll_in_fh (Poll_arg x)"

definition FAllocate_file_handle :: "FAllocate \<Rightarrow> u64" where
  "FAllocate_file_handle x =
     fallocate_in_fh (FAllocate_arg x)"

definition FAllocate_offset :: "FAllocate \<Rightarrow> i64" where
  "FAllocate_offset x =
     fallocate_in_offset (FAllocate_arg x)"

definition FAllocate_len :: "FAllocate \<Rightarrow> i64" where
  "FAllocate_len x =
     fallocate_in_length (FAllocate_arg x)"

definition FAllocate_mode :: "FAllocate \<Rightarrow> i32" where
  "FAllocate_mode x =
     fallocate_in_mode (FAllocate_arg x)"

definition ReadDirPlus_file_handle :: "ReadDirPlus \<Rightarrow> u64" where
  "ReadDirPlus_file_handle x =
     read_in_fh (ReadDirPlus_arg x)"

definition ReadDirPlus_offset :: "ReadDirPlus \<Rightarrow> i64" where
  "ReadDirPlus_offset x =
     read_in_offset (ReadDirPlus_arg x)"

definition ReadDirPlus_size :: "ReadDirPlus \<Rightarrow> u32" where
  "ReadDirPlus_size x =
     read_in_size (ReadDirPlus_arg x)"

definition Rename2_from :: "Rename2 \<Rightarrow> FilenameInDir" where
  "Rename2_from x =
     \<lparr>FilenameInDir_dir = Rename2_old_parent x, FilenameInDir_name = Rename2_name x\<rparr>"

definition Rename2_to :: "Rename2 \<Rightarrow> FilenameInDir" where
  "Rename2_to x =
     \<lparr>FilenameInDir_dir = rename2_in_newdir (Rename2_arg x), FilenameInDir_name = Rename2_newname x\<rparr>"

definition Rename2_flags :: "Rename2 \<Rightarrow> u32" where
  "Rename2_flags x =
     rename2_in_flags (Rename2_arg x)"

definition Lseek_file_handle :: "Lseek \<Rightarrow> u64" where
  "Lseek_file_handle x =
     lseek_in_fh (Lseek_arg x)"

definition Lseek_offset :: "Lseek \<Rightarrow> i64" where
  "Lseek_offset x =
     lseek_in_offset (Lseek_arg x)"

definition Lseek_whence :: "Lseek \<Rightarrow> i32" where
  "Lseek_whence x =
     lseek_in_whence (Lseek_arg x)"

definition CopyFileRange_src :: "CopyFileRange \<Rightarrow> CopyFileRangeFile" where
  "CopyFileRange_src x =
     \<lparr>CopyFileRangeFile_inode = in_header_nodeid (CopyFileRange_header x), CopyFileRangeFile_file_handle = copy_file_range_in_fh_in (CopyFileRange_arg x),
      CopyFileRangeFile_offset = copy_file_range_in_off_in (CopyFileRange_arg x)\<rparr>"

definition CopyFileRange_dest :: "CopyFileRange \<Rightarrow> CopyFileRangeFile" where
  "CopyFileRange_dest x =
     \<lparr>CopyFileRangeFile_inode = copy_file_range_in_nodeid_out (CopyFileRange_arg x), CopyFileRangeFile_file_handle = copy_file_range_in_fh_out (CopyFileRange_arg x),
      CopyFileRangeFile_offset = copy_file_range_in_off_out (CopyFileRange_arg x)\<rparr>"

definition CopyFileRange_len :: "CopyFileRange \<Rightarrow> u64" where
  "CopyFileRange_len x =
     copy_file_range_in_len (CopyFileRange_arg x)"

definition CopyFileRange_flags :: "CopyFileRange \<Rightarrow> u64" where
  "CopyFileRange_flags x =
     copy_file_range_in_flags (CopyFileRange_arg x)"

section \<open>Parsing\<close>

fun parse_op :: "fuse_in_header \<Rightarrow> fuse_opcode \<Rightarrow> operation parser" where
  "parse_op h FUSE_LOOKUP =
       p_bind fetch_str (\<lambda>name.
       p_return (Lookup \<lparr>Lookup_header = h, Lookup_name = name\<rparr>))"
| "parse_op h FUSE_FORGET =
       p_bind (fetch forget_in_layout) (\<lambda>arg.
       p_return (Forget \<lparr>Forget_header = h, Forget_arg = arg\<rparr>))"
| "parse_op h FUSE_GETATTR =
       p_return (GetAttr \<lparr>GetAttr_header = h\<rparr>)"
| "parse_op h FUSE_SETATTR =
       p_bind (fetch setattr_in_layout) (\<lambda>arg.
       p_return (SetAttr \<lparr>SetAttr_header = h, SetAttr_arg = arg\<rparr>))"
| "parse_op h FUSE_READLINK =
       p_return (ReadLink \<lparr>ReadLink_header = h\<rparr>)"
| "parse_op h FUSE_SYMLINK =
       p_bind fetch_str (\<lambda>target.
       p_bind fetch_str (\<lambda>link.
       p_return (SymLink \<lparr>SymLink_header = h, SymLink_target = target, SymLink_link = link\<rparr>)))"
| "parse_op h FUSE_MKNOD =
       p_bind (fetch mknod_in_layout) (\<lambda>arg.
       p_bind fetch_str (\<lambda>name.
       p_return (MkNod \<lparr>MkNod_header = h, MkNod_arg = arg, MkNod_name = name\<rparr>)))"
| "parse_op h FUSE_MKDIR =
       p_bind (fetch mkdir_in_layout) (\<lambda>arg.
       p_bind fetch_str (\<lambda>name.
       p_return (MkDir \<lparr>MkDir_header = h, MkDir_arg = arg, MkDir_name = name\<rparr>)))"
| "parse_op h FUSE_UNLINK =
       p_bind fetch_str (\<lambda>name.
       p_return (Unlink \<lparr>Unlink_header = h, Unlink_name = name\<rparr>))"
| "parse_op h FUSE_RMDIR =
       p_bind fetch_str (\<lambda>name.
       p_return (RmDir \<lparr>RmDir_header = h, RmDir_name = name\<rparr>))"
| "parse_op h FUSE_RENAME =
       p_bind (fetch rename_in_layout) (\<lambda>arg.
       p_bind fetch_str (\<lambda>name.
       p_bind fetch_str (\<lambda>newname.
       p_return (Rename \<lparr>Rename_header = h, Rename_arg = arg, Rename_name = name, Rename_newname = newname\<rparr>))))"
| "parse_op h FUSE_LINK =
       p_bind (fetch link_in_layout) (\<lambda>arg.
       p_bind fetch_str (\<lambda>name.
       p_return (Link \<lparr>Link_header = h, Link_arg = arg, Link_name = name\<rparr>)))"
| "parse_op h FUSE_OPEN =
       p_bind (fetch open_in_layout) (\<lambda>arg.
       p_return (Open \<lparr>Open_header = h, Open_arg = arg\<rparr>))"
| "parse_op h FUSE_READ =
       p_bind (fetch read_in_layout) (\<lambda>arg.
       p_return (Read \<lparr>Read_header = h, Read_arg = arg\<rparr>))"
| "parse_op h FUSE_WRITE =
       p_bind (fetch write_in_layout) (\<lambda>arg.
       p_bind fetch_all (\<lambda>data.
       p_assert ''out.data().len() == out.arg.size as usize'' (length data = unat (write_in_size arg))
          (p_return (Write \<lparr>Write_header = h, Write_arg = arg, Write_data = data\<rparr>))))"
| "parse_op h FUSE_STATFS =
       p_return (StatFs \<lparr>StatFs_header = h\<rparr>)"
| "parse_op h FUSE_RELEASE =
       p_bind (fetch release_in_layout) (\<lambda>arg.
       p_return (Release \<lparr>Release_header = h, Release_arg = arg\<rparr>))"
| "parse_op h FUSE_FSYNC =
       p_bind (fetch fsync_in_layout) (\<lambda>arg.
       p_return (FSync \<lparr>FSync_header = h, FSync_arg = arg\<rparr>))"
| "parse_op h FUSE_SETXATTR =
       p_bind (fetch setxattr_in_layout) (\<lambda>arg.
       p_bind fetch_str (\<lambda>name.
       p_bind fetch_all (\<lambda>value.
       p_assert ''out.value.len() == out.arg.size as usize'' (length value = unat (setxattr_in_size arg))
          (p_return (SetXAttr \<lparr>SetXAttr_header = h, SetXAttr_arg = arg, SetXAttr_name = name, SetXAttr_value = value\<rparr>)))))"
| "parse_op h FUSE_GETXATTR =
       p_bind (fetch getxattr_in_layout) (\<lambda>arg.
       p_bind fetch_str (\<lambda>name.
       p_return (GetXAttr \<lparr>GetXAttr_header = h, GetXAttr_arg = arg, GetXAttr_name = name\<rparr>)))"
| "parse_op h FUSE_LISTXATTR =
       p_bind (fetch getxattr_in_layout) (\<lambda>arg.
       p_return (ListXAttr \<lparr>ListXAttr_header = h, ListXAttr_arg = arg\<rparr>))"
| "parse_op h FUSE_REMOVEXATTR =
       p_bind fetch_str (\<lambda>name.
       p_return (RemoveXAttr \<lparr>RemoveXAttr_header = h, RemoveXAttr_name = name\<rparr>))"
| "parse_op h FUSE_FLUSH =
       p_bind (fetch flush_in_layout) (\<lambda>arg.
       p_return (Flush \<lparr>Flush_header = h, Flush_arg = arg\<rparr>))"
| "parse_op h FUSE_INIT =
       p_bind (fetch init_in_layout) (\<lambda>arg.
       p_return (Init \<lparr>Init_header = h, Init_arg = arg\<rparr>))"
| "parse_op h FUSE_OPENDIR =
       p_bind (fetch open_in_layout) (\<lambda>arg.
       p_return (OpenDir \<lparr>OpenDir_header = h, OpenDir_arg = arg\<rparr>))"
| "parse_op h FUSE_READDIR =
       p_bind (fetch read_in_layout) (\<lambda>arg.
       p_return (ReadDir \<lparr>ReadDir_header = h, ReadDir_arg = arg\<rparr>))"
| "parse_op h FUSE_RELEASEDIR =
       p_bind (fetch release_in_layout) (\<lambda>arg.
       p_return (ReleaseDir \<lparr>ReleaseDir_header = h, ReleaseDir_arg = arg\<rparr>))"
| "parse_op h FUSE_FSYNCDIR =
       p_bind (fetch fsync_in_layout) (\<lambda>arg.
       p_return (FSyncDir \<lparr>FSyncDir_header = h, FSyncDir_arg = arg\<rparr>))"
| "parse_op h FUSE_GETLK =
       p_bind (fetch lk_in_layout) (\<lambda>arg.
       p_return (GetLk \<lparr>GetLk_header = h, GetLk_arg = arg\<rparr>))"
| "parse_op h FUSE_SETLK =
       p_bind (fetch lk_in_layout) (\<lambda>arg.
       p_return (SetLk \<lparr>SetLk_header = h, SetLk_arg = arg\<rparr>))"
| "parse_op h FUSE_SETLKW =
       p_bind (fetch lk_in_layout) (\<lambda>arg.
       p_return (SetLkW \<lparr>SetLkW_header = h, SetLkW_arg = arg\<rparr>))"
| "parse_op h FUSE_ACCESS =
       p_bind (fetch access_in_layout) (\<lambda>arg.
       p_return (Access \<lparr>Access_header = h, Access_arg = arg\<rparr>))"
| "parse_op h FUSE_CREATE =
       p_bind (fetch create_in_layout) (\<lambda>arg.
       p_bind fetch_str (\<lambda>name.
       p_return (Create \<lparr>Create_header = h, Create_arg = arg, Create_name = name\<rparr>)))"
| "parse_op h FUSE_INTERRUPT =
       p_bind (fetch interrupt_in_layout) (\<lambda>arg.
       p_return (Interrupt \<lparr>Interrupt_header = h, Interrupt_arg = arg\<rparr>))"
| "parse_op h FUSE_BMAP =
       p_bind (fetch bmap_in_layout) (\<lambda>arg.
       p_return (BMap \<lparr>BMap_header = h, BMap_arg = arg\<rparr>))"
| "parse_op h FUSE_DESTROY =
       p_return (Destroy \<lparr>Destroy_header = h\<rparr>)"
| "parse_op h FUSE_IOCTL =
       p_bind (fetch ioctl_in_layout) (\<lambda>arg.
       p_bind fetch_all (\<lambda>data.
       p_return (IoCtl \<lparr>IoCtl_header = h, IoCtl_arg = arg, IoCtl_data = data\<rparr>)))"
| "parse_op h FUSE_POLL =
       p_bind (fetch poll_in_layout) (\<lambda>arg.
       p_return (Poll \<lparr>Poll_header = h, Poll_arg = arg\<rparr>))"
| "parse_op h FUSE_NOTIFY_REPLY =
       p_bind fetch_all (\<lambda>arg.
       p_return (NotifyReply \<lparr>NotifyReply_header = h, NotifyReply_arg = arg\<rparr>))"
| "parse_op h FUSE_BATCH_FORGET =
       p_bind (fetch batch_forget_in_layout) (\<lambda>arg.
       p_bind (fetch_slice forget_one_layout (unat (batch_forget_in_count arg))) (\<lambda>nodes.
       p_return (BatchForget \<lparr>BatchForget_header = h, BatchForget_arg = arg, BatchForget_nodes = nodes\<rparr>)))"
| "parse_op h FUSE_FALLOCATE =
       p_bind (fetch fallocate_in_layout) (\<lambda>arg.
       p_return (FAllocate \<lparr>FAllocate_header = h, FAllocate_arg = arg\<rparr>))"
| "parse_op h FUSE_READDIRPLUS =
       p_bind (fetch read_in_layout) (\<lambda>arg.
       p_return (ReadDirPlus \<lparr>ReadDirPlus_header = h, ReadDirPlus_arg = arg\<rparr>))"
| "parse_op h FUSE_RENAME2 =
       p_bind (fetch rename2_in_layout) (\<lambda>arg.
       p_bind fetch_str (\<lambda>name.
       p_bind fetch_str (\<lambda>newname.
       p_return (Rename2 \<lparr>Rename2_header = h, Rename2_arg = arg, Rename2_name = name, Rename2_newname = newname, Rename2_old_parent = in_header_nodeid h\<rparr>))))"
| "parse_op h FUSE_LSEEK =
       p_bind (fetch lseek_in_layout) (\<lambda>arg.
       p_return (Lseek \<lparr>Lseek_header = h, Lseek_arg = arg\<rparr>))"
| "parse_op h FUSE_COPY_FILE_RANGE =
       p_bind (fetch copy_file_range_in_layout) (\<lambda>arg.
       p_return (CopyFileRange \<lparr>CopyFileRange_header = h, CopyFileRange_arg = arg\<rparr>))"
| "parse_op h CUSE_INIT =
       p_bind (fetch init_in_layout) (\<lambda>arg.
       p_return (CuseInit \<lparr>CuseInit_header = h, CuseInit_arg = arg\<rparr>))"

definition run_parser :: "('a \<times> arg_iter) option outcome \<Rightarrow> 'a option outcome" where
  "run_parser r = bind_outcome r (\<lambda>x. Ret (map_option fst x))"

definition parse :: "fuse_in_header \<Rightarrow> fuse_opcode \<Rightarrow> nat \<Rightarrow> bytes \<Rightarrow> operation option outcome" where
  "parse h opcode a bs = run_parser (parse_op h opcode (arg_new a bs))"

datatype request_error =
    ShortReadHeader nat
  | UnknownOperation u32
  | ShortRead nat nat
  | InsufficientData

text \<open>The address of the arguments is kept beside their bytes.\<close>

record AnyRequest =
  AnyRequest_header :: fuse_in_header
  AnyRequest_data :: bytes
  AnyRequest_data_addr :: nat

definition request_try_from :: "nat \<Rightarrow> bytes \<Rightarrow> (request_error + AnyRequest) outcome" where
  "request_try_from a bs =
     (let data_len = length bs in
      bind_outcome (fetch in_header_layout (arg_new a bs)) (\<lambda>r. case r of
        None \<Rightarrow> Ret (Inl (ShortReadHeader (arg_len (arg_new a bs))))
      | Some (header, _) \<Rightarrow>
          if data_len < unat (in_header_len header) then
            Ret (Inl (ShortRead data_len (unat (in_header_len header))))
          else if unat (in_header_len header) < size_of in_header_layout then
            Panic ''slice index starts at 40 but ends before it''
          else
            Ret (Inr \<lparr>AnyRequest_header = header,
                      AnyRequest_data = drop (size_of in_header_layout) (take (unat (in_header_len header)) bs),
                      AnyRequest_data_addr = a + size_of in_header_layout\<rparr>)))"

definition request_operation :: "AnyRequest \<Rightarrow> (request_error + operation) outcome" where
  "request_operation r =
     (case opcode_try_from (in_header_opcode (AnyRequest_header r)) of
        None \<Rightarrow> Ret (Inl (UnknownOperation (in_header_opcode (AnyRequest_header r))))
      | Some opcode \<Rightarrow>
          bind_outcome (parse (AnyRequest_header r) opcode (AnyRequest_data_addr r) (AnyRequest_data r))
            (\<lambda>p. case p of None \<Rightarrow> Ret (Inl InsufficientData) | Some op \<Rightarrow> Ret (Inr op)))"

section \<open>What the kernel sends\<close>

text \<open>
  The operation code, the header and the argument bytes of an operation, and the conditions under
  which the bytes determine it: names without a zero byte, counts and sizes that agree with the
  arguments.
\<close>

fun op_code :: "operation \<Rightarrow> fuse_opcode" where
  "op_code (Lookup x) = FUSE_LOOKUP"
| "op_code (Forget x) = FUSE_FORGET"
| "op_code (GetAttr x) = FUSE_GETATTR"
| "op_code (SetAttr x) = FUSE_SETATTR"
| "op_code (ReadLink x) = FUSE_READLINK"
| "op_code (SymLink x) = FUSE_SYMLINK"
| "op_code (MkNod x) = FUSE_MKNOD"
| "op_code (MkDir x) = FUSE_MKDIR"
| "op_code (Unlink x) = FUSE_UNLINK"
| "op_code (RmDir x) = FUSE_RMDIR"
| "op_code (Rename x) = FUSE_RENAME"
| "op_code (Link x) = FUSE_LINK"
| "op_code (Open x) = FUSE_OPEN"
| "op_code (Read x) = FUSE_READ"
| "op_code (Write x) = FUSE_WRITE"
| "op_code (StatFs x) = FUSE_STATFS"
| "op_code (Release x) = FUSE_RELEASE"
| "op_code (FSync x) = FUSE_FSYNC"
| "op_code (SetXAttr x) = FUSE_SETXATTR"
| "op_code (GetXAttr x) = FUSE_GETXATTR"
| "op_code (ListXAttr x) = FUSE_LISTXATTR"
| "op_code (RemoveXAttr x) = FUSE_REMOVEXATTR"
| "op_code (Flush x) = FUSE_FLUSH"
| "op_code (Init x) = FUSE_INIT"
| "op_code (OpenDir x) = FUSE_OPENDIR"
| "op_code (ReadDir x) = FUSE_READDIR"
| "op_code (ReleaseDir x) = FUSE_RELEASEDIR"
| "op_code (FSyncDir x) = FUSE_FSYNCDIR"
| "op_code (GetLk x) = FUSE_GETLK"
| "op_code (SetLk x) = FUSE_SETLK"
| "op_code (SetLkW x) = FUSE_SETLKW"
| "op_code (Access x) = FUSE_ACCESS"
| "op_code (Create x) = FUSE_CREATE"
| "op_code (Interrupt x) = FUSE_INTERRUPT"
| "op_code (BMap x) = FUSE_BMAP"
| "op_code (Destroy x) = FUSE_DESTROY"
| "op_code (IoCtl x) = FUSE_IOCTL"
| "op_code (Poll x) = FUSE_POLL"
| "op_code (NotifyReply x) = FUSE_NOTIFY_REPLY"
| "op_code (BatchForget x) = FUSE_BATCH_FORGET"
| "op_code (FAllocate x) = FUSE_FALLOCATE"
| "op_code (ReadDirPlus x) = FUSE_READDIRPLUS"
| "op_code (Rename2 x) = FUSE_RENAME2"
| "op_code (Lseek x) = FUSE_LSEEK"
| "op_code (CopyFileRange x) = FUSE_COPY_FILE_RANGE"
| "op_code (CuseInit x) = CUSE_INIT"

fun op_header :: "operation \<Rightarrow> fuse_in_header" where
  "op_header (Lookup x) = Lookup_header x"
| "op_header (Forget x) = Forget_header x"
| "op_header (GetAttr x) = GetAttr_header x"
| "op_header (SetAttr x) = SetAttr_header x"
| "op_header (ReadLink x) = ReadLink_header x"
| "op_header (SymLink x) = SymLink_header x"
| "op_header (MkNod x) = MkNod_header x"
| "op_header (MkDir x) = MkDir_header x"
| "op_header (Unlink x) = Unlink_header x"
| "op_header (RmDir x) = RmDir_header x"
| "op_header (Rename x) = Rename_header x"
| "op_header (Link x) = Link_header x"
| "op_header (Open x) = Open_header x"
| "op_header (Read x) = Read_header x"
| "op_header (Write x) = Write_header x"
| "op_header (StatFs x) = StatFs_header x"
| "op_header (Release x) = Release_header x"
| "op_header (FSync x) = FSync_header x"
| "op_header (SetXAttr x) = SetXAttr_header x"
| "op_header (GetXAttr x) = GetXAttr_header x"
| "op_header (ListXAttr x) = ListXAttr_header x"
| "op_header (RemoveXAttr x) = RemoveXAttr_header x"
| "op_header (Flush x) = Flush_header x"
| "op_header (Init x) = Init_header x"
| "op_header (OpenDir x) = OpenDir_header x"
| "op_header (ReadDir x) = ReadDir_header x"
| "op_header (ReleaseDir x) = ReleaseDir_header x"
| "op_header (FSyncDir x) = FSyncDir_header x"
| "op_header (GetLk x) = GetLk_header x"
| "op_header (SetLk x) = SetLk_header x"
| "op_header (SetLkW x) = SetLkW_header x"
| "op_header (Access x) = Access_header x"
| "op_header (Create x) = Create_header x"
| "op_header (Interrupt x) = Interrupt_header x"
| "op_header (BMap x) = BMap_header x"
| "op_header (Destroy x) = Destroy_header x"
| "op_header (IoCtl x) = IoCtl_header x"
| "op_header (Poll x) = Poll_header x"
| "op_header (NotifyReply x) = NotifyReply_header x"
| "op_header (BatchForget x) = BatchForget_header x"
| "op_header (FAllocate x) = FAllocate_header x"
| "op_header (ReadDirPlus x) = ReadDirPlus_header x"
| "op_header (Rename2 x) = Rename2_header x"
| "op_header (Lseek x) = Lseek_header x"
| "op_header (CopyFileRange x) = CopyFileRange_header x"
| "op_header (CuseInit x) = CuseInit_header x"

fun op_payload :: "operation \<Rightarrow> bytes" where
  "op_payload (Lookup x) = Lookup_name x @ [0]"
| "op_payload (Forget x) = as_bytes forget_in_layout (Forget_arg x)"
| "op_payload (GetAttr x) = []"
| "op_payload (SetAttr x) = as_bytes setattr_in_layout (SetAttr_arg x)"
| "op_payload (ReadLink x) = []"
| "op_payload (SymLink x) = SymLink_target x @ [0] @ SymLink_link x @ [0]"
| "op_payload (MkNod x) = as_bytes mknod_in_layout (MkNod_arg x) @ MkNod_name x @ [0]"
| "op_payload (MkDir x) = as_bytes mkdir_in_layout (MkDir_arg x) @ MkDir_name x @ [0]"
| "op_payload (Unlink x) = Unlink_name x @ [0]"
| "op_payload (RmDir x) = RmDir_name x @ [0]"
| "op_payload (Rename x) = as_bytes rename_in_layout (Rename_arg x) @ Rename_name x @ [0] @ Rename_newname x @ [0]"
| "op_payload (Link x) = as_bytes link_in_layout (Link_arg x) @ Link_name x @ [0]"
| "op_payload (Open x) = as_bytes open_in_layout (Open_arg x)"
| "op_payload (Read x) = as_bytes read_in_layout (Read_arg x)"
| "op_payload (Write x) = as_bytes write_in_layout (Write_arg x) @ Write_data x"
| "op_payload (StatFs x) = []"
| "op_payload (Release x) = as_bytes release_in_layout (Release_arg x)"
| "op_payload (FSync x) = as_bytes fsync_in_layout (FSync_arg x)"
| "op_payload (SetXAttr x) = as_bytes setxattr_in_layout (SetXAttr_arg x) @ SetXAttr_name x @ [0] @ SetXAttr_value x"
| "op_payload (GetXAttr x) = as_bytes getxattr_in_layout (GetXAttr_arg x) @ GetXAttr_name x @ [0]"
| "op_payload (ListXAttr x) = as_bytes getxattr_in_layout (ListXAttr_arg x)"
| "op_payload (RemoveXAttr x) = RemoveXAttr_name x @ [0]"
| "op_payload (Flush x) = as_bytes flush_in_layout (Flush_arg x)"
| "op_payload (Init x) = as_bytes init_in_layout (Init_arg x)"
| "op_payload (OpenDir x) = as_bytes open_in_layout (OpenDir_arg x)"
| "op_payload (ReadDir x) = as_bytes read_in_layout (ReadDir_arg x)"
| "op_payload (ReleaseDir x) = as_bytes release_in_layout (ReleaseDir_arg x)"
| "op_payload (FSyncDir x) = as_bytes fsync_in_layout (FSyncDir_arg x)"
| "op_payload (GetLk x) = as_bytes lk_in_layout (GetLk_arg x)"
| "op_payload (SetLk x) = as_bytes lk_in_layout (SetLk_arg x)"
| "op_payload (SetLkW x) = as_bytes lk_in_layout (SetLkW_arg x)"
| "op_payload (Access x) = as_bytes access_in_layout (Access_arg x)"
| "op_payload (Create x) = as_bytes create_in_layout (Create_arg x) @ Create_name x @ [0]"
| "op_payload (Interrupt x) = as_bytes interrupt_in_layout (Interrupt_arg x)"
| "op_payload (BMap x) = as_bytes bmap_in_layout (BMap_arg x)"
| "op_payload (Destroy x) = []"
| "op_payload (IoCtl x) = as_bytes ioctl_in_layout (IoCtl_arg x) @ IoCtl_data x"
| "op_payload (Poll x) = as_bytes poll_in_layout (Poll_arg x)"
| "op_payload (NotifyReply x) = NotifyReply_arg x"
| "op_payload (BatchForget x) = as_bytes batch_forget_in_layout (BatchForget_arg x) @ concat (map (as_bytes forget_one_layout) (BatchForget_nodes x))"
| "op_payload (FAllocate x) = as_bytes fallocate_in_layout (FAllocate_arg x)"
| "op_payload (ReadDirPlus x) = as_bytes read_in_layout (ReadDirPlus_arg x)"
| "op_payload (Rename2 x) = as_bytes rename2_in_layout (Rename2_arg x) @ Rename2_name x @ [0] @ Rename2_newname x @ [0]"
| "op_payload (Lseek x) = as_bytes lseek_in_layout (Lseek_arg x)"
| "op_payload (CopyFileRange x) = as_bytes copy_file_range_in_layout (CopyFileRange_arg x)"
| "op_payload (CuseInit x) = as_bytes init_in_layout (CuseInit_arg x)"

fun op_wf :: "operation \<Rightarrow> bool" where
  "op_wf (Lookup x) \<longleftrightarrow> 0 \<notin> set (Lookup_name x)"
| "op_wf (Forget x) \<longleftrightarrow> True"
| "op_wf (GetAttr x) \<longleftrightarrow> True"
| "op_wf (SetAttr x) \<longleftrightarrow> True"
| "op_wf (ReadLink x) \<longleftrightarrow> True"
| "op_wf (SymLink x) \<longleftrightarrow> 0 \<notin> set (SymLink_target x) \<and> 0 \<notin> set (SymLink_link x)"
| "op_wf (MkNod x) \<longleftrightarrow> 0 \<notin> set (MkNod_name x)"
| "op_wf (MkDir x) \<longleftrightarrow> 0 \<notin> set (MkDir_name x)"
| "op_wf (Unlink x) \<longleftrightarrow> 0 \<notin> set (Unlink_name x)"
| "op_wf (RmDir x) \<longleftrightarrow> 0 \<notin> set (RmDir_name x)"
| "op_wf (Rename x) \<longleftrightarrow> 0 \<notin> set (Rename_name x) \<and> 0 \<notin> set (Rename_newname x)"
| "op_wf (Link x) \<longleftrightarrow> 0 \<notin> set (Link_name x)"
| "op_wf (Open x) \<longleftrightarrow> True"
| "op_wf (Read x) \<longleftrightarrow> True"
| "op_wf (Write x) \<longleftrightarrow> length (Write_data x) = unat (write_in_size (Write_arg x))"
| "op_wf (StatFs x) \<longleftrightarrow> True"
| "op_wf (Release x) \<longleftrightarrow> True"
| "op_wf (FSync x) \<longleftrightarrow> True"
| "op_wf (SetXAttr x) \<longleftrightarrow> 0 \<notin> set (SetXAttr_name x) \<and> length (SetXAttr_value x) = unat (setxattr_in_size (SetXAttr_arg x))"
| "op_wf (GetXAttr x) \<longleftrightarrow> 0 \<notin> set (GetXAttr_name x)"
| "op_wf (ListXAttr x) \<longleftrightarrow> True"
| "op_wf (RemoveXAttr x) \<longleftrightarrow> 0 \<notin> set (RemoveXAttr_name x)"
| "op_wf (Flush x) \<longleftrightarrow> True"
| "op_wf (Init x) \<longleftrightarrow> True"
| "op_wf (OpenDir x) \<longleftrightarrow> True"
| "op_wf (ReadDir x) \<longleftrightarrow> True"
| "op_wf (ReleaseDir x) \<longleftrightarrow> True"
| "op_wf (FSyncDir x) \<longleftrightarrow> True"
| "op_wf (GetLk x) \<longleftrightarrow> True"
| "op_wf (SetLk x) \<longleftrightarrow> True"
| "op_wf (SetLkW x) \<longleftrightarrow> True"
| "op_wf (Access x) \<longleftrightarrow> True"
| "op_wf (Create x) \<longleftrightarrow> 0 \<notin> set (Create_name x)"
| "op_wf (Interrupt x) \<longleftrightarrow> True"
| "op_wf (BMap x) \<longleftrightarrow> True"
| "op_wf (Destroy x) \<longleftrightarrow> True"
| "op_wf (IoCtl x) \<longleftrightarrow> True"
| "op_wf (Poll x) \<longleftrightarrow> True"
| "op_wf (NotifyReply x) \<longleftrightarrow> True"
| "op_wf (BatchForget x) \<longleftrightarrow> length (BatchForget_nodes x) = unat (batch_forget_in_count (BatchForget_arg x))"
| "op_wf (FAllocate x) \<longleftrightarrow> True"
| "op_wf (ReadDirPlus x) \<longleftrightarrow> True"
| "op_wf (Rename2 x) \<longleftrightarrow> 0 \<notin> set (Rename2_name x) \<and> 0 \<notin> set (Rename2_newname x) \<and> Rename2_old_parent x = in_header_nodeid (Rename2_header x)"
| "op_wf (Lseek x) \<longleftrightarrow> True"
| "op_wf (CopyFileRange x) \<longleftrightarrow> True"
| "op_wf (CuseInit x) \<longleftrightarrow> True"

text \<open>The operations whose last argument is all that is left.\<close>

fun takes_all :: "operation \<Rightarrow> bool" where
  "takes_all (Write x) = True"
| "takes_all (SetXAttr x) = True"
| "takes_all (IoCtl x) = True"
| "takes_all (NotifyReply x) = True"
| "takes_all _ = False"

section \<open>Lemmas\<close>

lemma opcode_try_from_value [simp]: "opcode_try_from (opcode_value oc) = Some oc"
  by (cases oc) (simp_all add: opcode_try_from_def)

lemma opcode_try_from_Some: "opcode_try_from n = Some oc \<Longrightarrow> n = opcode_value oc"
  by (auto simp: opcode_try_from_def split: if_splits)

lemma eight_dvd: "8 dvd (n :: nat) \<Longrightarrow> 4 dvd n"
  by (rule dvd_trans [of 4 8]) simp_all

lemma parse_op_sound:
  assumes "parse_op h oc it = Ret (Some (op, it'))"
  shows "op_code op = oc \<and> op_header op = h \<and> op_wf op \<and> data it = op_payload op @ data it' \<and>
         (takes_all op \<longrightarrow> data it' = [])"
  using assms by (cases oc) (auto simp: parse_simps)

lemma parse_op_complete:
  assumes "8 dvd a" and "op_wf op" and "takes_all op \<longrightarrow> rest = []"
  shows "\<exists>it'. parse_op (op_header op) (op_code op) \<lparr>addr = a, data = op_payload op @ rest\<rparr>
           = Ret (Some (op, it')) \<and> data it' = rest"
  using assms by (cases op) (simp_all add: encode_simps eight_dvd)

lemma parse_write_panic:
  assumes "8 dvd addr it"
  shows "parse_op h FUSE_WRITE it = Panic m \<longleftrightarrow>
     m = ''out.data().len() == out.arg.size as usize'' \<and>
     (\<exists>x d. data it = as_bytes write_in_layout x @ d \<and> length d \<noteq> unat (write_in_size x))"
    (is "?l \<longleftrightarrow> ?r")
proof
  assume ?l
  then show ?r using assms by (auto simp: panic_simps parse_simps split: if_splits)
next
  assume ?r
  then show ?l using assms by (cases it) (auto simp: encode_simps p_assert_def)
qed

lemma parse_setxattr_panic:
  assumes "8 dvd addr it"
  shows "parse_op h FUSE_SETXATTR it = Panic m \<longleftrightarrow>
     m = ''out.value.len() == out.arg.size as usize'' \<and>
     (\<exists>x name d. data it = as_bytes setxattr_in_layout x @ name @ 0 # d \<and> 0 \<notin> set name \<and>
        length d \<noteq> unat (setxattr_in_size x))"
    (is "?l \<longleftrightarrow> ?r")
proof
  assume ?l
  then show ?r using assms by (fastforce simp: panic_simps parse_simps split: if_splits)
next
  assume ?r
  then show ?l using assms by (cases it) (auto simp: encode_simps eight_dvd p_assert_def)
qed

lemma parse_op_panic:
  assumes "8 dvd addr it"
  shows "parse_op h oc it = Panic m \<longleftrightarrow>
     oc = FUSE_WRITE \<and> parse_op h FUSE_WRITE it = Panic m \<or>
     oc = FUSE_SETXATTR \<and> parse_op h FUSE_SETXATTR it = Panic m"
  using assms by (cases oc) (simp_all add: panic_simps parse_simps del: parse_op.simps(15, 19))

lemma parse_op_defined: "parse_op h oc it \<noteq> Undefined m"
  by (cases oc) (simp_all add: panic_simps)

lemma run_parser_Some: "run_parser r = Ret (Some x) \<longleftrightarrow> (\<exists>it. r = Ret (Some (x, it)))"
  by (auto simp: run_parser_def outcome_simps)

lemma run_parser_Panic: "run_parser r = Panic m \<longleftrightarrow> r = Panic m"
  by (cases r) (auto simp: run_parser_def)

lemma run_parser_Undefined: "run_parser r = Undefined m \<longleftrightarrow> r = Undefined m"
  by (cases r) (auto simp: run_parser_def)

lemma parse_iff:
  assumes "8 dvd a"
  shows "parse h oc a bs = Ret (Some op) \<longleftrightarrow>
     op_code op = oc \<and> op_header op = h \<and> op_wf op \<and>
     (\<exists>rest. bs = op_payload op @ rest \<and> (takes_all op \<longrightarrow> rest = []))"
    (is "?l \<longleftrightarrow> ?r")
proof
  assume ?l
  then show ?r
    using parse_op_sound by (fastforce simp: parse_def arg_new_def run_parser_Some)
next
  assume ?r
  then obtain rest where "bs = op_payload op @ rest" "takes_all op \<longrightarrow> rest = []"
    and "op_code op = oc" "op_header op = h" "op_wf op" by auto
  then show ?l
    using parse_op_complete [of a op rest] assms by (auto simp: parse_def arg_new_def run_parser_Some)
qed

lemma in_header_split:
  "size_of in_header_layout \<le> length bs \<Longrightarrow>
     bs = as_bytes in_header_layout (from_bytes in_header_layout bs) @ drop (size_of in_header_layout) bs"
  using in_header.as_from_bytes [of bs] by simp

lemma request_try_from_eq:
  assumes "8 dvd a"
  shows "request_try_from a bs =
     (if length bs < 40 then Ret (Inl (ShortReadHeader (length bs)))
      else let len = unat (in_header_len (from_bytes in_header_layout bs)) in
        if length bs < len then Ret (Inl (ShortRead (length bs) len))
        else if len < 40 then Panic ''slice index starts at 40 but ends before it''
        else Ret (Inr \<lparr>AnyRequest_header = from_bytes in_header_layout bs,
                       AnyRequest_data = drop 40 (take len bs), AnyRequest_data_addr = a + 40\<rparr>))"
  using assms by (simp add: request_try_from_def fetch_def arg_new_def arg_len_def Let_def)

lemma request_split:
  assumes "40 \<le> len" and "len \<le> length bs"
  shows "bs = as_bytes in_header_layout (from_bytes in_header_layout bs) @ drop 40 (take len bs) @ drop len bs"
proof -
  have "take 40 bs @ drop 40 (take len bs) = take len bs"
    using assms(1) append_take_drop_id [of 40 "take len bs"] by (simp add: min_absorb1)
  then show ?thesis
    using assms in_header.as_from_bytes [of bs] by (metis append_assoc append_take_drop_id in_header_sizes(1) order_trans)
qed

section \<open>Properties\<close>

definition example_header :: fuse_in_header where
  "example_header =
     \<lparr>in_header_len = 48, in_header_opcode = 2, in_header_unique = 7, in_header_nodeid = 1,
      in_header_uid = 0, in_header_gid = 0, in_header_pid = 0, in_header_padding = 0\<rparr>"

definition example_write_in :: fuse_write_in where
  "example_write_in =
     \<lparr>write_in_fh = 1, write_in_offset = 0, write_in_size = 2, write_in_write_flags = 0,
      write_in_lock_owner = 0, write_in_flags = 0, write_in_padding = 0\<rparr>"

definition example_forget :: operation where
  "example_forget =
     Forget \<lparr>Forget_header = example_header, Forget_arg = \<lparr>forget_in_nlookup = 3\<rparr>\<rparr>"

text \<open>A number is accepted exactly when it is the number of a code.\<close>

lemma opcode_numbers_exact:
  "opcode_try_from n = Some oc \<longleftrightarrow> n = opcode_value oc"
  using opcode_try_from_Some by auto

text \<open>
  C18. The parser of arguments accepts exactly the bytes that encode an operation. At an aligned
  address, the result is the operation \<open>op\<close> if and only if the code and the header are those of \<open>op\<close>,
  its names contain no zero byte, its counts and sizes agree with its arguments, and the data starts
  with the encoding of its arguments (and is nothing else, for the operations that take all of it).
\<close>

theorem parse_exact:
  assumes "8 dvd a"
  shows "parse h oc a bs = Ret (Some op) \<longleftrightarrow>
     op_code op = oc \<and> op_header op = h \<and> op_wf op \<and>
     (\<exists>rest. bs = op_payload op @ rest \<and> (takes_all op \<longrightarrow> rest = []))"
  by (rule parse_iff [OF assms])

theorem parse_exact_witness:
  "parse example_header FUSE_SYMLINK 8 [97, 0, 98, 99, 0, 7]
   = Ret (Some (SymLink \<lparr>SymLink_header = example_header, SymLink_target = [97], SymLink_link = [98, 99]\<rparr>))"
  by (subst parse_exact) (simp_all add: exI [of _ "[7]"])

text \<open>
  Parsing the arguments at an aligned address never reads out of bounds or panics for alignment;
  it panics exactly when a write or a setxattr request carries another number of bytes than its
  size field says.
\<close>

lemma parse_panics_exactly:
  assumes "8 dvd a"
  shows "(parse h oc a bs = Panic m \<longleftrightarrow>
     oc = FUSE_WRITE \<and> m = ''out.data().len() == out.arg.size as usize'' \<and>
       (\<exists>x d. bs = as_bytes write_in_layout x @ d \<and> length d \<noteq> unat (write_in_size x)) \<or>
     oc = FUSE_SETXATTR \<and> m = ''out.value.len() == out.arg.size as usize'' \<and>
       (\<exists>x name d. bs = as_bytes setxattr_in_layout x @ name @ 0 # d \<and> 0 \<notin> set name \<and>
          length d \<noteq> unat (setxattr_in_size x))) \<and>
     \<not> is_undefined (parse h oc a bs)"
proof
  show "parse h oc a bs = Panic m \<longleftrightarrow>
     oc = FUSE_WRITE \<and> m = ''out.data().len() == out.arg.size as usize'' \<and>
       (\<exists>x d. bs = as_bytes write_in_layout x @ d \<and> length d \<noteq> unat (write_in_size x)) \<or>
     oc = FUSE_SETXATTR \<and> m = ''out.value.len() == out.arg.size as usize'' \<and>
       (\<exists>x name d. bs = as_bytes setxattr_in_layout x @ name @ 0 # d \<and> 0 \<notin> set name \<and>
          length d \<noteq> unat (setxattr_in_size x))"
    using parse_op_panic [of "arg_new a bs" h oc m] parse_write_panic [of "arg_new a bs" h m]
      parse_setxattr_panic [of "arg_new a bs" h m] assms
    by (simp add: parse_def run_parser_Panic arg_new_def)
  show "\<not> is_undefined (parse h oc a bs)"
    using parse_op_defined
    by (cases "parse h oc a bs") (auto simp: parse_def run_parser_Undefined)
qed

text \<open>
  A packet at an aligned address becomes a request exactly when it is a header, the number of
  argument bytes the header announces, and possibly more; the request then holds that header and
  those bytes, at an aligned address again. The only panic is a header whose length is smaller than
  the header itself.
\<close>

lemma request_try_from_exact:
  assumes "8 dvd a"
  shows "(request_try_from a bs = Ret (Inr r) \<longleftrightarrow>
      (\<exists>rest. bs = as_bytes in_header_layout (AnyRequest_header r) @ AnyRequest_data r @ rest) \<and>
      unat (in_header_len (AnyRequest_header r)) = 40 + length (AnyRequest_data r) \<and>
      AnyRequest_data_addr r = a + 40) \<and>
    (request_try_from a bs = Panic m \<longrightarrow>
      40 \<le> length bs \<and> unat (in_header_len (from_bytes in_header_layout bs)) < 40) \<and>
    \<not> is_undefined (request_try_from a bs)"
proof (intro conjI)
  show "request_try_from a bs = Ret (Inr r) \<longleftrightarrow>
      (\<exists>rest. bs = as_bytes in_header_layout (AnyRequest_header r) @ AnyRequest_data r @ rest) \<and>
      unat (in_header_len (AnyRequest_header r)) = 40 + length (AnyRequest_data r) \<and>
      AnyRequest_data_addr r = a + 40" (is "?l \<longleftrightarrow> ?r")
  proof
    assume l: ?l
    then show ?r
      using request_split [of "unat (in_header_len (AnyRequest_header r))" bs]
      by (auto simp: request_try_from_eq [OF assms] Let_def split: if_splits)
  next
    assume r: ?r
    then obtain rest where "bs = as_bytes in_header_layout (AnyRequest_header r) @ AnyRequest_data r @ rest"
      by blast
    then have "from_bytes in_header_layout bs = AnyRequest_header r" and "drop 40 bs = AnyRequest_data r @ rest"
      and "length bs = 40 + length (AnyRequest_data r) + length rest"
      by (simp_all add: in_header.from_as_bytes in_header.length_as_bytes)
    with r show ?l
      by (simp add: request_try_from_eq [OF assms] Let_def drop_take)
  qed
qed (use assms in \<open>auto simp: request_try_from_eq Let_def split: if_splits\<close>)

text \<open>
  C19. Every operation the kernel can send is understood: the packet of a header that carries the right
  length and code, followed by the encoded arguments, is read back as exactly that operation.
\<close>

theorem request_round_trip:
  assumes "8 dvd a" and "op_wf op"
    and "in_header_opcode (op_header op) = opcode_value (op_code op)"
    and "unat (in_header_len (op_header op)) = 40 + length (op_payload op)"
  shows "\<exists>r. request_try_from a (as_bytes in_header_layout (op_header op) @ op_payload op) = Ret (Inr r) \<and>
             request_operation r = Ret (Inr op)"
proof -
  let ?r = "\<lparr>AnyRequest_header = op_header op, AnyRequest_data = op_payload op, AnyRequest_data_addr = a + 40\<rparr>"
  have "request_try_from a (as_bytes in_header_layout (op_header op) @ op_payload op) = Ret (Inr ?r)"
    using assms by (simp add: request_try_from_eq Let_def in_header.from_as_bytes in_header.length_as_bytes)
  moreover have "parse (op_header op) (op_code op) (a + 40) (op_payload op) = Ret (Some op)"
    using assms by (subst parse_iff) auto
  then have "request_operation ?r = Ret (Inr op)"
    using assms(3) by (simp add: request_operation_def)
  ultimately show ?thesis by blast
qed

theorem request_round_trip_witness:
  "\<exists>r. request_try_from 16 (as_bytes in_header_layout example_header @ op_payload example_forget) = Ret (Inr r) \<and>
       request_operation r = Ret (Inr example_forget)"
  using request_round_trip [of 16 example_forget]
  by (simp add: example_forget_def example_header_def forget_in.length_as_bytes)

end
