(* ===== verification/Fuse_Reply.thy ===== *)
theory Fuse_Reply
  imports Fuse_Request
begin

text \<open>
  Replies to the kernel (\<^verbatim>\<open>src/fuse/src/uring_fuse\<close>: \<^verbatim>\<open>low_level/response.rs\<close>,
  \<^verbatim>\<open>low_level/file_meta.rs\<close>, \<^verbatim>\<open>low_level/errno.rs\<close>, \<^verbatim>\<open>file_meta.rs\<close> and \<^verbatim>\<open>reply/\<close>): file attributes
  and directory listings as the bytes the kernel reads, the packet of a reply, and the reply objects
  a file system answers through. The channel is the list of packets handed to it.
\<close>

section \<open>File attributes\<close>

record duration =
  as_secs :: u64
  subsec_nanos :: u32

datatype file_type =
    NamedPipe | CharDevice | BlockDevice | Directory | RegularFile | Symlink | Socket

record FileAttr =
  fa_ino :: u64
  fa_size :: u64
  fa_blocks :: u64
  fa_atime :: system_time
  fa_mtime :: system_time
  fa_ctime :: system_time
  fa_crtime :: system_time
  fa_kind :: file_type
  fa_perm :: u16
  fa_nlink :: u32
  fa_uid :: u32
  fa_gid :: u32
  fa_rdev :: u32
  fa_blksize :: u32
  fa_flags :: u32

text \<open>The file type bits of a mode, as the platform defines them.\<close>

fun file_type_bits :: "file_type \<Rightarrow> u32" where
  "file_type_bits NamedPipe = 0x1000"
| "file_type_bits CharDevice = 0x2000"
| "file_type_bits BlockDevice = 0x6000"
| "file_type_bits Directory = 0x4000"
| "file_type_bits RegularFile = 0x8000"
| "file_type_bits Symlink = 0xA000"
| "file_type_bits Socket = 0xC000"

definition mode_from_kind_and_perm :: "file_type \<Rightarrow> u16 \<Rightarrow> u32" where
  "mode_from_kind_and_perm kind perm = file_type_bits kind OR ucast perm"

text \<open>
  \<^verbatim>\<open>duration_since(UNIX_EPOCH)\<close> gives the distance from the epoch, as an error for earlier times; the
  negation of the seconds overflows for the earliest second.
\<close>

definition time_from_system_time :: "system_time \<Rightarrow> (i64 \<times> u32) outcome" where
  "time_from_system_time t =
     (if 0 \<le> t then Ret (word_of_int (t div nanos_per_sec), word_of_int (t mod nanos_per_sec))
      else
        let d = - t; secs = (word_of_int (d div nanos_per_sec) :: i64) in
        if sint secs = - (2 ^ 63) then Panic ''attempt to negate with overflow''
        else Ret (- secs, word_of_int (d mod nanos_per_sec)))"

definition fuse_attr_from_attr :: "FileAttr \<Rightarrow> fuse_attr outcome" where
  "fuse_attr_from_attr attr =
     bind_outcome (time_from_system_time (fa_atime attr)) (\<lambda>(atime_secs, atime_nanos).
     bind_outcome (time_from_system_time (fa_mtime attr)) (\<lambda>(mtime_secs, mtime_nanos).
     bind_outcome (time_from_system_time (fa_ctime attr)) (\<lambda>(ctime_secs, ctime_nanos).
       Ret \<lparr>attr_ino = fa_ino attr, attr_size = fa_size attr, attr_blocks = fa_blocks attr,
            attr_atime = atime_secs, attr_mtime = mtime_secs, attr_ctime = ctime_secs,
            attr_atimensec = atime_nanos, attr_mtimensec = mtime_nanos, attr_ctimensec = ctime_nanos,
            attr_mode = mode_from_kind_and_perm (fa_kind attr) (fa_perm attr),
            attr_nlink = fa_nlink attr, attr_uid = fa_uid attr, attr_gid = fa_gid attr,
            attr_rdev = fa_rdev attr, attr_blksize = fa_blksize attr, attr_padding = 0\<rparr>)))"

section \<open>Directory listings\<close>

record ent_list_buf =
  max_size :: nat
  ent_buf :: bytes

definition ent_list_new :: "nat \<Rightarrow> ent_list_buf" where
  "ent_list_new n = \<lparr>max_size = n, ent_buf = []\<rparr>"

text \<open>\<^verbatim>\<open>(entlen + 8 - 1) & !(8 - 1)\<close> on \<open>usize\<close>.\<close>

definition ent_align :: "nat \<Rightarrow> nat" where
  "ent_align entlen = unat ((of_nat entlen + 8 - 1 :: usize) AND NOT (8 - 1))"

definition ent_push :: "bytes \<Rightarrow> bytes \<Rightarrow> ent_list_buf \<Rightarrow> bool \<times> ent_list_buf" where
  "ent_push ent0 ent1 l =
     (let entlen = length ent0 + length ent1; entsize = ent_align entlen in
      if max_size l < length (ent_buf l) + entsize then (True, l)
      else (False, l\<lparr>ent_buf := ent_buf l @ ent0 @ ent1 @ replicate (entsize - entlen) 0\<rparr>))"

record dir_entry =
  de_ino :: u64
  de_offset :: i64
  de_kind :: file_type
  de_name :: bytes

definition dirent_of :: "dir_entry \<Rightarrow> fuse_dirent" where
  "dirent_of ent =
     \<lparr>dirent_ino = de_ino ent, dirent_off = de_offset ent, dirent_namelen = of_nat (length (de_name ent)),
      dirent_typ = drop_bit 12 (mode_from_kind_and_perm (de_kind ent) 0)\<rparr>"

definition dir_list_push :: "dir_entry \<Rightarrow> ent_list_buf \<Rightarrow> (bool \<times> ent_list_buf) outcome" where
  "dir_list_push ent l =
     (if 2 ^ 32 \<le> length (de_name ent) then Panic ''Name too long''
      else Ret (ent_push (as_bytes dirent_layout (dirent_of ent)) (de_name ent) l))"

record dir_entry_plus =
  dp_ino :: u64
  dp_generation :: u64
  dp_offset :: i64
  dp_name :: bytes
  dp_entry_valid :: duration
  dp_attr :: fuse_attr
  dp_attr_valid :: duration

definition direntplus_of :: "dir_entry_plus \<Rightarrow> fuse_direntplus" where
  "direntplus_of x =
     \<lparr>direntplus_entry_out =
        \<lparr>entry_out_nodeid = attr_ino (dp_attr x), entry_out_generation = dp_generation x,
         entry_out_entry_valid = as_secs (dp_entry_valid x), entry_out_attr_valid = as_secs (dp_attr_valid x),
         entry_out_entry_valid_nsec = subsec_nanos (dp_entry_valid x),
         entry_out_attr_valid_nsec = subsec_nanos (dp_attr_valid x), entry_out_attr = dp_attr x\<rparr>,
      direntplus_dirent =
        \<lparr>dirent_ino = attr_ino (dp_attr x), dirent_off = dp_offset x,
         dirent_namelen = of_nat (length (dp_name x)), dirent_typ = drop_bit 12 (attr_mode (dp_attr x))\<rparr>\<rparr>"

definition dir_plus_list_push :: "dir_entry_plus \<Rightarrow> ent_list_buf \<Rightarrow> (bool \<times> ent_list_buf) outcome" where
  "dir_plus_list_push x l =
     (if 2 ^ 32 \<le> length (dp_name x) then Panic ''Name too long''
      else Ret (ent_push (as_bytes direntplus_layout (direntplus_of x)) (dp_name x) l))"

section \<open>Responses\<close>

datatype response = Error i32 | Data bytes | Slice bytes

definition EIO :: i32 where
  "EIO = 5"

text \<open>\<^verbatim>\<open>Errno\<close> is a number other than zero.\<close>

definition errno_from_i32 :: "i32 \<Rightarrow> i32" where
  "errno_from_i32 err = (if err = 0 then EIO else err)"

definition with_iovec :: "u64 \<Rightarrow> response \<Rightarrow> bytes list outcome" where
  "with_iovec unique r =
     (let datalen = (case r of Error _ \<Rightarrow> 0 | Data v \<Rightarrow> length v | Slice d \<Rightarrow> length d) in
      bind_outcome
        (case r of
           Error errno \<Rightarrow> if sint errno = - (2 ^ 31) then Panic ''attempt to negate with overflow'' else Ret (- errno)
         | _ \<Rightarrow> Ret 0)
        (\<lambda>error.
           if 2 ^ 32 \<le> size_of out_header_layout + datalen then Panic ''Too much data''
           else
             let header = \<lparr>out_header_len = of_nat (size_of out_header_layout + datalen),
                           out_header_error = error, out_header_unique = unique\<rparr> in
             Ret (as_bytes out_header_layout header #
                  (case r of Error _ \<Rightarrow> [] | Data d \<Rightarrow> [d] | Slice d \<Rightarrow> [d]))))"

definition new_empty :: response where
  "new_empty = Error 0"

definition new_error :: "i32 \<Rightarrow> response" where
  "new_error errno = Error errno"

definition new_data :: "bytes \<Rightarrow> response" where
  "new_data d = Data d"

definition new_slice :: "bytes \<Rightarrow> response" where
  "new_slice d = Slice d"

definition new_entry :: "u64 \<Rightarrow> u64 \<Rightarrow> fuse_attr \<Rightarrow> duration \<Rightarrow> duration \<Rightarrow> response" where
  "new_entry ino generation attr attr_ttl entry_ttl =
     Data (as_bytes entry_out_layout
       \<lparr>entry_out_nodeid = ino, entry_out_generation = generation,
        entry_out_entry_valid = as_secs entry_ttl, entry_out_attr_valid = as_secs attr_ttl,
        entry_out_entry_valid_nsec = subsec_nanos entry_ttl,
        entry_out_attr_valid_nsec = subsec_nanos attr_ttl, entry_out_attr = attr\<rparr>)"

definition new_attr :: "duration \<Rightarrow> fuse_attr \<Rightarrow> response" where
  "new_attr ttl attr =
     Data (as_bytes attr_out_layout
       \<lparr>attr_out_attr_valid = as_secs ttl, attr_out_attr_valid_nsec = subsec_nanos ttl,
        attr_out_dummy = 0, attr_out_attr = attr\<rparr>)"

definition new_open :: "u64 \<Rightarrow> u32 \<Rightarrow> response" where
  "new_open file_handle flags =
     Data (as_bytes open_out_layout
       \<lparr>open_out_fh = file_handle, open_out_open_flags = flags, open_out_padding = 0\<rparr>)"

definition new_lock :: "lock \<Rightarrow> response" where
  "new_lock l =
     Data (as_bytes lk_out_layout
       \<lparr>lk_out_lk = \<lparr>file_lock_start = fst (lock_range l), file_lock_end = snd (lock_range l),
                     file_lock_typ = lock_typ l, file_lock_pid = lock_pid l\<rparr>\<rparr>)"

definition new_bmap :: "u64 \<Rightarrow> response" where
  "new_bmap block = Data (as_bytes bmap_out_layout \<lparr>bmap_out_block = block\<rparr>)"

definition new_write :: "u32 \<Rightarrow> response" where
  "new_write written =
     Data (as_bytes write_out_layout \<lparr>write_out_size = written, write_out_padding = 0\<rparr>)"

definition new_statfs ::
    "u64 \<Rightarrow> u64 \<Rightarrow> u64 \<Rightarrow> u64 \<Rightarrow> u64 \<Rightarrow> u32 \<Rightarrow> u32 \<Rightarrow> u32 \<Rightarrow> response" where
  "new_statfs blocks bfree bavail files ffree bsize namelen frsize =
     Data (statfs_out_bytes \<lparr>statfs_out_st =
       \<lparr>kstatfs_blocks = blocks, kstatfs_bfree = bfree, kstatfs_bavail = bavail, kstatfs_files = files,
        kstatfs_ffree = ffree, kstatfs_bsize = bsize, kstatfs_namelen = namelen, kstatfs_frsize = frsize,
        kstatfs_padding = 0, kstatfs_spare = replicate 6 0\<rparr>\<rparr>)"

definition new_create :: "duration \<Rightarrow> fuse_attr \<Rightarrow> u64 \<Rightarrow> u64 \<Rightarrow> u32 \<Rightarrow> response" where
  "new_create ttl attr generation file_handle flags =
     Data (create_out_bytes
       \<lparr>create_out_entry =
          \<lparr>entry_out_nodeid = attr_ino attr, entry_out_generation = generation,
           entry_out_entry_valid = as_secs ttl, entry_out_attr_valid = as_secs ttl,
           entry_out_entry_valid_nsec = subsec_nanos ttl, entry_out_attr_valid_nsec = subsec_nanos ttl,
           entry_out_attr = attr\<rparr>,
        create_out_open = \<lparr>open_out_fh = file_handle, open_out_open_flags = flags, open_out_padding = 0\<rparr>\<rparr>)"

definition new_ioctl :: "i32 \<Rightarrow> bytes list \<Rightarrow> response" where
  "new_ioctl res iov =
     Data (as_bytes ioctl_out_layout
       \<lparr>ioctl_out_result = res, ioctl_out_flags = 0, ioctl_out_in_iovs = 1,
        ioctl_out_out_iovs = (if iov \<noteq> [] then 1 else 0)\<rparr> @ concat iov)"

definition new_directory :: "ent_list_buf \<Rightarrow> response outcome" where
  "new_directory l =
     (if length (ent_buf l) \<le> max_size l then Ret (Data (ent_buf l))
      else Panic ''list.buf.len() <= list.max_size'')"

definition new_xattr_size :: "u32 \<Rightarrow> response" where
  "new_xattr_size sz =
     Data (as_bytes getxattr_out_layout \<lparr>getxattr_out_size = sz, getxattr_out_padding = 0\<rparr>)"

definition new_lseek :: "i64 \<Rightarrow> response" where
  "new_lseek offset = Data (as_bytes lseek_out_layout \<lparr>lseek_out_offset = offset\<rparr>)"

section \<open>Reply objects\<close>

text \<open>
  \<open>packets\<close> are the vectors handed to \<^verbatim>\<open>writev\<close> on the channel; whether the kernel accepts one only
  decides about a log message. A method of a reply consumes the object, which is then dropped, also
  when the method panics.
\<close>

record reply_raw =
  rr_unique :: u64
  rr_sender :: bool
  packets :: "bytes list list"

definition reply_new :: "u64 \<Rightarrow> bytes list list \<Rightarrow> reply_raw" where
  "reply_new unique ch = \<lparr>rr_unique = unique, rr_sender = True, packets = ch\<rparr>"

text \<open>The panic of \<open>with_iovec\<close> comes after the sender was taken.\<close>

definition send_ll_mut :: "response \<Rightarrow> reply_raw \<Rightarrow> unit outcome \<times> reply_raw" where
  "send_ll_mut response r =
     (if \<not> rr_sender r then (Panic ''self.sender.is_some()'', r)
      else
        let r1 = r\<lparr>rr_sender := False\<rparr> in
        case with_iovec (rr_unique r) response of
          Ret iov \<Rightarrow> (Ret (), r1\<lparr>packets := packets r1 @ [iov]\<rparr>)
        | Panic m \<Rightarrow> (Panic m, r1)
        | Undefined m \<Rightarrow> (Undefined m, r1))"

definition reply_drop :: "reply_raw \<Rightarrow> reply_raw" where
  "reply_drop r = (if rr_sender r then snd (send_ll_mut (new_error EIO) r) else r)"

definition send_ll :: "response \<Rightarrow> reply_raw \<Rightarrow> unit outcome \<times> reply_raw" where
  "send_ll response r = (let (res, r1) = send_ll_mut response r in (res, reply_drop r1))"

definition reply_error :: "i32 \<Rightarrow> reply_raw \<Rightarrow> unit outcome \<times> reply_raw" where
  "reply_error err r =
     (if err = 0 then (Panic ''assertion failed: err != 0'', reply_drop r)
      else send_ll (new_error (errno_from_i32 err)) r)"

text \<open>Attributes are converted before the reply is sent; a panic there drops the object.\<close>

definition send_attr :: "(fuse_attr \<Rightarrow> response) \<Rightarrow> FileAttr \<Rightarrow> reply_raw \<Rightarrow> unit outcome \<times> reply_raw" where
  "send_attr f attr r =
     (case fuse_attr_from_attr attr of
        Ret a \<Rightarrow> send_ll (f a) r
      | Panic m \<Rightarrow> (Panic m, reply_drop r)
      | Undefined m \<Rightarrow> (Undefined m, reply_drop r))"

definition reply_attr :: "duration \<Rightarrow> FileAttr \<Rightarrow> reply_raw \<Rightarrow> unit outcome \<times> reply_raw" where
  "reply_attr ttl attr r = send_attr (new_attr ttl) attr r"

definition reply_entry :: "duration \<Rightarrow> FileAttr \<Rightarrow> u64 \<Rightarrow> reply_raw \<Rightarrow> unit outcome \<times> reply_raw" where
  "reply_entry ttl attr generation r =
     send_attr (\<lambda>a. new_entry (fa_ino attr) generation a ttl ttl) attr r"

definition reply_created ::
    "duration \<Rightarrow> FileAttr \<Rightarrow> u64 \<Rightarrow> u64 \<Rightarrow> u32 \<Rightarrow> reply_raw \<Rightarrow> unit outcome \<times> reply_raw" where
  "reply_created ttl attr generation fh flags r =
     send_attr (\<lambda>a. new_create ttl a generation fh flags) attr r"

definition reply_data :: "bytes \<Rightarrow> reply_raw \<Rightarrow> unit outcome \<times> reply_raw" where
  "reply_data d r = send_ll (new_slice d) r"

definition reply_ok :: "reply_raw \<Rightarrow> unit outcome \<times> reply_raw" where
  "reply_ok r = send_ll new_empty r"

definition reply_opened :: "u64 \<Rightarrow> u32 \<Rightarrow> reply_raw \<Rightarrow> unit outcome \<times> reply_raw" where
  "reply_opened fh flags r = send_ll (new_open fh flags) r"

definition reply_written :: "u32 \<Rightarrow> reply_raw \<Rightarrow> unit outcome \<times> reply_raw" where
  "reply_written sz r = send_ll (new_write sz) r"

definition reply_statfs ::
    "u64 \<Rightarrow> u64 \<Rightarrow> u64 \<Rightarrow> u64 \<Rightarrow> u64 \<Rightarrow> u32 \<Rightarrow> u32 \<Rightarrow> u32 \<Rightarrow> reply_raw \<Rightarrow> unit outcome \<times> reply_raw" where
  "reply_statfs blocks bfree bavail files ffree bsize namelen frsize r =
     send_ll (new_statfs blocks bfree bavail files ffree bsize namelen frsize) r"

definition reply_locked :: "u64 \<Rightarrow> u64 \<Rightarrow> i32 \<Rightarrow> u32 \<Rightarrow> reply_raw \<Rightarrow> unit outcome \<times> reply_raw" where
  "reply_locked start stop typ pid r =
     send_ll (new_lock \<lparr>lock_range = (start, stop), lock_typ = typ, lock_pid = pid\<rparr>) r"

definition reply_bmap :: "u64 \<Rightarrow> reply_raw \<Rightarrow> unit outcome \<times> reply_raw" where
  "reply_bmap block r = send_ll (new_bmap block) r"

definition reply_ioctl :: "i32 \<Rightarrow> bytes \<Rightarrow> reply_raw \<Rightarrow> unit outcome \<times> reply_raw" where
  "reply_ioctl res d r = send_ll (new_ioctl res [d]) r"

definition reply_xattr_size :: "u32 \<Rightarrow> reply_raw \<Rightarrow> unit outcome \<times> reply_raw" where
  "reply_xattr_size sz r = send_ll (new_xattr_size sz) r"

definition reply_xattr_data :: "bytes \<Rightarrow> reply_raw \<Rightarrow> unit outcome \<times> reply_raw" where
  "reply_xattr_data d r = send_ll (new_data d) r"

definition reply_lseek :: "i64 \<Rightarrow> reply_raw \<Rightarrow> unit outcome \<times> reply_raw" where
  "reply_lseek offset r = send_ll (new_lseek offset) r"

record reply_directory =
  rd_reply :: reply_raw
  rd_data :: ent_list_buf

definition reply_directory_new :: "u64 \<Rightarrow> bytes list list \<Rightarrow> nat \<Rightarrow> reply_directory" where
  "reply_directory_new unique ch sz = \<lparr>rd_reply = reply_new unique ch, rd_data = ent_list_new sz\<rparr>"

definition reply_directory_add ::
    "u64 \<Rightarrow> i64 \<Rightarrow> file_type \<Rightarrow> bytes \<Rightarrow> reply_directory \<Rightarrow> (bool \<times> reply_directory) outcome" where
  "reply_directory_add ino offset kind name r =
     bind_outcome
       (dir_list_push \<lparr>de_ino = ino, de_offset = offset, de_kind = kind, de_name = name\<rparr> (rd_data r))
       (\<lambda>(full, l). Ret (full, r\<lparr>rd_data := l\<rparr>))"

definition reply_directory_ok :: "reply_directory \<Rightarrow> unit outcome \<times> reply_raw" where
  "reply_directory_ok r =
     (case new_directory (rd_data r) of
        Ret resp \<Rightarrow> send_ll resp (rd_reply r)
      | Panic m \<Rightarrow> (Panic m, reply_drop (rd_reply r))
      | Undefined m \<Rightarrow> (Undefined m, reply_drop (rd_reply r)))"

definition reply_directory_plus_add ::
    "u64 \<Rightarrow> i64 \<Rightarrow> bytes \<Rightarrow> duration \<Rightarrow> FileAttr \<Rightarrow> u64 \<Rightarrow> reply_directory \<Rightarrow>
     (bool \<times> reply_directory) outcome" where
  "reply_directory_plus_add ino offset name ttl attr generation r =
     bind_outcome (fuse_attr_from_attr attr) (\<lambda>a.
     bind_outcome
       (dir_plus_list_push
          \<lparr>dp_ino = ino, dp_generation = generation, dp_offset = offset, dp_name = name,
           dp_entry_valid = ttl, dp_attr = a, dp_attr_valid = ttl\<rparr> (rd_data r))
       (\<lambda>(full, l). Ret (full, r\<lparr>rd_data := l\<rparr>)))"

section \<open>What the kernel reads\<close>

text \<open>
  The entries of a listing, as the kernel reads them: a header, as many bytes of name as it says, and
  padding to a multiple of eight bytes.
\<close>

lemma round_up_8: "n \<le> (n + 7) div 8 * 8" "(n + 7) div 8 * 8 < n + (8 :: nat)"
  by presburger+

function read_entries :: "'a layout \<Rightarrow> ('a \<Rightarrow> u32) \<Rightarrow> bytes \<Rightarrow> ('a \<times> bytes) list" where
  "read_entries l namelen bs =
     (if length bs < size_of l \<or> size_of l = 0 then []
      else
        let x = from_bytes l bs; n = unat (namelen x) in
        (x, field (size_of l) n bs) # read_entries l namelen (drop ((size_of l + n + 7) div 8 * 8) bs))"
  by auto
termination
proof (relation "measure (\<lambda>(l, namelen, bs). length bs)", goal_cases)
  case (2 l namelen bs x n)
  then have "0 < (size_of l + n + 7) div 8 * 8"
    using round_up_8(1) [of "size_of l + n"] by linarith
  with 2 show ?case by auto
qed simp

declare read_entries.simps [simp del]

definition ent_bytes :: "bytes \<Rightarrow> bytes \<Rightarrow> bytes" where
  "ent_bytes ent0 ent1 =
     (let entlen = length ent0 + length ent1 in
      ent0 @ ent1 @ replicate ((entlen + 7) div 8 * 8 - entlen) 0)"

section \<open>Lemmas\<close>

lemma and_not_mask_eq: "(w :: 'a::len word) AND NOT (mask n) = push_bit n (drop_bit n w)"
  by (rule bit_word_eqI) (auto simp: bit_simps)

lemma unat_clear_low_bits: "unat (push_bit 3 (drop_bit 3 (w :: usize))) = unat w div 8 * 8"
proof -
  have "unat w < 2 ^ 64" by (rule order_less_le_trans [OF unsigned_less]) simp
  then have "unat w div 8 * 8 < 2 ^ 64"
    by (rule order_le_less_trans [OF div_times_less_eq_dividend])
  then show ?thesis
    by (simp only: unsigned_push_bit_eq unsigned_drop_bit_eq)
      (simp add: push_bit_eq_mult drop_bit_eq_div take_bit_nat_eq_self unsigned_take_bit_eq)
qed

lemma ent_align_eq:
  assumes "n + 7 < 2 ^ 64"
  shows "ent_align n = (n + 7) div 8 * 8"
proof -
  have w: "of_nat n + 8 - 1 = (of_nat (n + 7) :: usize)" by simp
  have u: "unat (of_nat (n + 7) :: usize) = n + 7"
    using assms by (simp only: unat_of_nat) (simp add: take_bit_nat_eq_self)
  have m: "(8 - 1 :: usize) = mask 3" by (simp add: mask_eq_exp_minus_1)
  show ?thesis
    unfolding ent_align_def w m and_not_mask_eq unat_clear_low_bits u ..
qed

lemma length_ent_bytes:
  "length (ent_bytes ent0 ent1) = (length ent0 + length ent1 + 7) div 8 * 8"
  using round_up_8(1) [of "length ent0 + length ent1"] by (simp add: ent_bytes_def Let_def)

lemma ent_push_eq:
  assumes "length ent0 + length ent1 + 7 < 2 ^ 64"
  shows "ent_push ent0 ent1 l =
     (if max_size l < length (ent_buf l) + length (ent_bytes ent0 ent1) then (True, l)
      else (False, l\<lparr>ent_buf := ent_buf l @ ent_bytes ent0 ent1\<rparr>))"
  unfolding ent_push_def Let_def ent_align_eq [OF assms] length_ent_bytes
  by (simp add: ent_bytes_def Let_def)

context abi_struct
begin

lemma read_entries_ent_bytes:
  assumes "0 < size_of l" and "namelen x = of_nat (length name)" and "length name < 2 ^ 32"
  shows "read_entries l namelen (ent_bytes (as_bytes l x) name @ rest) = (x, name) # read_entries l namelen rest"
proof -
  let ?bs = "ent_bytes (as_bytes l x) name @ rest"
  have n: "unat (namelen x) = length name"
    using assms(2,3) by (simp add: unat_of_nat take_bit_nat_eq_self)
  have fb: "from_bytes l ?bs = x" and "size_of l \<le> length ?bs"
    and "field (size_of l) (length name) ?bs = name"
    by (simp_all add: ent_bytes_def Let_def from_as_bytes length_as_bytes field_def)
  moreover have "drop ((size_of l + length name + 7) div 8 * 8) ?bs = rest"
    using length_ent_bytes [of "as_bytes l x" name] by (simp add: length_as_bytes)
  ultimately show ?thesis
    using assms(1) n by (subst read_entries.simps) (simp add: Let_def)
qed

lemma read_entries_concat:
  assumes "0 < size_of l" and "\<And>e. e \<in> set es \<Longrightarrow> namelen (h e) = of_nat (length (nm e)) \<and> length (nm e) < 2 ^ 32"
  shows "read_entries l namelen (concat (map (\<lambda>e. ent_bytes (as_bytes l (h e)) (nm e)) es)) = map (\<lambda>e. (h e, nm e)) es"
  using assms
  by (induction es) (simp add: read_entries.simps, simp add: read_entries_ent_bytes)

end

text \<open>Filling a listing and going on after an entry did not fit, with the entries that did.\<close>

fun push_entries :: "dir_entry list \<Rightarrow> ent_list_buf \<Rightarrow> (dir_entry list \<times> ent_list_buf) outcome" where
  "push_entries [] l = Ret ([], l)"
| "push_entries (e # es) l =
     bind_outcome (dir_list_push e l) (\<lambda>(full, l1).
     bind_outcome (push_entries es l1) (\<lambda>(acc, l2). Ret (if full then acc else e # acc, l2)))"

abbreviation dirent_bytes :: "dir_entry \<Rightarrow> bytes" where
  "dirent_bytes e \<equiv> ent_bytes (as_bytes dirent_layout (dirent_of e)) (de_name e)"

lemma dir_list_push_eq:
  assumes "length (de_name e) < 2 ^ 32"
  shows "dir_list_push e l =
     Ret (if max_size l < length (ent_buf l) + length (dirent_bytes e) then (True, l)
          else (False, l\<lparr>ent_buf := ent_buf l @ dirent_bytes e\<rparr>))"
proof -
  have "length (as_bytes dirent_layout (dirent_of e)) + length (de_name e) + 7 < 2 ^ 64"
    using assms by (simp add: dirent.length_as_bytes)
  then show ?thesis
    using assms by (simp only: dir_list_push_def ent_push_eq) simp
qed

lemma push_entries_total:
  assumes "\<And>e. e \<in> set es \<Longrightarrow> length (de_name e) < 2 ^ 32" and "length (ent_buf l) \<le> max_size l"
  shows "\<exists>acc l'. push_entries es l = Ret (acc, l') \<and> set acc \<subseteq> set es \<and> max_size l' = max_size l \<and>
           length (ent_buf l') \<le> max_size l \<and> ent_buf l' = ent_buf l @ concat (map dirent_bytes acc)"
  using assms
proof (induction es arbitrary: l)
  case (Cons e es)
  then have e: "length (de_name e) < 2 ^ 32" by simp
  show ?case
  proof (cases "max_size l < length (ent_buf l) + length (dirent_bytes e)")
    case True
    with Cons.IH [of l] Cons.prems e show ?thesis by (fastforce simp: dir_list_push_eq)
  next
    case False
    with Cons.IH [of "l\<lparr>ent_buf := ent_buf l @ dirent_bytes e\<rparr>"] Cons.prems e
    show ?thesis by (fastforce simp: dir_list_push_eq)
  qed
qed simp

lemma push_entries_fit:
  assumes "\<And>e. e \<in> set es \<Longrightarrow> length (de_name e) < 2 ^ 32"
    and "length (ent_buf l) + (\<Sum>e\<leftarrow>es. length (dirent_bytes e)) \<le> max_size l"
  shows "\<exists>l'. push_entries es l = Ret (es, l')"
  using assms
proof (induction es arbitrary: l)
  case (Cons e es)
  then have "\<exists>l'. push_entries es (l\<lparr>ent_buf := ent_buf l @ dirent_bytes e\<rparr>) = Ret (es, l')"
    by (intro Cons.IH) simp_all
  with Cons.prems show ?case by (auto simp: dir_list_push_eq)
qed simp

fun response_data :: "response \<Rightarrow> bytes" where
  "response_data (Error e) = []"
| "response_data (Data d) = d"
| "response_data (Slice d) = d"

fun response_errno :: "response \<Rightarrow> int" where
  "response_errno (Error e) = sint e"
| "response_errno (Data d) = 0"
| "response_errno (Slice d) = 0"

lemma sint_uminus_i32:
  assumes "sint (e :: i32) \<noteq> - (2 ^ 31)"
  shows "sint (- e) = - sint e"
proof -
  have "- (2 ^ 31) \<le> sint e" "sint e < 2 ^ 31"
    using sint_ge [of e] sint_lt [of e] by simp_all
  with assms have "signed_take_bit 31 (- sint e) = - sint e"
    by (intro signed_take_bit_int_eq_self) simp_all
  moreover have "sint (word_of_int (- sint e) :: i32) = signed_take_bit 31 (- sint e)"
    by (simp only: signed_of_int) simp
  ultimately show ?thesis by simp
qed

lemma with_iovec_Ret:
  assumes "with_iovec unique r = Ret p"
  shows "concat p = as_bytes out_header_layout
      \<lparr>out_header_len = of_nat (16 + length (response_data r)),
       out_header_error = (case r of Error e \<Rightarrow> - e | _ \<Rightarrow> 0), out_header_unique = unique\<rparr> @ response_data r"
  using assms by (cases r) (auto simp: with_iovec_def Let_def split: if_splits)

lemma with_iovec_iff:
  "is_ret (with_iovec unique r) \<longleftrightarrow>
     16 + length (response_data r) < 2 ^ 32 \<and> response_errno r \<noteq> - (2 ^ 31)"
  by (cases r) (auto simp: with_iovec_def Let_def)

lemma with_iovec_defined: "\<not> is_undefined (with_iovec unique r)"
  by (cases r) (auto simp: with_iovec_def Let_def)

text \<open>One more packet on the channel, well formed and for this request.\<close>

definition one_packet :: "u64 \<Rightarrow> bytes list list \<Rightarrow> reply_raw \<Rightarrow> bool" where
  "one_packet unique ch r \<longleftrightarrow>
     (\<exists>p h. packets r = ch @ [p] \<and> hd p = as_bytes out_header_layout h \<and>
            out_header_unique h = unique \<and> unat (out_header_len h) = length (concat p))"

lemma with_iovec_one:
  assumes "16 + length (response_data resp) < 2 ^ 32" and "response_errno resp \<noteq> - (2 ^ 31)"
  shows "\<exists>p h. with_iovec unique resp = Ret p \<and> hd p = as_bytes out_header_layout h \<and>
            out_header_unique h = unique \<and> unat (out_header_len h) = length (concat p)"
proof -
  obtain p where p: "with_iovec unique resp = Ret p"
    using with_iovec_iff [of unique resp] assms by (cases "with_iovec unique resp") auto
  have len: "unat (of_nat (16 + length (response_data resp)) :: u32) = 16 + length (response_data resp)"
    using assms(1) by (simp only: unat_of_nat) (simp add: take_bit_nat_eq_self)
  show ?thesis
    using p len by (cases resp) (auto simp: with_iovec_def Let_def out_header.length_as_bytes split: if_splits)
qed

lemma send_ll_one:
  assumes "16 + length (response_data resp) < 2 ^ 32" and "response_errno resp \<noteq> - (2 ^ 31)"
  shows "one_packet unique ch (snd (send_ll resp (reply_new unique ch)))"
  using with_iovec_one [OF assms, of unique]
  by (auto simp: send_ll_def send_ll_mut_def reply_new_def reply_drop_def one_packet_def)

lemma reply_drop_one: "one_packet unique ch (reply_drop (reply_new unique ch))"
  using with_iovec_one [of "new_error EIO" unique]
  by (auto simp: send_ll_mut_def reply_new_def reply_drop_def one_packet_def new_error_def EIO_def)

lemma reply_error_one:
  "sint err \<noteq> - (2 ^ 31) \<Longrightarrow> one_packet unique ch (snd (reply_error err (reply_new unique ch)))"
  using reply_drop_one send_ll_one [of "new_error err"]
  by (auto simp: reply_error_def errno_from_i32_def new_error_def)

lemma send_attr_one:
  assumes "\<And>a. length (response_data (f a)) < 1000" and "\<And>a. response_errno (f a) = 0"
  shows "one_packet unique ch (snd (send_attr f attr (reply_new unique ch)))"
proof (cases "fuse_attr_from_attr attr")
  case (Ret a)
  have "16 + length (response_data (f a)) < 2 ^ 32" using assms(1) [of a] by simp
  with Ret assms(2) [of a] show ?thesis by (simp add: send_attr_def send_ll_one)
qed (simp_all add: send_attr_def reply_drop_one)

lemmas response_lengths =
  entry_out.length_as_bytes attr_out.length_as_bytes open_out.length_as_bytes lk_out.length_as_bytes
  bmap_out.length_as_bytes write_out.length_as_bytes ioctl_out.length_as_bytes
  getxattr_out.length_as_bytes lseek_out.length_as_bytes

lemmas response_defs =
  new_empty_def new_error_def new_data_def new_slice_def new_entry_def new_attr_def new_open_def
  new_lock_def new_bmap_def new_write_def new_statfs_def new_create_def new_ioctl_def
  new_xattr_size_def new_lseek_def statfs_out_bytes_def kstatfs_bytes_def create_out_bytes_def

lemma sint_of_int_i64: "in_i64 x \<Longrightarrow> sint (word_of_int x :: i64) = x"
proof -
  assume "in_i64 x"
  then have "signed_take_bit 63 x = x"
    by (intro signed_take_bit_int_eq_self) (simp_all add: in_i64_def)
  moreover have "sint (word_of_int x :: i64) = signed_take_bit 63 x"
    by (simp only: signed_of_int) simp
  ultimately show ?thesis by simp
qed

lemma uint_nanos: "uint (word_of_int (t mod nanos_per_sec) :: u32) = t mod nanos_per_sec"
proof -
  have "0 \<le> t mod nanos_per_sec" "t mod nanos_per_sec < 2 ^ 32"
    by (simp_all add: nanos_per_sec_def pos_mod_bound [THEN order_less_trans])
  then show ?thesis by (simp only: unsigned_of_int) (simp add: take_bit_int_eq_self)
qed

lemma time_after_epoch:
  assumes "0 \<le> t" and "in_i64 (t div nanos_per_sec)"
  shows "\<exists>s n. time_from_system_time t = Ret (s, n) \<and>
           sint s = t div nanos_per_sec \<and> uint n = t mod nanos_per_sec"
  using assms by (simp add: time_from_system_time_def sint_of_int_i64 uint_nanos)

lemma time_before_epoch:
  assumes "t < 0" and "- (2 ^ 63) < t div nanos_per_sec"
  shows "\<exists>s n. time_from_system_time t = Ret (s, n) \<and>
           sint s = - ((- t) div nanos_per_sec) \<and> uint n = (- t) mod nanos_per_sec"
proof -
  have "(- t) div nanos_per_sec \<le> - (t div nanos_per_sec)" "0 \<le> (- t) div nanos_per_sec"
    using assms(1) by (simp_all add: nanos_per_sec_def)
  then have i: "in_i64 ((- t) div nanos_per_sec)" "in_i64 (- ((- t) div nanos_per_sec))"
    using assms(2) by (auto simp: in_i64_def)
  have "- (word_of_int ((- t) div nanos_per_sec) :: i64) = word_of_int (- ((- t) div nanos_per_sec))"
    by simp
  with i assms(1) show ?thesis
    using sint_of_int_i64 [OF i(1)] sint_of_int_i64 [OF i(2)] uint_nanos [of "- t"]
    by (auto simp: time_from_system_time_def Let_def in_i64_def)
qed

section \<open>Properties\<close>

text \<open>
  C21. Whatever entries a file system adds to a directory listing, the buffer never exceeds the size
  the kernel asked for, so sending it does not panic, and the kernel reads from it exactly the
  entries that were accepted, in order, with their names, inode numbers, offsets and types. All of
  them are accepted when together they fit.
\<close>

theorem dir_list_round_trip:
  assumes "\<And>e. e \<in> set es \<Longrightarrow> length (de_name e) < 2 ^ 32"
  shows "\<exists>acc l. push_entries es (ent_list_new n) = Ret (acc, l) \<and>
           length (ent_buf l) \<le> n \<and> new_directory l = Ret (Data (ent_buf l)) \<and>
           read_entries dirent_layout dirent_namelen (ent_buf l) = map (\<lambda>e. (dirent_of e, de_name e)) acc \<and>
           ((\<Sum>e\<leftarrow>es. (24 + length (de_name e) + 7) div 8 * 8) \<le> n \<longrightarrow> acc = es)"
proof -
  have "(\<Sum>e\<leftarrow>es. length (dirent_bytes e)) = (\<Sum>e\<leftarrow>es. (24 + length (de_name e) + 7) div 8 * 8)"
    by (simp add: length_ent_bytes dirent.length_as_bytes)
  with push_entries_fit [OF assms, of es "ent_list_new n"]
  have fit: "(\<Sum>e\<leftarrow>es. (24 + length (de_name e) + 7) div 8 * 8) \<le> n \<longrightarrow>
      (\<exists>l. push_entries es (ent_list_new n) = Ret (es, l))"
    by (simp add: ent_list_new_def)
  obtain acc l where l: "push_entries es (ent_list_new n) = Ret (acc, l)" and "set acc \<subseteq> set es"
    and "max_size l = n" "length (ent_buf l) \<le> n" and buf: "ent_buf l = concat (map dirent_bytes acc)"
    using push_entries_total [OF assms, of es "ent_list_new n"] by (auto simp: ent_list_new_def)
  moreover have "read_entries dirent_layout dirent_namelen (ent_buf l) = map (\<lambda>e. (dirent_of e, de_name e)) acc"
    unfolding buf using assms \<open>set acc \<subseteq> set es\<close>
    by (intro dirent.read_entries_concat) (auto simp: dirent_of_def)
  ultimately show ?thesis using fit by (auto simp: new_directory_def)
qed

definition example_entries :: "dir_entry list" where
  "example_entries =
     [\<lparr>de_ino = 2, de_offset = 1, de_kind = RegularFile, de_name = [97]\<rparr>,
      \<lparr>de_ino = 3, de_offset = 2, de_kind = Directory, de_name = [98, 99]\<rparr>]"

theorem dir_list_round_trip_witness:
  "\<exists>l. push_entries example_entries (ent_list_new 64) = Ret (example_entries, l) \<and>
     length (ent_buf l) \<le> 64 \<and>
     read_entries dirent_layout dirent_namelen (ent_buf l)
       = map (\<lambda>e. (dirent_of e, de_name e)) example_entries"
proof -
  have "length (de_name e) < 2 ^ 32" if "e \<in> set example_entries" for e
    using that by (auto simp: example_entries_def)
  moreover have "(\<Sum>e\<leftarrow>example_entries. (24 + length (de_name e) + 7) div 8 * 8) \<le> 64"
    by (simp add: example_entries_def)
  ultimately show ?thesis using dir_list_round_trip [of example_entries 64] by auto
qed

text \<open>
  The packet of a response: a header with the request's number, the total length of the packet
  and the negated error, followed by the data. It is refused, by a panic, exactly when its length
  does not fit the header or the error cannot be negated.
\<close>

lemma packet_format:
  "(with_iovec unique r = Ret p \<longrightarrow>
      (\<exists>h. concat p = as_bytes out_header_layout h @ response_data r \<and> out_header_unique h = unique \<and>
           unat (out_header_len h) = length (concat p) \<and>
           sint (out_header_error h) = - response_errno r)) \<and>
   (is_ret (with_iovec unique r) \<longleftrightarrow>
      16 + length (response_data r) < 2 ^ 32 \<and> response_errno r \<noteq> - (2 ^ 31)) \<and>
   \<not> is_undefined (with_iovec unique r)"
proof (intro conjI impI)
  assume p: "with_iovec unique r = Ret p"
  then have len: "16 + length (response_data r) < 2 ^ 32" and err: "response_errno r \<noteq> - (2 ^ 31)"
    using with_iovec_iff [of unique r] by simp_all
  have "unat (of_nat (16 + length (response_data r)) :: u32) = 16 + length (response_data r)"
    using len by (simp only: unat_of_nat) (simp add: take_bit_nat_eq_self)
  moreover have "sint (case r of Error e \<Rightarrow> - e | _ \<Rightarrow> 0) = - response_errno r"
    using err by (cases r) (auto simp: sint_uminus_i32)
  ultimately show "\<exists>h. concat p = as_bytes out_header_layout h @ response_data r \<and> out_header_unique h = unique \<and>
      unat (out_header_len h) = length (concat p) \<and> sint (out_header_error h) = - response_errno r"
    unfolding with_iovec_Ret [OF p] by (intro exI conjI) (rule refl, simp_all add: out_header.length_as_bytes)
qed (simp_all only: with_iovec_iff with_iovec_defined not_False_eq_True)



text \<open>
  Times of attributes: for a time from the epoch on, and for one a whole number of seconds before
  it, the seconds and nanoseconds sent to the kernel denote that time, and reading them back gives it.
  For every other time before the epoch the kernel is told another time; reading back still undoes
  the conversion, except for the last second before the epoch.
\<close>

lemma attr_time_conversion:
  assumes "in_i64 (t div nanos_per_sec)" and "- (2 ^ 63) < t div nanos_per_sec"
  shows "\<exists>s n. time_from_system_time t = Ret (s, n) \<and>
    (sint s * nanos_per_sec + uint n = t \<longleftrightarrow> 0 \<le> t \<or> nanos_per_sec dvd t) \<and>
    (system_time_from_time s n = Ret t \<longleftrightarrow> 0 \<le> t \<or> t \<le> - nanos_per_sec)"
proof (cases "0 \<le> t")
  case True
  obtain s n where sn: "time_from_system_time t = Ret (s, n)"
    and s: "sint s = t div nanos_per_sec" and n: "uint n = t mod nanos_per_sec"
    using time_after_epoch [OF True assms(1)] by blast
  have "0 \<le> sint s" using s True by (simp add: nanos_per_sec_def pos_imp_zdiv_nonneg_iff)
  moreover have "sint s * nanos_per_sec + uint n = t" using s n by simp
  ultimately have "system_time_from_time s n = Ret t"
    using assms(1) by (simp add: system_time_from_time_def system_time_at_def)
  with sn True \<open>sint s * nanos_per_sec + uint n = t\<close> show ?thesis by blast
next
  case False
  then have neg: "t < 0" by simp
  obtain s n where sn: "time_from_system_time t = Ret (s, n)"
    and s: "sint s = - ((- t) div nanos_per_sec)" and n: "uint n = (- t) mod nanos_per_sec"
    using time_before_epoch [OF neg assms(2)] by blast
  have dist: "(- sint s) * nanos_per_sec + uint n = - t"
    using s n by simp
  have "sint s * nanos_per_sec + uint n = t \<longleftrightarrow> uint n = 0"
    using dist by (auto simp: algebra_simps)
  also have "\<dots> \<longleftrightarrow> nanos_per_sec dvd t"
    using n by (simp add: mod_eq_0_iff_dvd)
  finally have "sint s * nanos_per_sec + uint n = t \<longleftrightarrow> nanos_per_sec dvd t" .
  moreover have "system_time_from_time s n = Ret t \<longleftrightarrow> t \<le> - nanos_per_sec"
  proof (cases "t \<le> - nanos_per_sec")
    case True
    then have "0 < (- t) div nanos_per_sec"
      by (simp add: nanos_per_sec_def pos_imp_zdiv_pos_iff)
    moreover have "(- t) div nanos_per_sec \<le> - (t div nanos_per_sec)"
      using neg by (simp add: nanos_per_sec_def)
    ultimately have "sint s < 0" "sint s \<noteq> - (2 ^ 63)" using s assms(2) by linarith+
    with True dist assms(1) show ?thesis
      by (simp add: system_time_from_time_def system_time_at_def)
  next
    case False
    then have "sint s = 0" using s neg by simp
    with False dist neg show ?thesis
      by (auto simp: system_time_from_time_def system_time_at_def)
  qed
  ultimately show ?thesis using sn neg by auto
qed

end
