(* ===== verification/Kernel_Config.thy ===== *)
theory Kernel_Config
  imports Fuse_Reply
begin

text \<open>
  The configuration negotiated with the kernel (\<^verbatim>\<open>src/fuse/src/uring_fuse/mod.rs\<close>, and the answer to
  the initialisation request in \<^verbatim>\<open>low_level/op.rs\<close>). The page size is a parameter.
\<close>

definition MAX_WRITE_SIZE :: nat where
  "MAX_WRITE_SIZE = 16 * 1024 * 1024"

definition BUFFER_SIZE :: nat where
  "BUFFER_SIZE = MAX_WRITE_SIZE + 4096"

definition INIT_FLAGS :: u32 where
  "INIT_FLAGS =
     FUSE_ASYNC_READ OR FUSE_BIG_WRITES OR FUSE_SPLICE_WRITE OR FUSE_SPLICE_READ OR FUSE_SPLICE_MOVE"

definition default_init_flags :: "u32 \<Rightarrow> u32" where
  "default_init_flags capabilities =
     (if capabilities AND FUSE_MAX_PAGES \<noteq> 0 then INIT_FLAGS OR FUSE_MAX_PAGES else INIT_FLAGS)"

record kernel_config =
  capabilities :: u32
  requested :: u32
  max_readahead :: u32
  max_max_readahead :: u32
  max_background :: u16
  congestion_threshold :: "u16 option"
  max_write :: u32
  time_gran :: duration

definition kernel_config_new :: "u32 \<Rightarrow> u32 \<Rightarrow> kernel_config" where
  "kernel_config_new caps readahead =
     \<lparr>capabilities = caps, requested = default_init_flags caps, max_readahead = readahead,
      max_max_readahead = readahead, max_background = 16, congestion_threshold = None,
      max_write = of_nat MAX_WRITE_SIZE, time_gran = \<lparr>as_secs = 0, subsec_nanos = 1\<rparr>\<rparr>"

definition as_nanos :: "duration \<Rightarrow> nat" where
  "as_nanos d = unat (as_secs d) * 1000000000 + unat (subsec_nanos d)"

text \<open>
  The loop over powers of ten; \<open>Inl\<close> is the value returned from inside it.
\<close>

function granularity_loop :: "nat \<Rightarrow> nat \<Rightarrow> duration + unit" where
  "granularity_loop nanos power_of_10 =
     (if 0 < power_of_10 \<and> power_of_10 < nanos then
        (if nanos < power_of_10 * 10 then Inl \<lparr>as_secs = 0, subsec_nanos = of_nat power_of_10\<rparr>
         else granularity_loop nanos (power_of_10 * 10))
      else Inr ())"
  by auto
termination
  by (relation "measure (\<lambda>(nanos, p). nanos - p)") auto

declare granularity_loop.simps [simp del]

definition set_time_granularity ::
    "duration \<Rightarrow> kernel_config \<Rightarrow> (duration + duration) \<times> kernel_config" where
  "set_time_granularity val c =
     (if as_nanos val = 0 then (Inl \<lparr>as_secs = 0, subsec_nanos = 1\<rparr>, c)
      else if 1 < as_secs val \<or> as_secs val = 1 \<and> 0 < subsec_nanos val then
        (Inl \<lparr>as_secs = 1, subsec_nanos = 0\<rparr>, c)
      else case granularity_loop (as_nanos val) 1 of
        Inl e \<Rightarrow> (Inl e, c)
      | Inr u \<Rightarrow> (Inr (time_gran c), c\<lparr>time_gran := val\<rparr>))"

definition set_max_write :: "u32 \<Rightarrow> kernel_config \<Rightarrow> (u32 + u32) \<times> kernel_config" where
  "set_max_write val c =
     (if val = 0 then (Inl 1, c)
      else if of_nat MAX_WRITE_SIZE < val then (Inl (of_nat MAX_WRITE_SIZE), c)
      else (Inr (max_write c), c\<lparr>max_write := val\<rparr>))"

definition set_max_readahead :: "u32 \<Rightarrow> kernel_config \<Rightarrow> (u32 + u32) \<times> kernel_config" where
  "set_max_readahead val c =
     (if val = 0 then (Inl 1, c)
      else if max_max_readahead c < val then (Inl (max_max_readahead c), c)
      else (Inr (max_readahead c), c\<lparr>max_readahead := val\<rparr>))"

definition add_capabilities :: "u32 \<Rightarrow> kernel_config \<Rightarrow> (u32 + unit) \<times> kernel_config" where
  "add_capabilities to_add c =
     (if to_add AND capabilities c \<noteq> to_add then (Inl (to_add - (to_add AND capabilities c)), c)
      else (Inr (), c\<lparr>requested := requested c OR to_add\<rparr>))"

definition set_max_background :: "u16 \<Rightarrow> kernel_config \<Rightarrow> (u16 + u16) \<times> kernel_config" where
  "set_max_background val c =
     (if val = 0 then (Inl 1, c) else (Inr (max_background c), c\<lparr>max_background := val\<rparr>))"

definition get_congestion_threshold :: "kernel_config \<Rightarrow> u16" where
  "get_congestion_threshold c =
     (case congestion_threshold c of
        None \<Rightarrow> ucast ((ucast (max_background c) :: u32) * 3 div 4)
      | Some val \<Rightarrow> min val (max_background c))"

definition set_congestion_threshold :: "u16 \<Rightarrow> kernel_config \<Rightarrow> (u16 + u16) \<times> kernel_config" where
  "set_congestion_threshold val c =
     (if val = 0 then (Inl 1, c)
      else (Inr (get_congestion_threshold c), c\<lparr>congestion_threshold := Some val\<rparr>))"

definition max_pages :: "u32 \<Rightarrow> kernel_config \<Rightarrow> u16 outcome" where
  "max_pages page c =
     (let m = max (max_write c) (max_readahead c) in
      if m = 0 then Panic ''attempt to subtract with overflow''
      else if page = 0 then Panic ''attempt to divide by zero''
      else
        let n = (ucast ((m - 1) div page) :: u16) in
        if n = - 1 then Panic ''attempt to add with overflow'' else Ret (n + 1))"

definition init_out_of :: "u32 \<Rightarrow> Init \<Rightarrow> kernel_config \<Rightarrow> fuse_init_out outcome" where
  "init_out_of page x c =
     bind_outcome (max_pages page c) (\<lambda>pages.
       Ret \<lparr>init_out_major = FUSE_KERNEL_VERSION, init_out_minor = FUSE_KERNEL_MINOR_VERSION,
            init_out_max_readahead = max_readahead c,
            init_out_flags = Init_capabilities x AND requested c,
            init_out_max_background = max_background c,
            init_out_congestion_threshold = get_congestion_threshold c,
            init_out_max_write = max_write c,
            init_out_time_gran = of_nat (as_nanos (time_gran c)),
            init_out_max_pages = pages, init_out_unused2 = 0, init_out_reserved = replicate 8 0\<rparr>)"

definition init_reply :: "u32 \<Rightarrow> Init \<Rightarrow> kernel_config \<Rightarrow> response outcome" where
  "init_reply page x c = bind_outcome (init_out_of page x c) (\<lambda>init. Ret (new_data (init_out_bytes init)))"

section \<open>What a file system may ask for\<close>

datatype config_call =
    SetTimeGranularity duration
  | SetMaxWrite u32
  | SetMaxReadahead u32
  | AddCapabilities u32
  | SetMaxBackground u16
  | SetCongestionThreshold u16

fun config_step :: "config_call \<Rightarrow> kernel_config \<Rightarrow> kernel_config" where
  "config_step (SetTimeGranularity d) c = snd (set_time_granularity d c)"
| "config_step (SetMaxWrite v) c = snd (set_max_write v c)"
| "config_step (SetMaxReadahead v) c = snd (set_max_readahead v c)"
| "config_step (AddCapabilities v) c = snd (add_capabilities v c)"
| "config_step (SetMaxBackground v) c = snd (set_max_background v c)"
| "config_step (SetCongestionThreshold v) c = snd (set_congestion_threshold v c)"

definition config_inv :: "u32 \<Rightarrow> u32 \<Rightarrow> kernel_config \<Rightarrow> bool" where
  "config_inv caps readahead c \<longleftrightarrow>
     capabilities c = caps \<and> max_max_readahead c = readahead \<and> max_readahead c \<le> readahead \<and>
     0 < max_write c \<and> max_write c \<le> of_nat MAX_WRITE_SIZE \<and> 0 < max_background c \<and>
     (\<exists>k \<le> 9. as_nanos (time_gran c) = 10 ^ k) \<and>
     requested c AND NOT (caps OR INIT_FLAGS) = 0"

section \<open>Lemmas\<close>

lemma granularity_loop_iff:
  "granularity_loop nanos (10 ^ j) = Inr () \<longleftrightarrow> nanos \<le> 10 ^ j \<or> (\<exists>k. nanos = 10 ^ k)"
proof (induction nanos "10 ^ j :: nat" arbitrary: j rule: granularity_loop.induct)
  case (1 nanos)
  show ?case
  proof (cases "(10 :: nat) ^ j < nanos")
    case less: True
    show ?thesis
    proof (cases "nanos < 10 ^ j * 10")
      case True
      have "nanos \<noteq> 10 ^ k" for k
      proof
        assume "nanos = 10 ^ k"
        with less True have "(10 :: nat) ^ j < 10 ^ k" "(10 :: nat) ^ k < 10 ^ Suc j" by simp_all
        then show False by (simp only: power_strict_increasing_iff)
      qed
      with less True show ?thesis by (subst granularity_loop.simps) simp
    next
      case False
      with less 1 [of "Suc j"] have "granularity_loop nanos (10 ^ Suc j) = Inr () \<longleftrightarrow>
          nanos \<le> 10 ^ Suc j \<or> (\<exists>k. nanos = 10 ^ k)" by (simp add: mult.commute)
      moreover have "nanos \<le> 10 ^ Suc j \<longleftrightarrow> nanos = 10 ^ Suc j" using False by auto
      ultimately show ?thesis
        using less False by (subst granularity_loop.simps) (auto simp: mult.commute intro: exI [of _ "Suc j"])
    qed
  next
    case False
    then show ?thesis by (subst granularity_loop.simps) simp
  qed
qed

lemma as_nanos_le_sec:
  assumes "subsec_nanos d < 1000000000"
  shows "as_nanos d \<le> 1000000000 \<longleftrightarrow> \<not> (1 < as_secs d \<or> as_secs d = 1 \<and> 0 < subsec_nanos d)"
proof -
  have n: "unat (subsec_nanos d) < 1000000000"
    using assms by (simp add: word_less_nat_alt)
  have "1 < as_secs d \<longleftrightarrow> 1 < unat (as_secs d)" by (simp add: word_less_nat_alt)
  moreover have "as_secs d = 1 \<longleftrightarrow> unat (as_secs d) = 1" by (simp add: word_unat_eq_iff)
  moreover have "0 < subsec_nanos d \<longleftrightarrow> 0 < unat (subsec_nanos d)" by (simp add: word_less_nat_alt)
  ultimately show ?thesis using n by (auto simp: as_nanos_def)
qed

lemma granularity_loop_Inl:
  "granularity_loop nanos (10 ^ j) = Inl e \<Longrightarrow>
     \<exists>k. e = \<lparr>as_secs = 0, subsec_nanos = of_nat (10 ^ k)\<rparr> \<and> 10 ^ k < nanos"
proof (induction nanos "10 ^ j :: nat" arbitrary: j rule: granularity_loop.induct)
  case (1 nanos)
  show ?case
  proof (cases "(10 :: nat) ^ j < nanos")
    case less: True
    show ?thesis
    proof (cases "nanos < 10 ^ j * 10")
      case True
      with less "1.prems" show ?thesis by (subst (asm) granularity_loop.simps) auto
    next
      case False
      with less "1.prems" have "granularity_loop nanos (10 ^ Suc j) = Inl e"
        by (subst (asm) granularity_loop.simps) (simp add: mult.commute)
      with False less "1.hyps" [of "Suc j"] show ?thesis by (simp add: mult.commute)
    qed
  next
    case False
    with "1.prems" show ?thesis by (subst (asm) granularity_loop.simps) simp
  qed
qed

lemma power_10_le: "(10 :: nat) ^ k \<le> 1000000000 \<longleftrightarrow> k \<le> 9"
  using power_increasing_iff [of "10 :: nat" k 9] by simp

lemma as_nanos_of_nanos: "k \<le> 9 \<Longrightarrow> as_nanos \<lparr>as_secs = 0, subsec_nanos = of_nat (10 ^ k)\<rparr> = 10 ^ k"
proof -
  assume "k \<le> 9"
  then have "(10 :: nat) ^ k < 2 ^ 32" using power_10_le [of k] by simp
  then have "unat (of_nat (10 ^ k) :: u32) = 10 ^ k"
    by (simp only: unat_of_nat) (simp add: take_bit_nat_eq_self)
  then show ?thesis by (simp only: as_nanos_def) simp
qed

lemma set_time_granularity_ok:
  assumes "subsec_nanos d < 1000000000"
  shows "(\<exists>k \<le> 9. as_nanos d = 10 ^ k) \<Longrightarrow> set_time_granularity d c = (Inr (time_gran c), c\<lparr>time_gran := d\<rparr>)"
    and "\<not> (\<exists>k \<le> 9. as_nanos d = 10 ^ k) \<Longrightarrow>
      \<exists>e. set_time_granularity d c = (Inl e, c) \<and> (\<exists>k \<le> 9. as_nanos e = 10 ^ k) \<and>
          subsec_nanos e < 1000000000"
proof -
  assume k: "\<exists>k \<le> 9. as_nanos d = 10 ^ k"
  then have "as_nanos d \<noteq> 0" "as_nanos d \<le> 1000000000" by (auto simp: power_10_le)
  moreover have "granularity_loop (as_nanos d) 1 = Inr ()"
    using granularity_loop_iff [of "as_nanos d" 0] k by auto
  ultimately show "set_time_granularity d c = (Inr (time_gran c), c\<lparr>time_gran := d\<rparr>)"
    using as_nanos_le_sec [OF assms] by (auto simp: set_time_granularity_def)
next
  assume k: "\<not> (\<exists>k \<le> 9. as_nanos d = 10 ^ k)"
  show "\<exists>e. set_time_granularity d c = (Inl e, c) \<and> (\<exists>k \<le> 9. as_nanos e = 10 ^ k) \<and>
      subsec_nanos e < 1000000000"
  proof (cases "as_nanos d = 0 \<or> 1000000000 < as_nanos d")
    case True
    have "\<exists>k \<le> 9. as_nanos \<lparr>as_secs = 0, subsec_nanos = 1\<rparr> = 10 ^ k"
      by (intro exI [of _ 0]) (simp add: as_nanos_def)
    moreover have "\<exists>k \<le> 9. as_nanos \<lparr>as_secs = 1, subsec_nanos = 0\<rparr> = 10 ^ k"
      by (intro exI [of _ 9]) (simp add: as_nanos_def)
    ultimately show ?thesis
      using True as_nanos_le_sec [OF assms] by (auto simp: set_time_granularity_def not_le)
  next
    case False
    then have le: "as_nanos d \<le> 1000000000" by simp
    have "granularity_loop (as_nanos d) 1 \<noteq> Inr ()"
      using granularity_loop_iff [of "as_nanos d" 0] k False power_10_le le
      by (auto simp: le_Suc_eq)
    then obtain e where e: "granularity_loop (as_nanos d) (10 ^ 0) = Inl e"
      by (cases "granularity_loop (as_nanos d) 1") auto
    from granularity_loop_Inl [OF this] obtain k where
      "e = \<lparr>as_secs = 0, subsec_nanos = of_nat (10 ^ k)\<rparr>" "10 ^ k < as_nanos d" by blast
    with le power_10_le [of k] have "as_nanos e = 10 ^ k" "k \<le> 9" "as_nanos e < 1000000000"
      using as_nanos_of_nanos [of k] by auto
    then have "subsec_nanos e < 1000000000" by (simp add: as_nanos_def word_less_nat_alt)
    with \<open>as_nanos e = 10 ^ k\<close> \<open>k \<le> 9\<close> e False le as_nanos_le_sec [OF assms] show ?thesis
      by (auto simp: set_time_granularity_def)
  qed
qed

fun config_call_ok :: "config_call \<Rightarrow> bool" where
  "config_call_ok (SetTimeGranularity d) \<longleftrightarrow> subsec_nanos d < 1000000000"
| "config_call_ok _ = True"

lemma config_inv_new: "config_inv caps readahead (kernel_config_new caps readahead)"
proof -
  have "bit caps 22" if "caps AND FUSE_MAX_PAGES \<noteq> 0"
    using that and_exp_eq_0_iff_not_bit [of caps 22] by (simp add: FUSE_MAX_PAGES_def)
  moreover have "bit FUSE_MAX_PAGES n \<Longrightarrow> n = 22" for n
    by (simp only: FUSE_MAX_PAGES_def bit_push_bit_iff bit_1_iff) auto
  ultimately have "default_init_flags caps AND NOT (caps OR INIT_FLAGS) = 0"
    by (intro bit_word_eqI) (auto simp: default_init_flags_def bit_simps split: if_splits)
  moreover have "\<exists>k \<le> 9. as_nanos \<lparr>as_secs = 0, subsec_nanos = 1\<rparr> = 10 ^ k"
    by (intro exI [of _ 0]) (simp add: as_nanos_def)
  ultimately show ?thesis by (simp add: config_inv_def kernel_config_new_def MAX_WRITE_SIZE_def)
qed

lemma config_inv_step:
  assumes "config_inv caps readahead c" and "config_call_ok call"
  shows "config_inv caps readahead (config_step call c)"
proof (cases call)
  case (SetTimeGranularity d)
  with assms set_time_granularity_ok [of d c] show ?thesis
    by (cases "\<exists>k \<le> 9. as_nanos d = 10 ^ k") (auto simp: config_inv_def)
next
  case (AddCapabilities v)
  have "(requested c OR v) AND NOT (caps OR INIT_FLAGS) = 0"
    if "v AND caps = v" "requested c AND NOT (caps OR INIT_FLAGS) = 0"
    using that by (auto simp: bit_eq_iff bit_simps)
  with AddCapabilities assms show ?thesis by (auto simp: config_inv_def add_capabilities_def)
qed (use assms in \<open>auto simp: config_inv_def set_max_write_def set_max_readahead_def set_max_background_def
      set_congestion_threshold_def word_neq_0_conv [symmetric] not_less\<close>)

lemma config_inv_fold:
  "config_inv caps readahead c \<Longrightarrow> (\<And>x. x \<in> set calls \<Longrightarrow> config_call_ok x) \<Longrightarrow>
     config_inv caps readahead (fold config_step calls c)"
  by (induction calls arbitrary: c) (simp_all add: config_inv_step)

lemma max_pages_Ret:
  assumes m: "m = max (max_write c) (max_readahead c)" and "0 < m" and "0 < page"
    and le: "unat m \<le> 65535 * unat page"
  shows "\<exists>n. max_pages page c = Ret n \<and> unat m \<le> unat n * unat page \<and> (unat n - 1) * unat page < unat m"
proof -
  let ?q = "(unat m - 1) div unat page"
  have pos: "0 < unat m" "0 < unat page" using assms(2,3) by (simp_all add: word_less_nat_alt)
  have q: "unat ((m - 1) div page) = ?q"
    using assms(2) by (simp add: unat_div_distrib unat_minus_one word_neq_0_conv)
  have "unat m - 1 < 65535 * unat page" using le pos by simp
  then have small: "?q < 65535" by (simp add: less_mult_imp_div_less)
  define n where "n = (ucast ((m - 1) div page) :: u16)"
  have n: "unat n = ?q" using small q by (simp add: n_def unsigned_ucast_eq take_bit_nat_eq_self)
  have "unat (- 1 :: u16) = 65535" by (simp add: unsigned_minus_1_eq_mask mask_eq_exp_minus_1)
  then have "n \<noteq> - 1" using n small by auto
  moreover have "unat (n + 1) = ?q + 1" using n small by (simp add: unat_word_ariths)
  moreover have "unat m \<le> (?q + 1) * unat page" "?q * unat page < unat m"
  proof -
    have "unat m - 1 = ?q * unat page + (unat m - 1) mod unat page" by (simp only: div_mult_mod_eq)
    moreover have "(unat m - 1) mod unat page < unat page" using pos by simp
    moreover have "(?q + 1) * unat page = ?q * unat page + unat page" by simp
    ultimately show "unat m \<le> (?q + 1) * unat page" "?q * unat page < unat m"
      using pos(1) by linarith+
  qed
  ultimately show ?thesis
    using assms(2,3) unfolding max_pages_def m [symmetric] Let_def n_def [symmetric]
    by (auto simp: word_neq_0_conv)
qed

section \<open>Properties\<close>



text \<open>
  A time granularity is accepted exactly when it is a power of ten nanoseconds of at most one
  second. Otherwise the configuration stays and the value returned is one that is accepted.
\<close>

lemma time_granularity_exact:
  assumes "subsec_nanos d < 1000000000"
  shows "(if \<exists>k \<le> 9. as_nanos d = 10 ^ k
          then set_time_granularity d c = (Inr (time_gran c), c\<lparr>time_gran := d\<rparr>)
          else \<exists>e. set_time_granularity d c = (Inl e, c) \<and>
                   set_time_granularity e c = (Inr (time_gran c), c\<lparr>time_gran := e\<rparr>))"
proof (cases "\<exists>k \<le> 9. as_nanos d = 10 ^ k")
  case True
  then show ?thesis using set_time_granularity_ok(1) [OF assms] by simp
next
  case False
  then obtain e where e: "set_time_granularity d c = (Inl e, c)" "\<exists>k \<le> 9. as_nanos e = 10 ^ k"
    and "subsec_nanos e < 1000000000"
    using set_time_granularity_ok(2) [OF assms] by blast
  with False show ?thesis using set_time_granularity_ok(1) [of e c] by auto
qed

end
