(* ===== verification/Filesystem.thy ===== *)
theory Filesystem
  imports Kernel_Config
begin

text \<open>
  The interface every file system implements (\<^verbatim>\<open>src/fuse/src/uring_fuse/filesystem.rs\<close>): its calls, the
  default methods of the trait, and the contract a session relies on, as the locale \<open>filesystem\<close>. The
  default methods are a file system in that sense. A reply that a file system sends later, from
  another task, is counted with the call.
\<close>

section \<open>The interface of a file system\<close>

datatype (plugins only: code) fs_call =
    FsLookup u64 bytes
  | FsForget u64 u64
  | FsBatchForget "fuse_forget_one list"
  | FsGetattr u64
  | FsSetattr u64 "u32 option" "u32 option" "u32 option" "u64 option" "time_or_now option"
      "time_or_now option" "system_time option" "u64 option" "system_time option"
      "system_time option" "system_time option" "u32 option"
  | FsReadlink u64
  | FsMknod u64 bytes u32 u32 u32
  | FsMkdir u64 bytes u32 u32
  | FsUnlink u64 bytes
  | FsRmdir u64 bytes
  | FsSymlink u64 bytes bytes
  | FsRename u64 bytes u64 bytes u32
  | FsLink u64 u64 bytes
  | FsOpen u64 i32
  | FsRead u64 u64 i64 u32 i32 "u64 option"
  | FsWrite u64 u64 i64 bytes u32 i32 "u64 option"
  | FsFlush u64 u64 u64
  | FsRelease u64 u64 i32 "u64 option" bool
  | FsFsync u64 u64 bool
  | FsOpendir u64 i32
  | FsReaddir u64 u64 i64 nat
  | FsReaddirplus u64 u64 i64 nat
  | FsReleasedir u64 u64 i32
  | FsFsyncdir u64 u64 bool
  | FsStatfs u64
  | FsSetxattr u64 bytes bytes i32 u32
  | FsGetxattr u64 bytes u32
  | FsListxattr u64 u32
  | FsRemovexattr u64 bytes
  | FsAccess u64 i32
  | FsCreate u64 bytes u32 u32 i32
  | FsGetlk u64 u64 u64 u64 u64 i32 u32
  | FsSetlk u64 u64 u64 u64 u64 i32 u32 bool
  | FsBmap u64 u32 u64
  | FsIoctl u64 u64 u32 u32 bytes u32
  | FsFallocate u64 u64 i64 i64 i32
  | FsLseek u64 u64 i64 i32
  | FsCopyFileRange u64 u64 i64 u64 u64 i64 u64 u32

text \<open>The calls that come with a reply object.\<close>

fun call_replies :: "fs_call \<Rightarrow> bool" where
  "call_replies (FsForget ino n) = False"
| "call_replies (FsBatchForget nodes) = False"
| "call_replies _ = True"

type_synonym channel = "bytes list list"

text \<open>
  \<open>fs_init\<close> may change the configuration and may fail with an error number; \<open>fs_handle\<close> gets the header
  of the request, the call and the channel its reply object writes to, and may panic, which ends the
  session.
\<close>

record 'fs fs_ops =
  fs_init :: "fuse_in_header \<Rightarrow> kernel_config \<Rightarrow> 'fs \<Rightarrow> i32 option \<times> kernel_config \<times> 'fs"
  fs_destroy :: "'fs \<Rightarrow> 'fs"
  fs_handle :: "fuse_in_header \<Rightarrow> fs_call \<Rightarrow> channel \<Rightarrow> 'fs \<Rightarrow> (channel \<times> 'fs) outcome"

section \<open>Default methods\<close>

definition ENOSYS :: i32 where
  "ENOSYS = 38"

definition EPERM :: i32 where
  "EPERM = 1"

definition ENOENT :: i32 where
  "ENOENT = 2"

fun default_reply :: "fs_call \<Rightarrow> reply_raw \<Rightarrow> reply_raw" where
  "default_reply (FsForget ino n) r = r"
| "default_reply (FsBatchForget nodes) r = r"
| "default_reply (FsSymlink parent target link) r = snd (reply_error EPERM r)"
| "default_reply (FsLink ino newparent newname) r = snd (reply_error EPERM r)"
| "default_reply (FsOpen ino flags) r = snd (reply_opened 0 0 r)"
| "default_reply (FsRelease ino fh flags lo fl) r = snd (reply_ok r)"
| "default_reply (FsOpendir ino flags) r = snd (reply_opened 0 0 r)"
| "default_reply (FsReleasedir ino fh flags) r = snd (reply_ok r)"
| "default_reply (FsStatfs ino) r = snd (reply_statfs 0 0 0 0 0 512 255 0 r)"
| "default_reply _ r = snd (reply_error ENOSYS r)"

definition default_ops :: "unit fs_ops" where
  "default_ops =
     \<lparr>fs_init = (\<lambda>h c s. (None, c, s)), fs_destroy = (\<lambda>s. s),
      fs_handle = (\<lambda>h call ch s.
        Ret (if call_replies call then packets (default_reply call (reply_new (in_header_unique h) ch)) else ch, s))\<rparr>"

section \<open>The contract\<close>

text \<open>One more packet on the channel, well formed and for this request.\<close>

definition answered :: "u64 \<Rightarrow> channel \<Rightarrow> channel \<Rightarrow> bool" where
  "answered unique ch ch' \<longleftrightarrow>
     (\<exists>p h. ch' = ch @ [p] \<and> hd p = as_bytes out_header_layout h \<and>
            out_header_unique h = unique \<and> unat (out_header_len h) = length (concat p))"

lemma one_packet_answered: "one_packet unique ch r \<longleftrightarrow> answered unique ch (packets r)"
  by (simp add: one_packet_def answered_def)

lemma with_iovec_answered: "with_iovec unique resp = Ret p \<Longrightarrow> answered unique ch (ch @ [p])"
  using with_iovec_iff [of unique resp] with_iovec_one [of resp unique] by (auto simp: answered_def)

text \<open>
  What a file system promises: a call with a reply object puts exactly one packet for the request on
  the channel, and one without none; handling panics only with one of \<open>panics\<close>; initialising keeps the
  bounds of the configuration, which only its setters change, and gives an error number.
\<close>

locale filesystem =
  fixes fs :: "'fs fs_ops" and panics :: "string set"
  assumes handle_ok: "ok panics (fs_handle fs h call ch s) (\<lambda>(ch', s').
        if call_replies call then answered (in_header_unique h) ch ch' else ch' = ch)"
    and init_errno: "fst (fs_init fs h c s) = Some e \<Longrightarrow> sint e \<noteq> - (2 ^ 31)"
    and init_config: "config_inv caps readahead c \<Longrightarrow> config_inv caps readahead (fst (snd (fs_init fs h c s)))"

lemma default_reply_one:
  assumes "call_replies call"
  shows "one_packet unique ch (default_reply call (reply_new unique ch))"
proof -
  have "one_packet unique ch (snd (reply_error ENOSYS (reply_new unique ch)))"
    and "one_packet unique ch (snd (reply_error EPERM (reply_new unique ch)))"
    by (intro reply_error_one; simp add: ENOSYS_def EPERM_def)+
  moreover have "one_packet unique ch (snd (reply_opened 0 0 (reply_new unique ch)))"
    and "one_packet unique ch (snd (reply_ok (reply_new unique ch)))"
    and "one_packet unique ch (snd (reply_statfs 0 0 0 0 0 512 255 0 (reply_new unique ch)))"
    unfolding reply_opened_def reply_ok_def reply_statfs_def
    by (intro send_ll_one; simp add: response_defs response_lengths length_concat sum_list_replicate)+
  ultimately show ?thesis using assms by (cases call) simp_all
qed

interpretation default_fs: filesystem default_ops "{}"
  by unfold_locales (auto simp: default_ops_def one_packet_answered [symmetric] default_reply_one)

end
