(* ===== verification/Session.thy ===== *)
theory Session
  imports Filesystem Mount_Options
begin

text \<open>
  Dispatching requests to a file system (\<^verbatim>\<open>src/fuse/src/uring_fuse/request.rs\<close>) and the session loop
  (\<^verbatim>\<open>session.rs\<close>, \<^verbatim>\<open>channel.rs\<close>). What reads of the device give is an argument of the loop, what was sent
  is the channel in the session's state.
\<close>

section \<open>Sessions\<close>

datatype session_acl = AclAll | RootAndOwner | Owner

record 'fs session =
  se_filesystem :: 'fs
  se_ch :: channel
  se_mount :: bool
  se_allowed :: session_acl
  se_owner :: u32
  proto_major :: u32
  proto_minor :: u32
  initialized :: bool
  destroyed :: bool

text \<open>The options handed to the mount helper, and the access control they imply.\<close>

definition mount_options_for :: "mount_option list \<Rightarrow> mount_option list" where
  "mount_options_for options =
     (if AutoUnmount \<in> set options \<and> \<not> (AllowRoot \<in> set options \<or> AllowOther \<in> set options)
      then options @ [AllowOther] else options)"

definition session_acl_for :: "mount_option list \<Rightarrow> session_acl" where
  "session_acl_for options =
     (if AllowRoot \<in> set options then RootAndOwner
      else if AllowOther \<in> set options then AclAll
      else Owner)"

text \<open>The mount itself (\<open>Mount::new\<close>) succeeded; \<open>euid\<close> is the effective user of the process.\<close>

definition session_new :: "'fs \<Rightarrow> mount_option list \<Rightarrow> u32 \<Rightarrow> 'fs session" where
  "session_new file_system options euid =
     \<lparr>se_filesystem = file_system, se_ch = [], se_mount = True, se_allowed = session_acl_for options,
      se_owner = euid, proto_major = 0, proto_minor = 0, initialized = False, destroyed = False\<rparr>"

definition session_unmount :: "'fs session \<Rightarrow> 'fs session" where
  "session_unmount se = se\<lparr>se_mount := False\<rparr>"

definition session_drop :: "'fs fs_ops \<Rightarrow> 'fs session \<Rightarrow> 'fs session" where
  "session_drop fs se =
     (if \<not> destroyed se then se\<lparr>se_filesystem := fs_destroy fs (se_filesystem se), destroyed := True\<rparr>
      else se)"

text \<open>
  A background session takes the mount out of the session it runs in a thread; without a mount it
  fails with \<open>ENODEV\<close>.
\<close>

definition ENODEV :: i32 where
  "ENODEV = 19"

record 'fs background_session =
  bg_guard :: "'fs session"
  bg_mount :: bool

definition background_session_new :: "'fs session \<Rightarrow> i32 + 'fs background_session" where
  "background_session_new se =
     (let mount = se_mount se; se1 = session_unmount se in
      if mount then Inr \<lparr>bg_guard = se1, bg_mount = True\<rparr> else Inl ENODEV)"

section \<open>Dispatching a request\<close>

definition EACCES :: i32 where
  "EACCES = 13"

definition EPROTO :: i32 where
  "EPROTO = 71"

fun acl_exempt :: "operation \<Rightarrow> bool" where
  "acl_exempt (Init x) = True"
| "acl_exempt (Destroy x) = True"
| "acl_exempt (Read x) = True"
| "acl_exempt (ReadDir x) = True"
| "acl_exempt (ReadDirPlus x) = True"
| "acl_exempt (BatchForget x) = True"
| "acl_exempt (Forget x) = True"
| "acl_exempt (Write x) = True"
| "acl_exempt (FSync x) = True"
| "acl_exempt (FSyncDir x) = True"
| "acl_exempt (Release x) = True"
| "acl_exempt (ReleaseDir x) = True"
| "acl_exempt _ = False"

definition acl_denies :: "'fs session \<Rightarrow> u32 \<Rightarrow> bool" where
  "acl_denies se uid \<longleftrightarrow>
     se_allowed se = RootAndOwner \<and> uid \<noteq> se_owner se \<and> uid \<noteq> 0 \<or>
     se_allowed se = Owner \<and> uid \<noteq> se_owner se"

text \<open>
  The match arms that call the file system, with the arguments they pass; \<open>Inl\<close> is an error the
  dispatcher returns itself. The arms for initialisation and destruction come before.
\<close>

fun dispatch_call :: "u64 \<Rightarrow> operation \<Rightarrow> (i32 + fs_call) outcome" where
  "dispatch_call nodeid (Init x) = Undefined ''matched before''"
| "dispatch_call nodeid (Destroy x) = Undefined ''matched before''"
| "dispatch_call nodeid (Interrupt x) = Ret (Inl ENOSYS)"
| "dispatch_call nodeid (Lookup x) = Ret (Inr (FsLookup nodeid (Lookup_name x)))"
| "dispatch_call nodeid (Forget x) = Ret (Inr (FsForget nodeid (Forget_nlookup x)))"
| "dispatch_call nodeid (GetAttr x) = Ret (Inr (FsGetattr nodeid))"
| "dispatch_call nodeid (SetAttr x) =
     bind_outcome (SetAttr_atime x) (\<lambda>atime.
     bind_outcome (SetAttr_mtime x) (\<lambda>mtime.
     bind_outcome (SetAttr_ctime x) (\<lambda>ctime.
       Ret (Inr (FsSetattr nodeid (SetAttr_mode x) (SetAttr_uid x) (SetAttr_gid x) (SetAttr_size x)
         atime mtime ctime (SetAttr_file_handle x) (SetAttr_crtime x) (SetAttr_chgtime x)
         (SetAttr_bkuptime x) (SetAttr_flags x))))))"
| "dispatch_call nodeid (ReadLink x) = Ret (Inr (FsReadlink nodeid))"
| "dispatch_call nodeid (MkNod x) =
     Ret (Inr (FsMknod nodeid (MkNod_name x) (MkNod_mode x) (MkNod_umask x) (MkNod_rdev x)))"
| "dispatch_call nodeid (MkDir x) =
     Ret (Inr (FsMkdir nodeid (MkDir_name x) (MkDir_mode x) (MkDir_umask x)))"
| "dispatch_call nodeid (Unlink x) = Ret (Inr (FsUnlink nodeid (Unlink_name x)))"
| "dispatch_call nodeid (RmDir x) = Ret (Inr (FsRmdir nodeid (RmDir_name x)))"
| "dispatch_call nodeid (SymLink x) = Ret (Inr (FsSymlink nodeid (SymLink_target x) (SymLink_link x)))"
| "dispatch_call nodeid (Rename x) =
     Ret (Inr (FsRename nodeid (FilenameInDir_name (Rename_src x)) (FilenameInDir_dir (Rename_dest x))
       (FilenameInDir_name (Rename_dest x)) 0))"
| "dispatch_call nodeid (Link x) =
     Ret (Inr (FsLink (Link_inode_no x) nodeid (FilenameInDir_name (Link_dest x))))"
| "dispatch_call nodeid (Open x) = Ret (Inr (FsOpen nodeid (Open_flags x)))"
| "dispatch_call nodeid (Read x) =
     Ret (Inr (FsRead nodeid (Read_file_handle x) (Read_offset x) (Read_size x) (Read_flags x)
       (Read_lock_owner x)))"
| "dispatch_call nodeid (Write x) =
     Ret (Inr (FsWrite nodeid (Write_file_handle x) (Write_offset x) (Write_data x) (Write_write_flags x)
       (Write_flags x) (Write_lock_owner x)))"
| "dispatch_call nodeid (Flush x) = Ret (Inr (FsFlush nodeid (Flush_file_handle x) (Flush_lock_owner x)))"
| "dispatch_call nodeid (Release x) =
     Ret (Inr (FsRelease nodeid (Release_file_handle x) (Release_flags x) (Release_lock_owner x)
       (Release_flush x)))"
| "dispatch_call nodeid (FSync x) = Ret (Inr (FsFsync nodeid (FSync_file_handle x) (FSync_fdatasync x)))"
| "dispatch_call nodeid (OpenDir x) = Ret (Inr (FsOpendir nodeid (OpenDir_flags x)))"
| "dispatch_call nodeid (ReadDir x) =
     Ret (Inr (FsReaddir nodeid (ReadDir_file_handle x) (ReadDir_offset x) (unat (ReadDir_size x))))"
| "dispatch_call nodeid (ReleaseDir x) =
     Ret (Inr (FsReleasedir nodeid (ReleaseDir_file_handle x) (ReleaseDir_flags x)))"
| "dispatch_call nodeid (FSyncDir x) =
     Ret (Inr (FsFsyncdir nodeid (FSyncDir_file_handle x) (FSyncDir_fdatasync x)))"
| "dispatch_call nodeid (StatFs x) = Ret (Inr (FsStatfs nodeid))"
| "dispatch_call nodeid (SetXAttr x) =
     Ret (Inr (FsSetxattr nodeid (SetXAttr_name x) (SetXAttr_value x) (SetXAttr_flags x) (SetXAttr_position x)))"
| "dispatch_call nodeid (GetXAttr x) = Ret (Inr (FsGetxattr nodeid (GetXAttr_name x) (GetXAttr_size_u32 x)))"
| "dispatch_call nodeid (ListXAttr x) = Ret (Inr (FsListxattr nodeid (ListXAttr_size x)))"
| "dispatch_call nodeid (RemoveXAttr x) = Ret (Inr (FsRemovexattr nodeid (RemoveXAttr_name x)))"
| "dispatch_call nodeid (Access x) = Ret (Inr (FsAccess nodeid (Access_mask x)))"
| "dispatch_call nodeid (Create x) =
     Ret (Inr (FsCreate nodeid (Create_name x) (Create_mode x) (Create_umask x) (Create_flags x)))"
| "dispatch_call nodeid (GetLk x) =
     Ret (Inr (FsGetlk nodeid (GetLk_file_handle x) (GetLk_lock_owner x) (fst (lock_range (GetLk_lock x)))
       (snd (lock_range (GetLk_lock x))) (lock_typ (GetLk_lock x)) (lock_pid (GetLk_lock x))))"
| "dispatch_call nodeid (SetLk x) =
     Ret (Inr (FsSetlk nodeid (SetLk_file_handle x) (SetLk_lock_owner x) (fst (lock_range (SetLk_lock x)))
       (snd (lock_range (SetLk_lock x))) (lock_typ (SetLk_lock x)) (lock_pid (SetLk_lock x)) False))"
| "dispatch_call nodeid (SetLkW x) =
     Ret (Inr (FsSetlk nodeid (SetLkW_file_handle x) (SetLkW_lock_owner x) (fst (lock_range (SetLkW_lock x)))
       (snd (lock_range (SetLkW_lock x))) (lock_typ (SetLkW_lock x)) (lock_pid (SetLkW_lock x)) True))"
| "dispatch_call nodeid (BMap x) = Ret (Inr (FsBmap nodeid (BMap_block_size x) (BMap_block x)))"
| "dispatch_call nodeid (IoCtl x) =
     (if IoCtl_unrestricted x then Ret (Inl ENOSYS)
      else bind_outcome (IoCtl_in_data x) (\<lambda>in_data.
        Ret (Inr (FsIoctl nodeid (IoCtl_file_handle x) (IoCtl_flags x) (IoCtl_command x) in_data
          (IoCtl_out_size x)))))"
| "dispatch_call nodeid (Poll x) = Ret (Inl ENOSYS)"
| "dispatch_call nodeid (NotifyReply x) = Ret (Inl ENOSYS)"
| "dispatch_call nodeid (BatchForget x) = Ret (Inr (FsBatchForget (BatchForget_nodes x)))"
| "dispatch_call nodeid (FAllocate x) =
     Ret (Inr (FsFallocate nodeid (FAllocate_file_handle x) (FAllocate_offset x) (FAllocate_len x)
       (FAllocate_mode x)))"
| "dispatch_call nodeid (ReadDirPlus x) =
     Ret (Inr (FsReaddirplus nodeid (ReadDirPlus_file_handle x) (ReadDirPlus_offset x)
       (unat (ReadDirPlus_size x))))"
| "dispatch_call nodeid (Rename2 x) =
     Ret (Inr (FsRename (FilenameInDir_dir (Rename2_from x)) (FilenameInDir_name (Rename2_from x))
       (FilenameInDir_dir (Rename2_to x)) (FilenameInDir_name (Rename2_to x)) (Rename2_flags x)))"
| "dispatch_call nodeid (Lseek x) =
     Ret (Inr (FsLseek nodeid (Lseek_file_handle x) (Lseek_offset x) (Lseek_whence x)))"
| "dispatch_call nodeid (CopyFileRange x) =
     (let i = CopyFileRange_src x; o' = CopyFileRange_dest x in
      if 2 ^ 32 \<le> unat (CopyFileRange_flags x) then Panic ''called unwrap on an Err value''
      else Ret (Inr (FsCopyFileRange (CopyFileRangeFile_inode i) (CopyFileRangeFile_file_handle i)
        (CopyFileRangeFile_offset i) (CopyFileRangeFile_inode o') (CopyFileRangeFile_file_handle o')
        (CopyFileRangeFile_offset o') (CopyFileRange_len x) (ucast (CopyFileRange_flags x)))))"
| "dispatch_call nodeid (CuseInit x) = Ret (Inl ENOSYS)"

text \<open>The arm for initialisation.\<close>

definition dispatch_init ::
    "u32 \<Rightarrow> 'fs fs_ops \<Rightarrow> fuse_in_header \<Rightarrow> Init \<Rightarrow> 'fs session \<Rightarrow>
     ((i32 + response option) \<times> 'fs session) outcome" where
  "dispatch_init page fs h x se =
     (let v = Init_version x in
      if version_less v (Version 7 6) then Ret (Inl EPROTO, se)
      else
        let se1 = se\<lparr>proto_major := version_major v, proto_minor := version_minor v\<rparr>;
            config = kernel_config_new (Init_capabilities x) (Init_max_readahead x);
            (err, config1, s1) = fs_init fs h config (se_filesystem se1);
            se2 = se1\<lparr>se_filesystem := s1\<rparr> in
        case err of
          Some e \<Rightarrow> Ret (Inl (errno_from_i32 e), se2)
        | None \<Rightarrow>
            let se3 = se2\<lparr>initialized := True\<rparr> in
            bind_outcome (init_reply page x config1) (\<lambda>resp. Ret (Inr (Some resp), se3)))"

definition dispatch_op ::
    "u32 \<Rightarrow> 'fs fs_ops \<Rightarrow> fuse_in_header \<Rightarrow> operation \<Rightarrow> 'fs session \<Rightarrow>
     ((i32 + response option) \<times> 'fs session) outcome" where
  "dispatch_op page fs h op se =
     (case op of
        Init x \<Rightarrow> dispatch_init page fs h x se
      | _ \<Rightarrow>
        if \<not> initialized se then Ret (Inl EIO, se)
        else case op of
          Destroy x \<Rightarrow>
            Ret (Inr (Some new_empty),
                 se\<lparr>se_filesystem := fs_destroy fs (se_filesystem se), destroyed := True\<rparr>)
        | _ \<Rightarrow>
          if destroyed se then Ret (Inl EIO, se)
          else
            bind_outcome (dispatch_call (in_header_nodeid h) op) (\<lambda>r. case r of
              Inl errno \<Rightarrow> Ret (Inl errno, se)
            | Inr call \<Rightarrow>
                bind_outcome (fs_handle fs h call (se_ch se) (se_filesystem se)) (\<lambda>(ch, s).
                  Ret (Inr None, se\<lparr>se_ch := ch, se_filesystem := s\<rparr>))))"

definition dispatch_req ::
    "u32 \<Rightarrow> 'fs fs_ops \<Rightarrow> AnyRequest \<Rightarrow> 'fs session \<Rightarrow>
     ((i32 + response option) \<times> 'fs session) outcome" where
  "dispatch_req page fs req se =
     bind_outcome (request_operation req) (\<lambda>r. case r of
       Inl e \<Rightarrow> Ret (Inl ENOSYS, se)
     | Inr op \<Rightarrow>
         if acl_denies se (in_header_uid (AnyRequest_header req)) \<and> \<not> acl_exempt op
         then Ret (Inl EACCES, se)
         else dispatch_op page fs (AnyRequest_header req) op se)"

text \<open>A send that the kernel refuses is only logged.\<close>

definition dispatch :: "u32 \<Rightarrow> 'fs fs_ops \<Rightarrow> AnyRequest \<Rightarrow> 'fs session \<Rightarrow> 'fs session outcome" where
  "dispatch page fs req se =
     (let unique = in_header_unique (AnyRequest_header req) in
      bind_outcome (dispatch_req page fs req se) (\<lambda>(r, se1).
        case r of
          Inr None \<Rightarrow> Ret se1
        | Inr (Some resp) \<Rightarrow>
            bind_outcome (with_iovec unique resp) (\<lambda>iov. Ret (se1\<lparr>se_ch := se_ch se1 @ [iov]\<rparr>))
        | Inl errno \<Rightarrow>
            bind_outcome (with_iovec unique (new_error errno))
              (\<lambda>iov. Ret (se1\<lparr>se_ch := se_ch se1 @ [iov]\<rparr>))))"

section \<open>The session loop\<close>

text \<open>\<open>aligned_sub_buf\<close> on a buffer given by its address and length.\<close>

definition aligned_sub_buf :: "nat \<Rightarrow> nat \<Rightarrow> nat \<Rightarrow> (nat \<times> nat) outcome" where
  "aligned_sub_buf a len alignment =
     (let off = alignment - a mod alignment in
      if off = alignment then Ret (a, len)
      else if len < off then Panic ''range start index out of range''
      else Ret (a + off, len - off))"

text \<open>What a read of the device gives: the bytes of one request, or an error number.\<close>

datatype received = Received bytes | ReceiveErr "i32 option"

definition EINTR :: i32 where "EINTR = 4"
definition EAGAIN :: i32 where "EAGAIN = 11"

datatype loop_end = LoopOk | LoopErr "i32 option"

text \<open>
  The loop over what successive reads give, into a buffer at \<open>a\<close> with room for \<open>len\<close> bytes; \<open>None\<close> when
  it still waits after all of them.
\<close>

fun session_loop ::
    "u32 \<Rightarrow> 'fs fs_ops \<Rightarrow> nat \<Rightarrow> nat \<Rightarrow> received list \<Rightarrow> 'fs session \<Rightarrow>
     (loop_end option \<times> 'fs session) outcome" where
  "session_loop page fs a len [] se = Ret (None, se)"
| "session_loop page fs a len (Received bs # es) se =
     (if len < length bs then Panic ''range end index out of range for slice''
      else bind_outcome (request_try_from a bs) (\<lambda>r. case r of
        Inl e \<Rightarrow> Ret (Some LoopOk, se)
      | Inr req \<Rightarrow> bind_outcome (dispatch page fs req se) (\<lambda>se1. session_loop page fs a len es se1)))"
| "session_loop page fs a len (ReceiveErr err # es) se =
     (if err = Some ENOENT \<or> err = Some EINTR \<or> err = Some EAGAIN then session_loop page fs a len es se
      else if err = Some ENODEV then Ret (Some LoopOk, se)
      else Ret (Some (LoopErr err), se))"

definition session_run ::
    "u32 \<Rightarrow> 'fs fs_ops \<Rightarrow> nat \<Rightarrow> received list \<Rightarrow> 'fs session \<Rightarrow>
     (loop_end option \<times> 'fs session) outcome" where
  "session_run page fs buffer es se =
     bind_outcome (aligned_sub_buf buffer BUFFER_SIZE (align_of in_header_layout))
       (\<lambda>(a, len). session_loop page fs a len es se)"

section \<open>Every request is answered\<close>

lemma dispatch_call_replies:
  "dispatch_call nodeid op = Ret (Inr call) \<Longrightarrow>
     call_replies call \<longleftrightarrow> op_code op \<noteq> FUSE_FORGET \<and> op_code op \<noteq> FUSE_BATCH_FORGET"
  by (cases op) (auto simp: outcome_simps Let_def split: if_splits)

lemma dispatch_op_simps:
  "dispatch_op page fs h (Init x) se = dispatch_init page fs h x se"
  "\<not> initialized se \<Longrightarrow> op_code op \<noteq> FUSE_INIT \<Longrightarrow> dispatch_op page fs h op se = Ret (Inl EIO, se)"
  "initialized se \<Longrightarrow> dispatch_op page fs h (Destroy y) se =
     Ret (Inr (Some new_empty), se\<lparr>se_filesystem := fs_destroy fs (se_filesystem se), destroyed := True\<rparr>)"
  "initialized se \<Longrightarrow> destroyed se \<Longrightarrow> op_code op \<noteq> FUSE_INIT \<Longrightarrow> op_code op \<noteq> FUSE_DESTROY \<Longrightarrow>
     dispatch_op page fs h op se = Ret (Inl EIO, se)"
  by (simp_all add: dispatch_op_def) (cases op; simp)+

lemma dispatch_op_call:
  "initialized se \<Longrightarrow> \<not> destroyed se \<Longrightarrow> op_code op \<noteq> FUSE_INIT \<Longrightarrow> op_code op \<noteq> FUSE_DESTROY \<Longrightarrow>
     dispatch_op page fs h op se =
       bind_outcome (dispatch_call (in_header_nodeid h) op) (\<lambda>r. case r of
         Inl errno \<Rightarrow> Ret (Inl errno, se)
       | Inr call \<Rightarrow>
           bind_outcome (fs_handle fs h call (se_ch se) (se_filesystem se)) (\<lambda>(ch, s).
             Ret (Inr None, se\<lparr>se_ch := ch, se_filesystem := s\<rparr>)))"
  by (cases op; simp add: dispatch_op_def)

lemma op_code_Init: "op_code op = FUSE_INIT \<longleftrightarrow> (\<exists>x. op = Init x)"
  by (cases op; simp)

lemma op_code_Destroy: "op_code op = FUSE_DESTROY \<longleftrightarrow> (\<exists>x. op = Destroy x)"
  by (cases op; simp)

text \<open>The five ways through the dispatcher, as a case rule.\<close>

lemma dispatch_op_cases:
  obtains (init) x where "op = Init x" "dispatch_op page fs h op se = dispatch_init page fs h x se"
  | (early) "op_code op \<noteq> FUSE_INIT" "\<not> initialized se" "dispatch_op page fs h op se = Ret (Inl EIO, se)"
  | (destroy) x where "op = Destroy x" "initialized se" "dispatch_op page fs h op se =
      Ret (Inr (Some new_empty), se\<lparr>se_filesystem := fs_destroy fs (se_filesystem se), destroyed := True\<rparr>)"
  | (late) "op_code op \<noteq> FUSE_INIT" "op_code op \<noteq> FUSE_DESTROY" "initialized se" "destroyed se"
      "dispatch_op page fs h op se = Ret (Inl EIO, se)"
  | (call) "op_code op \<noteq> FUSE_INIT" "op_code op \<noteq> FUSE_DESTROY" "initialized se" "\<not> destroyed se"
      "dispatch_op page fs h op se =
       bind_outcome (dispatch_call (in_header_nodeid h) op) (\<lambda>r. case r of
         Inl errno \<Rightarrow> Ret (Inl errno, se)
       | Inr call \<Rightarrow>
           bind_outcome (fs_handle fs h call (se_ch se) (se_filesystem se)) (\<lambda>(ch, s).
             Ret (Inr None, se\<lparr>se_ch := ch, se_filesystem := s\<rparr>)))"
proof (cases "op_code op = FUSE_INIT")
  case True
  then show ?thesis using that(1) dispatch_op_simps(1) op_code_Init by metis
next
  case ni: False
  show ?thesis
  proof (cases "initialized se")
    case i: True
    show ?thesis
    proof (cases "op_code op = FUSE_DESTROY")
      case True
      then obtain x where "op = Destroy x" using op_code_Destroy by blast
      with that(3) i show ?thesis by (simp add: dispatch_op_simps)
    next
      case False
      with ni i that(4,5) show ?thesis
        by (cases "destroyed se") (simp_all add: dispatch_op_simps dispatch_op_call)
    qed
  qed (use that(2) ni in \<open>simp add: dispatch_op_simps\<close>)
qed

lemma dispatch_req_cases:
  assumes "dispatch_req page fs req se = Ret (r, se')"
  obtains (unknown) e where "request_operation req = Ret (Inl e)" "r = Inl ENOSYS" "se' = se"
  | (denied) op where "request_operation req = Ret (Inr op)"
      "acl_denies se (in_header_uid (AnyRequest_header req))" "\<not> acl_exempt op" "r = Inl EACCES" "se' = se"
  | (served) op where "request_operation req = Ret (Inr op)"
      "acl_denies se (in_header_uid (AnyRequest_header req)) \<longrightarrow> acl_exempt op"
      "dispatch_op page fs (AnyRequest_header req) op se = Ret (r, se')"
proof -
  obtain q where q: "request_operation req = Ret q"
    using assms by (auto simp: dispatch_req_def outcome_simps)
  show ?thesis
  proof (cases q)
    case (Inl e)
    then show ?thesis by (intro unknown [of e]) (use assms q in \<open>simp_all add: dispatch_req_def\<close>)
  next
    case (Inr op)
    show ?thesis
    proof (cases "acl_denies se (in_header_uid (AnyRequest_header req)) \<and> \<not> acl_exempt op")
      case True
      then show ?thesis by (intro denied [of op]) (use Inr assms q in \<open>simp_all add: dispatch_req_def\<close>)
    next
      case False
      then show ?thesis by (intro served [of op]) (use Inr assms q in \<open>auto simp: dispatch_req_def\<close>)
    qed
  qed
qed

lemma dispatch_init_channel:
  "dispatch_init page fs h x se = Ret (r, se') \<Longrightarrow> se_ch se' = se_ch se \<and> r \<noteq> Inr None"
  by (auto simp: dispatch_init_def Let_def outcome_simps split: if_splits option.splits prod.splits)

context filesystem
begin

lemma dispatch_op_channel:
  assumes "dispatch_op page fs h op se = Ret (r, se')"
  shows "if op_code op \<in> {FUSE_FORGET, FUSE_BATCH_FORGET} \<and> initialized se \<and> \<not> destroyed se
         then r = Inr None \<and> se_ch se' = se_ch se
         else if r = Inr None then answered (in_header_unique h) (se_ch se) (se_ch se')
         else se_ch se' = se_ch se"
  using assms
proof (cases op page fs h se rule: dispatch_op_cases)
  case (init x)
  with assms dispatch_init_channel [of page fs h x se r se'] show ?thesis by auto
next
  case call
  then obtain c where c: "dispatch_call (in_header_nodeid h) op = Ret c"
    using assms by (cases "dispatch_call (in_header_nodeid h) op") auto
  show ?thesis
  proof (cases c)
    case (Inl e)
    have "op_code op \<notin> {FUSE_FORGET, FUSE_BATCH_FORGET}"
      using c Inl by (cases op) auto
    with Inl call c assms show ?thesis by auto
  next
    case (Inr b)
    then obtain ch' s' where h: "fs_handle fs h b (se_ch se) (se_filesystem se) = Ret (ch', s')"
      and "r = Inr None" "se_ch se' = ch'"
      using call c assms by (cases "fs_handle fs h b (se_ch se) (se_filesystem se)") auto
    with Inr call c dispatch_call_replies [of "in_header_nodeid h" op b] show ?thesis
      using handle_ok [of h b "se_ch se" "se_filesystem se"] by (auto split: if_splits)
  qed
qed auto

lemma dispatch_once:
  assumes "dispatch page fs req se = Ret se'"
  shows "if (\<exists>op. request_operation req = Ret (Inr op) \<and> op_code op \<in> {FUSE_FORGET, FUSE_BATCH_FORGET}) \<and>
            initialized se \<and> \<not> destroyed se
         then se_ch se' = se_ch se
         else answered (in_header_unique (AnyRequest_header req)) (se_ch se) (se_ch se')"
proof -
  obtain r se1 where d: "dispatch_req page fs req se = Ret (r, se1)"
    using assms by (auto simp: dispatch_def Let_def outcome_simps)
  have sent: "se_ch se1 = se_ch se \<Longrightarrow> r \<noteq> Inr None \<Longrightarrow>
      answered (in_header_unique (AnyRequest_header req)) (se_ch se) (se_ch se')"
    using assms d with_iovec_answered
    by (fastforce simp: dispatch_def Let_def outcome_simps split: sum.splits option.splits)
  have none: "r = Inr None \<Longrightarrow> se' = se1"
    using assms d by (simp add: dispatch_def Let_def)
  show ?thesis
    using d
  proof (cases rule: dispatch_req_cases)
    case (denied op)
    then have "op_code op \<notin> {FUSE_FORGET, FUSE_BATCH_FORGET}" by (cases op) auto
    with denied sent show ?thesis by auto
  next
    case (served op)
    from dispatch_op_channel [OF served(3)] served(1) sent none show ?thesis
      by (auto split: if_splits)
  qed (use sent in auto)
qed

end

end
