(* ===== verification/Session_Run.thy ===== *)
theory Session_Run
  imports Session
begin

text \<open>
  Sessions as a whole: the order of the calls a file system sees, the panics a request can still
  cause, and that every well-formed request is served and answered.
\<close>

section \<open>The order of the calls a file system sees\<close>

datatype (plugins only: code) fs_event = EvInit bool | EvCall fuse_in_header fs_call | EvDestroy

text \<open>A file system with a log of its calls in front of its state.\<close>

definition logged :: "'fs fs_ops \<Rightarrow> (fs_event list \<times> 'fs) fs_ops" where
  "logged fs =
     \<lparr>fs_init = (\<lambda>h c (l, s). let (err, c', s') = fs_init fs h c s in (err, c', l @ [EvInit (err = None)], s')),
      fs_destroy = (\<lambda>(l, s). (l @ [EvDestroy], fs_destroy fs s)),
      fs_handle = (\<lambda>h call ch (l, s).
        bind_outcome (fs_handle fs h call ch s) (\<lambda>(ch', s'). Ret (ch', l @ [EvCall h call], s')))\<rparr>"

text \<open>The calls that the kernel may make on behalf of no particular user.\<close>

fun call_exempt :: "fs_call \<Rightarrow> bool" where
  "call_exempt (FsRead ino fh off n fl lo) = True"
| "call_exempt (FsReaddir ino fh off n) = True"
| "call_exempt (FsReaddirplus ino fh off n) = True"
| "call_exempt (FsBatchForget nodes) = True"
| "call_exempt (FsForget ino n) = True"
| "call_exempt (FsWrite ino fh off d w fl lo) = True"
| "call_exempt (FsFsync ino fh ds) = True"
| "call_exempt (FsFsyncdir ino fh ds) = True"
| "call_exempt (FsRelease ino fh fl lo flush) = True"
| "call_exempt (FsReleasedir ino fh fl) = True"
| "call_exempt _ = False"

text \<open>
  Every call comes after a successful initialisation and before any destruction, and from a user who
  is not denied unless it is exempt.
\<close>

definition call_log_ok :: "(u32 \<Rightarrow> bool) \<Rightarrow> fs_event list \<Rightarrow> bool" where
  "call_log_ok denied l \<longleftrightarrow>
     (\<forall>i < length l. \<forall>h call. l ! i = EvCall h call \<longrightarrow>
        EvInit True \<in> set (take i l) \<and> EvDestroy \<notin> set (take i l) \<and>
        (denied (in_header_uid h) \<longrightarrow> call_exempt call))"

definition log_inv :: "(u32 \<Rightarrow> bool) \<Rightarrow> (fs_event list \<times> 'fs) session \<Rightarrow> bool" where
  "log_inv denied se \<longleftrightarrow>
     (let l = fst (se_filesystem se) in
      acl_denies se = denied \<and> call_log_ok denied l \<and>
      (initialized se \<longleftrightarrow> EvInit True \<in> set l) \<and> (destroyed se \<longleftrightarrow> EvDestroy \<in> set l))"

text \<open>Whom the mount options allow.\<close>

definition user_allowed :: "mount_option list \<Rightarrow> u32 \<Rightarrow> u32 \<Rightarrow> bool" where
  "user_allowed options euid uid \<longleftrightarrow>
     uid = euid \<or> (if AllowRoot \<in> set options then uid = 0 else AllowOther \<in> set options)"

lemma acl_denies_new: "acl_denies (session_new fs options euid) = (\<lambda>uid. \<not> user_allowed options euid uid)"
  by (auto simp: acl_denies_def session_new_def session_acl_for_def user_allowed_def)

lemma call_log_ok_snoc:
  "call_log_ok denied (l @ [ev]) \<longleftrightarrow> call_log_ok denied l \<and>
     (\<forall>h call. ev = EvCall h call \<longrightarrow> EvInit True \<in> set l \<and> EvDestroy \<notin> set l \<and>
        (denied (in_header_uid h) \<longrightarrow> call_exempt call))"
  by (auto simp: call_log_ok_def nth_append less_Suc_eq)

lemma dispatch_call_exempt:
  "dispatch_call nodeid op = Ret (Inr call) \<Longrightarrow> acl_exempt op \<Longrightarrow> call_exempt call"
  by (cases op) auto

lemma acl_denies_cong:
  "se_allowed se' = se_allowed se \<Longrightarrow> se_owner se' = se_owner se \<Longrightarrow> acl_denies se' = acl_denies se"
  by (simp add: acl_denies_def fun_eq_iff)

lemma dispatch_init_log:
  assumes "dispatch_init page (logged fs) h x se = Ret (r, se')" and "log_inv denied se"
  shows "log_inv denied se'"
  using assms acl_denies_cong [of se' se]
  by (cases "se_filesystem se")
    (auto simp: dispatch_init_def logged_def log_inv_def Let_def call_log_ok_snoc outcome_simps
      split: if_splits option.splits prod.splits)

lemma dispatch_op_log:
  assumes "dispatch_op page (logged fs) h op se = Ret (r, se')" and "log_inv denied se"
    and "denied (in_header_uid h) \<Longrightarrow> acl_exempt op"
  shows "log_inv denied se'"
  using assms
proof (cases op page "logged fs" h se rule: dispatch_op_cases)
  case (init x)
  with assms dispatch_init_log [of page fs h x se r se'] show ?thesis by simp
next
  case (destroy x)
  with assms acl_denies_cong [of se' se] show ?thesis
    by (auto simp: log_inv_def logged_def call_log_ok_snoc Let_def split: prod.splits)
next
  case call
  then obtain c where c: "dispatch_call (in_header_nodeid h) op = Ret c"
    using assms by (cases "dispatch_call (in_header_nodeid h) op") auto
  show ?thesis
  proof (cases c)
    case (Inr b)
    then have "denied (in_header_uid h) \<Longrightarrow> call_exempt b"
      using c assms(3) dispatch_call_exempt by blast
    with Inr c call assms(1,2) acl_denies_cong [of se' se] show ?thesis
      by (auto simp: log_inv_def logged_def call_log_ok_snoc Let_def outcome_simps split: prod.splits)
  qed (use c call assms in auto)
qed auto

lemma dispatch_log:
  assumes "dispatch page (logged fs) req se = Ret se'" and "log_inv denied se"
  shows "log_inv denied se'"
proof -
  obtain r se1 where d: "dispatch_req page (logged fs) req se = Ret (r, se1)"
    using assms by (auto simp: dispatch_def Let_def outcome_simps)
  have "log_inv denied se1"
    using d
  proof (cases rule: dispatch_req_cases)
    case (served op)
    with assms(2) show ?thesis
      by (intro dispatch_op_log [OF served(3)]) (auto simp: log_inv_def Let_def)
  qed (use assms(2) in simp_all)
  moreover have "se_filesystem se' = se_filesystem se1" "initialized se' = initialized se1"
    "destroyed se' = destroyed se1" "acl_denies se' = acl_denies se1"
    using assms(1) d by (auto simp: dispatch_def Let_def outcome_simps acl_denies_def fun_eq_iff split: sum.splits option.splits)
  ultimately show ?thesis by (simp add: log_inv_def)
qed

lemma session_loop_log:
  "session_loop page (logged fs) a len es se = Ret (e, se') \<Longrightarrow> log_inv denied se \<Longrightarrow> log_inv denied se'"
proof (induction page "logged fs" a len es se rule: session_loop.induct)
  case (2 page a len bs es se)
  from "2.prems"(1) obtain r where r: "request_try_from a bs = Ret r" "\<not> len < length bs"
    by (auto simp: outcome_simps split: if_splits)
  show ?case
  proof (cases r)
    case (Inr req)
    with r "2.prems" obtain se1 where "dispatch page (logged fs) req se = Ret se1"
      "session_loop page (logged fs) a len es se1 = Ret (e, se')"
      by (auto simp: outcome_simps)
    with "2.hyps" [OF r(2) r(1) Inr] "2.prems"(2) show ?thesis using dispatch_log r Inr by blast
  qed (use "2.prems" r in auto)
qed (auto split: if_splits)

section \<open>What the session loop can fail with\<close>

text \<open>The panics that a request can still provoke.\<close>

definition session_panics :: "string set" where
  "session_panics =
     {''slice index starts at 40 but ends before it'',
      ''out.data().len() == out.arg.size as usize'', ''out.value.len() == out.arg.size as usize'',
      ''overflow when adding duration to instant'', ''overflow when subtracting duration from instant'',
      ''attempt to negate with overflow'', ''range end index out of range'',
      ''called unwrap on an Err value'', ''attempt to add with overflow''}"

text \<open>The requests whose arguments the dispatcher can hand on.\<close>

definition time_ok :: "i64 \<Rightarrow> bool" where
  "time_ok secs \<longleftrightarrow> - (2 ^ 62) \<le> sint secs \<and> sint secs \<le> 2 ^ 62"

fun serviceable :: "u32 \<Rightarrow> operation \<Rightarrow> bool" where
  "serviceable page (Init x) \<longleftrightarrow> unat (Init_max_readahead x) \<le> 65535 * unat page"
| "serviceable page (SetAttr x) \<longleftrightarrow>
     time_ok (setattr_in_atime (SetAttr_arg x)) \<and> time_ok (setattr_in_mtime (SetAttr_arg x)) \<and>
     time_ok (setattr_in_ctime (SetAttr_arg x))"
| "serviceable page (IoCtl x) \<longleftrightarrow> unat (ioctl_in_in_size (IoCtl_arg x)) \<le> length (IoCtl_data x)"
| "serviceable page (CopyFileRange x) \<longleftrightarrow> unat (CopyFileRange_flags x) < 2 ^ 32"
| "serviceable page _ = True"

lemma system_time_from_time_ok: "ok session_panics (system_time_from_time s n) (\<lambda>_. True)"
  by (simp add: system_time_from_time_def system_time_at_def session_panics_def)

lemma time_ok_div:
  assumes "- (2 ^ 62) \<le> s" "s \<le> 2 ^ 62" "0 \<le> n" "n < 2 ^ 32"
  shows "in_i64 ((s * nanos_per_sec + n) div nanos_per_sec)" "in_i64 ((s * nanos_per_sec - n) div nanos_per_sec)"
proof -
  have "n div nanos_per_sec < 5" "0 \<le> n div nanos_per_sec" "- 5 \<le> (- n) div nanos_per_sec" "(- n) div nanos_per_sec \<le> 0"
    using assms by (simp_all add: nanos_per_sec_def)
  moreover have "(s * nanos_per_sec + n) div nanos_per_sec = s + n div nanos_per_sec"
    "(s * nanos_per_sec - n) div nanos_per_sec = s + (- n) div nanos_per_sec"
    by (simp_all add: nanos_per_sec_def)
  ultimately show "in_i64 ((s * nanos_per_sec + n) div nanos_per_sec)"
    "in_i64 ((s * nanos_per_sec - n) div nanos_per_sec)"
    using assms by (simp_all add: in_i64_def)
qed

lemma system_time_from_time_total: "time_ok s \<Longrightarrow> ok {} (system_time_from_time s n) (\<lambda>_. True)"
  using time_ok_div [of "sint s" "uint n"] unsigned_less [of n, where ?'a = int]
  by (auto simp: time_ok_def system_time_from_time_def system_time_at_def algebra_simps)

lemma setattr_ok:
  assumes "\<And>s n. s \<in> {setattr_in_atime (SetAttr_arg x), setattr_in_mtime (SetAttr_arg x), setattr_in_ctime (SetAttr_arg x)} \<Longrightarrow>
    ok E (system_time_from_time s n) (\<lambda>_. True)"
  shows "ok E (SetAttr_atime x) (\<lambda>_. True)" "ok E (SetAttr_mtime x) (\<lambda>_. True)" "ok E (SetAttr_ctime x) (\<lambda>_. True)"
  by (simp_all add: SetAttr_atime_def SetAttr_mtime_def SetAttr_ctime_def ok_bind assms)

lemma dispatch_call_safe:
  assumes "op_code op \<noteq> FUSE_INIT" "op_code op \<noteq> FUSE_DESTROY"
  shows "ok session_panics (dispatch_call nodeid op) (\<lambda>_. True)"
  using assms setattr_ok [of _ session_panics, OF system_time_from_time_ok]
  by (cases op) (auto simp: ok_bind Let_def IoCtl_in_data_def session_panics_def)

lemma dispatch_call_total:
  assumes "op_code op \<noteq> FUSE_INIT" "op_code op \<noteq> FUSE_DESTROY" "serviceable page op"
  shows "ok {} (dispatch_call nodeid op) (\<lambda>_. True)"
proof (cases op)
  case (SetAttr x)
  with assms have "ok {} (SetAttr_atime x) (\<lambda>_. True)" "ok {} (SetAttr_mtime x) (\<lambda>_. True)" "ok {} (SetAttr_ctime x) (\<lambda>_. True)"
    by (auto intro!: setattr_ok system_time_from_time_total)
  with SetAttr show ?thesis by (simp add: ok_bind)
qed (use assms in \<open>auto simp: Let_def IoCtl_in_data_def\<close>)

lemma init_reply_ok:
  assumes "config_inv caps readahead c" and "0 < page"
  shows "ok session_panics (init_reply page x c) (\<lambda>r. response_errno r = 0 \<and> length (response_data r) \<le> 64)"
    and "MAX_WRITE_SIZE \<le> 65535 * unat page \<Longrightarrow> unat readahead \<le> 65535 * unat page \<Longrightarrow>
      ok {} (init_reply page x c) (\<lambda>r. response_errno r = 0 \<and> length (response_data r) \<le> 64)"
proof -
  let ?m = "max (max_write c) (max_readahead c)"
  have inv: "max_write c \<le> of_nat MAX_WRITE_SIZE" "0 < max_write c" "max_readahead c \<le> readahead"
    using assms(1) by (simp_all add: config_inv_def)
  then have pos: "0 < ?m" by (simp add: less_max_iff_disj)
  have "ok session_panics (max_pages page c) (\<lambda>_. True)"
    using pos assms(2) by (auto simp: max_pages_def Let_def session_panics_def)
  then show "ok session_panics (init_reply page x c) (\<lambda>r. response_errno r = 0 \<and> length (response_data r) \<le> 64)"
    by (cases "max_pages page c") (simp_all add: init_reply_def init_out_of_def ok_bind new_data_def init_out_bytes_def length_concat sum_list_replicate)
  assume le: "MAX_WRITE_SIZE \<le> 65535 * unat page" "unat readahead \<le> 65535 * unat page"
  have "unat (max_write c) \<le> MAX_WRITE_SIZE" "unat (max_readahead c) \<le> unat readahead"
    using inv by (simp_all add: word_le_nat_alt MAX_WRITE_SIZE_def)
  then have "unat ?m \<le> 65535 * unat page" using le by (auto simp: max_def)
  then show "ok {} (init_reply page x c) (\<lambda>r. response_errno r = 0 \<and> length (response_data r) \<le> 64)"
    using max_pages_Ret [OF refl pos assms(2)]
    by (auto simp: init_reply_def init_out_of_def ok_bind new_data_def init_out_bytes_def length_concat sum_list_replicate)
qed

lemma with_iovec_error_ok:
  "sint e \<noteq> - (2 ^ 31) \<Longrightarrow> ok E (with_iovec unique (new_error e)) (\<lambda>_. True)"
  using with_iovec_iff [of unique "new_error e"] by (cases "with_iovec unique (new_error e)") (auto simp: new_error_def)

lemma with_iovec_data_ok:
  "response_errno r = 0 \<Longrightarrow> length (response_data r) \<le> 64 \<Longrightarrow> ok E (with_iovec unique r) (\<lambda>_. True)"
  using with_iovec_iff [of unique r] by (cases "with_iovec unique r") auto

text \<open>What the dispatcher returns can be sent.\<close>

fun sendable :: "(i32 + response option) \<times> 'fs session \<Rightarrow> bool" where
  "sendable (Inl e, se) \<longleftrightarrow> sint e \<noteq> - (2 ^ 31)"
| "sendable (Inr None, se) \<longleftrightarrow> True"
| "sendable (Inr (Some r), se) \<longleftrightarrow> response_errno r = 0 \<and> length (response_data r) \<le> 64"

lemma errno_sendable: "sint e \<noteq> - (2 ^ 31)" if "e \<in> {ENOSYS, EPERM, EACCES, EPROTO, EIO}"
  using that by (auto simp: ENOSYS_def EPERM_def EACCES_def EPROTO_def EIO_def)

lemma dispatch_call_errno: "dispatch_call nodeid op = Ret (Inl e) \<Longrightarrow> e = ENOSYS"
  by (cases op) (auto simp: outcome_simps Let_def split: if_splits)

lemma dispatch_ok:
  assumes "ok E (dispatch_req page fs req se) sendable"
  shows "ok E (dispatch page fs req se) (\<lambda>_. True)"
proof (cases "dispatch_req page fs req se")
  case (Ret x)
  obtain r se1 where x: "x = (r, se1)" by (cases x)
  have "sendable (r, se1)" using assms Ret x by simp
  then show ?thesis
    using Ret x with_iovec_error_ok with_iovec_data_ok
    by (cases "(r, se1)" rule: sendable.cases) (simp_all add: dispatch_def Let_def ok_bind)
qed (use assms in \<open>simp_all add: dispatch_def Let_def\<close>)

text \<open>Up to the panics \<open>E\<close>, the arguments can be handed on and an initialisation can be answered.\<close>

definition op_ok :: "string set \<Rightarrow> u32 \<Rightarrow> u64 \<Rightarrow> operation \<Rightarrow> bool" where
  "op_ok E page nodeid op \<longleftrightarrow>
     (op_code op \<noteq> FUSE_INIT \<longrightarrow> op_code op \<noteq> FUSE_DESTROY \<longrightarrow> ok E (dispatch_call nodeid op) (\<lambda>_. True)) \<and>
     (\<forall>x c. op = Init x \<longrightarrow> config_inv (Init_capabilities x) (Init_max_readahead x) c \<longrightarrow>
        ok E (init_reply page x c) (\<lambda>r. response_errno r = 0 \<and> length (response_data r) \<le> 64))"

definition request_ok :: "string set \<Rightarrow> u32 \<Rightarrow> AnyRequest \<Rightarrow> bool" where
  "request_ok E page req \<longleftrightarrow>
     ok E (request_operation req)
       (\<lambda>q. \<forall>op. q = Inr op \<longrightarrow> op_ok E page (in_header_nodeid (AnyRequest_header req)) op)"

lemma request_ok_weaken: "request_ok E page req \<Longrightarrow> E \<subseteq> E' \<Longrightarrow> request_ok E' page req"
  unfolding request_ok_def op_ok_def by (auto intro: ok_weaken elim!: ok_mono [OF ok_weaken])

lemma op_ok_safe: "0 < page \<Longrightarrow> op_ok session_panics page nodeid op"
  by (auto simp: op_ok_def intro: dispatch_call_safe init_reply_ok)

lemma op_ok_total:
  "0 < page \<Longrightarrow> MAX_WRITE_SIZE \<le> 65535 * unat page \<Longrightarrow> serviceable page op \<Longrightarrow> op_ok {} page nodeid op"
  by (auto simp: op_ok_def intro: dispatch_call_total init_reply_ok)

context filesystem
begin

lemma dispatch_init_ok:
  assumes "\<And>c. config_inv (Init_capabilities x) (Init_max_readahead x) c \<Longrightarrow>
      ok E (init_reply page x c) (\<lambda>r. response_errno r = 0 \<and> length (response_data r) \<le> 64)"
  shows "ok E (dispatch_init page fs h x se) sendable"
proof -
  let ?c = "kernel_config_new (Init_capabilities x) (Init_max_readahead x)"
  obtain err c1 s1 where i: "fs_init fs h ?c (se_filesystem se) = (err, c1, s1)"
    by (cases "fs_init fs h ?c (se_filesystem se)")
  have inv: "config_inv (Init_capabilities x) (Init_max_readahead x) c1"
    using init_config [OF config_inv_new, of _ _ h "se_filesystem se"] i by (metis fst_conv snd_conv)
  have err: "sint (errno_from_i32 e) \<noteq> - (2 ^ 31)" if "err = Some e" for e
    using init_errno [of h ?c "se_filesystem se" e] i that errno_sendable by (auto simp: errno_from_i32_def)
  show ?thesis
    using i inv err assms [OF inv] errno_sendable [of EPROTO]
    by (cases err) (auto simp: dispatch_init_def Let_def ok_bind intro: ok_mono)
qed

lemma dispatch_op_ok:
  assumes "op_ok E page (in_header_nodeid h) op" and "panics \<subseteq> E"
  shows "ok E (dispatch_op page fs h op se) sendable"
proof (cases op page fs h se rule: dispatch_op_cases)
  case (init x)
  then show ?thesis using dispatch_init_ok assms by (simp add: op_ok_def)
next
  case call
  have "ok E (dispatch_call (in_header_nodeid h) op) (\<lambda>_. True)"
    using call(1,2) assms by (simp add: op_ok_def)
  moreover have "ok E (fs_handle fs h b (se_ch se) (se_filesystem se)) (\<lambda>_. True)" for b
    using handle_ok [of h b "se_ch se" "se_filesystem se"] assms(2)
    by (cases "fs_handle fs h b (se_ch se) (se_filesystem se)") auto
  then have "ok E (bind_outcome (fs_handle fs h b (se_ch se) (se_filesystem se))
      (\<lambda>(ch, s). Ret (Inr None, se\<lparr>se_ch := ch, se_filesystem := s\<rparr>))) sendable" for b
    by (simp add: ok_bind case_prod_unfold)
  ultimately show ?thesis
    using call(5) dispatch_call_errno errno_sendable
    by (cases "dispatch_call (in_header_nodeid h) op") (auto split: sum.split)
qed (use errno_sendable in \<open>auto simp: new_empty_def\<close>)

lemma dispatch_total:
  assumes "request_ok E page req" and "panics \<subseteq> E"
  shows "ok E (dispatch page fs req se) (\<lambda>_. True)"
proof (intro dispatch_ok, unfold dispatch_req_def ok_bind)
  show "ok E (request_operation req) (\<lambda>q. ok E (case q of Inl e \<Rightarrow> Ret (Inl ENOSYS, se)
      | Inr op \<Rightarrow> if acl_denies se (in_header_uid (AnyRequest_header req)) \<and> \<not> acl_exempt op then Ret (Inl EACCES, se)
          else dispatch_op page fs (AnyRequest_header req) op se) sendable)"
    using assms dispatch_op_ok errno_sendable
    by (auto simp: request_ok_def elim!: ok_mono split: sum.split)
qed

lemma session_loop_ok:
  assumes "8 dvd a" and "panics \<subseteq> E"
    and "\<And>bs. Received bs \<in> set es \<Longrightarrow> length bs \<le> len \<and>
      ok E (request_try_from a bs) (\<lambda>q. \<forall>req. q = Inr req \<longrightarrow> request_ok E page req)"
  shows "ok E (session_loop page fs a len es se) (\<lambda>_. True)"
  using assms(3)
proof (induction es arbitrary: se)
  case (Cons ev es)
  then have IH: "ok E (session_loop page fs a len es se1) (\<lambda>_. True)" for se1 by simp
  show ?case
  proof (cases ev)
    case (Received bs)
    with Cons.prems [of bs] have le: "length bs \<le> len"
      and r: "ok E (request_try_from a bs) (\<lambda>q. \<forall>req. q = Inr req \<longrightarrow> request_ok E page req)" by auto
    have "ok E (bind_outcome (dispatch page fs req se) (session_loop page fs a len es)) (\<lambda>_. True)"
      if "request_ok E page req" for req
      using dispatch_total [OF that assms(2), of se] IH by (auto simp: ok_bind elim: ok_mono)
    with r show ?thesis
      using le Received by (auto simp: ok_bind elim!: ok_mono split: sum.split)
  qed (use IH in auto)
qed simp

end

lemma aligned_sub_buf_8:
  "\<exists>a len. aligned_sub_buf buffer BUFFER_SIZE (align_of in_header_layout) = Ret (a, len) \<and>
     8 dvd a \<and> BUFFER_SIZE - 7 \<le> len"
proof (cases "buffer mod 8 = 0")
  case True
  then show ?thesis by (simp add: aligned_sub_buf_def mod_0_imp_dvd)
next
  case False
  then have "8 dvd buffer + (8 - buffer mod 8)" "8 - buffer mod 8 \<noteq> 8" "8 - buffer mod 8 < 8" by presburger+
  then show ?thesis by (simp add: aligned_sub_buf_def Let_def BUFFER_SIZE_def)
qed

lemma request_operation_safe:
  assumes "8 dvd AnyRequest_data_addr req" and "0 < page"
  shows "request_ok session_panics page req"
proof (cases "opcode_try_from (in_header_opcode (AnyRequest_header req))")
  case (Some oc)
  let ?it = "arg_new (AnyRequest_data_addr req) (AnyRequest_data req)"
  have "m \<in> session_panics" if "parse_op (AnyRequest_header req) oc ?it = Panic m" for m
    using that parse_op_panic [of ?it _ oc m] parse_write_panic [of ?it _ m] parse_setxattr_panic [of ?it _ m] assms(1)
    by (auto simp: arg_new_def session_panics_def)
  then have "ok session_panics (parse (AnyRequest_header req) oc (AnyRequest_data_addr req) (AnyRequest_data req)) (\<lambda>_. True)"
    using parse_op_defined [of "AnyRequest_header req" oc ?it]
    by (cases "parse_op (AnyRequest_header req) oc ?it") (auto simp: parse_def run_parser_def ok_bind)
  with Some show ?thesis
    using op_ok_safe [OF assms(2)]
    by (auto simp: request_ok_def request_operation_def ok_bind elim!: ok_mono split: option.splits)
qed (simp add: request_ok_def request_operation_def)

lemma received_safe:
  assumes "8 dvd a" and "0 < page"
  shows "ok session_panics (request_try_from a bs) (\<lambda>q. \<forall>req. q = Inr req \<longrightarrow> request_ok session_panics page req)"
  using assms by (auto simp: request_try_from_eq Let_def session_panics_def intro!: request_operation_safe [unfolded session_panics_def])

section \<open>Requests from a well-behaved kernel\<close>

definition packet_of :: "operation \<Rightarrow> bytes" where
  "packet_of op = as_bytes in_header_layout (op_header op) @ op_payload op"

definition request_of :: "nat \<Rightarrow> operation \<Rightarrow> AnyRequest" where
  "request_of a op =
     \<lparr>AnyRequest_header = op_header op, AnyRequest_data = op_payload op, AnyRequest_data_addr = a + 40\<rparr>"

definition packet_ok :: "operation \<Rightarrow> bool" where
  "packet_ok op \<longleftrightarrow> op_wf op \<and> in_header_opcode (op_header op) = opcode_value (op_code op) \<and>
     unat (in_header_len (op_header op)) = 40 + length (op_payload op) \<and>
     length (packet_of op) \<le> BUFFER_SIZE - 7"

lemma request_of_header [simp]: "AnyRequest_header (request_of a op) = op_header op"
  by (simp add: request_of_def)

lemma request_of_packet:
  assumes "8 dvd a" and "packet_ok op"
  shows "request_try_from a (packet_of op) = Ret (Inr (request_of a op))"
    and "request_operation (request_of a op) = Ret (Inr op)"
proof -
  show "request_try_from a (packet_of op) = Ret (Inr (request_of a op))"
    using assms by (simp add: packet_ok_def packet_of_def request_of_def request_try_from_eq Let_def
        in_header.from_as_bytes in_header.length_as_bytes)
  have "parse (op_header op) (op_code op) (a + 40) (op_payload op) = Ret (Some op)"
    using assms by (subst parse_iff) (auto simp: packet_ok_def)
  then show "request_operation (request_of a op) = Ret (Inr op)"
    using assms(2) by (simp add: request_operation_def request_of_def packet_ok_def)
qed

lemma session_loop_packet:
  assumes "8 dvd a" and "packet_ok op" and "BUFFER_SIZE - 7 \<le> len"
  shows "session_loop page fs a len (Received (packet_of op) # es) se =
    bind_outcome (dispatch page fs (request_of a op) se) (\<lambda>se1. session_loop page fs a len es se1)"
  using assms by (simp add: request_of_packet packet_ok_def)

text \<open>The packets that answer a request, by the identifier in their header.\<close>

definition answers :: "u64 \<Rightarrow> bytes list \<Rightarrow> bool" where
  "answers unique p \<longleftrightarrow> (\<exists>h. hd p = as_bytes out_header_layout h \<and> out_header_unique h = unique \<and>
     unat (out_header_len h) = length (concat p))"

lemma answered_iff: "answered unique ch ch' \<longleftrightarrow> (\<exists>p. ch' = ch @ [p] \<and> answers unique p)"
  by (auto simp: answered_def answers_def)

abbreviation forgets :: "operation \<Rightarrow> bool" where
  "forgets op \<equiv> op_code op \<in> {FUSE_FORGET, FUSE_BATCH_FORGET}"

context filesystem
begin

lemma dispatch_request_of:
  assumes "panics = {}" and "8 dvd a" and "packet_ok op" and "serviceable page op" and "0 < page"
    and "MAX_WRITE_SIZE \<le> 65535 * unat page"
  obtains se' ps where "dispatch page fs (request_of a op) se = Ret se'" "se_ch se' = se_ch se @ ps"
    "\<forall>p \<in> set ps. answers (in_header_unique (op_header op)) p" "length ps = 1 \<or> forgets op \<and> ps = []"
proof -
  have "request_ok {} page (request_of a op)"
    using assms op_ok_total by (simp add: request_ok_def request_of_packet)
  then obtain se' where se': "dispatch page fs (request_of a op) se = Ret se'"
    using dispatch_total [of "{}" page "request_of a op" se] assms(1)
    by (cases "dispatch page fs (request_of a op) se") auto
  have "if forgets op \<and> initialized se \<and> \<not> destroyed se then se_ch se' = se_ch se
        else answered (in_header_unique (op_header op)) (se_ch se) (se_ch se')"
    using dispatch_once [OF se'] assms(2,3) by (auto simp: request_of_packet)
  with se' that [OF se', of "[]"] that [OF se'] show ?thesis
    by (fastforce simp: answered_iff split: if_splits)
qed

lemma session_loop_answers:
  assumes "panics = {}" and "8 dvd a" and "BUFFER_SIZE - 7 \<le> len" and "0 < page" and "MAX_WRITE_SIZE \<le> 65535 * unat page"
    and "\<And>op. op \<in> set ops \<Longrightarrow> packet_ok op \<and> serviceable page op"
  shows "\<exists>se' pss. session_loop page fs a len (map (\<lambda>op. Received (packet_of op)) ops) se = Ret (None, se') \<and>
    se_ch se' = se_ch se @ concat pss \<and>
    list_all2 (\<lambda>op ps. (\<forall>p \<in> set ps. answers (in_header_unique (op_header op)) p) \<and>
      (length ps = 1 \<or> forgets op \<and> ps = [])) ops pss"
  using assms(6)
proof (induction ops arbitrary: se)
  case (Cons op ops)
  obtain se1 ps where d: "dispatch page fs (request_of a op) se = Ret se1" "se_ch se1 = se_ch se @ ps"
    "\<forall>p \<in> set ps. answers (in_header_unique (op_header op)) p" "length ps = 1 \<or> forgets op \<and> ps = []"
    using dispatch_request_of [of a op page] assms(1,2,4,5) Cons.prems by (metis list.set_intros(1))
  obtain se' pss where "session_loop page fs a len (map (\<lambda>op. Received (packet_of op)) ops) se1 = Ret (None, se')"
    "se_ch se' = se_ch se1 @ concat pss"
    "list_all2 (\<lambda>op ps. (\<forall>p \<in> set ps. answers (in_header_unique (op_header op)) p) \<and>
      (length ps = 1 \<or> forgets op \<and> ps = [])) ops pss"
    using Cons.IH [of se1] Cons.prems by auto
  moreover have "packet_ok op" using Cons.prems by simp
  ultimately show ?case
    using d session_loop_packet [OF assms(2) _ assms(3), of op page fs]
    by (intro exI [of _ se'] exI [of _ "ps # pss"]) simp
qed simp

end

lemma session_run_answers:
  assumes "filesystem fs {}" and "0 < page" and "MAX_WRITE_SIZE \<le> 65535 * unat page"
    and "\<And>op. op \<in> set ops \<Longrightarrow> packet_ok op \<and> serviceable page op"
  shows "\<exists>se' pss. session_run page fs buffer (map (\<lambda>op. Received (packet_of op)) ops) se = Ret (None, se') \<and>
    se_ch se' = se_ch se @ concat pss \<and>
    list_all2 (\<lambda>op ps. (\<forall>p \<in> set ps. answers (in_header_unique (op_header op)) p) \<and>
      (length ps = 1 \<or> forgets op \<and> ps = [])) ops pss"
proof -
  obtain a len where b: "aligned_sub_buf buffer BUFFER_SIZE (align_of in_header_layout) = Ret (a, len)"
    "8 dvd a" "BUFFER_SIZE - 7 \<le> len" using aligned_sub_buf_8 by blast
  show ?thesis
    using filesystem.session_loop_answers [OF assms(1) refl b(2,3) assms(2-4)] b(1) by (simp add: session_run_def)
qed

lemma logged_init:
  "fst (fs_init (logged fs) h c ls) = fst (fs_init fs h c (snd ls))"
  "fst (snd (fs_init (logged fs) h c ls)) = fst (snd (fs_init fs h c (snd ls)))"
  by (simp_all add: logged_def split: prod.split)

lemma logged_handle:
  "fs_handle (logged fs) h call ch ls =
     bind_outcome (fs_handle fs h call ch (snd ls)) (\<lambda>(ch', s'). Ret (ch', fst ls @ [EvCall h call], s'))"
  by (simp add: logged_def split: prod.split)

lemma filesystem_logged: "filesystem fs panics \<Longrightarrow> filesystem (logged fs) panics"
  by (simp add: filesystem_def logged_init logged_handle ok_bind case_prod_unfold if_bool_eq_conj)

section \<open>Properties\<close>

definition example_init_op :: operation where
  "example_init_op =
     Init \<lparr>Init_header = example_header\<lparr>in_header_len := 56, in_header_opcode := 26, in_header_unique := 1\<rparr>,
           Init_arg = \<lparr>init_in_major = 7, init_in_minor = 31, init_in_max_readahead = 131072, init_in_flags = 0\<rparr>\<rparr>"

definition example_lookup_op :: operation where
  "example_lookup_op =
     Lookup \<lparr>Lookup_header = example_header\<lparr>in_header_len := 42, in_header_opcode := 1, in_header_unique := 2\<rparr>,
             Lookup_name = [97]\<rparr>"

lemma example_packets:
  assumes "op \<in> set [example_init_op, example_lookup_op]"
  shows "packet_ok op \<and> serviceable 4096 op"
  using assms
  by (auto simp: example_init_op_def example_lookup_op_def packet_ok_def packet_of_def example_header_def
      in_header.length_as_bytes init_in.length_as_bytes BUFFER_SIZE_def MAX_WRITE_SIZE_def Init_max_readahead_def)

lemma page_4096: "0 < (4096 :: u32)" "MAX_WRITE_SIZE \<le> 65535 * unat (4096 :: u32)"
  by (simp_all add: MAX_WRITE_SIZE_def)

text \<open>
  A file system that answers its calls as the trait promises makes the session answer every
  request exactly once: dispatching a request appends one well-formed packet with the request's
  identifier to the channel, and nothing for a forget request of a running session.
\<close>

lemma dispatch_answers_once:
  assumes "filesystem fs panics" and "dispatch page fs req se = Ret se'"
  shows "if (\<exists>op. request_operation req = Ret (Inr op) \<and> op_code op \<in> {FUSE_FORGET, FUSE_BATCH_FORGET}) \<and>
            initialized se \<and> \<not> destroyed se
         then se_ch se' = se_ch se
         else answered (in_header_unique (AnyRequest_header req)) (se_ch se) (se_ch se')"
  by (rule filesystem.dispatch_once [OF assms])

text \<open>
  C24. Whatever the kernel sends, the file system of a session sees a call of an operation only after
  it was initialised with success and never after it was destroyed; a call for a user whom the
  mount options do not allow is one of those that the kernel makes on behalf of no user; and when the
  session is dropped, the file system has been destroyed.
\<close>

theorem session_event_order:
  assumes "session_run page (logged fs) buffer es (session_new ([], s) options euid) = Ret (e, se)"
    and "l = fst (se_filesystem (session_drop (logged fs) se))"
  shows "call_log_ok (\<lambda>uid. \<not> user_allowed options euid uid) l \<and> EvDestroy \<in> set l"
proof -
  let ?d = "\<lambda>uid. \<not> user_allowed options euid uid"
  have "log_inv ?d (session_new ([], s) options euid)"
    by (simp only: log_inv_def acl_denies_new) (simp add: session_new_def call_log_ok_def)
  with assms(1) have "log_inv ?d se"
    by (auto simp: session_run_def outcome_simps intro: session_loop_log)
  with assms(2) show ?thesis
    by (cases "se_filesystem se") (auto simp: session_drop_def log_inv_def logged_def call_log_ok_snoc Let_def)
qed

theorem session_event_order_witness:
  "\<exists>e se. session_run 4096 (logged default_ops) 3
        (map (\<lambda>op. Received (packet_of op)) [example_init_op, example_lookup_op]) (session_new ([], ()) [AllowOther] 0)
      = Ret (e, se) \<and>
     call_log_ok (\<lambda>uid. \<not> user_allowed [AllowOther] 0 uid) (fst (se_filesystem (session_drop (logged default_ops) se))) \<and>
     EvDestroy \<in> set (fst (se_filesystem (session_drop (logged default_ops) se)))"
proof -
  obtain e se where r: "session_run 4096 (logged default_ops) 3
      (map (\<lambda>op. Received (packet_of op)) [example_init_op, example_lookup_op]) (session_new ([], ()) [AllowOther] 0)
      = Ret (e, se)"
    using session_run_answers [OF filesystem_logged [OF default_fs.filesystem_axioms] page_4096 example_packets] by blast
  with session_event_order [OF r refl] show ?thesis by blast
qed

text \<open>
  C25. Whatever bytes the kernel sends and wherever the buffer was allocated, running a session
  performs no undefined operation, and it never panics for a request read from a misaligned address,
  out of the bounds of the data or larger than the buffer. The panics that remain possible are the
  listed ones (a header shorter than itself, a size field that disagrees with the data, a time that
  overflows, and an initialisation whose readahead overflows the number of pages) and those of the
  file system itself.
\<close>

theorem session_run_safe:
  assumes "filesystem fs panics" and "0 < page"
    and "\<And>bs. Received bs \<in> set es \<Longrightarrow> length bs \<le> BUFFER_SIZE - 7"
  shows "\<not> is_undefined (session_run page fs buffer es se) \<and>
    (\<forall>m. session_run page fs buffer es se = Panic m \<longrightarrow> m \<in> session_panics \<union> panics)"
proof -
  let ?E = "session_panics \<union> panics"
  obtain a len where b: "aligned_sub_buf buffer BUFFER_SIZE (align_of in_header_layout) = Ret (a, len)"
    "8 dvd a" "BUFFER_SIZE - 7 \<le> len" using aligned_sub_buf_8 by blast
  have "ok ?E (session_loop page fs a len es se) (\<lambda>_. True)"
    using assms(1) b(2) Un_upper2
  proof (rule filesystem.session_loop_ok)
    fix bs assume "Received bs \<in> set es"
    then show "length bs \<le> len \<and> ok ?E (request_try_from a bs)
        (\<lambda>q. \<forall>req. q = Inr req \<longrightarrow> request_ok ?E page req)"
      using assms(3) [of bs] b(3) ok_mono [OF ok_weaken [OF received_safe [OF b(2) assms(2)]]]
        request_ok_weaken [of session_panics page _ ?E] by auto
  qed
  with b(1) show ?thesis
    by (cases "session_loop page fs a len es se") (simp_all add: session_run_def)
qed

theorem session_run_safe_witness:
  "\<not> is_undefined (session_run 4096 default_ops 3 [Received [1, 2, 3], ReceiveErr (Some 4)] (session_new () [] 0))"
  by (rule conjunct1 [OF session_run_safe [OF default_fs.filesystem_axioms]])
    (auto simp: BUFFER_SIZE_def MAX_WRITE_SIZE_def)



end
