(* ===== verification/Uring_Fs.thy ===== *)
theory Uring_Fs
  imports Filesystem
begin

text \<open>
  The file system of \<^verbatim>\<open>src/fuse/src/uring_fuse/uring_fs/\<close>: the inode manager (\<^verbatim>\<open>inode.rs\<close>), the cache of
  directory listings (\<^verbatim>\<open>list_cache.rs\<close>) and the methods (\<^verbatim>\<open>mod.rs\<close>), interpreted as a \<open>filesystem\<close>. Names
  and paths are byte sequences; a Rust \<open>String\<close> is one that is valid UTF-8. The locks of the manager
  are not poisoned: no panic happens while one is held.
\<close>

section \<open>Strings and paths\<close>

definition utf8_cont :: "u8 \<Rightarrow> bool" where
  "utf8_cont b \<longleftrightarrow> 0x80 \<le> b \<and> b \<le> 0xBF"

text \<open>
  The validation of \<open>OsString::into_string\<close>: the length of the first character, zero if it is not valid,
  and a sequence of characters.
\<close>

fun utf8_char :: "bytes \<Rightarrow> nat" where
  "utf8_char [] = 0"
| "utf8_char (a # r) =
     (if a < 0x80 then 1
      else if 0xC2 \<le> a \<and> a \<le> 0xDF then
        (case r of b # r1 \<Rightarrow> if utf8_cont b then 2 else 0 | [] \<Rightarrow> 0)
      else if 0xE0 \<le> a \<and> a \<le> 0xEF then
        (case r of b # c # r2 \<Rightarrow>
           if utf8_cont b \<and> (a = 0xE0 \<longrightarrow> 0xA0 \<le> b) \<and> (a = 0xED \<longrightarrow> b \<le> 0x9F) \<and> utf8_cont c then 3 else 0
         | _ \<Rightarrow> 0)
      else if 0xF0 \<le> a \<and> a \<le> 0xF4 then
        (case r of b # c # d # r3 \<Rightarrow>
           if utf8_cont b \<and> (a = 0xF0 \<longrightarrow> 0x90 \<le> b) \<and> (a = 0xF4 \<longrightarrow> b \<le> 0x8F) \<and> utf8_cont c \<and> utf8_cont d
           then 4 else 0
         | _ \<Rightarrow> 0)
      else 0)"

function valid_utf8 :: "bytes \<Rightarrow> bool" where
  "valid_utf8 bs =
     (if bs = [] then True
      else if utf8_char bs = 0 then False
      else valid_utf8 (drop (utf8_char bs) bs))"
  by auto
termination
  by (relation "measure length") auto

declare valid_utf8.simps [simp del]

definition into_string_unwrap :: "bytes \<Rightarrow> bytes outcome" where
  "into_string_unwrap s = (if valid_utf8 s then Ret s else Panic ''called unwrap on an Err value'')"

text \<open>\<open>PathBuf::join\<close>: an absolute path replaces the base, otherwise one separator is between them.\<close>

definition path_join :: "bytes \<Rightarrow> bytes \<Rightarrow> bytes" where
  "path_join base p =
     (if p \<noteq> [] \<and> hd p = 47 then p
      else if base \<noteq> [] \<and> last base \<noteq> 47 then base @ [47] @ p
      else base @ p)"

section \<open>The inode manager\<close>

record inode =
  inode_ino :: u64
  inode_parent :: u64
  inode_name :: bytes
  inode_full_path :: bytes
  inode_kind :: file_type

definition inode_new :: "u64 \<Rightarrow> u64 \<Rightarrow> bytes \<Rightarrow> bytes \<Rightarrow> file_type \<Rightarrow> inode" where
  "inode_new ino parent name full_path kind =
     \<lparr>inode_ino = ino, inode_parent = parent, inode_name = name, inode_full_path = full_path,
      inode_kind = kind\<rparr>"

datatype inode_error = InodeDoesNotExist u64 | InodeInsertFailure u64

record inode_manager =
  bucket :: bytes
  inodes :: "u64 \<rightharpoonup> inode"
  path_index :: "bytes \<rightharpoonup> u64"
  next_ino :: u64

definition inode_manager_new :: "bytes \<Rightarrow> inode_manager" where
  "inode_manager_new b =
     \<lparr>bucket = b, inodes = [FUSE_ROOT_ID \<mapsto> inode_new FUSE_ROOT_ID FUSE_ROOT_ID [] [47] Directory],
      path_index = [[47] \<mapsto> FUSE_ROOT_ID], next_ino = 2\<rparr>"

definition inode_get :: "inode_manager \<Rightarrow> u64 \<Rightarrow> inode_error + inode" where
  "inode_get im ino = (case inodes im ino of Some i \<Rightarrow> Inr i | None \<Rightarrow> Inl (InodeDoesNotExist ino))"

definition inode_lookup :: "inode_manager \<Rightarrow> u64 \<Rightarrow> bytes \<Rightarrow> (inode_error + inode) outcome" where
  "inode_lookup im parent_ino name =
     (case inodes im parent_ino of
        None \<Rightarrow> Ret (Inl (InodeDoesNotExist parent_ino))
      | Some parent_inode \<Rightarrow>
          bind_outcome (into_string_unwrap (path_join (inode_full_path parent_inode) name)) (\<lambda>full_path.
            case path_index im full_path of
              None \<Rightarrow> Ret (Inl (InodeDoesNotExist parent_ino))
            | Some ino \<Rightarrow>
                (case inodes im ino of
                   None \<Rightarrow> Ret (Inl (InodeDoesNotExist ino))
                 | Some i \<Rightarrow> Ret (Inr i))))"

definition inode_create ::
    "inode_manager \<Rightarrow> u64 \<Rightarrow> bytes \<Rightarrow> bytes \<Rightarrow> file_type \<Rightarrow> (inode_error + inode) \<times> inode_manager" where
  "inode_create im parent name full_path kind =
     (let inode_id_new = next_ino im;
          inode_new = inode_new inode_id_new parent name full_path kind in
      (Inr inode_new,
       im\<lparr>next_ino := inode_id_new + 1, inodes := (inodes im)(inode_id_new \<mapsto> inode_new),
          path_index := (path_index im)(full_path \<mapsto> inode_id_new)\<rparr>))"

definition attr_from_inode :: "inode \<Rightarrow> FileAttr" where
  "attr_from_inode i =
     \<lparr>fa_ino = inode_ino i, fa_size = 0, fa_blocks = 0, fa_atime = 0, fa_mtime = 0, fa_ctime = 0,
      fa_crtime = 0, fa_kind = inode_kind i, fa_perm = 365, fa_nlink = 2, fa_uid = 0, fa_gid = 0,
      fa_rdev = 0, fa_blksize = 0, fa_flags = 0\<rparr>"

section \<open>The cache of listings\<close>

type_synonym list_status_cache = "bytes \<rightharpoonup> bytes list"

definition cache_new :: list_status_cache where
  "cache_new = (\<lambda>p. None)"

definition cache_append :: "list_status_cache \<Rightarrow> bytes \<Rightarrow> bytes \<Rightarrow> list_status_cache" where
  "cache_append c path new_file =
     (case c path of
        Some entries \<Rightarrow> c(path \<mapsto> entries @ [new_file])
      | None \<Rightarrow> c(path \<mapsto> [new_file]))"

section \<open>The file system\<close>

record uring_fs =
  fs_inodes :: inode_manager
  ls_cache :: list_status_cache
  next_fh :: u64

definition uring_fs_new :: "inode_manager \<Rightarrow> list_status_cache \<Rightarrow> uring_fs" where
  "uring_fs_new im c = \<lparr>fs_inodes = im, ls_cache = c, next_fh = 1\<rparr>"

text \<open>What a method leaves behind: the channel of its reply object and the new state.\<close>

definition finish :: "unit outcome \<times> reply_raw \<Rightarrow> 's \<Rightarrow> (channel \<times> 's) outcome" where
  "finish r s = bind_outcome (fst r) (\<lambda>u. Ret (packets (snd r), s))"

definition from_millis :: "nat \<Rightarrow> duration" where
  "from_millis n = \<lparr>as_secs = of_nat (n div 1000), subsec_nanos = of_nat (n mod 1000 * 1000000)\<rparr>"

definition uring_lookup :: "u64 \<Rightarrow> bytes \<Rightarrow> reply_raw \<Rightarrow> uring_fs \<Rightarrow> (channel \<times> uring_fs) outcome" where
  "uring_lookup parent name reply s =
     (if valid_utf8 name then
        bind_outcome (inode_lookup (fs_inodes s) parent name) (\<lambda>res. case res of
          Inr i \<Rightarrow> finish (reply_entry (from_millis 100000) (attr_from_inode i) 0 reply) s
        | Inl e \<Rightarrow> finish (reply_error ENOENT reply) s)
      else finish (reply_error ENOENT reply) s)"

definition uring_getattr :: "u64 \<Rightarrow> reply_raw \<Rightarrow> uring_fs \<Rightarrow> (channel \<times> uring_fs) outcome" where
  "uring_getattr ino reply s =
     (case inode_get (fs_inodes s) ino of
        Inr i \<Rightarrow> finish (reply_attr (from_millis 100000) (attr_from_inode i) reply) s
      | Inl e \<Rightarrow> finish (reply_error ENOENT reply) s)"

definition uring_setattr :: "u64 \<Rightarrow> reply_raw \<Rightarrow> uring_fs \<Rightarrow> (channel \<times> uring_fs) outcome" where
  "uring_setattr ino reply s =
     (case inode_get (fs_inodes s) ino of
        Inr i \<Rightarrow> finish (reply_attr (from_millis 1000000) (attr_from_inode i) reply) s
      | Inl e \<Rightarrow> Panic ''called unwrap on an Err value'')"

definition uring_write :: "reply_raw \<Rightarrow> uring_fs \<Rightarrow> (channel \<times> uring_fs) outcome" where
  "uring_write reply s = finish (reply_error ENOSYS reply) s"

text \<open>The loop over the enumerated entries, with the reply and the number of entries added.\<close>

fun readdir_loop ::
    "inode_manager \<Rightarrow> u64 \<Rightarrow> i64 \<Rightarrow> (nat \<times> bytes) list \<Rightarrow> reply_directory \<times> nat \<Rightarrow> (reply_directory \<times> nat) outcome" where
  "readdir_loop im ino offset [] (reply, n) = Ret (reply, n)"
| "readdir_loop im ino offset ((i, entry) # es) (reply, n) =
     bind_outcome (inode_lookup im ino entry) (\<lambda>res. case res of
       Inr x \<Rightarrow>
         if \<not> in_i64 (int i + sint offset + 2) then Panic ''attempt to add with overflow''
         else
           bind_outcome (reply_directory_add (inode_ino x) (of_nat i + offset + 2) (inode_kind x) (inode_name x) reply)
             (\<lambda>(full, reply1). readdir_loop im ino offset es (reply1, n + 1))
     | Inl e \<Rightarrow> readdir_loop im ino offset es (reply, n))"

definition uring_readdir :: "u64 \<Rightarrow> i64 \<Rightarrow> reply_directory \<Rightarrow> uring_fs \<Rightarrow> (channel \<times> uring_fs) outcome" where
  "uring_readdir ino offset reply s =
     (case inode_get (fs_inodes s) ino of
        Inl e \<Rightarrow> finish (reply_error ENOENT (rd_reply reply)) s
      | Inr dir_inode \<Rightarrow>
          bind_outcome
            (if offset = 0 then
               bind_outcome (reply_directory_add ino 1 Directory [46] reply) (\<lambda>(full, reply1). Ret (reply1, 1))
             else Ret (reply, 0)) (\<lambda>(reply1, n1).
          bind_outcome
            (case ls_cache s (inode_full_path dir_inode) of
               Some entries \<Rightarrow>
                 readdir_loop (fs_inodes s) ino offset (drop (unat offset) (enumerate 0 entries)) (reply1, n1)
             | None \<Rightarrow> Ret (reply1, n1)) (\<lambda>(reply2, n2).
          if 0 < n2 then finish (reply_directory_ok reply2) s
          else finish (reply_error ENOENT (rd_reply reply2)) s)))"

definition uring_create :: "u64 \<Rightarrow> bytes \<Rightarrow> reply_raw \<Rightarrow> uring_fs \<Rightarrow> (channel \<times> uring_fs) outcome" where
  "uring_create parent name reply s =
     (case inode_get (fs_inodes s) parent of
        Inl e \<Rightarrow> finish (reply_error ENOENT reply) s
      | Inr parent_node \<Rightarrow>
          bind_outcome (into_string_unwrap (path_join (inode_full_path parent_node) name)) (\<lambda>full_path.
          bind_outcome (into_string_unwrap name) (\<lambda>name_str.
            case inode_create (fs_inodes s) parent name_str full_path RegularFile of
              (Inr i, im) \<Rightarrow>
                finish
                  (reply_created (from_millis 1000000) (attr_from_inode i) (inode_ino i) (next_fh s) 0 reply)
                  (s\<lparr>fs_inodes := im, ls_cache := cache_append (ls_cache s) (inode_full_path parent_node) name_str,
                     next_fh := next_fh s + 1\<rparr>)
            | (Inl e, im) \<Rightarrow> finish (reply_error ENOENT reply) (s\<lparr>fs_inodes := im\<rparr>))))"

text \<open>The methods it does not implement are the default ones of the trait.\<close>

definition uring_handle :: "fuse_in_header \<Rightarrow> fs_call \<Rightarrow> channel \<Rightarrow> uring_fs \<Rightarrow> (channel \<times> uring_fs) outcome" where
  "uring_handle h call ch s =
     (let unique = in_header_unique h; reply = reply_new unique ch in
      case call of
        FsLookup parent name \<Rightarrow> uring_lookup parent name reply s
      | FsGetattr ino \<Rightarrow> uring_getattr ino reply s
      | FsSetattr ino m u g sz at mt ct fh crt cht bt fl \<Rightarrow> uring_setattr ino reply s
      | FsWrite ino fh off d w fl lo \<Rightarrow> uring_write reply s
      | FsReaddir ino fh offset sz \<Rightarrow> uring_readdir ino offset (reply_directory_new unique ch sz) s
      | FsCreate parent name mode umask flags \<Rightarrow> uring_create parent name reply s
      | _ \<Rightarrow> Ret (if call_replies call then packets (default_reply call reply) else ch, s))"

definition uring_ops :: "uring_fs fs_ops" where
  "uring_ops = \<lparr>fs_init = (\<lambda>h c s. (None, c, s)), fs_destroy = (\<lambda>s. s), fs_handle = uring_handle\<rparr>"

section \<open>Strings\<close>

lemma utf8_char_append:
  "0 < utf8_char a \<Longrightarrow> utf8_char (a @ b) = utf8_char a \<and> utf8_char a \<le> length a"
  by (cases a) (auto split: if_split_asm list.split_asm)

lemma valid_utf8_append: "valid_utf8 a \<Longrightarrow> valid_utf8 (a @ b) = valid_utf8 b"
proof (induction a rule: valid_utf8.induct)
  case (1 a)
  show ?case
  proof (cases "a = []")
    case False
    with 1(2) have n: "0 < utf8_char a" "valid_utf8 (drop (utf8_char a) a)"
      by (simp_all add: valid_utf8.simps [of a] split: if_splits)
    then have "valid_utf8 (a @ b) = valid_utf8 (drop (utf8_char a) a @ b)"
      using utf8_char_append [of a b] False by (simp add: valid_utf8.simps [of "a @ b"])
    with 1(1) n False show ?thesis by simp
  qed simp
qed

lemma valid_utf8_Nil [simp]: "valid_utf8 []"
  by (subst valid_utf8.simps) simp

lemma valid_utf8_ascii: "a < 0x80 \<Longrightarrow> valid_utf8 (a # r) = valid_utf8 r"
  by (subst valid_utf8.simps) simp

lemma valid_path_join: "valid_utf8 base \<Longrightarrow> valid_utf8 (path_join base n) = valid_utf8 n"
  by (simp add: path_join_def valid_utf8_append valid_utf8_ascii)

section \<open>The contract\<close>

definition uring_panics :: "string set" where
  "uring_panics =
     {''called unwrap on an Err value'', ''attempt to add with overflow'', ''Name too long'', ''Too much data''}"

definition answers_call :: "u64 \<Rightarrow> channel \<Rightarrow> channel \<times> 's \<Rightarrow> bool" where
  "answers_call unique ch r \<longleftrightarrow> answered unique ch (fst r)"

lemma finish_ok:
  "ok E (fst r) (\<lambda>_. True) \<Longrightarrow> one_packet unique ch (snd r) \<Longrightarrow> ok E (finish r s) (answers_call unique ch)"
  by (cases "fst r") (auto simp: finish_def answers_call_def one_packet_answered)

lemma send_ll_fst:
  "16 + length (response_data resp) < 2 ^ 32 \<Longrightarrow> response_errno resp \<noteq> - (2 ^ 31) \<Longrightarrow>
     fst (send_ll resp (reply_new unique ch)) = Ret ()"
  using with_iovec_one [of resp unique] by (auto simp: send_ll_def send_ll_mut_def reply_new_def)

lemma error_finish:
  "e \<in> {ENOENT, ENOSYS} \<Longrightarrow> ok E (finish (reply_error e (reply_new unique ch)) s) (answers_call unique ch)"
  by (rule finish_ok)
    (auto simp: reply_error_def errno_from_i32_def ENOENT_def ENOSYS_def new_error_def intro!: send_ll_one
      intro: ok_Ret simp: send_ll_fst)

lemma attr_from_inode_Ret: "\<exists>a. fuse_attr_from_attr (attr_from_inode i) = Ret a"
  by (simp add: fuse_attr_from_attr_def attr_from_inode_def time_from_system_time_def Let_def in_i64_def)

lemma attr_finish:
  assumes "\<And>a. length (response_data (f a)) < 1000" and "\<And>a. response_errno (f a) = 0"
  shows "ok E (finish (send_attr f (attr_from_inode i) (reply_new unique ch)) s) (answers_call unique ch)"
proof (rule finish_ok)
  obtain a where a: "fuse_attr_from_attr (attr_from_inode i) = Ret a" using attr_from_inode_Ret by blast
  show "ok E (fst (send_attr f (attr_from_inode i) (reply_new unique ch))) (\<lambda>_. True)"
    using send_ll_fst [of "f a" unique ch] assms(1) [of a] assms(2) [of a] by (simp add: send_attr_def a)
  show "one_packet unique ch (snd (send_attr f (attr_from_inode i) (reply_new unique ch)))"
    using assms by (rule send_attr_one)
qed

lemma attr_replies:
  "ok E (finish (reply_attr ttl (attr_from_inode i) (reply_new unique ch)) s) (answers_call unique ch)"
  "ok E (finish (reply_entry ttl (attr_from_inode i) generation (reply_new unique ch)) s) (answers_call unique ch)"
  "ok E (finish (reply_created ttl (attr_from_inode i) generation fh flags (reply_new unique ch)) s) (answers_call unique ch)"
  unfolding reply_attr_def reply_entry_def reply_created_def
  by (rule attr_finish; simp add: response_defs response_lengths)+

lemma inode_lookup_ok: "ok uring_panics (inode_lookup im ino name) (\<lambda>_. True)"
  by (auto simp: inode_lookup_def into_string_unwrap_def uring_panics_def split: option.splits)

text \<open>A listing under construction stays within its size.\<close>

definition listing_ok :: "reply_raw \<Rightarrow> reply_directory \<times> nat \<Rightarrow> bool" where
  "listing_ok reply r \<longleftrightarrow>
     rd_reply (fst r) = reply \<and> length (ent_buf (rd_data (fst r))) \<le> max_size (rd_data (fst r))"

lemma directory_add_ok:
  assumes "listing_ok reply (r, n)"
  shows "ok uring_panics (reply_directory_add ino off kind name r) (\<lambda>(full, r1). listing_ok reply (r1, n'))"
proof (cases "length name < 2 ^ 32")
  case True
  with assms show ?thesis
    by (auto simp: reply_directory_add_def dir_list_push_eq listing_ok_def)
qed (auto simp: reply_directory_add_def dir_list_push_def uring_panics_def)

lemma readdir_loop_ok:
  "listing_ok reply rn \<Longrightarrow> ok uring_panics (readdir_loop im ino off es rn) (listing_ok reply)"
proof (induction es arbitrary: rn)
  case Nil
  then show ?case by (cases rn) simp
next
  case (Cons e es)
  obtain i name where e: "e = (i, name)" by (cases e)
  obtain r n where rn: "rn = (r, n)" by (cases rn)
  have step: "ok uring_panics (bind_outcome (reply_directory_add ino' off' kind nm r)
      (\<lambda>(full, r1). readdir_loop im ino off es (r1, n + 1))) (listing_ok reply)" for ino' off' kind nm
    unfolding ok_bind
    by (rule ok_mono [OF directory_add_ok [OF Cons.prems [unfolded rn]]]) (auto intro: Cons.IH)
  have "readdir_loop im ino off es (r, n) = readdir_loop im ino off es rn" by (simp add: rn)
  with step show ?case
    using inode_lookup_ok [of im ino name] Cons.IH [OF Cons.prems]
    by (auto simp: e rn ok_bind uring_panics_def elim!: ok_mono split: sum.split)
qed

lemma send_data_finish:
  "ok uring_panics (finish (send_ll (Data d) (reply_new unique ch)) s) (answers_call unique ch)"
proof (cases "16 + length d < 2 ^ 32")
  case True
  then show ?thesis by (intro finish_ok) (simp_all add: send_ll_fst send_ll_one)
next
  case False
  then have "fst (send_ll (Data d) (reply_new unique ch)) = Panic ''Too much data''"
    by (simp add: send_ll_def send_ll_mut_def reply_new_def with_iovec_def)
  then show ?thesis by (simp add: finish_def uring_panics_def)
qed

lemma uring_lookup_ok: "ok uring_panics (uring_lookup parent name (reply_new unique ch) s) (answers_call unique ch)"
  unfolding uring_lookup_def ok_bind
  by (auto intro!: error_finish attr_replies ok_mono [OF inode_lookup_ok] simp: ok_bind
      split: sum.split)

lemma uring_getattr_ok: "ok uring_panics (uring_getattr ino (reply_new unique ch) s) (answers_call unique ch)"
  unfolding uring_getattr_def
  by (auto intro!: error_finish attr_replies split: sum.split)

lemma uring_setattr_ok: "ok uring_panics (uring_setattr ino (reply_new unique ch) s) (answers_call unique ch)"
  unfolding uring_setattr_def
  by (auto intro!: attr_replies simp: uring_panics_def split: sum.split)

lemma uring_create_ok: "ok uring_panics (uring_create parent name (reply_new unique ch) s) (answers_call unique ch)"
  unfolding uring_create_def inode_create_def Let_def into_string_unwrap_def
  by (auto intro!: error_finish attr_replies simp: uring_panics_def split: sum.split)

lemma uring_readdir_ok:
  "ok uring_panics (uring_readdir ino offset (reply_directory_new unique ch sz) s) (answers_call unique ch)"
proof (cases "inode_get (fs_inodes s) ino")
  case (Inl e)
  then show ?thesis
    by (simp add: uring_readdir_def reply_directory_new_def error_finish)
next
  case (Inr d)
  let ?r = "reply_new unique ch" and ?d = "reply_directory_new unique ch sz"
  have new: "listing_ok ?r (?d, n)" for n by (simp add: listing_ok_def reply_directory_new_def ent_list_new_def)
  have start: "ok uring_panics
      (if offset = 0 then bind_outcome (reply_directory_add ino 1 Directory [46] ?d) (\<lambda>(full, reply1). Ret (reply1, 1))
       else Ret (?d, 0)) (listing_ok ?r)"
    using new by (auto simp: ok_bind intro!: ok_mono [OF directory_add_ok [OF new]])
  have rest: "ok uring_panics
      (case ls_cache s (inode_full_path d) of
         Some entries \<Rightarrow> readdir_loop (fs_inodes s) ino offset (drop (unat offset) (enumerate 0 entries)) rn
       | None \<Rightarrow> Ret rn) (listing_ok ?r)" if "listing_ok ?r rn" for rn
    using readdir_loop_ok [OF that] that by (simp split: option.split)
  have fin: "ok uring_panics (if 0 < n then finish (reply_directory_ok r) s else finish (reply_error ENOENT (rd_reply r)) s)
      (answers_call unique ch)" if "listing_ok ?r (r, n)" for r n
    using that send_data_finish error_finish [of ENOENT]
    by (auto simp: listing_ok_def reply_directory_ok_def new_directory_def)
  show ?thesis
    unfolding uring_readdir_def Inr sum.case ok_bind
    by (rule ok_mono [OF start]) (auto simp: ok_bind intro!: ok_mono [OF rest] fin)
qed

interpretation uring: filesystem uring_ops uring_panics
proof
  fix h :: fuse_in_header and call :: fs_call and ch :: channel and s :: uring_fs
  let ?u = "in_header_unique h"
  have "ok uring_panics (uring_handle h call ch s)
      (\<lambda>r. if call_replies call then answers_call ?u ch r else fst r = ch)"
    using default_reply_one [of call ?u ch]
    by (cases call; simp add: uring_handle_def uring_lookup_ok uring_getattr_ok uring_setattr_ok uring_write_def
        error_finish uring_readdir_ok uring_create_ok)
      (simp_all add: answers_call_def one_packet_answered)
  then show "ok uring_panics (fs_handle uring_ops h call ch s)
      (\<lambda>(ch', s'). if call_replies call then answered ?u ch ch' else ch' = ch)"
    by (auto simp: uring_ops_def answers_call_def split: if_splits elim!: ok_mono)
qed (simp_all add: uring_ops_def)

section \<open>The invariant of the state\<close>

text \<open>The last component of a path.\<close>

definition base_name :: "bytes \<Rightarrow> bytes" where
  "base_name p = rev (takeWhile (\<lambda>c. c \<noteq> 47) (rev p))"

lemma base_name_join:
  assumes "base \<noteq> []" and "47 \<notin> set n"
  shows "base_name (path_join base n) = n"
proof -
  have "\<not> (n \<noteq> [] \<and> hd n = 47)" using assms(2) by (cases n) auto
  moreover have "takeWhile (\<lambda>c. c \<noteq> 47) (rev n @ 47 # r) = rev n" for r
    using assms(2) by (subst takeWhile_append2) auto
  ultimately show ?thesis
    using assms(1) by (cases base rule: rev_cases) (auto simp: base_name_def path_join_def)
qed

lemma word_less_succ: "(k :: u64) < n \<Longrightarrow> n \<noteq> - 1 \<Longrightarrow> k < n + 1" "n \<noteq> - 1 \<Longrightarrow> (n :: u64) < n + 1"
  using unatSuc [of n] by (auto simp: word_less_nat_alt add.commute add_eq_0_iff)

definition inodes_ok :: "inode_manager \<Rightarrow> bool" where
  "inodes_ok im \<longleftrightarrow>
     (\<forall>k i. inodes im k = Some i \<longrightarrow> inode_ino i = k \<and> k < next_ino im \<and> inode_full_path i \<noteq> [] \<and>
        valid_utf8 (inode_full_path i) \<and> inode_name i = base_name (inode_full_path i)) \<and>
     (\<forall>p k. path_index im p = Some k \<longrightarrow> (\<exists>i. inodes im k = Some i \<and> inode_full_path i = p))"

definition cache_ok :: "inode_manager \<Rightarrow> list_status_cache \<Rightarrow> bool" where
  "cache_ok im c \<longleftrightarrow>
     (\<forall>p ns n. c p = Some ns \<longrightarrow> n \<in> set ns \<longrightarrow>
        47 \<notin> set n \<and> valid_utf8 n \<and> (\<exists>k. path_index im (path_join p n) = Some k))"

definition file_tree_inv :: "uring_fs \<Rightarrow> bool" where
  "file_tree_inv s \<longleftrightarrow> inodes_ok (fs_inodes s) \<and> cache_ok (fs_inodes s) (ls_cache s)"

lemma file_tree_inv_new: "file_tree_inv (uring_fs_new (inode_manager_new b) cache_new)"
  by (auto simp: file_tree_inv_def inodes_ok_def cache_ok_def uring_fs_new_def inode_manager_new_def cache_new_def
      inode_new_def FUSE_ROOT_ID_def base_name_def valid_utf8_ascii split: if_splits)

lemma inodes_ok_create:
  assumes "inodes_ok im" and "p \<noteq> []" and "valid_utf8 p" and "name = base_name p" and "next_ino im \<noteq> - 1"
    and "inode_create im parent name p kind = (r, im')"
  shows "inodes_ok im'"
proof -
  have "path_index im q \<noteq> Some (next_ino im)" for q
    using assms(1) unfolding inodes_ok_def by (metis less_irrefl)
  with assms word_less_succ show ?thesis
    by (auto simp: inodes_ok_def inode_create_def inode_new_def Let_def split: if_splits)
qed

lemma cache_ok_append:
  assumes "cache_ok im c" and "47 \<notin> set n" and "valid_utf8 n" and "path_index im (path_join p n) = Some k"
  shows "cache_ok im (cache_append c p n)"
  using assms by (auto simp: cache_ok_def cache_append_def split: option.splits if_splits)

lemma cache_ok_create:
  assumes "cache_ok im c" and "inode_create im parent name p kind = (r, im')"
  shows "cache_ok im' c"
  using assms by (fastforce simp: cache_ok_def inode_create_def Let_def)

text \<open>A state change of a call is that of a creation.\<close>

lemma finish_state: "finish r s = Ret (ch', s') \<Longrightarrow> s' = s"
  by (auto simp: finish_def outcome_simps)

fun call_name_ok :: "fs_call \<Rightarrow> bool" where
  "call_name_ok (FsCreate parent name mode umask flags) \<longleftrightarrow> 47 \<notin> set name"
| "call_name_ok _ = True"

lemma uring_create_inv:
  assumes "uring_create parent name reply s = Ret (ch', s')" and "file_tree_inv s" and "47 \<notin> set name"
    and "next_ino (fs_inodes s) \<noteq> - 1"
  shows "file_tree_inv s'"
proof (cases "inodes (fs_inodes s) parent")
  case None
  with assms show ?thesis by (auto simp: uring_create_def inode_get_def dest: finish_state)
next
  case (Some d)
  let ?p = "path_join (inode_full_path d) name"
  obtain r im where c: "inode_create (fs_inodes s) parent name ?p RegularFile = (r, im)" by (metis surj_pair)
  have d: "inode_full_path d \<noteq> []" "valid_utf8 (inode_full_path d)"
    using Some assms(2) by (auto simp: file_tree_inv_def inodes_ok_def)
  then have name: "name = base_name ?p" "?p \<noteq> []" "valid_utf8 ?p = valid_utf8 name"
    using assms(3) by (auto simp: base_name_join valid_path_join) (auto simp: path_join_def split: if_splits)
  have ix: "path_index im ?p = Some (next_ino (fs_inodes s))" and r: "\<exists>i. r = Inr i"
    using c by (auto simp: inode_create_def Let_def)
  have v: "valid_utf8 name"
    using assms(1) Some name(3) by (auto simp: uring_create_def inode_get_def into_string_unwrap_def split: if_splits)
  have "s' = s\<lparr>fs_inodes := im, ls_cache := cache_append (ls_cache s) (inode_full_path d) name, next_fh := next_fh s + 1\<rparr>"
    using assms(1) Some v c r name(3)
    by (auto simp: uring_create_def inode_get_def into_string_unwrap_def dest: finish_state)
  moreover have "inodes_ok im"
    using inodes_ok_create [OF _ name(2) _ name(1) assms(4) c] v name(3) assms(2) by (simp add: file_tree_inv_def)
  moreover have "cache_ok im (cache_append (ls_cache s) (inode_full_path d) name)"
    using cache_ok_create [OF _ c] assms(2,3) v ix by (auto simp: file_tree_inv_def intro: cache_ok_append)
  ultimately show ?thesis by (simp add: file_tree_inv_def)
qed

lemma uring_states:
  "uring_lookup parent name reply s = Ret (ch', s') \<Longrightarrow> s' = s"
  "uring_getattr ino reply s = Ret (ch', s') \<Longrightarrow> s' = s"
  "uring_setattr ino reply s = Ret (ch', s') \<Longrightarrow> s' = s"
  "uring_readdir ino offset dreply s = Ret (ch', s') \<Longrightarrow> s' = s"
  by (auto simp: uring_lookup_def uring_getattr_def uring_setattr_def uring_readdir_def elim!: bind_outcome_RetE
      split: sum.splits if_splits prod.splits dest: finish_state)

lemma uring_handle_inv:
  assumes "uring_handle h call ch s = Ret (ch', s')" and "file_tree_inv s" and "call_name_ok call"
    and "next_ino (fs_inodes s) \<noteq> - 1"
  shows "file_tree_inv s'"
proof (cases "\<exists>parent name mode umask flags. call = FsCreate parent name mode umask flags")
  case True
  with assms uring_create_inv show ?thesis by (fastforce simp: uring_handle_def Let_def)
next
  case False
  with assms(1) have "s' = s"
    by (cases call) (auto simp: uring_handle_def Let_def uring_write_def dest: finish_state uring_states)
  with assms(2) show ?thesis by simp
qed

section \<open>Creating, looking up and listing files\<close>

lemma finish_Ret:
  assumes "\<And>E. ok E (finish r s) Q"
  shows "finish r s = Ret (packets (snd r), s)"
  using assms [of "{}"] by (cases "fst r") (auto simp: finish_def)

lemmas attr_replies_Ret = attr_replies [THEN finish_Ret]

lemma uring_lookup_found:
  assumes "valid_utf8 name" and "inode_lookup (fs_inodes s) parent name = Ret (Inr i)"
  shows "uring_handle h (FsLookup parent name) ch s =
    Ret (packets (snd (reply_entry (from_millis 100000) (attr_from_inode i) 0 (reply_new (in_header_unique h) ch))), s)"
  using assms by (simp add: uring_handle_def uring_lookup_def attr_replies_Ret)

lemma inodes_ok_index:
  "inodes_ok im \<Longrightarrow> path_index im p = Some k \<Longrightarrow> \<exists>i. inodes im k = Some i \<and> inode_full_path i = p"
  unfolding inodes_ok_def by blast

lemma inode_lookup_iff:
  assumes "inodes_ok im" and "inodes im k = Some d" and "valid_utf8 name"
  shows "inode_lookup im k name =
    (case path_index im (path_join (inode_full_path d) name) of
       None \<Rightarrow> Ret (Inl (InodeDoesNotExist k))
     | Some ino \<Rightarrow> Ret (Inr (the (inodes im ino))))"
proof -
  have "valid_utf8 (inode_full_path d)" using assms(1,2) by (auto simp: inodes_ok_def)
  then have "valid_utf8 (path_join (inode_full_path d) name)" using assms(3) by (simp add: valid_path_join)
  moreover have "\<exists>i. inodes im ino = Some i" if "path_index im p = Some ino" for p ino
    using inodes_ok_index [OF assms(1) that] by blast
  ultimately show ?thesis
    using assms(2) by (fastforce simp: inode_lookup_def into_string_unwrap_def split: option.split)
qed

text \<open>The entries of a directory from an index on, as the kernel should see them.\<close>

definition listed_entries :: "uring_fs \<Rightarrow> bytes \<Rightarrow> i64 \<Rightarrow> dir_entry list" where
  "listed_entries s path offset =
     map (\<lambda>(i, n). \<lparr>de_ino = the (path_index (fs_inodes s) (path_join path n)), de_offset = of_nat i + offset + 2,
          de_kind = inode_kind (the (inodes (fs_inodes s) (the (path_index (fs_inodes s) (path_join path n))))),
          de_name = n\<rparr>)
       (drop (unat offset) (enumerate 0 (case ls_cache s path of None \<Rightarrow> [] | Some ns \<Rightarrow> ns)))"

lemma readdir_loop_push:
  assumes "inodes_ok im" and "inodes im ino = Some d"
    and "\<And>i n. (i, n) \<in> set es \<Longrightarrow> in_i64 (int i + sint offset + 2) \<and> 47 \<notin> set n \<and> valid_utf8 n \<and>
      (\<exists>k. path_index im (path_join (inode_full_path d) n) = Some k)"
  shows "readdir_loop im ino offset es (reply, m) =
    bind_outcome (push_entries (map (\<lambda>(i, n).
       \<lparr>de_ino = the (path_index im (path_join (inode_full_path d) n)), de_offset = of_nat i + offset + 2,
        de_kind = inode_kind (the (inodes im (the (path_index im (path_join (inode_full_path d) n))))), de_name = n\<rparr>) es)
       (rd_data reply))
     (\<lambda>(acc, l). Ret (reply\<lparr>rd_data := l\<rparr>, m + length es))"
  using assms(3)
proof (induction es arbitrary: reply m)
  case (Cons e es)
  obtain i n where e: "e = (i, n)" by (cases e)
  let ?p = "path_join (inode_full_path d) n"
  from Cons.prems [of i n] obtain k where k: "path_index im ?p = Some k"
    and n: "in_i64 (int i + sint offset + 2)" "47 \<notin> set n" "valid_utf8 n" by (auto simp: e)
  obtain x where x: "inodes im k = Some x" "inode_full_path x = ?p" using inodes_ok_index [OF assms(1) k] by blast
  have "inode_full_path d \<noteq> []" using assms(1,2) by (auto simp: inodes_ok_def)
  then have xn: "inode_ino x = k" "inode_name x = n"
    using assms(1) x n(2) by (auto simp: inodes_ok_def base_name_join)
  have "inode_lookup im ino n = Ret (Inr x)"
    using inode_lookup_iff [OF assms(1,2) n(3)] k x by simp
  moreover note Cons.IH [OF Cons.prems [OF list.set_intros(2)]]
  ultimately show ?case
    using n(1) k x xn
    by (cases "dir_list_push \<lparr>de_ino = k, de_offset = of_nat i + offset + 2, de_kind = inode_kind x, de_name = n\<rparr> (rd_data reply)")
      (auto simp: e reply_directory_add_def outcome_simps case_prod_unfold)
qed simp

text \<open>
  The states a file system reaches from its start, by calls with names that hold no separator, while
  inode numbers last.
\<close>

inductive fs_reachable :: "uring_fs \<Rightarrow> bool" where
  start: "fs_reachable (uring_fs_new (inode_manager_new b) cache_new)"
| call: "fs_reachable s \<Longrightarrow> call_name_ok c \<Longrightarrow> next_ino (fs_inodes s) \<noteq> - 1 \<Longrightarrow>
    uring_handle h c ch s = Ret (ch', s') \<Longrightarrow> fs_reachable s'"

lemma fs_reachable_inv: "fs_reachable s \<Longrightarrow> file_tree_inv s"
  by (induction rule: fs_reachable.induct) (auto intro: file_tree_inv_new uring_handle_inv)

lemma listing_fits:
  assumes "\<And>e. e \<in> set es \<Longrightarrow> length (de_name e) < 2 ^ 32"
    and "(\<Sum>e\<leftarrow>es. (24 + length (de_name e) + 7) div 8 * 8) \<le> n"
  obtains l where "push_entries es (ent_list_new n) = Ret (es, l)" "max_size l = n" "length (ent_buf l) \<le> n"
    "read_entries dirent_layout dirent_namelen (ent_buf l) = map (\<lambda>e. (dirent_of e, de_name e)) es"
proof -
  have "(\<Sum>e\<leftarrow>es. length (dirent_bytes e)) \<le> n"
    using assms(2) by (simp add: length_ent_bytes dirent.length_as_bytes)
  then obtain l where l: "push_entries es (ent_list_new n) = Ret (es, l)"
    using push_entries_fit [OF assms(1), of es "ent_list_new n"] by (auto simp: ent_list_new_def)
  then have b: "max_size l = n" "length (ent_buf l) \<le> n" "ent_buf l = concat (map dirent_bytes es)"
    using push_entries_total [OF assms(1), of es "ent_list_new n"] by (auto simp: ent_list_new_def)
  have "read_entries dirent_layout dirent_namelen (ent_buf l) = map (\<lambda>e. (dirent_of e, de_name e)) es"
    unfolding b(3) using assms(1) by (intro dirent.read_entries_concat) (auto simp: dirent_of_def)
  with l b(1,2) that show ?thesis by blast
qed

text \<open>The entry for the directory itself comes first, when the listing starts.\<close>

definition directory_entries :: "uring_fs \<Rightarrow> u64 \<Rightarrow> bytes \<Rightarrow> i64 \<Rightarrow> dir_entry list" where
  "directory_entries s ino path offset =
     (if offset = 0 then [\<lparr>de_ino = ino, de_offset = 1, de_kind = Directory, de_name = [46]\<rparr>] else []) @
     listed_entries s path offset"

lemma enumerate_drop:
  "(i, n) \<in> set (drop k (enumerate 0 ns)) \<Longrightarrow> k \<le> i \<and> i < length ns \<and> n \<in> set ns"
  by (auto simp: in_set_conv_nth nth_enumerate_eq) (metis add.commute less_diff_conv)

lemma sint_of_small:
  assumes "unat (x :: i64) < 2 ^ 61"
  shows "sint x = uint x \<and> 0 \<le> uint x \<and> uint x < 2 ^ 61"
proof -
  have "uint x < 2 ^ 61" "0 \<le> uint x" using assms by (simp_all only: unat_eq_nat_uint nat_less_iff uint_ge_0) simp
  moreover have "(2 :: int) ^ 61 \<le> 2 ^ 63" "(0 :: int) \<le> 2 ^ 63" by simp_all
  ultimately have "in_i64 (uint x)" unfolding in_i64_def by linarith
  moreover note \<open>uint x < 2 ^ 61\<close> \<open>0 \<le> uint x\<close>
  ultimately show ?thesis using sint_of_int_i64 [of "uint x"] by simp
qed

lemma readdir_entries:
  assumes "file_tree_inv s" and "inodes (fs_inodes s) ino = Some d"
    and "length (case ls_cache s (inode_full_path d) of None \<Rightarrow> [] | Some ns \<Rightarrow> ns) < 2 ^ 61"
  shows "uring_readdir ino offset (reply_directory_new unique ch sz) s =
    bind_outcome (push_entries (directory_entries s ino (inode_full_path d) offset) (ent_list_new sz)) (\<lambda>(acc, l).
      let r = \<lparr>rd_reply = reply_new unique ch, rd_data = l\<rparr> in
      if directory_entries s ino (inode_full_path d) offset \<noteq> [] then finish (reply_directory_ok r) s
      else finish (reply_error ENOENT (rd_reply r)) s)"
proof -
  let ?ns = "case ls_cache s (inode_full_path d) of None \<Rightarrow> [] | Some ns \<Rightarrow> ns"
  let ?es = "drop (unat offset) (enumerate 0 ?ns)"
  have "in_i64 (int i + sint offset + 2)" if "unat offset \<le> i" "i < length ?ns" for i
  proof -
    have u: "unat offset < 2 ^ 61" "i < 2 ^ 61" using that assms(3) by linarith+
    with sint_of_small [OF u(1)] show ?thesis unfolding in_i64_def by auto
  qed
  then have loop: "readdir_loop (fs_inodes s) ino offset ?es (reply, m) =
      bind_outcome (push_entries (listed_entries s (inode_full_path d) offset) (rd_data reply))
        (\<lambda>(acc, l). Ret (reply\<lparr>rd_data := l\<rparr>, m + length ?es))" for reply m
    unfolding listed_entries_def using assms(1,2)
    by (intro readdir_loop_push)
      (auto simp: file_tree_inv_def cache_ok_def dest!: enumerate_drop split: option.splits)
  have "readdir_loop (fs_inodes s) ino offset ?es rn =
      (case ls_cache s (inode_full_path d) of
         Some entries \<Rightarrow> readdir_loop (fs_inodes s) ino offset (drop (unat offset) (enumerate 0 entries)) rn
       | None \<Rightarrow> Ret rn)" for rn
    by (cases rn) (simp split: option.split)
  note loop' = this [symmetric]
  have len: "listed_entries s (inode_full_path d) offset = [] \<longleftrightarrow> \<not> unat offset < length ?ns"
    by (simp add: listed_entries_def not_less)
  show ?thesis
  proof (cases "offset = 0")
    case True
    with loop have "readdir_loop (fs_inodes s) ino 0 (enumerate 0 ?ns) (reply, m) =
        bind_outcome (push_entries (listed_entries s (inode_full_path d) 0) (rd_data reply))
          (\<lambda>(acc, l). Ret (reply\<lparr>rd_data := l\<rparr>, m + length ?ns))" for reply m by simp
    with True show ?thesis
      unfolding uring_readdir_def inode_get_def assms(2) option.case sum.case loop'
      by (simp add: directory_entries_def reply_directory_new_def reply_directory_add_def outcome_simps
          case_prod_unfold Let_def)
  next
    case False
    then show ?thesis
      unfolding uring_readdir_def inode_get_def assms(2) option.case sum.case loop'
      by (simp add: directory_entries_def reply_directory_new_def outcome_simps case_prod_unfold loop len Let_def
          cong: if_cong)
  qed
qed

section \<open>Properties\<close>

text \<open>
  C26. Creating a file succeeds in every reachable state where the parent exists and the name is valid:
  the answer carries a fresh inode number, and from then on looking up the name in the parent finds
  exactly this inode, as do its attributes, while what any other path leads to stays the same.
\<close>

theorem uring_create_lookup:
  assumes "fs_reachable s" and "inodes (fs_inodes s) parent = Some d"
    and "valid_utf8 name" and "47 \<notin> set name"
  shows "\<exists>s' i. uring_handle h (FsCreate parent name mode umask flags) ch s =
      Ret (packets (snd (reply_created (from_millis 1000000) (attr_from_inode i) (inode_ino i) (next_fh s) 0
        (reply_new (in_header_unique h) ch))), s') \<and>
    inode_name i = name \<and> inode_kind i = RegularFile \<and> inodes (fs_inodes s) (inode_ino i) = None \<and>
    (\<forall>h2 ch2. uring_handle h2 (FsLookup parent name) ch2 s' =
      Ret (packets (snd (reply_entry (from_millis 100000) (attr_from_inode i) 0 (reply_new (in_header_unique h2) ch2))), s')) \<and>
    (\<forall>h2 ch2. uring_handle h2 (FsGetattr (inode_ino i)) ch2 s' =
      Ret (packets (snd (reply_attr (from_millis 100000) (attr_from_inode i) (reply_new (in_header_unique h2) ch2))), s')) \<and>
    (\<forall>k e n. inodes (fs_inodes s) k = Some e \<longrightarrow> path_join (inode_full_path e) n \<noteq> path_join (inode_full_path d) name \<longrightarrow>
      inode_lookup (fs_inodes s') k n = inode_lookup (fs_inodes s) k n)"
proof -
  let ?im = "fs_inodes s" and ?p = "path_join (inode_full_path d) name"
  have inv: "inodes_ok ?im" using fs_reachable_inv [OF assms(1)] by (simp add: file_tree_inv_def)
  define i where "i = inode_new (next_ino ?im) parent name ?p RegularFile"
  define im where "im = ?im\<lparr>next_ino := next_ino ?im + 1, inodes := (inodes ?im)(next_ino ?im \<mapsto> i),
      path_index := (path_index ?im)(?p \<mapsto> next_ino ?im)\<rparr>"
  define s' where "s' = s\<lparr>fs_inodes := im,
      ls_cache := cache_append (ls_cache s) (inode_full_path d) name, next_fh := next_fh s + 1\<rparr>"
  have v: "valid_utf8 ?p" using inv assms(2,3) by (auto simp: inodes_ok_def valid_path_join)
  have fresh: "inodes ?im (next_ino ?im) = None"
    using inv unfolding inodes_ok_def by (metis less_irrefl not_Some_eq)
  then have dp: "inodes im parent = Some d" using assms(2) by (auto simp: im_def)
  have "uring_handle h (FsCreate parent name mode umask flags) ch s =
      Ret (packets (snd (reply_created (from_millis 1000000) (attr_from_inode i) (inode_ino i) (next_fh s) 0
        (reply_new (in_header_unique h) ch))), s')"
    using assms(2,3) v
    by (simp add: uring_handle_def uring_create_def inode_get_def into_string_unwrap_def inode_create_def Let_def
        attr_replies_Ret s'_def im_def i_def)
  moreover have "inode_lookup im parent name = Ret (Inr i)"
    using dp v by (simp add: inode_lookup_def into_string_unwrap_def) (simp add: im_def)
  moreover have "inode_get im (inode_ino i) = Inr i" by (simp add: inode_get_def im_def i_def inode_new_def)
  moreover have "inode_lookup im k n = inode_lookup ?im k n"
    if e: "inodes ?im k = Some e" and "path_join (inode_full_path e) n \<noteq> ?p" for k e n
  proof -
    have "k \<noteq> next_ino ?im" using e fresh by auto
    moreover have "path_index ?im q \<noteq> Some (next_ino ?im)" for q
      using inodes_ok_index [OF inv] fresh by fastforce
    ultimately show ?thesis
      using that by (simp add: inode_lookup_def im_def into_string_unwrap_def split: option.split)
  qed
  moreover have "inode_name i = name" "inode_kind i = RegularFile" "inode_ino i = next_ino ?im"
    by (simp_all add: i_def inode_new_def)
  ultimately show ?thesis
    using assms(3) fresh
    by (intro exI [of _ s'] exI [of _ i])
      (simp add: uring_handle_def uring_lookup_def uring_getattr_def attr_replies_Ret s'_def)
qed

definition example_fs :: uring_fs where
  "example_fs = uring_fs_new (inode_manager_new []) cache_new"

lemma example_reachable: "fs_reachable example_fs"
  unfolding example_fs_def by (rule start)

lemma example_fs_root: "inodes (fs_inodes example_fs) 1 = Some (inode_new 1 1 [] [47] Directory)"
  by (simp add: example_fs_def uring_fs_new_def inode_manager_new_def FUSE_ROOT_ID_def)

theorem uring_create_lookup_witness:
  "\<exists>s' i. uring_handle example_header (FsCreate 1 [97] 420 0 0) [] example_fs =
      Ret (packets (snd (reply_created (from_millis 1000000) (attr_from_inode i) (inode_ino i) (next_fh example_fs) 0
        (reply_new 7 []))), s') \<and> inode_name i = [97]"
  using uring_create_lookup [OF example_reachable example_fs_root, of "[97]" example_header 420 0 0 "[]"]
  by (auto simp: valid_utf8_ascii example_header_def)

text \<open>
  A listing shows what was created: in every reachable state, reading a directory at an offset with
  room for its entries gives the kernel the entry for the directory itself, when the offset is zero,
  and the names created in it from the index that equals the offset on, each with its inode number
  and type and an offset that is two more than index and offset together. When there is nothing to
  list, the answer is that the entry does not exist.
\<close>

lemma uring_readdir_lists:
  assumes "fs_reachable s" and "inodes (fs_inodes s) ino = Some d"
    and "es = directory_entries s ino (inode_full_path d) offset"
    and "length (case ls_cache s (inode_full_path d) of None \<Rightarrow> [] | Some ns \<Rightarrow> ns) < 2 ^ 61"
    and "\<And>e. e \<in> set es \<Longrightarrow> length (de_name e) < 2 ^ 32"
    and "(\<Sum>e\<leftarrow>es. (24 + length (de_name e) + 7) div 8 * 8) \<le> sz" and "sz + 16 < 2 ^ 32"
  shows "if es = [] then uring_handle h (FsReaddir ino fh offset sz) ch s =
           Ret (packets (snd (reply_error ENOENT (reply_new (in_header_unique h) ch))), s)
         else \<exists>p. uring_handle h (FsReaddir ino fh offset sz) ch s = Ret (ch @ [p], s) \<and>
           read_entries dirent_layout dirent_namelen (drop 16 (concat p)) = map (\<lambda>e. (dirent_of e, de_name e)) es"
proof -
  let ?u = "in_header_unique h"
  obtain l where l: "push_entries es (ent_list_new sz) = Ret (es, l)" "max_size l = sz" "length (ent_buf l) \<le> sz"
    and r: "read_entries dirent_layout dirent_namelen (ent_buf l) = map (\<lambda>e. (dirent_of e, de_name e)) es"
    using listing_fits [OF assms(5,6)] by blast
  note run = readdir_entries [OF fs_reachable_inv [OF assms(1)] assms(2,4), of offset ?u ch sz]
  show ?thesis
  proof (cases "es = []")
    case True
    then show ?thesis
      using run l by (simp add: assms(3) uring_handle_def error_finish [THEN finish_Ret])
  next
    case False
    obtain p where p: "with_iovec ?u (Data (ent_buf l)) = Ret p"
      using with_iovec_one [of "Data (ent_buf l)" ?u] l(3) assms(7) by auto
    then have "concat p = as_bytes out_header_layout
        \<lparr>out_header_len = of_nat (16 + length (ent_buf l)), out_header_error = 0, out_header_unique = ?u\<rparr> @ ent_buf l"
      using with_iovec_Ret [OF p] by simp
    then have "drop 16 (concat p) = ent_buf l" by (simp add: out_header.length_as_bytes)
    moreover have "uring_handle h (FsReaddir ino fh offset sz) ch s = Ret (ch @ [p], s)"
      using run False l p
      by (simp add: assms(3) uring_handle_def reply_directory_ok_def new_directory_def finish_def send_ll_def
          send_ll_mut_def reply_new_def reply_drop_def)
    ultimately show ?thesis using False r by auto
  qed
qed

end
