(* ===== verification/Inode_Table.thy ===== *)
theory Inode_Table
  imports Prelude
begin

text \<open>
  The table that maps paths to inode numbers and back (\<^verbatim>\<open>src/fuse/src/async_fuse/inode_table.rs\<close>). A path
  is the list of its components, since that is how \<^verbatim>\<open>Path\<close> compares and hashes; the root has none.
  Inode numbers, lookup counts and generations are natural numbers, and an addition that would leave
  64 bits panics, as does an index out of the bounds of the table.
\<close>

type_synonym path = "bytes list"

record inode_table_entry =
  entry_path :: "path option"
  entry_lookups :: nat
  entry_generation :: nat

record inode_table =
  table :: "inode_table_entry list"
  free_list :: "nat list"
  by_path :: "path \<rightharpoonup> nat"

definition inode_table_new :: inode_table where
  "inode_table_new =
     \<lparr>table = [\<lparr>entry_path = Some [], entry_lookups = 0, entry_generation = 0\<rparr>], free_list = [],
      by_path = [[] \<mapsto> 0]\<rparr>"

definition checked_add :: "nat \<Rightarrow> nat \<Rightarrow> nat outcome" where
  "checked_add a b = (if a + b < 2 ^ 64 then Ret (a + b) else Panic ''attempt to add with overflow'')"

text \<open>The entry of an inode number, with its index.\<close>

definition entry_at :: "inode_table \<Rightarrow> nat \<Rightarrow> (nat \<times> inode_table_entry) outcome" where
  "entry_at t inode =
     bind_outcome (usize_sub inode 1) (\<lambda>idx.
       if idx < length (table t) then Ret (idx, table t ! idx) else Panic ''index out of bounds'')"

definition get_inode_entry :: "inode_table \<Rightarrow> (nat \<times> inode_table_entry \<times> inode_table) outcome" where
  "get_inode_entry t =
     (case free_list t of
        idx # rest \<Rightarrow>
          if idx < length (table t) then
            bind_outcome (checked_add (entry_generation (table t ! idx)) 1) (\<lambda>g.
              let e = (table t ! idx)\<lparr>entry_generation := g\<rparr> in
              Ret (idx + 1, e, t\<lparr>table := (table t)[idx := e], free_list := rest\<rparr>))
          else Panic ''index out of bounds''
      | [] \<Rightarrow>
          let e = \<lparr>entry_path = None, entry_lookups = 0, entry_generation = 0\<rparr> in
          Ret (length (table t) + 1, e, t\<lparr>table := table t @ [e]\<rparr>))"

definition table_add :: "path \<Rightarrow> inode_table \<Rightarrow> ((nat \<times> nat) \<times> inode_table) outcome" where
  "table_add p t =
     bind_outcome (get_inode_entry t) (\<lambda>(inode, e, t1).
       let e1 = e\<lparr>entry_path := Some p, entry_lookups := 1\<rparr>;
           t2 = t1\<lparr>table := (table t1)[inode - 1 := e1]\<rparr> in
       case by_path t2 p of
         Some previous \<Rightarrow> Panic ''attempted to insert duplicate path into inode table''
       | None \<Rightarrow> Ret ((inode, entry_generation e), t2\<lparr>by_path := (by_path t2)(p \<mapsto> inode - 1)\<rparr>))"

definition table_add_or_get :: "path \<Rightarrow> inode_table \<Rightarrow> ((nat \<times> nat) \<times> inode_table) outcome" where
  "table_add_or_get p t =
     (case by_path t p of
        None \<Rightarrow>
          bind_outcome (get_inode_entry t) (\<lambda>(inode, e, t1).
            Ret ((inode, entry_generation e),
                 t1\<lparr>table := (table t1)[inode - 1 := e\<lparr>entry_path := Some p\<rparr>],
                    by_path := (by_path t1)(p \<mapsto> inode - 1)\<rparr>))
      | Some idx \<Rightarrow>
          if idx < length (table t) then Ret ((idx + 1, entry_generation (table t ! idx)), t)
          else Panic ''index out of bounds'')"

definition table_get_path :: "nat \<Rightarrow> inode_table \<Rightarrow> path option outcome" where
  "table_get_path inode t = bind_outcome (entry_at t inode) (\<lambda>(idx, e). Ret (entry_path e))"

definition table_get_inode :: "path \<Rightarrow> inode_table \<Rightarrow> nat option" where
  "table_get_inode p t = map_option (\<lambda>idx. idx + 1) (by_path t p)"

definition table_lookup :: "nat \<Rightarrow> inode_table \<Rightarrow> inode_table outcome" where
  "table_lookup inode t =
     (if inode = 1 then Ret t
      else bind_outcome (entry_at t inode) (\<lambda>(idx, e).
        bind_outcome (checked_add (entry_lookups e) 1) (\<lambda>n.
          Ret (t\<lparr>table := (table t)[idx := e\<lparr>entry_lookups := n\<rparr>]\<rparr>))))"

definition table_forget :: "nat \<Rightarrow> nat \<Rightarrow> inode_table \<Rightarrow> (nat \<times> inode_table) outcome" where
  "table_forget inode n t =
     (if inode = 1 then Ret (1, t)
      else bind_outcome (entry_at t inode) (\<lambda>(idx, e).
        if \<not> n \<le> entry_lookups e then Panic ''assertion failed: n <= entry.lookups''
        else
          let lookups = entry_lookups e - n; e1 = e\<lparr>entry_lookups := lookups\<rparr> in
          if lookups = 0 then
            (case entry_path e1 of
               None \<Rightarrow> Panic ''called unwrap on a None value''
             | Some p \<Rightarrow>
                 Ret (lookups,
                      t\<lparr>table := (table t)[idx := e1\<lparr>entry_path := None\<rparr>],
                        by_path := (by_path t)(p := None), free_list := free_list t @ [idx]\<rparr>))
          else Ret (lookups, t\<lparr>table := (table t)[idx := e1]\<rparr>)))"

definition table_rename :: "path \<Rightarrow> path \<Rightarrow> inode_table \<Rightarrow> inode_table outcome" where
  "table_rename oldpath newpath t =
     (case by_path t oldpath of
        None \<Rightarrow> Panic ''called unwrap on a None value''
      | Some idx \<Rightarrow>
          if idx < length (table t) then
            Ret (t\<lparr>table := (table t)[idx := (table t ! idx)\<lparr>entry_path := Some newpath\<rparr>],
                   by_path := ((by_path t)(oldpath := None))(newpath \<mapsto> idx)\<rparr>)
          else Panic ''index out of bounds'')"

definition table_unlink :: "path \<Rightarrow> inode_table \<Rightarrow> inode_table" where
  "table_unlink p t = t\<lparr>by_path := (by_path t)(p := None)\<rparr>"

section \<open>Runs\<close>

datatype table_op =
    TAdd path
  | TAddOrGet path
  | TLookup nat
  | TForget nat nat
  | TRename path path
  | TUnlink path

text \<open>One operation, with the inode number and generation it newly hands out.\<close>

fun table_step :: "table_op \<Rightarrow> inode_table \<Rightarrow> ((nat \<times> nat) list \<times> inode_table) outcome" where
  "table_step (TAdd p) t = bind_outcome (table_add p t) (\<lambda>(r, t1). Ret ([r], t1))"
| "table_step (TAddOrGet p) t =
     bind_outcome (table_add_or_get p t) (\<lambda>(r, t1). Ret (if by_path t p = None then [r] else [], t1))"
| "table_step (TLookup k) t = bind_outcome (table_lookup k t) (\<lambda>t1. Ret ([], t1))"
| "table_step (TForget k n) t = bind_outcome (table_forget k n t) (\<lambda>(m, t1). Ret ([], t1))"
| "table_step (TRename p q) t = bind_outcome (table_rename p q t) (\<lambda>t1. Ret ([], t1))"
| "table_step (TUnlink p) t = Ret ([], table_unlink p t)"

fun table_run :: "table_op list \<Rightarrow> inode_table \<Rightarrow> ((nat \<times> nat) list \<times> inode_table) outcome" where
  "table_run [] t = Ret ([], t)"
| "table_run (x # xs) t =
     bind_outcome (table_step x t) (\<lambda>(l1, t1).
     bind_outcome (table_run xs t1) (\<lambda>(l2, t2). Ret (l1 @ l2, t2)))"

section \<open>The invariant\<close>

definition table_inv :: "inode_table \<Rightarrow> bool" where
  "table_inv t \<longleftrightarrow>
     table t \<noteq> [] \<and> distinct (free_list t) \<and>
     (\<forall>i \<in> set (free_list t). 0 < i \<and> i < length (table t)) \<and>
     (\<forall>i < length (table t). entry_path (table t ! i) = None \<longleftrightarrow> i \<in> set (free_list t)) \<and>
     (\<forall>p i. by_path t p = Some i \<longrightarrow> i < length (table t) \<and> entry_path (table t ! i) = Some p)"

text \<open>
  What was handed out so far: no number beyond the table and no generation beyond the current one of
  its entry.
\<close>

definition handed_out_ok :: "(nat \<times> nat) list \<Rightarrow> inode_table \<Rightarrow> bool" where
  "handed_out_ok l t \<longleftrightarrow>
     distinct l \<and> (\<forall>k g. (k, g) \<in> set l \<longrightarrow>
       1 < k \<and> k \<le> length (table t) \<and> g \<le> entry_generation (table t ! (k - 1)))"

lemma table_inv_new: "table_inv inode_table_new" "handed_out_ok [] inode_table_new"
  by (simp_all add: table_inv_def inode_table_new_def handed_out_ok_def)

lemma table_inv_by_path: "table_inv t \<Longrightarrow> by_path t p = Some i \<Longrightarrow> i < length (table t) \<and> entry_path (table t ! i) = Some p"
  unfolding table_inv_def by blast

lemma table_inv_free:
  "table_inv t \<Longrightarrow> i < length (table t) \<Longrightarrow> entry_path (table t ! i) = None \<longleftrightarrow> i \<in> set (free_list t)"
  unfolding table_inv_def by blast

lemma handed_out_bounds:
  "handed_out_ok l t \<Longrightarrow> (k, g) \<in> set l \<Longrightarrow> 1 < k \<and> k \<le> length (table t) \<and> g \<le> entry_generation (table t ! (k - 1))"
  unfolding handed_out_ok_def by blast

text \<open>A new entry for a path, after one was taken from the free list or appended.\<close>

lemma get_inode_entry_inv:
  assumes "get_inode_entry t = Ret (k, e, t1)" and "table_inv t" and "entry_path e1 = Some p"
  shows "table_inv (t1\<lparr>table := (table t1)[k - 1 := e1], by_path := (by_path t1)(p \<mapsto> k - 1)\<rparr>)"
proof (cases "free_list t")
  case Nil
  with assms show ?thesis
    by (fastforce simp: get_inode_entry_def table_inv_def Let_def nth_append less_Suc_eq split: if_splits)
next
  case (Cons i r)
  then have "i < length (table t)" using assms(2) by (auto simp: table_inv_def)
  moreover from this have "entry_path (table t ! i) = None"
    using table_inv_free [OF assms(2)] Cons by simp
  then have "by_path t q \<noteq> Some i" for q using table_inv_by_path [OF assms(2), of q i] by auto
  ultimately show ?thesis
    using assms Cons
    by (auto simp: get_inode_entry_def table_inv_def Let_def nth_list_update split: if_splits elim!: bind_outcome_RetE)
qed

lemma get_inode_entry_handed_out:
  assumes "get_inode_entry t = Ret (k, e, t1)" and "table_inv t" and "handed_out_ok l t"
    and "entry_generation e1 = entry_generation e"
  shows "handed_out_ok (l @ [(k, entry_generation e)])
    (t1\<lparr>table := (table t1)[k - 1 := e1], by_path := (by_path t1)(p \<mapsto> k - 1)\<rparr>)"
proof (cases "free_list t")
  case Nil
  have "(length (table t) + 1, g) \<notin> set l" for g
    using handed_out_bounds [OF assms(3), of "length (table t) + 1" g] by auto
  moreover have e: "k = length (table t) + 1" "table t1 = table t @ [e]" "entry_generation e = 0" "table t \<noteq> []"
    using Nil assms(1,2) by (auto simp: get_inode_entry_def table_inv_def Let_def)
  moreover have "1 < k' \<and> k' \<le> length (table t) \<and> g \<le> entry_generation ((table t @ [e1]) ! (k' - 1))"
    if "(k', g) \<in> set l" for k' g
    using handed_out_bounds [OF assms(3) that] by (auto simp: nth_append)
  ultimately show ?thesis
    using assms(3,4) by (fastforce simp: handed_out_ok_def)
next
  case (Cons i r)
  then have i: "i < length (table t)" "0 < i" using assms(2) by (auto simp: table_inv_def)
  then have e: "k = i + 1" "entry_generation e = entry_generation (table t ! i) + 1" "table t1 = (table t)[i := e]"
    using assms(1) Cons by (auto simp: get_inode_entry_def checked_add_def Let_def split: if_splits)
  have "1 < k' \<and> k' \<le> length (table t) \<and> g \<le> entry_generation ((table t)[i := e1] ! (k' - 1))"
    if "(k', g) \<in> set l" for k' g
    using handed_out_bounds [OF assms(3) that] e(2) assms(4) by (cases "i = k' - 1") auto
  moreover have "(k, entry_generation e) \<notin> set l"
    using handed_out_bounds [OF assms(3), of k "entry_generation e"] e by auto
  ultimately show ?thesis
    using assms(3,4) i e by (auto simp: handed_out_ok_def)
qed

lemma entry_at_Ret: "entry_at t k = Ret (i, e) \<longleftrightarrow> k = i + 1 \<and> i < length (table t) \<and> e = table t ! i"
  by (auto simp: entry_at_def usize_sub_def)

lemma table_add_ok:
  assumes "table_add p t = Ret (r, t')" and "table_inv t" and "handed_out_ok l t"
  shows "table_inv t' \<and> handed_out_ok (l @ [r]) t'"
proof -
  obtain k e t1 where g: "get_inode_entry t = Ret (k, e, t1)"
    using assms(1) by (auto simp: table_add_def elim!: bind_outcome_RetE)
  with assms(1) have "r = (k, entry_generation e)"
    and "t' = t1\<lparr>table := (table t1)[k - 1 := e\<lparr>entry_path := Some p, entry_lookups := 1\<rparr>],
      by_path := (by_path t1)(p \<mapsto> k - 1)\<rparr>"
    by (auto simp: table_add_def Let_def split: option.splits)
  then show ?thesis
    using get_inode_entry_inv [OF g assms(2)] get_inode_entry_handed_out [OF g assms(2,3)] by simp
qed

lemma table_add_or_get_ok:
  assumes "table_add_or_get p t = Ret (r, t')" and "table_inv t" and "handed_out_ok l t"
  shows "table_inv t' \<and> handed_out_ok (l @ (if by_path t p = None then [r] else [])) t'"
proof (cases "by_path t p")
  case None
  then obtain k e t1 where g: "get_inode_entry t = Ret (k, e, t1)"
    using assms(1) by (auto simp: table_add_or_get_def elim!: bind_outcome_RetE)
  with assms(1) None have "r = (k, entry_generation e)"
    and "t' = t1\<lparr>table := (table t1)[k - 1 := e\<lparr>entry_path := Some p\<rparr>], by_path := (by_path t1)(p \<mapsto> k - 1)\<rparr>"
    by (auto simp: table_add_or_get_def)
  then show ?thesis
    using get_inode_entry_inv [OF g assms(2)] get_inode_entry_handed_out [OF g assms(2,3)] None by simp
qed (use assms in \<open>auto simp: table_add_or_get_def split: if_splits\<close>)

text \<open>Changing an entry but not its generation.\<close>

lemma handed_out_update:
  assumes "handed_out_ok l t" and "entry_generation e = entry_generation (table t ! i)"
    and "table t' = (table t)[i := e]"
  shows "handed_out_ok l t'"
proof -
  have "entry_generation ((table t)[i := e] ! j) = entry_generation (table t ! j)" if "j < length (table t)" for j
    using that assms(2) by (cases "i = j") auto
  with assms show ?thesis unfolding handed_out_ok_def by fastforce
qed

lemma table_lookup_ok:
  assumes "table_lookup k t = Ret t'" and "table_inv t" and "handed_out_ok l t"
  shows "table_inv t' \<and> handed_out_ok l t'"
proof (cases "k = 1")
  case False
  with assms(1) obtain i n where "i < length (table t)"
    and t': "t' = t\<lparr>table := (table t)[i := (table t ! i)\<lparr>entry_lookups := n\<rparr>]\<rparr>"
    by (auto simp: table_lookup_def entry_at_Ret elim!: bind_outcome_RetE)
  then have "table_inv t'" using assms(2) by (auto simp: table_inv_def nth_list_update)
  moreover have "handed_out_ok l t'" by (rule handed_out_update [OF assms(3)]) (simp_all add: t')
  ultimately show ?thesis ..
qed (use assms in \<open>simp add: table_lookup_def\<close>)

lemma table_forget_ok:
  assumes "table_forget k n t = Ret (m, t')" and "table_inv t" and "handed_out_ok l t"
  shows "table_inv t' \<and> handed_out_ok l t'"
proof (cases "k = 1")
  case False
  with assms(1) obtain i where i: "i < length (table t)" "i + 1 = k" "entry_at t k = Ret (i, table t ! i)"
    by (auto simp: table_forget_def entry_at_Ret elim!: bind_outcome_RetE)
  let ?e = "(table t ! i)\<lparr>entry_lookups := entry_lookups (table t ! i) - n\<rparr>"
  consider (keep) "t' = t\<lparr>table := (table t)[i := ?e]\<rparr>"
    | (del) p where "entry_path (table t ! i) = Some p" "t' = t\<lparr>table := (table t)[i := ?e\<lparr>entry_path := None\<rparr>],
        by_path := (by_path t)(p := None), free_list := free_list t @ [i]\<rparr>"
    using assms(1) False i by (auto simp: table_forget_def Let_def split: if_splits option.splits)
  then show ?thesis
  proof cases
    case keep
    then have "table_inv t'" using assms(2) i by (auto simp: table_inv_def nth_list_update)
    moreover have "handed_out_ok l t'" by (rule handed_out_update [OF assms(3)]) (simp_all add: keep)
    ultimately show ?thesis ..
  next
    case del
    then have "i \<notin> set (free_list t)" using assms(2) i by (auto simp: table_inv_def)
    then have "table_inv t'" using assms(2) i False del by (auto simp: table_inv_def nth_list_update)
    moreover have "handed_out_ok l t'" by (rule handed_out_update [OF assms(3)]) (simp_all add: del)
    ultimately show ?thesis ..
  qed
qed (use assms in \<open>simp add: table_forget_def\<close>)

lemma table_rename_ok:
  assumes "table_rename p q t = Ret t'" and "table_inv t" and "handed_out_ok l t"
  shows "table_inv t' \<and> handed_out_ok l t'"
proof -
  obtain i where i: "by_path t p = Some i" "i < length (table t)"
    and t': "t' = t\<lparr>table := (table t)[i := (table t ! i)\<lparr>entry_path := Some q\<rparr>],
      by_path := ((by_path t)(p := None))(q \<mapsto> i)\<rparr>"
    using assms(1) by (auto simp: table_rename_def split: option.splits if_splits)
  have "entry_path (table t ! i) = Some p" using table_inv_by_path [OF assms(2) i(1)] by simp
  then have "by_path t r = Some i \<longleftrightarrow> r = p" for r using table_inv_by_path [OF assms(2), of r i] i(1) by auto
  then have "table_inv t'" using assms(2) i t' by (auto simp: table_inv_def nth_list_update)
  moreover have "handed_out_ok l t'" by (rule handed_out_update [OF assms(3)]) (simp_all add: t')
  ultimately show ?thesis ..
qed

lemma table_unlink_ok: "table_inv t \<Longrightarrow> handed_out_ok l t \<Longrightarrow> table_inv (table_unlink p t) \<and> handed_out_ok l (table_unlink p t)"
  by (auto simp: table_unlink_def table_inv_def handed_out_ok_def)

lemma table_step_ok:
  assumes "table_step x t = Ret (l1, t')" and "table_inv t" and "handed_out_ok l t"
  shows "table_inv t' \<and> handed_out_ok (l @ l1) t'"
  using assms
  by (cases x) (auto dest: table_add_ok table_add_or_get_ok table_lookup_ok table_forget_ok table_rename_ok table_unlink_ok
      elim!: bind_outcome_RetE)

lemma table_run_ok:
  "table_run xs t = Ret (l1, t') \<Longrightarrow> table_inv t \<Longrightarrow> handed_out_ok l t \<Longrightarrow> table_inv t' \<and> handed_out_ok (l @ l1) t'"
proof (induction xs arbitrary: t l l1)
  case (Cons x xs)
  then obtain l2 t2 l3 where "table_step x t = Ret (l2, t2)" "table_run xs t2 = Ret (l3, t')" "l1 = l2 @ l3"
    by (auto elim!: bind_outcome_RetE)
  with Cons.IH [of t2 l3 "l @ l2"] Cons.prems(2,3) table_step_ok [of x t l2 t2 l] show ?case by simp
qed simp

lemma table_add_total:
  assumes "table_inv t" and "by_path t p = None" and "\<And>e. e \<in> set (table t) \<Longrightarrow> entry_generation e + 1 < 2 ^ 64"
  obtains r t' where "table_add p t = Ret (r, t')" "table_get_inode p t' = Some (fst r)"
proof (cases "free_list t")
  case Nil
  with assms(2) that show ?thesis
    by (auto simp: table_add_def get_inode_entry_def table_get_inode_def Let_def)
next
  case (Cons i fl)
  then have "i < length (table t)" using assms(1) by (auto simp: table_inv_def)
  with Cons assms(2) assms(3) [OF nth_mem] that show ?thesis
    by (auto simp: table_add_def get_inode_entry_def table_get_inode_def checked_add_def Let_def)
qed

section \<open>Properties\<close>

text \<open>
  C27. However the table is used, the inode number and generation it hands out for a new entry were never
  handed out before and are not the root's; a path leads to an inode number only if that number leads
  back to the path; and a path that is not in the table can be added, which gives it a number and
  generation that are new again.
\<close>

theorem inode_table_consistent:
  assumes "table_run xs inode_table_new = Ret (l, t)"
  shows "distinct l \<and> (\<forall>k g. (k, g) \<in> set l \<longrightarrow> 1 < k) \<and>
    (\<forall>p k. table_get_inode p t = Some k \<longrightarrow> table_get_path k t = Ret (Some p)) \<and>
    (\<forall>p. table_get_inode p t = None \<longrightarrow> (\<forall>e \<in> set (table t). entry_generation e + 1 < 2 ^ 64) \<longrightarrow>
      (\<exists>k g t'. table_add p t = Ret ((k, g), t') \<and> (k, g) \<notin> set l \<and>
        table_get_inode p t' = Some k \<and> table_get_path k t' = Ret (Some p)))"
proof -
  have inv: "table_inv t" "handed_out_ok l t"
    using table_run_ok [OF assms table_inv_new] by simp_all
  have returns: "table_get_path k t1 = Ret (Some p)" if "table_inv t1" "table_get_inode p t1 = Some k" for t1 p k
    using that table_inv_by_path [of t1 p] by (auto simp: table_get_inode_def table_get_path_def entry_at_def)
  have "\<exists>k g t'. table_add p t = Ret ((k, g), t') \<and> (k, g) \<notin> set l \<and>
      table_get_inode p t' = Some k \<and> table_get_path k t' = Ret (Some p)"
    if p: "table_get_inode p t = None" "\<forall>e \<in> set (table t). entry_generation e + 1 < 2 ^ 64" for p
  proof -
    have "by_path t p = None" using p(1) by (simp add: table_get_inode_def)
    then obtain r t' where a: "table_add p t = Ret (r, t')" "table_get_inode p t' = Some (fst r)"
      using table_add_total [OF inv(1)] p(2) by blast
    with table_add_ok [OF a(1) inv] returns show ?thesis
      by (cases r) (auto simp: handed_out_ok_def)
  qed
  with inv returns show ?thesis by (auto simp: handed_out_ok_def)
qed

theorem inode_table_consistent_witness:
  "\<exists>l t. table_run [TAdd [[97]], TForget 2 1, TAdd [[98]]] inode_table_new = Ret (l, t) \<and>
     l = [(2, 0), (2, 1)] \<and> distinct l \<and>
     (\<forall>p k. table_get_inode p t = Some k \<longrightarrow> table_get_path k t = Ret (Some p))"
proof -
  obtain l t where r: "table_run [TAdd [[97]], TForget 2 1, TAdd [[98]]] inode_table_new = Ret (l, t)"
    and l: "l = [(2, 0), (2, 1)]"
    by (simp add: inode_table_new_def table_add_def get_inode_entry_def table_forget_def entry_at_def checked_add_def
        Let_def)
  with inode_table_consistent [OF r] show ?thesis by blast
qed

end
