(* ===== verification/Fuse_Mt.thy ===== *)
theory Fuse_Mt
  imports Fuse_Reply Inode_Table
begin

text \<open>
  The adapter from inodes to paths (\<^verbatim>\<open>src/fuse/src/async_fuse/\<close>): the interface of a file system over
  paths with its default methods (\<^verbatim>\<open>types.rs\<close>), the cache of open directories (\<^verbatim>\<open>directory_cache.rs\<close>) and
  one definition per method of the adapter (\<^verbatim>\<open>fusemt.rs\<close>), composed in \<open>mt_handle\<close>. The file system is an
  argument, a record of its methods over its own state; a method is one atomic step. What the reply objects
  send is recorded in order, with the identifier of the request. Reads, writes, flushes and syncs are jobs
  of a pool whose workers take any of them at any time (\<open>pool_run\<close>), or run at once when there are no
  threads. Attributes, times and listings are those of \<open>Fuse_Reply\<close>, whose code is the same in the fuser
  crate the adapter is written over.
\<close>

section \<open>Types\<close>

abbreviation (input) mt_EINVAL :: i32 where "mt_EINVAL \<equiv> 22"
abbreviation (input) mt_EIO :: i32 where "mt_EIO \<equiv> 5"
abbreviation (input) mt_ENOSYS :: i32 where "mt_ENOSYS \<equiv> 38"

record request_info =
  ri_unique :: u64
  ri_uid :: u32
  ri_gid :: u32
  ri_pid :: u32

record directory_entry =
  den_name :: bytes
  den_kind :: file_type

record statfs_mt =
  st_blocks :: u64
  st_bfree :: u64
  st_bavail :: u64
  st_files :: u64
  st_ffree :: u64
  st_bsize :: u32
  st_namelen :: u32
  st_frsize :: u32

record file_attr_mt =
  ma_size :: u64
  ma_blocks :: u64
  ma_atime :: system_time
  ma_mtime :: system_time
  ma_ctime :: system_time
  ma_crtime :: system_time
  ma_kind :: file_type
  ma_perm :: u16
  ma_nlink :: u32
  ma_uid :: u32
  ma_gid :: u32
  ma_rdev :: u32
  ma_flags :: u32

record created_entry =
  ce_ttl :: duration
  ce_attr :: file_attr_mt
  ce_fh :: u64
  ce_flags :: u32

datatype xattr = Xattr_Size u32 | Xattr_Data bytes

datatype time_or_now = SpecificTime system_time | Now

type_synonym ('s, 'a) meth = "'s \<Rightarrow> (i32 + 'a) \<times> 's"
type_synonym result_entry = "duration \<times> file_attr_mt"

record 's filesystem_mt =
  t_init :: "request_info \<Rightarrow> ('s, unit) meth"
  t_destroy :: "'s \<Rightarrow> 's"
  t_getattr :: "request_info \<Rightarrow> path \<Rightarrow> u64 option \<Rightarrow> ('s, result_entry) meth"
  t_chmod :: "request_info \<Rightarrow> path \<Rightarrow> u64 option \<Rightarrow> u32 \<Rightarrow> ('s, unit) meth"
  t_chown :: "request_info \<Rightarrow> path \<Rightarrow> u64 option \<Rightarrow> u32 option \<Rightarrow> u32 option \<Rightarrow> ('s, unit) meth"
  t_truncate :: "request_info \<Rightarrow> path \<Rightarrow> u64 option \<Rightarrow> u64 \<Rightarrow> ('s, unit) meth"
  t_utimens :: "request_info \<Rightarrow> path \<Rightarrow> u64 option \<Rightarrow> system_time option \<Rightarrow> system_time option \<Rightarrow> ('s, unit) meth"
  t_utimens_macos :: "request_info \<Rightarrow> path \<Rightarrow> u64 option \<Rightarrow> system_time option \<Rightarrow> system_time option \<Rightarrow> system_time option \<Rightarrow> u32 option \<Rightarrow> ('s, unit) meth"
  t_readlink :: "request_info \<Rightarrow> path \<Rightarrow> ('s, bytes) meth"
  t_mknod :: "request_info \<Rightarrow> path \<Rightarrow> bytes \<Rightarrow> u32 \<Rightarrow> u32 \<Rightarrow> ('s, result_entry) meth"
  t_mkdir :: "request_info \<Rightarrow> path \<Rightarrow> bytes \<Rightarrow> u32 \<Rightarrow> ('s, result_entry) meth"
  t_unlink :: "request_info \<Rightarrow> path \<Rightarrow> bytes \<Rightarrow> ('s, unit) meth"
  t_rmdir :: "request_info \<Rightarrow> path \<Rightarrow> bytes \<Rightarrow> ('s, unit) meth"
  t_symlink :: "request_info \<Rightarrow> path \<Rightarrow> bytes \<Rightarrow> bytes \<Rightarrow> ('s, result_entry) meth"
  t_rename :: "request_info \<Rightarrow> path \<Rightarrow> bytes \<Rightarrow> path \<Rightarrow> bytes \<Rightarrow> ('s, unit) meth"
  t_link :: "request_info \<Rightarrow> path \<Rightarrow> path \<Rightarrow> bytes \<Rightarrow> ('s, result_entry) meth"
  t_open :: "request_info \<Rightarrow> path \<Rightarrow> u32 \<Rightarrow> ('s, u64 \<times> u32) meth"
  t_read :: "request_info \<Rightarrow> path \<Rightarrow> u64 \<Rightarrow> u64 \<Rightarrow> u32 \<Rightarrow> ('s, bytes) meth"
  t_write :: "request_info \<Rightarrow> path \<Rightarrow> u64 \<Rightarrow> u64 \<Rightarrow> bytes \<Rightarrow> u32 \<Rightarrow> ('s, u32) meth"
  t_flush :: "request_info \<Rightarrow> path \<Rightarrow> u64 \<Rightarrow> u64 \<Rightarrow> ('s, unit) meth"
  t_release :: "request_info \<Rightarrow> path \<Rightarrow> u64 \<Rightarrow> u32 \<Rightarrow> u64 \<Rightarrow> bool \<Rightarrow> ('s, unit) meth"
  t_fsync :: "request_info \<Rightarrow> path \<Rightarrow> u64 \<Rightarrow> bool \<Rightarrow> ('s, unit) meth"
  t_opendir :: "request_info \<Rightarrow> path \<Rightarrow> u32 \<Rightarrow> ('s, u64 \<times> u32) meth"
  t_readdir :: "request_info \<Rightarrow> path \<Rightarrow> u64 \<Rightarrow> ('s, directory_entry list) meth"
  t_releasedir :: "request_info \<Rightarrow> path \<Rightarrow> u64 \<Rightarrow> u32 \<Rightarrow> ('s, unit) meth"
  t_fsyncdir :: "request_info \<Rightarrow> path \<Rightarrow> u64 \<Rightarrow> bool \<Rightarrow> ('s, unit) meth"
  t_statfs :: "request_info \<Rightarrow> path \<Rightarrow> ('s, statfs_mt) meth"
  t_setxattr :: "request_info \<Rightarrow> path \<Rightarrow> bytes \<Rightarrow> bytes \<Rightarrow> u32 \<Rightarrow> u32 \<Rightarrow> ('s, unit) meth"
  t_getxattr :: "request_info \<Rightarrow> path \<Rightarrow> bytes \<Rightarrow> u32 \<Rightarrow> ('s, xattr) meth"
  t_listxattr :: "request_info \<Rightarrow> path \<Rightarrow> u32 \<Rightarrow> ('s, xattr) meth"
  t_removexattr :: "request_info \<Rightarrow> path \<Rightarrow> bytes \<Rightarrow> ('s, unit) meth"
  t_access :: "request_info \<Rightarrow> path \<Rightarrow> u32 \<Rightarrow> ('s, unit) meth"
  t_create :: "request_info \<Rightarrow> path \<Rightarrow> bytes \<Rightarrow> u32 \<Rightarrow> u32 \<Rightarrow> ('s, created_entry) meth"

text \<open>The default methods of the trait.\<close>

definition not_implemented :: "('s, 'a) meth" where
  "not_implemented s = (Inl mt_ENOSYS, s)"

definition default_mt :: "'s filesystem_mt" where
  "default_mt =
     \<lparr>t_init = (\<lambda>req s. (Inr (), s)), t_destroy = (\<lambda>s. s),
      t_getattr = (\<lambda>_ _ _. not_implemented), t_chmod = (\<lambda>_ _ _ _. not_implemented),
      t_chown = (\<lambda>_ _ _ _ _. not_implemented), t_truncate = (\<lambda>_ _ _ _. not_implemented),
      t_utimens = (\<lambda>_ _ _ _ _. not_implemented),
      t_utimens_macos = (\<lambda>_ _ _ _ _ _ _. not_implemented),
      t_readlink = (\<lambda>_ _. not_implemented), t_mknod = (\<lambda>_ _ _ _ _. not_implemented),
      t_mkdir = (\<lambda>_ _ _ _. not_implemented), t_unlink = (\<lambda>_ _ _. not_implemented),
      t_rmdir = (\<lambda>_ _ _. not_implemented), t_symlink = (\<lambda>_ _ _ _. not_implemented),
      t_rename = (\<lambda>_ _ _ _ _. not_implemented), t_link = (\<lambda>_ _ _ _. not_implemented),
      t_open = (\<lambda>_ _ _. not_implemented), t_read = (\<lambda>_ _ _ _ _. not_implemented),
      t_write = (\<lambda>_ _ _ _ _ _. not_implemented), t_flush = (\<lambda>_ _ _ _. not_implemented),
      t_release = (\<lambda>_ _ _ _ _ _. not_implemented), t_fsync = (\<lambda>_ _ _ _. not_implemented),
      t_opendir = (\<lambda>_ _ _. not_implemented), t_readdir = (\<lambda>_ _ _. not_implemented),
      t_releasedir = (\<lambda>_ _ _ _. not_implemented), t_fsyncdir = (\<lambda>_ _ _ _. not_implemented),
      t_statfs = (\<lambda>_ _. not_implemented), t_setxattr = (\<lambda>_ _ _ _ _ _. not_implemented),
      t_getxattr = (\<lambda>_ _ _ _. not_implemented), t_listxattr = (\<lambda>_ _ _. not_implemented),
      t_removexattr = (\<lambda>_ _ _. not_implemented), t_access = (\<lambda>_ _ _. not_implemented),
      t_create = (\<lambda>_ _ _ _ _. not_implemented)\<rparr>"

section \<open>Paths\<close>

text \<open>
  The components of a path that is built from components: separators and components \<^verbatim>\<open>.\<close> do not count, and
  joining an absolute path replaces the first one.
\<close>

fun split_slash :: "bytes \<Rightarrow> bytes list" where
  "split_slash [] = [[]]"
| "split_slash (b # bs) =
     (if b = 47 then [] # split_slash bs
      else (case split_slash bs of [] \<Rightarrow> [[b]] | c # cs \<Rightarrow> (b # c) # cs))"

definition proper_component :: "bytes \<Rightarrow> bool" where
  "proper_component c \<longleftrightarrow> c \<noteq> [] \<and> c \<noteq> [46]"

definition path_join :: "path \<Rightarrow> bytes \<Rightarrow> path" where
  "path_join p name = (if take 1 name = [47] then [] else p) @ filter proper_component (split_slash name)"

fun path_parent :: "path \<Rightarrow> path option" where
  "path_parent [] = None"
| "path_parent (c # cs) = Some (butlast (c # cs))"

text \<open>Comparing a relative path with a single component.\<close>

definition path_is :: "bytes \<Rightarrow> bytes \<Rightarrow> bool" where
  "path_is name c = (case split_slash name of [] \<Rightarrow> False | d # ds \<Rightarrow> d = c \<and> filter proper_component ds = [])"

section \<open>The cache of open directories\<close>

record dcache_entry =
  dce_fh :: u64
  dce_entries :: "directory_entry list option"

record dcache =
  next_key :: u64
  dc_entries :: "u64 \<rightharpoonup> dcache_entry"

definition dcache_new :: dcache where
  "dcache_new = \<lparr>next_key = 1, dc_entries = Map.empty\<rparr>"

definition dcache_entry_new :: "u64 \<Rightarrow> dcache_entry" where
  "dcache_entry_new fh = \<lparr>dce_fh = fh, dce_entries = None\<rparr>"

definition dcache_new_entry :: "u64 \<Rightarrow> dcache \<Rightarrow> u64 \<times> dcache" where
  "dcache_new_entry fh d =
     (next_key d,
      d\<lparr>next_key := next_key d + 1, dc_entries := (dc_entries d)(next_key d \<mapsto> dcache_entry_new fh)\<rparr>)"

definition dcache_get_mut :: "u64 \<Rightarrow> dcache \<Rightarrow> dcache_entry outcome" where
  "dcache_get_mut key d =
     (case dc_entries d key of
        None \<Rightarrow> Panic ''no such directory cache key''
      | Some e \<Rightarrow> Ret e)"

definition dcache_real_fh :: "u64 \<Rightarrow> dcache \<Rightarrow> u64 outcome" where
  "dcache_real_fh key d =
     (case dc_entries d key of
        None \<Rightarrow> Panic ''no such directory cache key''
      | Some e \<Rightarrow> Ret (dce_fh e))"

definition dcache_delete :: "u64 \<Rightarrow> dcache \<Rightarrow> dcache" where
  "dcache_delete key d = d\<lparr>dc_entries := (dc_entries d)(key := None)\<rparr>"

section \<open>The adapter\<close>

datatype (plugins only: code) mt_reply =
    MtError i32
  | MtEntry duration FileAttr u64
  | MtAttr duration FileAttr
  | MtData bytes
  | MtOk
  | MtOpened u64 u32
  | MtWritten u32
  | MtDirectory ent_list_buf
  | MtStatfs u64 u64 u64 u64 u64 u32 u32 u32
  | MtXattrSize u32
  | MtXattrData bytes
  | MtCreated duration FileAttr u64 u64 u32

text \<open>The closures given to the pool, with what they capture.\<close>

datatype (plugins only: code) mt_job =
    JRead (job_info: request_info) path u64 u64 u32
  | JWrite (job_info: request_info) path u64 u64 bytes u32
  | JFlush (job_info: request_info) path u64 u64
  | JFsync (job_info: request_info) path u64 bool

record 's fuse_mt =
  target :: 's
  inodes :: inode_table
  threads :: "mt_job list option"
  num_threads :: nat
  directory_cache :: dcache
  sent :: "(u64 \<times> mt_reply) list"

definition fuse_mt_new :: "'s \<Rightarrow> nat \<Rightarrow> 's fuse_mt" where
  "fuse_mt_new target_fs n =
     \<lparr>target = target_fs, inodes = inode_table_new, threads = None, num_threads = n,
      directory_cache = dcache_new, sent = []\<rparr>"

definition fuse_fileattr :: "file_attr_mt \<Rightarrow> u64 \<Rightarrow> FileAttr" where
  "fuse_fileattr attr ino =
     \<lparr>fa_ino = ino, fa_size = ma_size attr, fa_blocks = ma_blocks attr, fa_atime = ma_atime attr,
      fa_mtime = ma_mtime attr, fa_ctime = ma_ctime attr, fa_crtime = ma_crtime attr, fa_kind = ma_kind attr,
      fa_perm = ma_perm attr, fa_nlink = ma_nlink attr, fa_uid = ma_uid attr, fa_gid = ma_gid attr,
      fa_rdev = ma_rdev attr, fa_blksize = 4096, fa_flags = ma_flags attr\<rparr>"

fun time_of :: "system_time \<Rightarrow> time_or_now \<Rightarrow> system_time" where
  "time_of now (SpecificTime t) = t"
| "time_of now Now = now"

definition send :: "request_info \<Rightarrow> mt_reply \<Rightarrow> 's fuse_mt \<Rightarrow> 's fuse_mt" where
  "send info r s = s\<lparr>sent := sent s @ [(ri_unique info, r)]\<rparr>"

text \<open>\<open>match self.target.m(..) { Ok(x) => k(x), Err(e) => reply.error(e) }\<close>\<close>

definition respond ::
    "request_info \<Rightarrow> ('s, 'a) meth \<Rightarrow> ('a \<Rightarrow> 's fuse_mt \<Rightarrow> 's fuse_mt outcome) \<Rightarrow> 's fuse_mt \<Rightarrow> 's fuse_mt outcome" where
  "respond info m k s =
     (case m (target s) of
        (Inl e, t) \<Rightarrow> Ret (send info (MtError e) (s\<lparr>target := t\<rparr>))
      | (Inr x, t) \<Rightarrow> k x (s\<lparr>target := t\<rparr>))"

definition finish :: "request_info \<Rightarrow> ('a \<Rightarrow> mt_reply) \<Rightarrow> 'a \<Rightarrow> 's fuse_mt \<Rightarrow> 's fuse_mt outcome" where
  "finish info f x s = Ret (send info (f x) s)"

text \<open>The macro \<open>get_path!\<close>.\<close>

definition with_path ::
    "request_info \<Rightarrow> u64 \<Rightarrow> (path \<Rightarrow> 's fuse_mt \<Rightarrow> 's fuse_mt outcome) \<Rightarrow> 's fuse_mt \<Rightarrow> 's fuse_mt outcome" where
  "with_path info ino f s =
     bind_outcome (table_get_path (unat ino) (inodes s)) (\<lambda>p.
       case p of Some path \<Rightarrow> f path s | None \<Rightarrow> Ret (send info (MtError mt_EINVAL) s))"

fun run_job :: "'s filesystem_mt \<Rightarrow> mt_job \<Rightarrow> 's fuse_mt \<Rightarrow> 's fuse_mt outcome" where
  "run_job fs (JRead info p fh offset sz) s = respond info (t_read fs info p fh offset sz) (finish info MtData) s"
| "run_job fs (JWrite info p fh offset buf flags) s =
     respond info (t_write fs info p fh offset buf flags) (finish info MtWritten) s"
| "run_job fs (JFlush info p fh lock_owner) s =
     respond info (t_flush fs info p fh lock_owner) (finish info (\<lambda>_. MtOk)) s"
| "run_job fs (JFsync info p fh datasync) s =
     respond info (t_fsync fs info p fh datasync) (finish info (\<lambda>_. MtOk)) s"

definition pool_jobs :: "'s fuse_mt \<Rightarrow> mt_job list" where
  "pool_jobs s = (case threads s of None \<Rightarrow> [] | Some jobs \<Rightarrow> jobs)"

definition threadpool_run :: "'s filesystem_mt \<Rightarrow> mt_job \<Rightarrow> 's fuse_mt \<Rightarrow> 's fuse_mt outcome" where
  "threadpool_run fs job s =
     (if num_threads s = 0 then run_job fs job s
      else Ret (s\<lparr>threads := Some (pool_jobs s @ [job])\<rparr>))"

text \<open>A worker of the pool takes a job.\<close>

definition pool_run :: "'s filesystem_mt \<Rightarrow> nat \<Rightarrow> 's fuse_mt \<Rightarrow> 's fuse_mt outcome" where
  "pool_run fs i s =
     (if i < length (pool_jobs s) then
        run_job fs (pool_jobs s ! i) (s\<lparr>threads := Some (take i (pool_jobs s) @ drop (Suc i) (pool_jobs s))\<rparr>)
      else Ret s)"

definition mt_init :: "'s filesystem_mt \<Rightarrow> request_info \<Rightarrow> 's fuse_mt \<Rightarrow> (i32 + unit) \<times> 's fuse_mt" where
  "mt_init fs info s = (case t_init fs info (target s) of (r, t) \<Rightarrow> (r, s\<lparr>target := t\<rparr>))"

definition mt_destroy :: "'s filesystem_mt \<Rightarrow> 's fuse_mt \<Rightarrow> 's fuse_mt" where
  "mt_destroy fs s = s\<lparr>target := t_destroy fs (target s)\<rparr>"

definition mt_lookup :: "'s filesystem_mt \<Rightarrow> request_info \<Rightarrow> u64 \<Rightarrow> bytes \<Rightarrow> 's fuse_mt \<Rightarrow> 's fuse_mt outcome" where
  "mt_lookup fs info parent name =
     with_path info parent (\<lambda>parent_path.
       let path = path_join parent_path name in
       respond info (t_getattr fs info path None) (\<lambda>(ttl, attr) s.
         bind_outcome (table_add_or_get path (inodes s)) (\<lambda>((ino, generation), t1).
         bind_outcome (table_lookup ino t1) (\<lambda>t2.
           Ret (send info (MtEntry ttl (fuse_fileattr attr (of_nat ino)) (of_nat generation)) (s\<lparr>inodes := t2\<rparr>))))))"

definition mt_forget :: "u64 \<Rightarrow> u64 \<Rightarrow> 's fuse_mt \<Rightarrow> 's fuse_mt outcome" where
  "mt_forget ino nlookup s =
     bind_outcome (table_get_path (unat ino) (inodes s)) (\<lambda>path.
     bind_outcome (table_forget (unat ino) (unat nlookup) (inodes s)) (\<lambda>(lookups, t1).
       Ret (s\<lparr>inodes := t1\<rparr>)))"

fun mt_batch_forget :: "(u64 \<times> u64) list \<Rightarrow> 's fuse_mt \<Rightarrow> 's fuse_mt outcome" where
  "mt_batch_forget [] s = Ret s"
| "mt_batch_forget ((ino, nlookup) # nodes) s = bind_outcome (mt_forget ino nlookup s) (mt_batch_forget nodes)"

definition mt_getattr :: "'s filesystem_mt \<Rightarrow> request_info \<Rightarrow> u64 \<Rightarrow> 's fuse_mt \<Rightarrow> 's fuse_mt outcome" where
  "mt_getattr fs info ino =
     with_path info ino (\<lambda>path.
       respond info (t_getattr fs info path None) (finish info (\<lambda>(ttl, attr). MtAttr ttl (fuse_fileattr attr ino))))"

text \<open>One of the steps of \<open>setattr\<close>: if it is asked for, and failing, it is the last one.\<close>

definition setattr_step ::
    "request_info \<Rightarrow> bool \<Rightarrow> ('s, unit) meth \<Rightarrow> ('s fuse_mt \<Rightarrow> 's fuse_mt outcome) \<Rightarrow> 's fuse_mt \<Rightarrow> 's fuse_mt outcome" where
  "setattr_step info asked m k s = (if asked then respond info m (\<lambda>_. k) s else k s)"

record setattr_args =
  sa_mode :: "u32 option"
  sa_uid :: "u32 option"
  sa_gid :: "u32 option"
  sa_size :: "u64 option"
  sa_atime :: "time_or_now option"
  sa_mtime :: "time_or_now option"
  sa_fh :: "u64 option"
  sa_crtime :: "system_time option"
  sa_chgtime :: "system_time option"
  sa_bkuptime :: "system_time option"
  sa_flags :: "u32 option"

text \<open>The clock is read for the access time first.\<close>

definition mt_setattr ::
    "'s filesystem_mt \<Rightarrow> request_info \<Rightarrow> system_time \<times> system_time \<Rightarrow> u64 \<Rightarrow> setattr_args \<Rightarrow> 's fuse_mt \<Rightarrow> 's fuse_mt outcome" where
  "mt_setattr fs info now ino a =
     with_path info ino (\<lambda>path.
       setattr_step info (sa_mode a \<noteq> None) (t_chmod fs info path (sa_fh a) (the (sa_mode a))) (
       setattr_step info (sa_uid a \<noteq> None \<or> sa_gid a \<noteq> None) (t_chown fs info path (sa_fh a) (sa_uid a) (sa_gid a)) (
       setattr_step info (sa_size a \<noteq> None) (t_truncate fs info path (sa_fh a) (the (sa_size a))) (
       setattr_step info (sa_atime a \<noteq> None \<or> sa_mtime a \<noteq> None)
         (t_utimens fs info path (sa_fh a) (map_option (time_of (fst now)) (sa_atime a))
           (map_option (time_of (snd now)) (sa_mtime a))) (
       setattr_step info (sa_crtime a \<noteq> None \<or> sa_chgtime a \<noteq> None \<or> sa_bkuptime a \<noteq> None \<or> sa_flags a \<noteq> None)
         (t_utimens_macos fs info path (sa_fh a) (sa_crtime a) (sa_chgtime a) (sa_bkuptime a) (sa_flags a)) (
       respond info (t_getattr fs info path (sa_fh a))
         (finish info (\<lambda>(ttl, attr). MtAttr ttl (fuse_fileattr attr ino)))))))))"

definition mt_readlink :: "'s filesystem_mt \<Rightarrow> request_info \<Rightarrow> u64 \<Rightarrow> 's fuse_mt \<Rightarrow> 's fuse_mt outcome" where
  "mt_readlink fs info ino =
     with_path info ino (\<lambda>path. respond info (t_readlink fs info path) (finish info MtData))"

text \<open>\<open>let (ino, generation) = self.inodes.add(path); reply.entry(..)\<close>\<close>

definition add_entry :: "request_info \<Rightarrow> path \<Rightarrow> result_entry \<Rightarrow> 's fuse_mt \<Rightarrow> 's fuse_mt outcome" where
  "add_entry info path = (\<lambda>(ttl, attr) s.
     bind_outcome (table_add path (inodes s)) (\<lambda>((ino, generation), t1).
       Ret (send info (MtEntry ttl (fuse_fileattr attr (of_nat ino)) (of_nat generation)) (s\<lparr>inodes := t1\<rparr>))))"

definition mt_mknod ::
    "'s filesystem_mt \<Rightarrow> request_info \<Rightarrow> u64 \<Rightarrow> bytes \<Rightarrow> u32 \<Rightarrow> u32 \<Rightarrow> 's fuse_mt \<Rightarrow> 's fuse_mt outcome" where
  "mt_mknod fs info parent name mode rdev =
     with_path info parent (\<lambda>parent_path.
       respond info (t_mknod fs info parent_path name mode rdev) (add_entry info (path_join parent_path name)))"

definition mt_mkdir ::
    "'s filesystem_mt \<Rightarrow> request_info \<Rightarrow> u64 \<Rightarrow> bytes \<Rightarrow> u32 \<Rightarrow> 's fuse_mt \<Rightarrow> 's fuse_mt outcome" where
  "mt_mkdir fs info parent name mode =
     with_path info parent (\<lambda>parent_path.
       respond info (t_mkdir fs info parent_path name mode) (add_entry info (path_join parent_path name)))"

definition mt_unlink :: "'s filesystem_mt \<Rightarrow> request_info \<Rightarrow> u64 \<Rightarrow> bytes \<Rightarrow> 's fuse_mt \<Rightarrow> 's fuse_mt outcome" where
  "mt_unlink fs info parent name =
     with_path info parent (\<lambda>parent_path.
       respond info (t_unlink fs info parent_path name) (\<lambda>_ s.
         finish info (\<lambda>_. MtOk) () (s\<lparr>inodes := table_unlink (path_join parent_path name) (inodes s)\<rparr>)))"

definition mt_rmdir :: "'s filesystem_mt \<Rightarrow> request_info \<Rightarrow> u64 \<Rightarrow> bytes \<Rightarrow> 's fuse_mt \<Rightarrow> 's fuse_mt outcome" where
  "mt_rmdir fs info parent name =
     with_path info parent (\<lambda>parent_path.
       respond info (t_rmdir fs info parent_path name) (finish info (\<lambda>_. MtOk)))"

definition mt_symlink ::
    "'s filesystem_mt \<Rightarrow> request_info \<Rightarrow> u64 \<Rightarrow> bytes \<Rightarrow> bytes \<Rightarrow> 's fuse_mt \<Rightarrow> 's fuse_mt outcome" where
  "mt_symlink fs info parent name link =
     with_path info parent (\<lambda>parent_path.
       respond info (t_symlink fs info parent_path name link) (add_entry info (path_join parent_path name)))"

definition mt_rename ::
    "'s filesystem_mt \<Rightarrow> request_info \<Rightarrow> u64 \<Rightarrow> bytes \<Rightarrow> u64 \<Rightarrow> bytes \<Rightarrow> 's fuse_mt \<Rightarrow> 's fuse_mt outcome" where
  "mt_rename fs info parent name newparent newname =
     with_path info parent (\<lambda>parent_path.
     with_path info newparent (\<lambda>newparent_path.
       respond info (t_rename fs info parent_path name newparent_path newname) (\<lambda>_ s.
         bind_outcome (table_rename (path_join parent_path name) (path_join newparent_path newname) (inodes s)) (\<lambda>t1.
           finish info (\<lambda>_. MtOk) () (s\<lparr>inodes := t1\<rparr>)))))"

definition mt_link ::
    "'s filesystem_mt \<Rightarrow> request_info \<Rightarrow> u64 \<Rightarrow> u64 \<Rightarrow> bytes \<Rightarrow> 's fuse_mt \<Rightarrow> 's fuse_mt outcome" where
  "mt_link fs info ino newparent newname =
     with_path info ino (\<lambda>path.
     with_path info newparent (\<lambda>newparent_path.
       respond info (t_link fs info path newparent_path newname) (add_entry info (path_join newparent_path newname))))"

definition mt_open :: "'s filesystem_mt \<Rightarrow> request_info \<Rightarrow> u64 \<Rightarrow> i32 \<Rightarrow> 's fuse_mt \<Rightarrow> 's fuse_mt outcome" where
  "mt_open fs info ino flags =
     with_path info ino (\<lambda>path.
       respond info (t_open fs info path flags) (finish info (\<lambda>(fh, flags). MtOpened fh flags)))"

definition mt_read ::
    "'s filesystem_mt \<Rightarrow> request_info \<Rightarrow> u64 \<Rightarrow> u64 \<Rightarrow> i64 \<Rightarrow> u32 \<Rightarrow> 's fuse_mt \<Rightarrow> 's fuse_mt outcome" where
  "mt_read fs info ino fh offset sz =
     with_path info ino (\<lambda>path s.
       if sint offset < 0 then Ret (send info (MtError mt_EINVAL) s)
       else threadpool_run fs (JRead info path fh offset sz) s)"

definition mt_write ::
    "'s filesystem_mt \<Rightarrow> request_info \<Rightarrow> u64 \<Rightarrow> u64 \<Rightarrow> i64 \<Rightarrow> bytes \<Rightarrow> i32 \<Rightarrow> 's fuse_mt \<Rightarrow> 's fuse_mt outcome" where
  "mt_write fs info ino fh offset buf flags =
     with_path info ino (\<lambda>path s.
       if sint offset < 0 then Ret (send info (MtError mt_EINVAL) s)
       else threadpool_run fs (JWrite info path fh offset buf flags) s)"

definition mt_flush ::
    "'s filesystem_mt \<Rightarrow> request_info \<Rightarrow> u64 \<Rightarrow> u64 \<Rightarrow> u64 \<Rightarrow> 's fuse_mt \<Rightarrow> 's fuse_mt outcome" where
  "mt_flush fs info ino fh lock_owner =
     with_path info ino (\<lambda>path. threadpool_run fs (JFlush info path fh lock_owner))"

definition mt_release ::
    "'s filesystem_mt \<Rightarrow> request_info \<Rightarrow> u64 \<Rightarrow> u64 \<Rightarrow> i32 \<Rightarrow> u64 option \<Rightarrow> bool \<Rightarrow> 's fuse_mt \<Rightarrow> 's fuse_mt outcome" where
  "mt_release fs info ino fh flags lock_owner flush =
     with_path info ino (\<lambda>path.
       respond info (t_release fs info path fh flags (case lock_owner of Some x \<Rightarrow> x | None \<Rightarrow> 0) flush)
         (finish info (\<lambda>_. MtOk)))"

definition mt_fsync ::
    "'s filesystem_mt \<Rightarrow> request_info \<Rightarrow> u64 \<Rightarrow> u64 \<Rightarrow> bool \<Rightarrow> 's fuse_mt \<Rightarrow> 's fuse_mt outcome" where
  "mt_fsync fs info ino fh datasync =
     with_path info ino (\<lambda>path. threadpool_run fs (JFsync info path fh datasync))"

definition mt_opendir :: "'s filesystem_mt \<Rightarrow> request_info \<Rightarrow> u64 \<Rightarrow> i32 \<Rightarrow> 's fuse_mt \<Rightarrow> 's fuse_mt outcome" where
  "mt_opendir fs info ino flags =
     with_path info ino (\<lambda>path.
       respond info (t_opendir fs info path flags) (\<lambda>(fh, flags) s.
         case dcache_new_entry fh (directory_cache s) of
           (dcache_key, d) \<Rightarrow> Ret (send info (MtOpened dcache_key flags) (s\<lparr>directory_cache := d\<rparr>))))"

fun readdir_fill ::
    "u64 \<Rightarrow> u64 \<Rightarrow> i64 \<Rightarrow> nat \<Rightarrow> directory_entry list \<Rightarrow> ent_list_buf \<Rightarrow> ent_list_buf outcome" where
  "readdir_fill ino parent_inode offset index [] l = Ret l"
| "readdir_fill ino parent_inode offset index (entry # es) l =
     (let entry_inode =
            if path_is (den_name entry) [46] then ino
            else if path_is (den_name entry) [46, 46] then parent_inode
            else NOT 1 in
      if \<not> in_i64 (sint offset + int index + 1) then Panic ''attempt to add with overflow''
      else
        bind_outcome
          (dir_list_push \<lparr>de_ino = entry_inode, de_offset = offset + of_nat index + 1, de_kind = den_kind entry,
                          de_name = den_name entry\<rparr> l) (\<lambda>(buffer_full, l1).
          if buffer_full then Ret l1 else readdir_fill ino parent_inode offset (index + 1) es l1))"

definition parent_inode_of :: "u64 \<Rightarrow> path \<Rightarrow> inode_table \<Rightarrow> u64 option outcome" where
  "parent_inode_of ino path t =
     (if ino = 1 then Ret (Some ino)
      else (case path_parent path of
              None \<Rightarrow> Panic ''called unwrap on a None value''
            | Some parent_path \<Rightarrow> Ret (map_option of_nat (table_get_inode parent_path t))))"

definition readdir_list ::
    "request_info \<Rightarrow> u64 \<Rightarrow> path \<Rightarrow> i64 \<Rightarrow> nat \<Rightarrow> directory_entry list \<Rightarrow> 's fuse_mt \<Rightarrow> 's fuse_mt outcome" where
  "readdir_list info ino path offset sz entries s =
     bind_outcome (parent_inode_of ino path (inodes s)) (\<lambda>parent.
       case parent of
         None \<Rightarrow> Ret (send info (MtError mt_EIO) s)
       | Some parent_inode \<Rightarrow>
           bind_outcome (readdir_fill ino parent_inode offset 0 (drop (unat offset) entries) (ent_list_new sz)) (\<lambda>l.
           bind_outcome (new_directory l) (\<lambda>_. Ret (send info (MtDirectory l) s))))"

definition mt_readdir ::
    "'s filesystem_mt \<Rightarrow> request_info \<Rightarrow> u64 \<Rightarrow> u64 \<Rightarrow> i64 \<Rightarrow> nat \<Rightarrow> 's fuse_mt \<Rightarrow> 's fuse_mt outcome" where
  "mt_readdir fs info ino fh offset sz =
     with_path info ino (\<lambda>path s.
       if sint offset < 0 then Ret (send info (MtError mt_EINVAL) s)
       else
         bind_outcome (dcache_get_mut fh (directory_cache s)) (\<lambda>e.
           case dce_entries e of
             Some entries \<Rightarrow> readdir_list info ino path offset sz entries s
           | None \<Rightarrow>
               respond info (t_readdir fs info path (dce_fh e)) (\<lambda>entries s1.
                 let d = directory_cache s1 in
                 readdir_list info ino path offset sz entries
                   (s1\<lparr>directory_cache := d\<lparr>dc_entries := (dc_entries d)(fh \<mapsto> e\<lparr>dce_entries := Some entries\<rparr>)\<rparr>\<rparr>)) s))"

definition mt_releasedir ::
    "'s filesystem_mt \<Rightarrow> request_info \<Rightarrow> u64 \<Rightarrow> u64 \<Rightarrow> i32 \<Rightarrow> 's fuse_mt \<Rightarrow> 's fuse_mt outcome" where
  "mt_releasedir fs info ino fh flags =
     with_path info ino (\<lambda>path s.
       bind_outcome (dcache_real_fh fh (directory_cache s)) (\<lambda>real_fh.
       bind_outcome (respond info (t_releasedir fs info path real_fh flags) (finish info (\<lambda>_. MtOk)) s) (\<lambda>s1.
         Ret (s1\<lparr>directory_cache := dcache_delete fh (directory_cache s1)\<rparr>))))"

definition mt_fsyncdir ::
    "'s filesystem_mt \<Rightarrow> request_info \<Rightarrow> u64 \<Rightarrow> u64 \<Rightarrow> bool \<Rightarrow> 's fuse_mt \<Rightarrow> 's fuse_mt outcome" where
  "mt_fsyncdir fs info ino fh datasync =
     with_path info ino (\<lambda>path s.
       bind_outcome (dcache_real_fh fh (directory_cache s)) (\<lambda>real_fh.
         respond info (t_fsyncdir fs info path real_fh datasync) (finish info (\<lambda>_. MtOk)) s))"

definition mt_statfs :: "'s filesystem_mt \<Rightarrow> request_info \<Rightarrow> u64 \<Rightarrow> 's fuse_mt \<Rightarrow> 's fuse_mt outcome" where
  "mt_statfs fs info ino s =
     (let body = (\<lambda>path. respond info (t_statfs fs info path) (finish info (\<lambda>st.
            MtStatfs (st_blocks st) (st_bfree st) (st_bavail st) (st_files st) (st_ffree st)
              (st_bsize st) (st_namelen st) (st_frsize st)))) in
      if ino = 1 then body [] s else with_path info ino body s)"

definition mt_setxattr ::
    "'s filesystem_mt \<Rightarrow> request_info \<Rightarrow> u64 \<Rightarrow> bytes \<Rightarrow> bytes \<Rightarrow> i32 \<Rightarrow> u32 \<Rightarrow> 's fuse_mt \<Rightarrow> 's fuse_mt outcome" where
  "mt_setxattr fs info ino name v flags position =
     with_path info ino (\<lambda>path. respond info (t_setxattr fs info path name v flags position) (finish info (\<lambda>_. MtOk)))"

fun xattr_reply :: "xattr \<Rightarrow> mt_reply" where
  "xattr_reply (Xattr_Size n) = MtXattrSize n"
| "xattr_reply (Xattr_Data d) = MtXattrData d"

definition mt_getxattr ::
    "'s filesystem_mt \<Rightarrow> request_info \<Rightarrow> u64 \<Rightarrow> bytes \<Rightarrow> u32 \<Rightarrow> 's fuse_mt \<Rightarrow> 's fuse_mt outcome" where
  "mt_getxattr fs info ino name sz =
     with_path info ino (\<lambda>path. respond info (t_getxattr fs info path name sz) (finish info xattr_reply))"

definition mt_listxattr :: "'s filesystem_mt \<Rightarrow> request_info \<Rightarrow> u64 \<Rightarrow> u32 \<Rightarrow> 's fuse_mt \<Rightarrow> 's fuse_mt outcome" where
  "mt_listxattr fs info ino sz =
     with_path info ino (\<lambda>path. respond info (t_listxattr fs info path sz) (finish info xattr_reply))"

definition mt_removexattr :: "'s filesystem_mt \<Rightarrow> request_info \<Rightarrow> u64 \<Rightarrow> bytes \<Rightarrow> 's fuse_mt \<Rightarrow> 's fuse_mt outcome" where
  "mt_removexattr fs info ino name =
     with_path info ino (\<lambda>path. respond info (t_removexattr fs info path name) (finish info (\<lambda>_. MtOk)))"

definition mt_access :: "'s filesystem_mt \<Rightarrow> request_info \<Rightarrow> u64 \<Rightarrow> i32 \<Rightarrow> 's fuse_mt \<Rightarrow> 's fuse_mt outcome" where
  "mt_access fs info ino access_mask =
     with_path info ino (\<lambda>path. respond info (t_access fs info path access_mask) (finish info (\<lambda>_. MtOk)))"

definition mt_create ::
    "'s filesystem_mt \<Rightarrow> request_info \<Rightarrow> u64 \<Rightarrow> bytes \<Rightarrow> u32 \<Rightarrow> i32 \<Rightarrow> 's fuse_mt \<Rightarrow> 's fuse_mt outcome" where
  "mt_create fs info parent name mode flags =
     with_path info parent (\<lambda>parent_path.
       respond info (t_create fs info parent_path name mode flags) (\<lambda>create s.
         bind_outcome (table_add (path_join parent_path name) (inodes s)) (\<lambda>((ino, generation), t1).
           Ret (send info (MtCreated (ce_ttl create) (fuse_fileattr (ce_attr create) (of_nat ino)) (of_nat generation)
                  (ce_fh create) (ce_flags create)) (s\<lparr>inodes := t1\<rparr>)))))"

section \<open>The calls\<close>

datatype (plugins only: code) mt_call =
    McLookup u64 bytes
  | McForget u64 u64
  | McBatchForget "(u64 \<times> u64) list"
  | McGetattr u64
  | McSetattr "system_time \<times> system_time" u64 setattr_args
  | McReadlink u64
  | McMknod u64 bytes u32 u32
  | McMkdir u64 bytes u32
  | McUnlink u64 bytes
  | McRmdir u64 bytes
  | McSymlink u64 bytes bytes
  | McRename u64 bytes u64 bytes
  | McLink u64 u64 bytes
  | McOpen u64 i32
  | McRead u64 u64 i64 u32
  | McWrite u64 u64 i64 bytes i32
  | McFlush u64 u64 u64
  | McRelease u64 u64 i32 "u64 option" bool
  | McFsync u64 u64 bool
  | McOpendir u64 i32
  | McReaddir u64 u64 i64 nat
  | McReleasedir u64 u64 i32
  | McFsyncdir u64 u64 bool
  | McStatfs u64
  | McSetxattr u64 bytes bytes i32 u32
  | McGetxattr u64 bytes u32
  | McListxattr u64 u32
  | McRemovexattr u64 bytes
  | McAccess u64 i32
  | McCreate u64 bytes u32 i32

fun mt_handle :: "'s filesystem_mt \<Rightarrow> request_info \<Rightarrow> mt_call \<Rightarrow> 's fuse_mt \<Rightarrow> 's fuse_mt outcome" where
  "mt_handle fs info (McLookup parent name) s = mt_lookup fs info parent name s"
| "mt_handle fs info (McForget ino nlookup) s = mt_forget ino nlookup s"
| "mt_handle fs info (McBatchForget nodes) s = mt_batch_forget nodes s"
| "mt_handle fs info (McGetattr ino) s = mt_getattr fs info ino s"
| "mt_handle fs info (McSetattr now ino a) s = mt_setattr fs info now ino a s"
| "mt_handle fs info (McReadlink ino) s = mt_readlink fs info ino s"
| "mt_handle fs info (McMknod parent name mode rdev) s = mt_mknod fs info parent name mode rdev s"
| "mt_handle fs info (McMkdir parent name mode) s = mt_mkdir fs info parent name mode s"
| "mt_handle fs info (McUnlink parent name) s = mt_unlink fs info parent name s"
| "mt_handle fs info (McRmdir parent name) s = mt_rmdir fs info parent name s"
| "mt_handle fs info (McSymlink parent name link) s = mt_symlink fs info parent name link s"
| "mt_handle fs info (McRename parent name newparent newname) s = mt_rename fs info parent name newparent newname s"
| "mt_handle fs info (McLink ino newparent newname) s = mt_link fs info ino newparent newname s"
| "mt_handle fs info (McOpen ino flags) s = mt_open fs info ino flags s"
| "mt_handle fs info (McRead ino fh offset sz) s = mt_read fs info ino fh offset sz s"
| "mt_handle fs info (McWrite ino fh offset buf flags) s = mt_write fs info ino fh offset buf flags s"
| "mt_handle fs info (McFlush ino fh lock_owner) s = mt_flush fs info ino fh lock_owner s"
| "mt_handle fs info (McRelease ino fh flags lock_owner flush) s = mt_release fs info ino fh flags lock_owner flush s"
| "mt_handle fs info (McFsync ino fh datasync) s = mt_fsync fs info ino fh datasync s"
| "mt_handle fs info (McOpendir ino flags) s = mt_opendir fs info ino flags s"
| "mt_handle fs info (McReaddir ino fh offset sz) s = mt_readdir fs info ino fh offset sz s"
| "mt_handle fs info (McReleasedir ino fh flags) s = mt_releasedir fs info ino fh flags s"
| "mt_handle fs info (McFsyncdir ino fh datasync) s = mt_fsyncdir fs info ino fh datasync s"
| "mt_handle fs info (McStatfs ino) s = mt_statfs fs info ino s"
| "mt_handle fs info (McSetxattr ino name v flags position) s = mt_setxattr fs info ino name v flags position s"
| "mt_handle fs info (McGetxattr ino name sz) s = mt_getxattr fs info ino name sz s"
| "mt_handle fs info (McListxattr ino sz) s = mt_listxattr fs info ino sz s"
| "mt_handle fs info (McRemovexattr ino name) s = mt_removexattr fs info ino name s"
| "mt_handle fs info (McAccess ino access_mask) s = mt_access fs info ino access_mask s"
| "mt_handle fs info (McCreate parent name mode flags) s = mt_create fs info parent name mode flags s"

lemmas mt_defs =
  mt_lookup_def mt_getattr_def mt_setattr_def mt_readlink_def mt_mknod_def mt_mkdir_def mt_unlink_def
  mt_rmdir_def mt_symlink_def mt_rename_def mt_link_def mt_open_def mt_read_def mt_write_def mt_flush_def
  mt_release_def mt_fsync_def mt_opendir_def mt_readdir_def mt_releasedir_def mt_fsyncdir_def mt_statfs_def
  mt_setxattr_def mt_getxattr_def mt_listxattr_def mt_removexattr_def mt_access_def mt_create_def

end
