(* ===== verification/Fuse_Mt_Inv.thy ===== *)
theory Fuse_Mt_Inv
  imports Fuse_Mt "HOL-Library.Multiset"
begin

text \<open>
  What the kernel may rely on: the references it holds on inode numbers and directory handles, the calls
  it makes with them, and the invariant that the adapter's counts are the kernel's. Every call keeps the
  invariant, answers its request once or leaves it to the pool, and panics only in the listed cases.
\<close>

section \<open>The table\<close>

text \<open>The lookup counts of the table are the references of the kernel; the root is not counted.\<close>

definition counts_agree :: "(nat \<Rightarrow> nat) \<Rightarrow> inode_table \<Rightarrow> bool" where
  "counts_agree r t \<longleftrightarrow>
     (\<forall>i < length (table t). 0 < i \<longrightarrow>
        entry_lookups (table t ! i) = r (i + 1) \<and> (entry_path (table t ! i) = None \<longleftrightarrow> r (i + 1) = 0)) \<and>
     (\<forall>ino. ino = 0 \<or> length (table t) < ino \<longrightarrow> r ino = 0)"

lemma handed_out_Nil: "handed_out_ok [] t"
  by (simp add: handed_out_ok_def)

lemma counts_agree_entry:
  "counts_agree r t \<Longrightarrow> i < length (table t) \<Longrightarrow> 0 < i \<Longrightarrow>
     entry_lookups (table t ! i) = r (i + 1) \<and> (entry_path (table t ! i) = None \<longleftrightarrow> r (i + 1) = 0)"
  unfolding counts_agree_def by blast

lemma counts_agree_held: "counts_agree r t \<Longrightarrow> 0 < r ino \<Longrightarrow> ino \<noteq> 0 \<and> ino \<le> length (table t)"
  unfolding counts_agree_def by (metis less_irrefl not_le)

lemma counts_agree_update:
  assumes "counts_agree r t" and "i < length (table t)" and "table t' = (table t)[i := e]"
    and "0 < i \<Longrightarrow> entry_lookups e = m \<and> (entry_path e = None \<longleftrightarrow> m = 0)"
  shows "counts_agree (r(i + 1 := m)) t'"
  using assms by (auto simp: counts_agree_def nth_list_update)

lemma counts_agree_append:
  assumes "counts_agree r t" and "table t' = table t @ [e]" and "table t \<noteq> []"
    and "entry_lookups e = m" and "entry_path e = None \<longleftrightarrow> m = 0"
  shows "counts_agree (r(length (table t) + 1 := m)) t'"
  using assms by (auto simp: counts_agree_def nth_append less_Suc_eq)

lemma table_inv_nonempty: "table_inv t \<Longrightarrow> table t \<noteq> []"
  by (simp add: table_inv_def)

text \<open>A new entry, before its path is set, was not referenced.\<close>

lemma get_inode_entry_counts:
  assumes "table_inv t" and "counts_agree r t"
  shows "ok {''attempt to add with overflow''} (get_inode_entry t) (\<lambda>(k, e, t1).
     1 < k \<and> k \<le> length (table t) + 1 \<and> k \<le> length (table t1) \<and> entry_lookups e = 0 \<and> r k = 0 \<and>
     (\<forall>e1 t2 m. table t2 = (table t1)[k - 1 := e1] \<longrightarrow> entry_lookups e1 = m \<longrightarrow> (entry_path e1 = None \<longleftrightarrow> m = 0) \<longrightarrow>
       counts_agree (r(k := m)) t2))"
proof (cases "free_list t")
  case Nil
  have "r (length (table t) + 1) = 0" using assms(2) by (simp add: counts_agree_def)
  with Nil table_inv_nonempty [OF assms(1)] counts_agree_append [OF assms(2)] show ?thesis
    by (auto simp: get_inode_entry_def Let_def)
next
  case (Cons i rest)
  then have i: "0 < i" "i < length (table t)" using assms(1) by (auto simp: table_inv_def)
  moreover have "entry_path (table t ! i) = None" using table_inv_free [OF assms(1) i(2)] Cons by simp
  moreover note counts_agree_entry [OF assms(2) i(2,1)]
  moreover have "counts_agree (r(Suc i := entry_lookups e1)) t2"
    if "table t2 = (table t)[i := e1]" "(entry_path e1 = None) = (entry_lookups e1 = 0)" for e1 t2
    using counts_agree_update [OF assms(2) i(2), of t2 e1 "entry_lookups e1"] that by simp
  ultimately show ?thesis
    using Cons by (auto simp: get_inode_entry_def checked_add_def Let_def)
qed

lemma get_inode_entry_set:
  assumes "table_inv t" and "counts_agree r t" and "get_inode_entry t = Ret (k, e, t1)"
    and "table t2 = (table t1)[k - 1 := en]" and "entry_lookups en = m" and "entry_path en = None \<longleftrightarrow> m = 0"
  shows "counts_agree (r(k := m)) t2"
  using get_inode_entry_counts [OF assms(1,2)] assms(3-) by auto

abbreviation duplicate_path :: string where
  "duplicate_path \<equiv> ''attempted to insert duplicate path into inode table''"

abbreviation add_overflow :: string where
  "add_overflow \<equiv> ''attempt to add with overflow''"

abbreviation unwrap_none :: string where
  "unwrap_none \<equiv> ''called unwrap on a None value''"

lemma table_add_counts:
  assumes "table_inv t" and "counts_agree r t"
  shows "ok {duplicate_path, add_overflow} (table_add p t) (\<lambda>((ino, g), t').
     table_inv t' \<and> counts_agree (r(ino := r ino + 1)) t' \<and> ino \<le> length (table t) + 1)"
proof (cases "get_inode_entry t")
  case (Ret x)
  obtain k e t1 where x: "x = (k, e, t1)" by (cases x)
  have new: "r k = 0" "k \<le> length (table t) + 1" using get_inode_entry_counts [OF assms] Ret x by auto
  show ?thesis
  proof (cases "by_path t1 p")
    case None
    let ?t = "t1\<lparr>table := (table t1)[k - 1 := e\<lparr>entry_path := Some p, entry_lookups := 1\<rparr>],
      by_path := (by_path t1)(p \<mapsto> k - 1)\<rparr>"
    have add: "table_add p t = Ret ((k, entry_generation e), ?t)"
      using Ret x None by (simp add: table_add_def Let_def)
    have "table_inv ?t" using table_add_ok [OF add assms(1) handed_out_Nil] by simp
    moreover have "counts_agree (r(k := 1)) ?t"
      by (rule get_inode_entry_set [OF assms Ret [unfolded x], of _ "e\<lparr>entry_path := Some p, entry_lookups := 1\<rparr>"])
        simp_all
    ultimately show ?thesis using new add by simp
  qed (use Ret x in \<open>simp add: table_add_def Let_def\<close>)
qed (use get_inode_entry_counts [OF assms] in \<open>simp_all add: table_add_def\<close>)

text \<open>\<open>let (ino, generation) = self.inodes.add_or_get(path); self.inodes.lookup(ino);\<close>\<close>

lemma table_lookup_eq:
  assumes "1 < ino" and "ino \<le> length (table t)"
  shows "ok {add_overflow} (table_lookup ino t) (\<lambda>t'.
     t' = t\<lparr>table := (table t)[ino - 1 := (table t ! (ino - 1))\<lparr>entry_lookups := entry_lookups (table t ! (ino - 1)) + 1\<rparr>]\<rparr>)"
  using assms by (auto simp: table_lookup_def entry_at_def checked_add_def)

lemma table_lookup_inv:
  assumes "table_inv t" shows "table_lookup ino t = Ret t' \<Longrightarrow> table_inv t'"
  using table_lookup_ok [OF _ assms handed_out_Nil] by blast

lemma table_add_or_get_counts:
  assumes "table_inv t" and "counts_agree r t"
  shows "ok {add_overflow}
     (bind_outcome (table_add_or_get p t) (\<lambda>((ino, g), t1). bind_outcome (table_lookup ino t1) (\<lambda>t2. Ret ((ino, g), t2))))
     (\<lambda>((ino, g), t'). table_inv t' \<and> counts_agree (r(ino := r ino + 1)) t' \<and> ino \<le> length (table t) + 1)"
proof (cases "by_path t p")
  case (Some i)
  then have i: "i < length (table t)" "entry_path (table t ! i) = Some p"
    using table_inv_by_path [OF assms(1)] by auto
  then have get: "table_add_or_get p t = Ret ((i + 1, entry_generation (table t ! i)), t)"
    using Some by (simp add: table_add_or_get_def)
  show ?thesis
  proof (cases "i = 0")
    case True
    have "counts_agree (r(1 := r 1 + 1)) t" using counts_agree_update [OF assms(2), of 0 t "table t ! 0"] i True by simp
    then show ?thesis using get True assms(1) by (simp add: table_lookup_def)
  next
    case False
    let ?e = "(table t ! i)\<lparr>entry_lookups := entry_lookups (table t ! i) + 1\<rparr>"
    have "counts_agree (r(i + 1 := r (i + 1) + 1)) t'" if "table t' = (table t)[i := ?e]" for t'
      using counts_agree_update [OF assms(2) i(1) that] counts_agree_entry [OF assms(2) i(1)] False i(2) by simp
    then have "ok {add_overflow} (table_lookup (i + 1) t) (\<lambda>t'. table_inv t' \<and> counts_agree (r(i + 1 := r (i + 1) + 1)) t')"
      using False i(1) by (intro ok_mono [OF table_lookup_eq] conjI table_lookup_inv [OF assms(1)]) simp_all
    with i(1) show ?thesis by (simp add: get ok_bind)
  qed
next
  case None
  show ?thesis
  proof (cases "get_inode_entry t")
    case (Ret x)
    obtain k e t1 where x: "x = (k, e, t1)" by (cases x)
    have new: "r k = 0" "1 < k" "k \<le> length (table t) + 1" "entry_lookups e = 0" and k: "k \<le> length (table t1)"
      using get_inode_entry_counts [OF assms] Ret x by auto
    let ?t = "t1\<lparr>table := (table t1)[k - 1 := e\<lparr>entry_path := Some p\<rparr>], by_path := (by_path t1)(p \<mapsto> k - 1)\<rparr>"
    have get: "table_add_or_get p t = Ret ((k, entry_generation e), ?t)" using Ret x None by (simp add: table_add_or_get_def)
    have inv: "table_inv ?t" using table_add_or_get_ok [OF get assms(1) handed_out_Nil] by simp
    have "counts_agree (r(k := 1)) t'"
      if "table t' = (table t1)[k - 1 := e\<lparr>entry_path := Some p, entry_lookups := 1\<rparr>]" for t'
      by (rule get_inode_entry_set [OF assms Ret [unfolded x] that]) simp_all
    then have "ok {add_overflow} (table_lookup k ?t) (\<lambda>t'. table_inv t' \<and> counts_agree (r(k := 1)) t')"
      using new k by (intro ok_mono [OF table_lookup_eq] conjI table_lookup_inv [OF inv]) simp_all
    with new show ?thesis by (simp add: get ok_bind)
  qed (use None get_inode_entry_counts [OF assms] in \<open>simp_all add: table_add_or_get_def\<close>)
qed

lemma table_forget_counts:
  assumes "table_inv t" and "counts_agree r t" and "ino = 1 \<or> 0 < n \<and> n \<le> r ino"
  shows "ok {} (table_forget ino n t) (\<lambda>(m, t'). table_inv t' \<and> counts_agree (r(ino := r ino - n)) t')"
proof (cases "ino = 1")
  case True
  then show ?thesis
    using assms(1) counts_agree_update [OF assms(2), of 0 t "table t ! 0"] table_inv_nonempty [OF assms(1)]
    by (simp add: table_forget_def)
next
  case False
  with assms(3) have n: "0 < n" "n \<le> r ino" by auto
  with counts_agree_held [OF assms(2), of ino] False have "1 < ino" "ino \<le> length (table t)" by simp_all
  then obtain i where i: "ino = i + 1" "0 < i" "i < length (table t)" by (cases ino) auto
  note e = counts_agree_entry [OF assms(2) i(3,2)]
  have at: "entry_at t ino = Ret (i, table t ! i)" using i by (simp add: entry_at_def)
  obtain p where p: "entry_path (table t ! i) = Some p" using e n i(1) by auto
  have "ok {} (table_forget ino n t) (\<lambda>(m, t'). counts_agree (r(ino := r ino - n)) t')"
    using at e n p i by (auto simp: table_forget_def Let_def intro!: counts_agree_update [OF assms(2) i(3), simplified])
  moreover have "table_inv t'" if "table_forget ino n t = Ret (m, t')" for m t'
    using table_forget_ok [OF that assms(1) handed_out_Nil] by simp
  ultimately show ?thesis by (auto intro: ok_mono)
qed

lemma table_rename_counts:
  assumes "table_inv t" and "counts_agree r t"
  shows "ok {unwrap_none} (table_rename p q t) (\<lambda>t'. table_inv t' \<and> counts_agree r t')"
proof (cases "by_path t p")
  case (Some i)
  then have i: "i < length (table t)" using table_inv_by_path [OF assms(1)] by auto
  with Some obtain t' where t': "table_rename p q t = Ret t'"
    "table t' = (table t)[i := (table t ! i)\<lparr>entry_path := Some q\<rparr>]" by (simp add: table_rename_def)
  have "entry_path (table t ! i) = Some p" using table_inv_by_path [OF assms(1) Some] by simp
  then have "counts_agree (r(i + 1 := r (i + 1))) t'"
    using counts_agree_entry [OF assms(2) i] by (intro counts_agree_update [OF assms(2) i t'(2)]) auto
  then show ?thesis using t' table_rename_ok [OF t'(1) assms(1) handed_out_Nil] by simp
qed (simp add: table_rename_def)

lemma table_unlink_counts:
  "table_inv t \<Longrightarrow> counts_agree r t \<Longrightarrow> table_inv (table_unlink p t) \<and> counts_agree r (table_unlink p t)"
  using table_unlink_ok [OF _ handed_out_Nil] by (auto simp: counts_agree_def table_unlink_def)

lemma held_path:
  assumes "table_inv t" and "counts_agree r t" and "ino = 1 \<or> 0 < r ino"
  shows "\<exists>p. table_get_path ino t = Ret (Some p)"
proof -
  have "ino \<noteq> 0 \<and> ino \<le> length (table t)"
    using assms(3) counts_agree_held [OF assms(2), of ino] table_inv_nonempty [OF assms(1)] by (auto simp: Suc_le_eq)
  then obtain i where i: "ino = i + 1" "i < length (table t)" by (cases ino) auto
  have "entry_path (table t ! i) \<noteq> None"
  proof (cases "i = 0")
    case True
    then show ?thesis using table_inv_free [OF assms(1) i(2)] assms(1) by (auto simp: table_inv_def)
  next
    case False
    then show ?thesis using counts_agree_entry [OF assms(2) i(2)] assms(3) i(1) by auto
  qed
  with i show ?thesis by (auto simp: table_get_path_def entry_at_def)
qed

section \<open>The kernel\<close>

text \<open>The references of the kernel: on inode numbers, and on handles of open directories.\<close>

record mt_kernel =
  refs :: "nat \<Rightarrow> nat"
  held_dirs :: "u64 set"

definition mt_kernel_new :: mt_kernel where
  "mt_kernel_new = \<lparr>refs = (\<lambda>_. 0), held_dirs = {}\<rparr>"

text \<open>A reply with an entry gives a reference on its inode number.\<close>

fun entry_inode :: "mt_reply \<Rightarrow> nat option" where
  "entry_inode (MtEntry ttl attr g) = Some (unat (fa_ino attr))"
| "entry_inode (MtCreated ttl attr g fh flags) = Some (unat (fa_ino attr))"
| "entry_inode _ = None"

fun opened_handle :: "mt_reply \<Rightarrow> u64 list" where
  "opened_handle (MtOpened fh flags) = [fh]"
| "opened_handle _ = []"

definition given :: "(u64 \<times> mt_reply) list \<Rightarrow> nat \<Rightarrow> nat" where
  "given new ino = length (filter (\<lambda>(u, r). entry_inode r = Some ino) new)"

fun forgotten :: "mt_call \<Rightarrow> (u64 \<times> u64) list" where
  "forgotten (McForget ino nlookup) = [(ino, nlookup)]"
| "forgotten (McBatchForget nodes) = nodes"
| "forgotten _ = []"

fun take_back :: "(u64 \<times> u64) list \<Rightarrow> (nat \<Rightarrow> nat) \<Rightarrow> nat \<Rightarrow> nat" where
  "take_back [] r = r"
| "take_back ((ino, n) # nodes) r = take_back nodes (r(unat ino := r (unat ino) - unat n))"

fun opened :: "mt_call \<Rightarrow> (u64 \<times> mt_reply) list \<Rightarrow> u64 set" where
  "opened (McOpendir ino flags) new = set (concat (map (\<lambda>(u, r). opened_handle r) new))"
| "opened _ new = {}"

fun closed :: "mt_call \<Rightarrow> u64 set" where
  "closed (McReleasedir ino fh flags) = {fh}"
| "closed _ = {}"

definition kernel_after :: "mt_call \<Rightarrow> (u64 \<times> mt_reply) list \<Rightarrow> mt_kernel \<Rightarrow> mt_kernel" where
  "kernel_after call new k =
     \<lparr>refs = (\<lambda>ino. take_back (forgotten call) (refs k) ino + given new ino),
      held_dirs = (held_dirs k \<union> opened call new) - closed call\<rparr>"

text \<open>
  The calls the kernel makes: on the root and on numbers it holds a reference of, giving back no more
  references than it has; with directory handles that are open, the one handed out \<open>2\<^sup>6\<^sup>4\<close> openings ago being
  closed by then; and while the table fits into memory.
\<close>

fun legal_forgets :: "(u64 \<times> u64) list \<Rightarrow> (nat \<Rightarrow> nat) \<Rightarrow> bool" where
  "legal_forgets [] r = True"
| "legal_forgets ((ino, n) # nodes) r \<longleftrightarrow>
     (ino = 1 \<or> 0 < n \<and> unat n \<le> r (unat ino)) \<and> legal_forgets nodes (r(unat ino := r (unat ino) - unat n))"

fun call_inodes :: "mt_call \<Rightarrow> u64 list" where
  "call_inodes (McLookup parent name) = [parent]"
| "call_inodes (McForget ino nlookup) = []"
| "call_inodes (McBatchForget nodes) = []"
| "call_inodes (McGetattr ino) = [ino]"
| "call_inodes (McSetattr now ino a) = [ino]"
| "call_inodes (McReadlink ino) = [ino]"
| "call_inodes (McMknod parent name mode rdev) = [parent]"
| "call_inodes (McMkdir parent name mode) = [parent]"
| "call_inodes (McUnlink parent name) = [parent]"
| "call_inodes (McRmdir parent name) = [parent]"
| "call_inodes (McSymlink parent name link) = [parent]"
| "call_inodes (McRename parent name newparent newname) = [parent, newparent]"
| "call_inodes (McLink ino newparent newname) = [ino, newparent]"
| "call_inodes (McOpen ino flags) = [ino]"
| "call_inodes (McRead ino fh offset sz) = [ino]"
| "call_inodes (McWrite ino fh offset buf flags) = [ino]"
| "call_inodes (McFlush ino fh lock_owner) = [ino]"
| "call_inodes (McRelease ino fh flags lock_owner flush) = [ino]"
| "call_inodes (McFsync ino fh datasync) = [ino]"
| "call_inodes (McOpendir ino flags) = [ino]"
| "call_inodes (McReaddir ino fh offset sz) = [ino]"
| "call_inodes (McReleasedir ino fh flags) = [ino]"
| "call_inodes (McFsyncdir ino fh datasync) = [ino]"
| "call_inodes (McStatfs ino) = [ino]"
| "call_inodes (McSetxattr ino name v flags position) = [ino]"
| "call_inodes (McGetxattr ino name sz) = [ino]"
| "call_inodes (McListxattr ino sz) = [ino]"
| "call_inodes (McRemovexattr ino name) = [ino]"
| "call_inodes (McAccess ino access_mask) = [ino]"
| "call_inodes (McCreate parent name mode flags) = [parent]"

fun call_dirs :: "mt_call \<Rightarrow> u64 list" where
  "call_dirs (McReaddir ino fh offset sz) = [fh]"
| "call_dirs (McReleasedir ino fh flags) = [fh]"
| "call_dirs (McFsyncdir ino fh datasync) = [fh]"
| "call_dirs _ = []"

fun is_opendir :: "mt_call \<Rightarrow> bool" where
  "is_opendir (McOpendir ino flags) = True"
| "is_opendir _ = False"

definition legal :: "mt_kernel \<Rightarrow> 's fuse_mt \<Rightarrow> mt_call \<Rightarrow> bool" where
  "legal k s call \<longleftrightarrow>
     list_all (\<lambda>ino. ino = 1 \<or> 0 < refs k (unat ino)) (call_inodes call) \<and> legal_forgets (forgotten call) (refs k) \<and>
     set (call_dirs call) \<subseteq> held_dirs k \<and>
     (is_opendir call \<longrightarrow> next_key (directory_cache s) \<notin> held_dirs k) \<and>
     length (table (inodes s)) + 1 < 2 ^ 64"

text \<open>The requests that were answered or wait in the pool.\<close>

definition taken_up :: "'s fuse_mt \<Rightarrow> u64 multiset" where
  "taken_up s = mset (map fst (sent s)) + mset (map (\<lambda>j. ri_unique (job_info j)) (pool_jobs s))"

fun reply_due :: "request_info \<Rightarrow> mt_call \<Rightarrow> u64 multiset" where
  "reply_due info (McForget ino nlookup) = {#}"
| "reply_due info (McBatchForget nodes) = {#}"
| "reply_due info _ = {#ri_unique info#}"

definition mt_inv :: "mt_kernel \<Rightarrow> 's fuse_mt \<Rightarrow> bool" where
  "mt_inv k s \<longleftrightarrow>
     table_inv (inodes s) \<and> counts_agree (refs k) (inodes s) \<and>
     dom (dc_entries (directory_cache s)) = held_dirs k \<and> (num_threads s = 0 \<longrightarrow> threads s = None)"

definition mt_panics :: "string set" where
  "mt_panics = {duplicate_path, add_overflow, unwrap_none, ''Name too long''}"

text \<open>What a call makes of a state.\<close>

definition mt_post :: "request_info \<Rightarrow> mt_call \<Rightarrow> mt_kernel \<Rightarrow> 's fuse_mt \<Rightarrow> 's fuse_mt \<Rightarrow> bool" where
  "mt_post info call k s s' \<longleftrightarrow>
     (\<exists>new. sent s' = sent s @ new \<and> mt_inv (kernel_after call new k) s' \<and>
        taken_up s' = taken_up s + reply_due info call)"

section \<open>Every call keeps the invariant\<close>

lemma respond_ok:
  assumes "\<And>e t. Q (send info (MtError e) (s\<lparr>target := t\<rparr>))" and "\<And>x t. ok E (k x (s\<lparr>target := t\<rparr>)) Q"
  shows "ok E (respond info m k s) Q"
  using assms by (auto simp: respond_def split: prod.split sum.split)

lemma ok_finish [simp]: "ok E (finish info f x s) Q = Q (send info (f x) s)"
  by (simp add: finish_def)

lemma setattr_step_ok:
  assumes "\<And>e t. Q (send info (MtError e) (s\<lparr>target := t\<rparr>))" and "\<And>t. ok E (k (s\<lparr>target := t\<rparr>)) Q"
  shows "ok E (setattr_step info asked m k s) Q"
proof (cases asked)
  case True
  have "ok E (respond info m (\<lambda>_. k) s) Q" by (rule respond_ok) (rule assms)+
  with True show ?thesis by (simp add: setattr_step_def)
next
  case False
  with assms(2) [of "target s"] show ?thesis by (simp add: setattr_step_def)
qed

lemma with_path_ok:
  assumes "mt_inv k s" and "ino = 1 \<or> 0 < refs k (unat ino)" and "\<And>p. ok E (f p s) Q"
  shows "ok E (with_path info ino f s) Q"
proof -
  have "unat ino = 1 \<or> 0 < refs k (unat ino)" using assms(2) by auto
  then obtain p where "table_get_path (unat ino) (inodes s) = Ret (Some p)"
    using held_path [of "inodes s" "refs k" "unat ino"] assms(1) by (auto simp: mt_inv_def)
  with assms(3) show ?thesis by (simp add: with_path_def)
qed

text \<open>Calls that change neither references nor handles.\<close>

fun plain :: "mt_call \<Rightarrow> bool" where
  "plain (McForget ino nlookup) = False"
| "plain (McBatchForget nodes) = False"
| "plain (McReleasedir ino fh flags) = False"
| "plain _ = True"

lemma plain_simps:
  "plain call \<Longrightarrow> forgotten call = []" "plain call \<Longrightarrow> closed call = {}"
  "plain call \<Longrightarrow> reply_due info call = {#ri_unique info#}"
  by (cases call; simp)+

lemma given_simps [simp]:
  "given [] = (\<lambda>_. 0)"
  "given [(u, r)] = (\<lambda>ino. if entry_inode r = Some ino then 1 else 0)"
  by (auto simp: given_def fun_eq_iff)

lemma send_simps [simp]:
  "sent (send info r s) = sent s @ [(ri_unique info, r)]" "inodes (send info r s) = inodes s"
  "directory_cache (send info r s) = directory_cache s" "num_threads (send info r s) = num_threads s"
  "threads (send info r s) = threads s" "pool_jobs (send info r s) = pool_jobs s" "target (send info r s) = target s"
  by (simp_all add: send_def pool_jobs_def)

lemma pool_jobs_simps [simp]:
  "pool_jobs (s\<lparr>target := t\<rparr>) = pool_jobs s" "pool_jobs (s\<lparr>inodes := it\<rparr>) = pool_jobs s"
  "pool_jobs (s\<lparr>directory_cache := d\<rparr>) = pool_jobs s" "pool_jobs (s\<lparr>threads := Some js\<rparr>) = js"
  by (simp_all add: pool_jobs_def)

lemma taken_up_send [simp]:
  "taken_up (send info r s) = taken_up s + {#ri_unique info#}"
  by (simp add: taken_up_def)

lemma taken_up_simps [simp]:
  "taken_up (s\<lparr>target := t\<rparr>) = taken_up s" "taken_up (s\<lparr>inodes := it\<rparr>) = taken_up s"
  "taken_up (s\<lparr>directory_cache := d\<rparr>) = taken_up s"
  by (simp_all add: taken_up_def)

text \<open>A reply that gives nothing away, from a state with the same references.\<close>

definition same_refs :: "'s fuse_mt \<Rightarrow> 's fuse_mt \<Rightarrow> bool" where
  "same_refs s s1 \<longleftrightarrow>
     inodes s1 = inodes s \<and> dom (dc_entries (directory_cache s1)) = dom (dc_entries (directory_cache s)) \<and>
     num_threads s1 = num_threads s \<and> threads s1 = threads s \<and> sent s1 = sent s"

lemma same_refs_target [simp]: "same_refs s s" "same_refs s (s\<lparr>target := t\<rparr>)"
  by (simp_all add: same_refs_def)

lemma post_send:
  assumes "mt_inv k s" and "same_refs s s1" and "plain call" and "entry_inode r = None"
    and "opened_handle r = [] \<or> \<not> is_opendir call"
  shows "mt_post info call k s (send info r s1)"
proof -
  have "opened call [(ri_unique info, r)] = {}" using assms(5) by (cases call) auto
  moreover have "taken_up s1 = taken_up s" using assms(2) by (simp add: taken_up_def same_refs_def pool_jobs_def)
  ultimately show ?thesis
    using assms by (auto simp: mt_post_def mt_inv_def kernel_after_def plain_simps same_refs_def)
qed

text \<open>A reply with an entry, whose number got a reference.\<close>

lemma post_entry:
  assumes "mt_inv k s" and "plain call" and "\<not> is_opendir call" and "length (table (inodes s)) + 1 < 2 ^ 64"
    and "table_inv it" and "counts_agree ((refs k)(ino := refs k ino + 1)) it" and "ino \<le> length (table (inodes s)) + 1"
    and "entry_inode r = Some (unat (of_nat ino :: u64))"
  shows "mt_post info call k s (send info r (s\<lparr>target := t, inodes := it\<rparr>))"
proof -
  have "opened call [(ri_unique info, r)] = {}" using assms(3) by (cases call) auto
  moreover have "entry_inode r = Some ino" using assms(4,7,8) by (simp add: unat_of_nat take_bit_nat_eq_self)
  moreover have "(\<lambda>i. refs k i + (if ino = i then 1 else 0)) = (refs k)(ino := refs k ino + 1)" by auto
  ultimately show ?thesis
    using assms(1,2,5,6) by (auto simp: mt_post_def mt_inv_def kernel_after_def plain_simps)
qed

lemma run_job_ok:
  assumes "mt_inv k s" and "plain call" and "\<not> is_opendir call" and "job_info j = info"
  shows "ok E (run_job fs j s) (mt_post info call k s)"
  using assms by (cases j) (auto intro!: respond_ok post_send)

lemma threadpool_run_ok:
  assumes "mt_inv k s" and "plain call" and "\<not> is_opendir call" and "job_info j = info"
  shows "ok E (threadpool_run fs j s) (mt_post info call k s)"
proof (cases "num_threads s = 0")
  case False
  have "opened call [] = {}" by (cases call) auto
  then have "mt_post info call k s (s\<lparr>threads := Some (pool_jobs s @ [j])\<rparr>)"
    using assms False by (auto simp: mt_post_def mt_inv_def kernel_after_def plain_simps taken_up_def)
  with False show ?thesis by (simp add: threadpool_run_def)
qed (use run_job_ok [OF assms] in \<open>simp add: threadpool_run_def\<close>)

lemma add_entry_ok:
  assumes "mt_inv k s" and "plain call" and "\<not> is_opendir call" and "length (table (inodes s)) + 1 < 2 ^ 64"
  shows "ok mt_panics (add_entry info p x (s\<lparr>target := t\<rparr>)) (mt_post info call k s)"
proof -
  have "ok mt_panics (table_add p (inodes s)) (\<lambda>((ino, g), t').
      table_inv t' \<and> counts_agree ((refs k)(ino := refs k ino + 1)) t' \<and> ino \<le> length (table (inodes s)) + 1)"
    by (rule ok_weaken [OF table_add_counts]) (use assms(1) in \<open>simp_all add: mt_inv_def mt_panics_def\<close>)
  then have "ok mt_panics (table_add p (inodes s)) (\<lambda>((ino, g), t').
      mt_post info call k s (send info (MtEntry (fst x) (fuse_fileattr (snd x) (of_nat ino)) (of_nat g)) (s\<lparr>target := t, inodes := t'\<rparr>)))"
    by (rule ok_mono) (auto simp: fuse_fileattr_def intro!: post_entry [OF assms])
  then show ?thesis by (simp add: add_entry_def ok_bind case_prod_unfold)
qed

lemma readdir_fill_ok:
  "length (ent_buf l) \<le> max_size l \<Longrightarrow>
     ok mt_panics (readdir_fill ino pino offset index es l) (\<lambda>l'. length (ent_buf l') \<le> max_size l')"
proof (induction es arbitrary: index l)
  case (Cons e es)
  have push: "ok mt_panics (dir_list_push d l) (\<lambda>(full, l1). length (ent_buf l1) \<le> max_size l1)" for d
  proof (cases "length (de_name d) < 2 ^ 32")
    case True
    with Cons.prems show ?thesis by (simp add: dir_list_push_eq)
  qed (simp add: dir_list_push_def mt_panics_def)
  show ?case
  proof (cases "in_i64 (sint offset + int index + 1)")
    case True
    then show ?thesis
      by (simp only: readdir_fill.simps Let_def ok_bind not_True_eq_False if_False simp_thms)
        (rule ok_mono [OF push], auto intro: Cons.IH)
  qed (simp add: mt_panics_def Let_def)
qed simp

lemma readdir_list_ok:
  assumes "mt_inv k s" and "same_refs s s1" and "plain call" and "\<not> is_opendir call"
  shows "ok mt_panics (readdir_list info ino p offset sz es s1) (mt_post info call k s)"
proof -
  have post: "mt_post info call k s (send info r s1)" if "entry_inode r = None" for r
    using post_send [OF assms(1-3) that] assms(4) by simp
  have "ok mt_panics (bind_outcome (readdir_fill ino pino offset 0 xs (ent_list_new sz)) (\<lambda>l.
      bind_outcome (new_directory l) (\<lambda>_. Ret (send info (MtDirectory l) s1)))) (mt_post info call k s)" for pino xs
    unfolding ok_bind
    by (rule ok_mono [OF readdir_fill_ok]) (auto simp: ent_list_new_def new_directory_def post)
  then show ?thesis
    by (auto simp: readdir_list_def parent_inode_of_def post mt_panics_def split: option.split)
qed

lemma legal_inode: "legal k s call \<Longrightarrow> ino \<in> set (call_inodes call) \<Longrightarrow> ino = 1 \<or> 0 < refs k (unat ino)"
  by (auto simp: legal_def list_all_iff)

lemma legal_room: "legal k s call \<Longrightarrow> length (table (inodes s)) + 1 < 2 ^ 64"
  by (simp add: legal_def)

lemma legal_dir: "mt_inv k s \<Longrightarrow> legal k s call \<Longrightarrow> fh \<in> set (call_dirs call) \<Longrightarrow> \<exists>e. dc_entries (directory_cache s) fh = Some e"
  by (auto simp: legal_def mt_inv_def)

lemma lookup_call_ok:
  assumes "mt_inv k s" and "legal k s (McLookup parent name)"
  shows "ok mt_panics (mt_lookup fs info parent name s) (mt_post info (McLookup parent name) k s)"
proof -
  let ?call = "McLookup parent name"
  have entry: "ok mt_panics
      (bind_outcome (table_add_or_get p (inodes s)) (\<lambda>((ino, g), t1). bind_outcome (table_lookup ino t1) (\<lambda>t2.
         Ret (send info (MtEntry ttl (fuse_fileattr attr (of_nat ino)) (of_nat g)) (s\<lparr>target := t, inodes := t2\<rparr>)))))
      (mt_post info ?call k s)" for p ttl attr t
  proof -
    have "ok mt_panics
       (bind_outcome (table_add_or_get p (inodes s)) (\<lambda>((ino, g), t1). bind_outcome (table_lookup ino t1) (\<lambda>t2. Ret ((ino, g), t2))))
       (\<lambda>((ino, g), t'). mt_post info ?call k s
          (send info (MtEntry ttl (fuse_fileattr attr (of_nat ino)) (of_nat g)) (s\<lparr>target := t, inodes := t'\<rparr>)))"
      by (rule ok_mono [OF ok_weaken [OF table_add_or_get_counts]])
        (use assms(1) in \<open>auto simp: mt_inv_def mt_panics_def fuse_fileattr_def
           intro!: post_entry [OF assms(1)] legal_room [OF assms(2), simplified]\<close>)
    then show ?thesis by (simp add: ok_bind case_prod_unfold)
  qed
  show ?thesis
    unfolding mt_lookup_def Let_def
    by (intro with_path_ok [OF assms(1)] respond_ok) (use legal_inode [OF assms(2)] entry assms(1) in \<open>auto intro!: post_send\<close>)
qed

lemma create_call_ok:
  assumes "mt_inv k s" and "legal k s (McCreate parent name mode flags)"
  shows "ok mt_panics (mt_create fs info parent name mode flags s) (mt_post info (McCreate parent name mode flags) k s)"
proof -
  let ?call = "McCreate parent name mode flags"
  have "ok mt_panics (table_add p (inodes s)) (\<lambda>((ino, g), t').
      mt_post info ?call k s (send info (MtCreated (ce_ttl x) (fuse_fileattr (ce_attr x) (of_nat ino)) (of_nat g) (ce_fh x) (ce_flags x))
        (s\<lparr>target := t, inodes := t'\<rparr>)))" for p x t
    by (rule ok_mono [OF ok_weaken [OF table_add_counts]])
      (use assms(1) in \<open>auto simp: mt_inv_def mt_panics_def fuse_fileattr_def
         intro!: post_entry [OF assms(1)] legal_room [OF assms(2), simplified]\<close>)
  then show ?thesis
    unfolding mt_create_def
    by (intro with_path_ok [OF assms(1)] respond_ok)
      (use legal_inode [OF assms(2)] assms(1) in \<open>auto simp: ok_bind case_prod_unfold intro!: post_send\<close>)
qed

text \<open>A change of the table that keeps all references.\<close>

lemma post_table:
  assumes "mt_inv k s" and "plain call" and "\<not> is_opendir call" and "table_inv it" and "counts_agree (refs k) it"
  shows "mt_post info call k s (send info MtOk (s\<lparr>target := t, inodes := it\<rparr>))"
proof -
  have "opened call [(ri_unique info, MtOk)] = {}" by (cases call) auto
  then show ?thesis using assms by (auto simp: mt_post_def mt_inv_def kernel_after_def plain_simps)
qed

lemma rename_call_ok:
  assumes "mt_inv k s" and "legal k s (McRename parent name newparent newname)"
  shows "ok mt_panics (mt_rename fs info parent name newparent newname s) (mt_post info (McRename parent name newparent newname) k s)"
proof -
  have "ok mt_panics (table_rename p q (inodes s)) (\<lambda>t'.
      mt_post info (McRename parent name newparent newname) k s (send info MtOk (s\<lparr>target := t, inodes := t'\<rparr>)))" for p q t
    by (rule ok_mono [OF ok_weaken [OF table_rename_counts]])
      (use assms(1) in \<open>auto simp: mt_inv_def mt_panics_def intro!: post_table [OF assms(1)]\<close>)
  then show ?thesis
    unfolding mt_rename_def
    by (intro with_path_ok [OF assms(1)] respond_ok)
      (use legal_inode [OF assms(2)] assms(1) in \<open>auto simp: ok_bind intro!: post_send\<close>)
qed

lemma unlink_call_ok:
  assumes "mt_inv k s" and "legal k s (McUnlink parent name)"
  shows "ok mt_panics (mt_unlink fs info parent name s) (mt_post info (McUnlink parent name) k s)"
proof -
  have "mt_post info (McUnlink parent name) k s (send info MtOk (s\<lparr>target := t, inodes := table_unlink p (inodes s)\<rparr>))" for p t
    using table_unlink_counts [of "inodes s" "refs k" p] assms(1) by (intro post_table) (auto simp: mt_inv_def)
  then show ?thesis
    unfolding mt_unlink_def
    by (intro with_path_ok [OF assms(1)] respond_ok) (use legal_inode [OF assms(2)] assms(1) in \<open>auto intro!: post_send\<close>)
qed

lemma opendir_call_ok:
  assumes "mt_inv k s" and "legal k s (McOpendir ino flags)"
  shows "ok mt_panics (mt_opendir fs info ino flags s) (mt_post info (McOpendir ino flags) k s)"
proof -
  have "mt_post info (McOpendir ino flags) k s
     (send info (MtOpened (fst (dcache_new_entry fh d)) fl) (s\<lparr>target := t, directory_cache := snd (dcache_new_entry fh d)\<rparr>))"
    if "d = directory_cache s" for fh fl t d
    using assms that
    by (auto simp: mt_post_def mt_inv_def kernel_after_def dcache_new_entry_def legal_def)
  then show ?thesis
    unfolding mt_opendir_def
    by (intro with_path_ok [OF assms(1)] respond_ok)
      (use legal_inode [OF assms(2)] assms(1) in \<open>auto simp: case_prod_unfold intro!: post_send\<close>)
qed

lemma readdir_call_ok:
  assumes "mt_inv k s" and "legal k s (McReaddir ino fh offset sz)"
  shows "ok mt_panics (mt_readdir fs info ino fh offset sz s) (mt_post info (McReaddir ino fh offset sz) k s)"
proof -
  obtain e where e: "dc_entries (directory_cache s) fh = Some e" using legal_dir [OF assms] by auto
  then have "same_refs s (s\<lparr>target := t, directory_cache := d\<lparr>dc_entries := (dc_entries d)(fh \<mapsto> e')\<rparr>\<rparr>)"
    if "d = directory_cache s" for t e' d
    using that by (auto simp: same_refs_def)
  then show ?thesis
    unfolding mt_readdir_def dcache_get_mut_def
    by (intro with_path_ok [OF assms(1)])
      (use legal_inode [OF assms(2)] assms(1) e in
        \<open>auto simp: Let_def intro!: post_send respond_ok readdir_list_ok split: option.split\<close>)
qed

text \<open>Closing a directory deletes its entry, whatever the file system answers.\<close>

lemma releasedir_call_ok:
  assumes "mt_inv k s" and "legal k s (McReleasedir ino fh flags)"
  shows "ok mt_panics (mt_releasedir fs info ino fh flags s) (mt_post info (McReleasedir ino fh flags) k s)"
proof -
  obtain e where e: "dc_entries (directory_cache s) fh = Some e" using legal_dir [OF assms] by auto
  have "mt_post info (McReleasedir ino fh flags) k s
      (send info r (s\<lparr>target := t\<rparr>)\<lparr>directory_cache := dcache_delete fh (directory_cache (send info r (s\<lparr>target := t\<rparr>)))\<rparr>)"
    if "entry_inode r = None" for r t
    using assms that by (auto simp: mt_post_def mt_inv_def kernel_after_def dcache_delete_def)
  then show ?thesis
    unfolding mt_releasedir_def dcache_real_fh_def
    by (intro with_path_ok [OF assms(1)])
      (use legal_inode [OF assms(2)] assms(1) e in \<open>auto simp: ok_bind intro!: respond_ok\<close>)
qed

lemma fsyncdir_call_ok:
  assumes "mt_inv k s" and "legal k s (McFsyncdir ino fh datasync)"
  shows "ok mt_panics (mt_fsyncdir fs info ino fh datasync s) (mt_post info (McFsyncdir ino fh datasync) k s)"
proof -
  obtain e where "dc_entries (directory_cache s) fh = Some e" using legal_dir [OF assms] by auto
  then show ?thesis
    unfolding mt_fsyncdir_def dcache_real_fh_def
    by (intro with_path_ok [OF assms(1)])
      (use legal_inode [OF assms(2)] assms(1) in \<open>auto intro!: respond_ok post_send\<close>)
qed

text \<open>Giving back references.\<close>

lemma mt_forget_ok:
  assumes "table_inv (inodes s)" and "counts_agree r (inodes s)" and "ino = 1 \<or> 0 < n \<and> unat n \<le> r (unat ino)"
  shows "ok {} (mt_forget ino n s) (\<lambda>s'. \<exists>it. s' = s\<lparr>inodes := it\<rparr> \<and> table_inv it \<and>
     counts_agree (r(unat ino := r (unat ino) - unat n)) it)"
proof -
  have n: "unat ino = 1 \<or> 0 < unat n \<and> unat n \<le> r (unat ino)" using assms(3) by (auto simp: unat_gt_0)
  then have "unat ino = 1 \<or> 0 < r (unat ino)" by auto
  from held_path [OF assms(1,2) this] obtain p where p: "table_get_path (unat ino) (inodes s) = Ret (Some p)" by blast
  show ?thesis
    unfolding mt_forget_def ok_bind p ok_simps
    by (rule ok_mono [OF table_forget_counts [OF assms(1,2) n]]) auto
qed

lemma mt_batch_forget_ok:
  "table_inv (inodes s) \<Longrightarrow> counts_agree r (inodes s) \<Longrightarrow> legal_forgets nodes r \<Longrightarrow>
     ok {} (mt_batch_forget nodes s) (\<lambda>s'. \<exists>it. s' = s\<lparr>inodes := it\<rparr> \<and> table_inv it \<and> counts_agree (take_back nodes r) it)"
proof (induction nodes arbitrary: s r)
  case Nil
  then show ?case by (auto intro: exI [of _ "inodes s"])
next
  case (Cons x nodes)
  obtain ino n where x: "x = (ino, n)" by (cases x)
  let ?r = "r(unat ino := r (unat ino) - unat n)"
  have "ok {} (mt_forget ino n s) (\<lambda>s'. \<exists>it. s' = s\<lparr>inodes := it\<rparr> \<and> table_inv it \<and> counts_agree ?r it)"
    using Cons.prems x by (intro mt_forget_ok) auto
  then show ?case
    unfolding x mt_batch_forget.simps ok_bind
  proof (rule ok_mono)
    fix s1
    assume "\<exists>it. s1 = s\<lparr>inodes := it\<rparr> \<and> table_inv it \<and> counts_agree ?r it"
    then obtain it where "s1 = s\<lparr>inodes := it\<rparr>" "table_inv it" "counts_agree ?r it" by blast
    with Cons.IH [of s1 ?r] Cons.prems(3) x
    show "ok {} (mt_batch_forget nodes s1) (\<lambda>s'. \<exists>it. s' = s\<lparr>inodes := it\<rparr> \<and> table_inv it \<and> counts_agree (take_back ((ino, n) # nodes) r) it)"
      by (simp del: fun_upd_apply)
  qed
qed

lemma forget_call_ok:
  assumes "mt_inv k s" and "legal_forgets nodes (refs k)" and "forgotten call = nodes"
    and "call = McForget ino n \<or> call = McBatchForget nodes"
  shows "ok mt_panics (mt_batch_forget nodes s) (mt_post info call k s)"
proof (rule ok_mono [OF ok_weaken [OF mt_batch_forget_ok]])
  show "table_inv (inodes s)" "counts_agree (refs k) (inodes s)" using assms(1) by (simp_all add: mt_inv_def)
  fix s'
  assume "\<exists>it. s' = s\<lparr>inodes := it\<rparr> \<and> table_inv it \<and> counts_agree (take_back nodes (refs k)) it"
  moreover have "opened call [] = {}" "closed call = {}" "reply_due info call = {#}" using assms(4) by auto
  ultimately show "mt_post info call k s s'"
    using assms(1,3) by (auto simp: mt_post_def mt_inv_def kernel_after_def)
qed (use assms(2) in auto)

text \<open>The calls that ask the file system once and pass its answer on, and those that create an entry.\<close>

lemma simple_call_ok:
  assumes "mt_inv k s" and "ino = 1 \<or> 0 < refs k (unat ino)" and "plain call" and "\<not> is_opendir call"
    and "\<And>p x. entry_inode (f p x) = None"
  shows "ok mt_panics (with_path info ino (\<lambda>p. respond info (m p) (finish info (f p))) s) (mt_post info call k s)"
  by (intro with_path_ok [OF assms(1,2)] respond_ok) (simp_all add: post_send assms)

lemma entry_call_ok:
  assumes "mt_inv k s" and "ino = 1 \<or> 0 < refs k (unat ino)" and "plain call" and "\<not> is_opendir call"
    and "length (table (inodes s)) + 1 < 2 ^ 64"
  shows "ok mt_panics (with_path info ino (\<lambda>p. respond info (m p) (add_entry info (q p))) s) (mt_post info call k s)"
  by (intro with_path_ok [OF assms(1,2)] respond_ok add_entry_ok) (simp_all add: post_send assms [simplified])

lemma link_call_ok:
  assumes "mt_inv k s" and "legal k s (McLink ino newparent newname)"
  shows "ok mt_panics (mt_link fs info ino newparent newname s) (mt_post info (McLink ino newparent newname) k s)"
  unfolding mt_link_def
  by (rule with_path_ok [OF assms(1)], use legal_inode [OF assms(2)] in simp, rule entry_call_ok [OF assms(1)])
    (use legal_inode [OF assms(2)] legal_room [OF assms(2)] in simp_all)

lemma setattr_call_ok:
  assumes "mt_inv k s" and "legal k s (McSetattr now ino a)"
  shows "ok mt_panics (mt_setattr fs info now ino a s) (mt_post info (McSetattr now ino a) k s)"
  unfolding mt_setattr_def
  by (intro with_path_ok [OF assms(1)] setattr_step_ok respond_ok)
    (use legal_inode [OF assms(2)] in \<open>simp_all add: post_send assms(1) split: prod.split\<close>)

lemma statfs_call_ok:
  assumes "mt_inv k s" and "legal k s (McStatfs ino)"
  shows "ok mt_panics (mt_statfs fs info ino s) (mt_post info (McStatfs ino) k s)"
proof (cases "ino = 1")
  case True
  then show ?thesis unfolding mt_statfs_def by (simp add: respond_ok post_send assms(1))
next
  case False
  show ?thesis
    unfolding mt_statfs_def Let_def if_not_P [OF False]
    by (rule simple_call_ok [OF assms(1)]) (use legal_inode [OF assms(2)] in simp_all)
qed

lemma read_write_call_ok:
  assumes "mt_inv k s"
  shows "legal k s (McRead ino fh offset sz) \<Longrightarrow>
      ok mt_panics (mt_read fs info ino fh offset sz s) (mt_post info (McRead ino fh offset sz) k s)"
    and "legal k s (McWrite ino fh offset buf flags) \<Longrightarrow>
      ok mt_panics (mt_write fs info ino fh offset buf flags s) (mt_post info (McWrite ino fh offset buf flags) k s)"
  unfolding mt_read_def mt_write_def
  by (rule with_path_ok [OF assms],
      (use legal_inode in force, simp add: post_send assms threadpool_run_ok))+

lemma pool_call_ok:
  assumes "mt_inv k s" and "ino = 1 \<or> 0 < refs k (unat ino)" and "plain call" and "\<not> is_opendir call"
    and "\<And>p. job_info (j p) = info"
  shows "ok mt_panics (with_path info ino (\<lambda>p. threadpool_run fs (j p)) s) (mt_post info call k s)"
  by (rule with_path_ok [OF assms(1,2)], rule threadpool_run_ok) (simp_all add: assms)

lemmas special_call_ok =
  lookup_call_ok create_call_ok rename_call_ok unlink_call_ok link_call_ok setattr_call_ok statfs_call_ok
  read_write_call_ok opendir_call_ok readdir_call_ok releasedir_call_ok fsyncdir_call_ok

lemma xattr_reply_no_entry [simp]: "entry_inode (xattr_reply x) = None"
  by (cases x) simp_all

lemma mt_handle_ok:
  assumes "mt_inv k s" and "legal k s call"
  shows "ok mt_panics (mt_handle fs info call s) (mt_post info call k s)"
proof -
  note inodes = legal_inode [OF assms(2)] and room = legal_room [OF assms(2)]
  show ?thesis
  proof (cases call)
    case (McForget ino n)
    have "mt_forget ino n s = mt_batch_forget [(ino, n)] s" by (cases "mt_forget ino n s") simp_all
    with McForget show ?thesis using assms forget_call_ok [OF assms(1), of "[(ino, n)]" call ino n info] by (simp add: legal_def)
  next
    case (McBatchForget nodes)
    then show ?thesis using assms forget_call_ok [OF assms(1), of nodes call] by (simp add: legal_def)
  qed (use assms inodes room in \<open>simp_all add: special_call_ok\<close>,
      simp_all only: mt_defs,
      (rule simple_call_ok entry_call_ok pool_call_ok; simp split: prod.split)+)
qed

section \<open>Runs\<close>

text \<open>A worker of the pool answers a waiting request.\<close>

lemma respond_finish:
  assumes "\<And>x. entry_inode (f x) = None"
  shows "\<exists>t r. entry_inode r = None \<and> respond info m (finish info f) s = Ret (send info r (s\<lparr>target := t\<rparr>))"
proof (cases "m (target s)")
  case (Pair a t)
  show ?thesis
  proof (cases a)
    case (Inl e)
    with Pair have "respond info m (finish info f) s = Ret (send info (MtError e) (s\<lparr>target := t\<rparr>))" by (simp add: respond_def)
    then show ?thesis by (metis entry_inode.simps(3))
  next
    case (Inr x)
    with Pair have "respond info m (finish info f) s = Ret (send info (f x) (s\<lparr>target := t\<rparr>))"
      by (simp add: respond_def finish_def)
    then show ?thesis using assms by blast
  qed
qed

lemma pool_run_ok:
  assumes "i < length (pool_jobs s)"
  obtains t r where "entry_inode r = None"
    "pool_run fs i s = Ret (send (job_info (pool_jobs s ! i)) r
       (s\<lparr>threads := Some (take i (pool_jobs s) @ drop (Suc i) (pool_jobs s)), target := t\<rparr>))"
proof -
  let ?s = "s\<lparr>threads := Some (take i (pool_jobs s) @ drop (Suc i) (pool_jobs s))\<rparr>"
  have "\<exists>t r. entry_inode r = None \<and> run_job fs j ?s = Ret (send (job_info j) r (?s\<lparr>target := t\<rparr>))" for j
    by (cases j) (simp_all add: respond_finish)
  then obtain t r where "entry_inode r = None"
      "run_job fs (pool_jobs s ! i) ?s = Ret (send (job_info (pool_jobs s ! i)) r (?s\<lparr>target := t\<rparr>))" by blast
  then show ?thesis using assms that by (simp add: pool_run_def)
qed

lemma mset_remove_nth:
  "i < length xs \<Longrightarrow> add_mset (f (xs ! i)) (mset (map f (take i xs @ drop (Suc i) xs))) = mset (map f xs)"
  using arg_cong [OF id_take_nth_drop, of i xs "\<lambda>ys. mset (map f ys)"] by simp

lemma pool_run_inv:
  assumes "mt_inv k s" and "pool_run fs i s = Ret s'"
  shows "mt_inv k s' \<and> taken_up s' = taken_up s"
proof (cases "i < length (pool_jobs s)")
  case True
  from True assms(2) obtain t r where
    s': "s' = send (job_info (pool_jobs s ! i)) r (s\<lparr>threads := Some (take i (pool_jobs s) @ drop (Suc i) (pool_jobs s)), target := t\<rparr>)"
    using pool_run_ok [OF True, of fs] by (metis outcome.inject(1))
  have "num_threads s \<noteq> 0" using assms(1) True by (auto simp: mt_inv_def pool_jobs_def)
  then have "mt_inv k s'" using assms(1) s' by (simp add: mt_inv_def)
  moreover have "taken_up s' = taken_up s"
    using s' mset_remove_nth [OF True, of "\<lambda>j. ri_unique (job_info j)"] by (simp add: taken_up_def)
  ultimately show ?thesis ..
qed (use assms in \<open>simp add: pool_run_def\<close>)

text \<open>
  The states that are reached by calls of the kernel and workers of the pool, with the references of the
  kernel and the requests that want an answer.
\<close>

inductive mt_reach :: "'s filesystem_mt \<Rightarrow> mt_kernel \<Rightarrow> u64 multiset \<Rightarrow> 's fuse_mt \<Rightarrow> bool" for fs where
  start: "mt_reach fs mt_kernel_new {#} (fuse_mt_new target_fs n)"
| call: "mt_reach fs k us s \<Longrightarrow> legal k s call \<Longrightarrow> mt_handle fs info call s = Ret s' \<Longrightarrow> sent s' = sent s @ new \<Longrightarrow>
     mt_reach fs (kernel_after call new k) (us + reply_due info call) s'"
| worker: "mt_reach fs k us s \<Longrightarrow> pool_run fs i s = Ret s' \<Longrightarrow> mt_reach fs k us s'"

lemma mt_inv_new: "mt_inv mt_kernel_new (fuse_mt_new target_fs n)"
  using table_inv_new(1)
  by (auto simp: mt_inv_def mt_kernel_new_def fuse_mt_new_def counts_agree_def inode_table_new_def dcache_new_def)

lemma mt_reach_inv: "mt_reach fs k us s \<Longrightarrow> mt_inv k s \<and> taken_up s = us"
proof (induction rule: mt_reach.induct)
  case (start target_fs n)
  show ?case using mt_inv_new by (simp add: taken_up_def fuse_mt_new_def pool_jobs_def)
next
  case (call k us s cl info s' new)
  then have "mt_post info cl k s s'" using mt_handle_ok [of k s cl fs info] by simp
  with call show ?case by (auto simp: mt_post_def)
next
  case (worker k us s i s')
  then show ?case using pool_run_inv by blast
qed

text \<open>The workers of the pool can run until nothing waits.\<close>

fun pool_drain :: "'s filesystem_mt \<Rightarrow> nat \<Rightarrow> 's fuse_mt \<Rightarrow> 's fuse_mt outcome" where
  "pool_drain fs 0 s = Ret s"
| "pool_drain fs (Suc n) s = bind_outcome (pool_run fs 0 s) (pool_drain fs n)"

lemma pool_drain_empty:
  "\<exists>s'. pool_drain fs (length (pool_jobs s)) s = Ret s' \<and> pool_jobs s' = []"
proof (induction "length (pool_jobs s)" arbitrary: s)
  case (Suc n)
  have "0 < length (pool_jobs s)" using Suc(2) by (metis zero_less_Suc)
  then obtain t r where "pool_run fs 0 s = Ret (send (job_info (pool_jobs s ! 0)) r
      (s\<lparr>threads := Some (take 0 (pool_jobs s) @ drop (Suc 0) (pool_jobs s)), target := t\<rparr>))"
    by (rule pool_run_ok)
  then have run: "pool_run fs 0 s = Ret (send (job_info (pool_jobs s ! 0)) r (s\<lparr>threads := Some (drop 1 (pool_jobs s)), target := t\<rparr>))"
    by simp
  let ?s = "send (job_info (pool_jobs s ! 0)) r (s\<lparr>threads := Some (drop 1 (pool_jobs s)), target := t\<rparr>)"
  have jobs: "pool_jobs ?s = drop 1 (pool_jobs s)" by simp
  then have n: "n = length (pool_jobs ?s)" using Suc(2) by simp
  from Suc(1) [OF n] obtain s' where "pool_drain fs n ?s = Ret s' \<and> pool_jobs s' = []" unfolding n by blast
  then show ?case unfolding Suc(2) [symmetric] pool_drain.simps run bind_outcome.simps by blast
qed simp

lemma pool_drain_inv:
  "pool_drain fs n s = Ret s' \<Longrightarrow> mt_inv k s \<Longrightarrow> mt_inv k s' \<and> taken_up s' = taken_up s"
proof (induction n arbitrary: s)
  case (Suc n)
  then obtain s1 where "pool_run fs 0 s = Ret s1" "pool_drain fs n s1 = Ret s'" by (auto elim: bind_outcome_RetE)
  with Suc pool_run_inv show ?case by metis
qed simp

end
