(* ===== verification/Fuse_Mt_Props.thy ===== *)
theory Fuse_Mt_Props
  imports Fuse_Mt_Inv
begin

text \<open>
  The properties of the adapter: its lookup counts are the kernel's references, every request is answered
  once, a directory is listed completely whatever the size of the buffer, and two ways in which the table
  of paths goes wrong.
\<close>

section \<open>Listings\<close>

text \<open>The entries the kernel is to see, numbered from an index on.\<close>

fun listed :: "u64 \<Rightarrow> u64 \<Rightarrow> nat \<Rightarrow> directory_entry list \<Rightarrow> dir_entry list" where
  "listed ino pino n [] = []"
| "listed ino pino n (x # xs) =
     \<lparr>de_ino = (if path_is (den_name x) [46] then ino else if path_is (den_name x) [46, 46] then pino else NOT 1),
      de_offset = of_nat (n + 1), de_kind = den_kind x, de_name = den_name x\<rparr> # listed ino pino (n + 1) xs"

lemma length_listed [simp]: "length (listed ino pino n xs) = length xs"
  by (induction xs arbitrary: n) simp_all

lemma listed_drop: "drop m (listed ino pino n xs) = listed ino pino (n + m) (drop m xs)"
  by (induction xs arbitrary: n m) (auto simp: drop_Cons split: nat.split)

lemma names_listed: "map de_name (listed ino pino n xs) = map den_name xs"
  by (induction xs arbitrary: n) simp_all

lemma offset_listed: "i < length xs \<Longrightarrow> de_offset (listed ino pino n xs ! i) = of_nat (n + i + 1)"
  by (induction xs arbitrary: n i) (auto simp: nth_Cons split: nat.split)

lemma sint_of_nat_i64: "n < 2 ^ 63 \<Longrightarrow> sint (of_nat n :: i64) = int n"
  using sint_of_int_i64 [of "int n"] by (simp add: in_i64_def)

text \<open>A page holds the longest prefix that fits.\<close>

lemma readdir_fill_prefix:
  assumes "\<And>x. x \<in> set es \<Longrightarrow> length (den_name x) < 2 ^ 32" and "n + index + length es < 2 ^ 63"
  shows "\<exists>m \<le> length es. readdir_fill ino pino (of_nat n) index es l =
       Ret (l\<lparr>ent_buf := ent_buf l @ concat (map dirent_bytes (take m (listed ino pino (n + index) es)))\<rparr>) \<and>
     (es \<noteq> [] \<longrightarrow> length (ent_buf l) + length (dirent_bytes (hd (listed ino pino (n + index) es))) \<le> max_size l \<longrightarrow> 0 < m)"
  using assms
proof (induction es arbitrary: index l)
  case (Cons x es)
  let ?d = "hd (listed ino pino (n + index) (x # es))"
  have len: "length (de_name ?d) < 2 ^ 32" using Cons.prems(1) by simp
  have range: "in_i64 (sint (of_nat n :: i64) + int index + 1)"
    using Cons.prems(2) sint_of_nat_i64 [of n] by (simp add: in_i64_def)
  have d: "\<lparr>de_ino = (if path_is (den_name x) [46] then ino else if path_is (den_name x) [46, 46] then pino else NOT 1),
      de_offset = of_nat n + of_nat index + 1, de_kind = den_kind x, de_name = den_name x\<rparr> = ?d" by (simp add: ac_simps)
  show ?case
  proof (cases "max_size l < length (ent_buf l) + length (dirent_bytes ?d)")
    case True
    then have "readdir_fill ino pino (of_nat n) index (x # es) l = Ret l"
      using range unfolding readdir_fill.simps Let_def d dir_list_push_eq [OF len] by simp
    with True show ?thesis by (intro exI [of _ 0]) auto
  next
    case False
    let ?l = "l\<lparr>ent_buf := ent_buf l @ dirent_bytes ?d\<rparr>"
    have step: "readdir_fill ino pino (of_nat n) index (x # es) l = readdir_fill ino pino (of_nat n) (index + 1) es ?l"
      using range False unfolding readdir_fill.simps Let_def d dir_list_push_eq [OF len] by simp
    obtain m where m: "m \<le> length es" "readdir_fill ino pino (of_nat n) (index + 1) es ?l =
        Ret (?l\<lparr>ent_buf := ent_buf ?l @ concat (map dirent_bytes (take m (listed ino pino (n + (index + 1)) es)))\<rparr>)"
      using Cons.IH [of "index + 1" ?l] Cons.prems by auto
    show ?thesis
      unfolding step m(2) using m(1) by (intro exI [of _ "Suc m"]) (simp add: ac_simps)
  qed
qed auto

text \<open>The entries of a page, as the kernel reads them, and the state after it.\<close>

definition page_of :: "ent_list_buf \<Rightarrow> (fuse_dirent \<times> bytes) list" where
  "page_of l = read_entries dirent_layout dirent_namelen (ent_buf l)"

definition as_read :: "dir_entry \<Rightarrow> fuse_dirent \<times> bytes" where
  "as_read e = (dirent_of e, de_name e)"

lemma page_of_entries:
  assumes "\<And>e. e \<in> set ds \<Longrightarrow> length (de_name e) < 2 ^ 32"
  shows "page_of (l\<lparr>ent_buf := concat (map dirent_bytes ds)\<rparr>) = map as_read ds"
  using assms dirent.read_entries_concat [of ds dirent_namelen dirent_of de_name]
  by (auto simp: page_of_def as_read_def dirent_of_def)

text \<open>What the listing of a directory needs: its path and its parent are known, and every entry fits.\<close>

definition listable :: "nat \<Rightarrow> directory_entry list \<Rightarrow> bool" where
  "listable sz es \<longleftrightarrow> length es < 2 ^ 63 \<and>
     (\<forall>x \<in> set es. length (den_name x) < 2 ^ 32 \<and> (24 + length (den_name x) + 7) div 8 * 8 \<le> sz)"

lemma length_dirent_bytes: "length (dirent_bytes e) = (24 + length (de_name e) + 7) div 8 * 8"
  by (simp add: length_ent_bytes dirent.length_as_bytes)

lemma unat_of_nat_i64: "n < 2 ^ 63 \<Longrightarrow> unat (of_nat n :: i64) = n"
  by (simp add: unat_of_nat take_bit_nat_eq_self)

lemma readdir_page:
  assumes "table_get_path (unat ino) (inodes s) = Ret (Some p)" and "parent_inode_of ino p (inodes s) = Ret (Some pino)"
    and "dc_entries (directory_cache s) fh = Some e" and "dce_entries e = Some es" and "listable sz es" and "n \<le> length es"
  shows "\<exists>l m. mt_readdir fs info ino fh (of_nat n) sz s = Ret (send info (MtDirectory l) s) \<and>
     page_of l = map as_read (take m (drop n (listed ino pino 0 es))) \<and> n + m \<le> length es \<and> (n < length es \<longrightarrow> 0 < m)"
proof -
  have len: "length es < 2 ^ 63" and names: "\<And>x. x \<in> set es \<Longrightarrow> length (den_name x) < 2 ^ 32"
    and fits: "\<And>x. x \<in> set es \<Longrightarrow> (24 + length (den_name x) + 7) div 8 * 8 \<le> sz"
    using assms(5) by (auto simp: listable_def)
  let ?es = "drop n es" and ?ds = "drop n (listed ino pino 0 es)"
  have ds: "?ds = listed ino pino (n + 0) ?es" by (simp add: listed_drop)
  obtain m where m: "m \<le> length ?es" "readdir_fill ino pino (of_nat n) 0 ?es (ent_list_new sz) =
        Ret (ent_list_new sz\<lparr>ent_buf := [] @ concat (map dirent_bytes (take m ?ds))\<rparr>)"
      "?es \<noteq> [] \<Longrightarrow> length (dirent_bytes (hd ?ds)) \<le> sz \<Longrightarrow> 0 < m"
    using readdir_fill_prefix [of ?es n 0 ino pino "ent_list_new sz"] names len assms(6)
    unfolding ds by (auto simp: ent_list_new_def dest: in_set_dropD)
  let ?l = "ent_list_new sz\<lparr>ent_buf := concat (map dirent_bytes (take m ?ds))\<rparr>"
  have hd_name: "de_name (hd ?ds) = den_name (hd ?es)" if "?es \<noteq> []" unfolding ds using that by (cases ?es) auto
  have pos: "0 < m" if "n < length es"
  proof (rule m(3))
    show es: "?es \<noteq> []" using that by simp
    then have "hd ?es \<in> set es" using hd_in_set in_set_dropD by metis
    then show "length (dirent_bytes (hd ?ds)) \<le> sz"
      using fits [of "hd ?es"] length_dirent_bytes [of "hd ?ds"] unfolding hd_name [OF es] by simp
  qed
  have "length (de_name d) < 2 ^ 32" if "d \<in> set (take m ?ds)" for d
    using that names arg_cong [OF names_listed [of ino pino 0 es], of set] in_set_takeD in_set_dropD
    by (metis (no_types, lifting) imageE image_eqI list.set_map)
  then have page: "page_of ?l = map as_read (take m ?ds)" by (rule page_of_entries)
  have "length (ent_buf ?l) \<le> max_size ?l"
    using readdir_fill_ok [of "ent_list_new sz" ino pino "of_nat n" 0 ?es] m(2) by (simp add: ent_list_new_def)
  then have "readdir_list info ino p (of_nat n) sz es s = Ret (send info (MtDirectory ?l) s)"
    using m(2) assms(2,6) len unat_of_nat_i64 [of n] by (simp add: readdir_list_def new_directory_def)
  moreover have "\<not> sint (of_nat n :: i64) < 0" using sint_of_nat_i64 [of n] assms(6) len by simp
  ultimately have "mt_readdir fs info ino fh (of_nat n) sz s = Ret (send info (MtDirectory ?l) s)"
    using assms(1,3,4) by (simp add: mt_readdir_def with_path_def dcache_get_mut_def)
  with page m(1) pos assms(6) show ?thesis by (intro exI [of _ ?l] exI [of _ m]) auto
qed

text \<open>
  The kernel reads a directory: it asks from the offset of the last entry it was given, until it gets an
  empty page.
\<close>

fun list_dir ::
    "'s filesystem_mt \<Rightarrow> request_info \<Rightarrow> u64 \<Rightarrow> u64 \<Rightarrow> nat \<Rightarrow> nat \<Rightarrow> i64 \<Rightarrow> 's fuse_mt \<Rightarrow>
     ((fuse_dirent \<times> bytes) list \<times> 's fuse_mt) option" where
  "list_dir fs info ino fh sz 0 offset s = None"
| "list_dir fs info ino fh sz (Suc fuel) offset s =
     (case mt_readdir fs info ino fh offset sz s of
        Ret s1 \<Rightarrow>
          (case snd (last (sent s1)) of
             MtDirectory l \<Rightarrow>
               if page_of l = [] then Some ([], s1)
               else map_option (\<lambda>(rest, s2). (page_of l @ rest, s2))
                      (list_dir fs info ino fh sz fuel (dirent_off (fst (last (page_of l)))) s1)
           | _ \<Rightarrow> None)
      | _ \<Rightarrow> None)"

lemma last_offset:
  assumes "0 < m" and "n + m \<le> length es"
  shows "dirent_off (fst (last (map as_read (take m (drop n (listed ino pino 0 es)))))) = of_nat (n + m)"
proof -
  have "last (take m (drop n (listed ino pino 0 es))) = listed ino pino 0 es ! (n + m - 1)"
    using assms by (subst last_conv_nth) (auto simp: min_def intro: arg_cong [of _ _ "(!) _"])
  then show ?thesis
    using assms offset_listed [of "n + m - 1" es ino pino 0] by (subst last_map) (auto simp: as_read_def dirent_of_def)
qed

lemma list_dir_from:
  assumes "table_get_path (unat ino) (inodes s) = Ret (Some p)" and "parent_inode_of ino p (inodes s) = Ret (Some pino)"
    and "dc_entries (directory_cache s) fh = Some e" and "dce_entries e = Some es" and "listable sz es" and "n \<le> length es"
    and "length es - n < fuel"
  shows "\<exists>s'. list_dir fs info ino fh sz fuel (of_nat n) s = Some (map as_read (drop n (listed ino pino 0 es)), s') \<and> target s' = target s"
  using assms
proof (induction fuel arbitrary: n s)
  case (Suc fuel)
  obtain l m where page: "mt_readdir fs info ino fh (of_nat n) sz s = Ret (send info (MtDirectory l) s)"
      "page_of l = map as_read (take m (drop n (listed ino pino 0 es)))" and m: "n + m \<le> length es" "n < length es \<longrightarrow> 0 < m"
    using readdir_page [OF Suc.prems(1-6)] by blast
  let ?s = "send info (MtDirectory l) s"
  show ?case
  proof (cases "n = length es")
    case True
    then show ?thesis using page by simp
  next
    case False
    then have "0 < m" using m(2) Suc.prems(6) by simp
    then have "length es - (n + m) < fuel" using Suc.prems(7) m(1) False Suc.prems(6) by linarith
    then obtain s' where rest: "list_dir fs info ino fh sz fuel (of_nat (n + m)) ?s =
        Some (map as_read (drop (n + m) (listed ino pino 0 es)), s')" "target s' = target s"
      using Suc.IH [of ?s "n + m"] Suc.prems m(1) by auto
    have "page_of l \<noteq> []" using page(2) \<open>0 < m\<close> False Suc.prems(6) by simp
    moreover have "dirent_off (fst (last (page_of l))) = of_nat (n + m)" unfolding page(2) by (rule last_offset [OF \<open>0 < m\<close> m(1)])
    moreover have "take m (drop n xs) @ drop (n + m) xs = drop n xs" for xs :: "dir_entry list"
      by (metis append_take_drop_id drop_drop add.commute)
    ultimately show ?thesis using page rest by (simp flip: map_append)
  qed
qed simp

text \<open>Reading from a directory that was not read before fetches its entries once.\<close>

lemma list_dir_fetch:
  assumes "table_get_path (unat ino) (inodes s) = Ret (Some p)" and "dc_entries (directory_cache s) fh = Some e"
    and "dce_entries e = None" and "t_readdir fs info p (dce_fh e) (target s) = (Inr es, t)" and "0 \<le> sint offset"
    and "s1 = s\<lparr>target := t, directory_cache := (directory_cache s)\<lparr>dc_entries := (dc_entries (directory_cache s))(fh \<mapsto> e\<lparr>dce_entries := Some es\<rparr>)\<rparr>\<rparr>"
  shows "list_dir fs info ino fh sz (Suc fuel) offset s = list_dir fs info ino fh sz (Suc fuel) offset s1"
proof -
  have "mt_readdir fs info ino fh offset sz s = mt_readdir fs info ino fh offset sz s1"
    using assms by (simp add: mt_readdir_def with_path_def dcache_get_mut_def respond_def Let_def)
  then show ?thesis by simp
qed

section \<open>Paths that are removed and made again\<close>

text \<open>What adding a path does to the table.\<close>

lemma get_inode_entry_cases:
  assumes "table_inv t" and "get_inode_entry t = Ret (k, e, t1)"
  obtains (fresh) "k = length (table t) + 1" "table t1 = table t @ [e]"
    | (reused) "k - 1 < length (table t)" "1 < k" "entry_path (table t ! (k - 1)) = None" "table t1 = (table t)[k - 1 := e]"
proof (cases "free_list t")
  case Nil
  with assms(2) show ?thesis by (intro fresh) (auto simp: get_inode_entry_def Let_def)
next
  case (Cons i rest)
  then have i: "0 < i" "i < length (table t)" using assms(1) by (auto simp: table_inv_def)
  with table_inv_free [OF assms(1) i(2)] Cons have "entry_path (table t ! i) = None" by simp
  moreover have "k = i + 1" "table t1 = (table t)[i := e]"
    using assms(2) Cons i by (auto simp: get_inode_entry_def Let_def checked_add_def split: if_splits)
  ultimately show ?thesis using i by (intro reused) simp_all
qed

lemma table_add_effect:
  assumes "table_inv t" and "table_add q t = Ret ((k, g), t')"
  shows "1 < k" "k \<le> length (table t')" "length (table t') \<le> length (table t) + 1" "by_path t' q = Some (k - 1)"
    "entry_path (table t' ! (k - 1)) = Some q" "entry_lookups (table t' ! (k - 1)) = 1"
    "\<And>i. i < length (table t) \<Longrightarrow> entry_path (table t ! i) \<noteq> None \<Longrightarrow> i \<noteq> k - 1 \<and> i < length (table t') \<and> table t' ! i = table t ! i"
proof -
  obtain e t1 where g: "get_inode_entry t = Ret (k, e, t1)"
    and t': "t' = t1\<lparr>table := (table t1)[k - 1 := e\<lparr>entry_path := Some q, entry_lookups := 1\<rparr>], by_path := (by_path t1)(q \<mapsto> k - 1)\<rparr>"
    using assms(2) by (auto simp: table_add_def Let_def elim!: bind_outcome_RetE split: option.splits)
  show "1 < k" "k \<le> length (table t')" "length (table t') \<le> length (table t) + 1" "by_path t' q = Some (k - 1)"
    "entry_path (table t' ! (k - 1)) = Some q" "entry_lookups (table t' ! (k - 1)) = 1"
    "\<And>i. i < length (table t) \<Longrightarrow> entry_path (table t ! i) \<noteq> None \<Longrightarrow> i \<noteq> k - 1 \<and> i < length (table t') \<and> table t' ! i = table t ! i"
    using table_inv_nonempty [OF assms(1)] unfolding t'
    by (cases rule: get_inode_entry_cases [OF assms(1) g], auto simp: nth_append nth_list_update)+
qed

lemma get_path_iff: "table_get_path ino t = Ret (Some p) \<longleftrightarrow> (\<exists>i < length (table t). ino = i + 1 \<and> entry_path (table t ! i) = Some p)"
  by (cases ino) (auto simp: table_get_path_def entry_at_def usize_sub_def)

lemma table_add_keeps:
  assumes "table_inv t" and "table_add q t = Ret ((k, g), t')" and "table_get_path ino t = Ret (Some p)"
  shows "table_get_path ino t' = Ret (Some p)"
  using table_add_effect(7) [OF assms(1,2)] assms(3) by (fastforce simp: get_path_iff)

lemma table_add_twice: "by_path t q = Some i \<Longrightarrow> \<exists>m. table_add q t = Panic m"
  by (cases "get_inode_entry t")
    (auto simp: table_add_def get_inode_entry_def checked_add_def Let_def split: list.splits if_splits)

text \<open>A file or directory that is made with success gets its entry by adding its path.\<close>

lemma mt_create_effect:
  assumes "mt_create fs info parent name mode flags s = Ret s'" and "table_get_path (unat parent) (inodes s) = Ret (Some p)"
    and "entry_inode (snd (last (sent s'))) = Some a"
  obtains k g where "table_add (path_join p name) (inodes s) = Ret ((k, g), inodes s')" "a = unat (of_nat k :: u64)"
  using assms
  by (auto simp: mt_create_def with_path_def respond_def fuse_fileattr_def split: prod.splits sum.splits elim!: bind_outcome_RetE)

lemma mkdir_effect:
  assumes "mt_mkdir fs info parent name mode s = Ret s'" and "table_get_path (unat parent) (inodes s) = Ret (Some p)"
    and "t_mkdir fs info p name mode (target s) = (Inr x, t)"
  obtains k g where "table_add (path_join p name) (inodes s) = Ret ((k, g), inodes s')"
  using assms by (auto simp: mt_mkdir_def with_path_def respond_def add_entry_def split: prod.splits elim!: bind_outcome_RetE)

lemma rmdir_effect: "mt_rmdir fs info parent name s = Ret s' \<Longrightarrow> inodes s' = inodes s"
  by (auto simp: mt_rmdir_def with_path_def respond_def finish_def split: prod.splits sum.splits option.splits elim!: bind_outcome_RetE)

lemma unlink_effect:
  assumes "mt_unlink fs info parent name s = Ret s'" and "table_get_path (unat parent) (inodes s) = Ret (Some p)"
    and "snd (last (sent s')) = MtOk"
  shows "inodes s' = table_unlink (path_join p name) (inodes s)"
  using assms by (auto simp: mt_unlink_def with_path_def respond_def finish_def split: prod.splits sum.splits)

section \<open>Properties\<close>


text \<open>
  C33. Every request is answered once: the identifiers of the replies that were sent and of the jobs that
  wait in the pool are those of the requests that want an answer. Without threads nothing waits, and in any
  state the workers can run all waiting jobs, after which every request has its one answer.
\<close>

theorem mt_answers_once:
  assumes "mt_reach fs k us s"
  shows "mset (map fst (sent s)) + mset (map (\<lambda>j. ri_unique (job_info j)) (pool_jobs s)) = us \<and>
    (num_threads s = 0 \<longrightarrow> pool_jobs s = []) \<and>
    (\<exists>s'. pool_drain fs (length (pool_jobs s)) s = Ret s' \<and> pool_jobs s' = [] \<and> mset (map fst (sent s')) = us)"
proof -
  have inv: "mt_inv k s" "taken_up s = us" using mt_reach_inv [OF assms] by simp_all
  obtain s' where s': "pool_drain fs (length (pool_jobs s)) s = Ret s'" "pool_jobs s' = []" using pool_drain_empty by blast
  with pool_drain_inv [OF s'(1) inv(1)] inv(2) have "mset (map fst (sent s')) = us" by (simp add: taken_up_def)
  moreover have "num_threads s = 0 \<longrightarrow> pool_jobs s = []" using inv(1) by (auto simp: mt_inv_def pool_jobs_def)
  ultimately show ?thesis using inv(2) s' by (auto simp: taken_up_def)
qed


text \<open>
  Removing a directory leaves its path in the table, unlike removing a file: when a directory was made and
  removed and the file system makes one with the same name again, before the kernel gave back its reference
  on the old one, the adapter panics.
\<close>

lemma mt_mkdir_again_panics:
  assumes "mt_reach fs k us s" and "table_get_path (unat parent) (inodes s) = Ret (Some p)"
    and "t_mkdir fs info p name mode (target s) = (Inr x, t)" and "mt_mkdir fs info parent name mode s = Ret s1"
    and "mt_rmdir fs info1 parent name s1 = Ret s2"
    and "t_mkdir fs info2 p name mode2 (target s2) = (Inr x2, t2)"
  shows "\<exists>m. mt_mkdir fs info2 parent name mode2 s2 = Panic m"
proof -
  have inv: "table_inv (inodes s)" using mt_reach_inv [OF assms(1)] by (simp add: mt_inv_def)
  obtain k g where add: "table_add (path_join p name) (inodes s) = Ret ((k, g), inodes s1)"
    using mkdir_effect [OF assms(4,2,3)] by blast
  have "table_get_path (unat parent) (inodes s2) = Ret (Some p)"
    using table_add_keeps [OF inv add assms(2)] rmdir_effect [OF assms(5)] by simp
  moreover obtain m where "table_add (path_join p name) (inodes s2) = Panic m"
    using table_add_twice table_add_effect(4) [OF inv add] rmdir_effect [OF assms(5)] by metis
  ultimately show ?thesis
    using assms(6) by (auto simp: mt_mkdir_def with_path_def respond_def add_entry_def split: prod.split)
qed

text \<open>
  C35. When a file is removed and made again while the kernel still holds the old inode number, and the kernel
  then gives that number back, the path of the new file is lost: its number still leads to the path, but the
  path to no number, and renaming the file panics after the file system has renamed it.
\<close>

theorem mt_recreated_file_lost:
  assumes "mt_reach fs k us s" and "length (table (inodes s)) + 2 < 2 ^ 64"
    and "table_get_path (unat parent) (inodes s) = Ret (Some p)"
    and "mt_create fs info1 parent name mode1 flags1 s = Ret s1" and "entry_inode (snd (last (sent s1))) = Some a"
    and "mt_unlink fs info2 parent name s1 = Ret s2" and "snd (last (sent s2)) = MtOk"
    and "mt_create fs info3 parent name mode3 flags3 s2 = Ret s3" and "entry_inode (snd (last (sent s3))) = Some b"
    and "mt_forget (of_nat a) 1 s3 = Ret s4"
  shows "a \<noteq> b \<and> table_get_path b (inodes s4) = Ret (Some (path_join p name)) \<and>
    table_get_inode (path_join p name) (inodes s4) = None \<and>
    (t_rename fs info4 p name p newname (target s4) = (Inr (), t) \<longrightarrow>
     mt_rename fs info4 parent name parent newname s4 = Panic ''called unwrap on a None value'')"
proof -
  let ?q = "path_join p name"
  have inv: "table_inv (inodes s)" using mt_reach_inv [OF assms(1)] by (simp add: mt_inv_def)
  obtain ka ga where add1: "table_add ?q (inodes s) = Ret ((ka, ga), inodes s1)" "a = unat (of_nat ka :: u64)"
    using mt_create_effect [OF assms(4,3,5)] .
  have inv1: "table_inv (inodes s1)" using table_add_ok [OF add1(1) inv handed_out_Nil] by simp
  note e1 = table_add_effect [OF inv add1(1)]
  have a: "a = ka" using e1(2,3) assms(2) add1(2) by (simp add: unat_of_nat take_bit_nat_eq_self)
  have p1: "table_get_path (unat parent) (inodes s1) = Ret (Some p)" by (rule table_add_keeps [OF inv add1(1) assms(3)])
  have s2: "inodes s2 = table_unlink ?q (inodes s1)" by (rule unlink_effect [OF assms(6) p1 assms(7)])
  then have same: "table (inodes s2) = table (inodes s1)" by (simp add: table_unlink_def)
  have inv2: "table_inv (inodes s2)" using table_unlink_ok [OF inv1 handed_out_Nil] s2 by simp
  have p2: "table_get_path (unat parent) (inodes s2) = Ret (Some p)" using p1 same by (simp add: get_path_iff)
  obtain kb gb where add2: "table_add ?q (inodes s2) = Ret ((kb, gb), inodes s3)" "b = unat (of_nat kb :: u64)"
    using mt_create_effect [OF assms(8) p2 assms(9)] .
  note e2 = table_add_effect [OF inv2 add2(1)]
  have b: "b = kb" using e1(3) e2(2,3) assms(2) add2(2) same by (simp add: unat_of_nat take_bit_nat_eq_self)
  have old: "ka - 1 \<noteq> kb - 1" "ka - 1 < length (table (inodes s3))" "entry_path (table (inodes s3) ! (ka - 1)) = Some ?q"
      "entry_lookups (table (inodes s3) ! (ka - 1)) = 1"
    using e2(7) [of "ka - 1"] e1(1,2,5,6) same by auto
  then have forget: "table_forget ka 1 (inodes s3) = Ret (0, (inodes s3)\<lparr>table := (table (inodes s3))[ka - 1 :=
        (table (inodes s3) ! (ka - 1))\<lparr>entry_lookups := 0, entry_path := None\<rparr>],
      by_path := (by_path (inodes s3))(?q := None), free_list := free_list (inodes s3) @ [ka - 1]\<rparr>)"
    using e1(1) by (simp add: table_forget_def entry_at_def Let_def)
  have "unat (of_nat a :: u64) = ka" using e1(2,3) assms(2) a by (simp add: unat_of_nat take_bit_nat_eq_self)
  with assms(10) forget have s4: "table (inodes s4) = (table (inodes s3))[ka - 1 :=
        (table (inodes s3) ! (ka - 1))\<lparr>entry_lookups := 0, entry_path := None\<rparr>]" "by_path (inodes s4) ?q = None"
    by (auto simp: mt_forget_def elim!: bind_outcome_RetE)
  have "table_get_path kb (inodes s4) = Ret (Some ?q)"
    using s4(1) old(1) e2(1,2,5) by (auto simp: get_path_iff intro!: exI [of _ "kb - 1"])
  moreover obtain i where i: "unat parent = i + 1" "i < length (table (inodes s))" "entry_path (table (inodes s) ! i) = Some p"
    using assms(3) by (auto simp: get_path_iff)
  have "table_get_path (unat parent) (inodes s4) = Ret (Some p)"
    using s4(1) i e1(7) [of i] e2(7) [of i] same by (auto simp: get_path_iff)
  ultimately show ?thesis
    using s4(2) a b old(1) by (auto simp: table_get_inode_def mt_rename_def with_path_def respond_def table_rename_def)
qed

section \<open>Witnesses\<close>

text \<open>A file system that agrees to everything and has one directory listing.\<close>

definition example_attr :: file_attr_mt where
  "example_attr =
     \<lparr>ma_size = 0, ma_blocks = 0, ma_atime = 0, ma_mtime = 0, ma_ctime = 0, ma_crtime = 0, ma_kind = RegularFile,
      ma_perm = 0, ma_nlink = 1, ma_uid = 0, ma_gid = 0, ma_rdev = 0, ma_flags = 0\<rparr>"

definition example_result :: result_entry where
  "example_result = (\<lparr>as_secs = 1, subsec_nanos = 0\<rparr>, example_attr)"

definition example_listing :: "directory_entry list" where
  "example_listing =
     [\<lparr>den_name = [46], den_kind = Directory\<rparr>, \<lparr>den_name = [46, 46], den_kind = Directory\<rparr>,
      \<lparr>den_name = [97], den_kind = RegularFile\<rparr>]"

definition example_mt :: "unit filesystem_mt" where
  "example_mt = default_mt\<lparr>
     t_mkdir := (\<lambda>_ _ _ _ s. (Inr example_result, s)), t_rmdir := (\<lambda>_ _ _ s. (Inr (), s)),
     t_create := (\<lambda>_ _ _ _ _ s. (Inr \<lparr>ce_ttl = \<lparr>as_secs = 1, subsec_nanos = 0\<rparr>, ce_attr = example_attr, ce_fh = 0, ce_flags = 0\<rparr>, s)),
     t_unlink := (\<lambda>_ _ _ s. (Inr (), s)), t_rename := (\<lambda>_ _ _ _ _ s. (Inr (), s)),
     t_read := (\<lambda>_ _ _ _ _ s. (Inr [1], s)), t_opendir := (\<lambda>_ _ _ s. (Inr (7, 0), s)),
     t_readdir := (\<lambda>_ _ _ s. (Inr example_listing, s))\<rparr>"

lemma example_mt_simps [simp]:
  "t_mkdir example_mt i p n m s = (Inr example_result, s)" "t_rmdir example_mt i p n s = (Inr (), s)"
  "t_create example_mt i p n m f s =
     (Inr \<lparr>ce_ttl = \<lparr>as_secs = 1, subsec_nanos = 0\<rparr>, ce_attr = example_attr, ce_fh = 0, ce_flags = 0\<rparr>, s)"
  "t_unlink example_mt i p n s = (Inr (), s)" "t_rename example_mt i p n q n' s = (Inr (), s)"
  "t_read example_mt i p h off sz s = (Inr [1], s)" "t_opendir example_mt i p f s = (Inr (7, 0), s)"
  "t_readdir example_mt i p h s = (Inr example_listing, s)"
  by (simp_all add: example_mt_def)

definition example_info :: "u64 \<Rightarrow> request_info" where
  "example_info u = \<lparr>ri_unique = u, ri_uid = 0, ri_gid = 0, ri_pid = 0\<rparr>"

definition example_state :: "nat \<Rightarrow> unit fuse_mt" where
  "example_state = fuse_mt_new ()"

lemma example_start: "mt_reach example_mt mt_kernel_new {#} (example_state n)"
  unfolding example_state_def by (rule mt_reach.start)

lemmas example_simps =
  example_state_def fuse_mt_new_def inode_table_new_def with_path_def table_get_path_def entry_at_def respond_def
  finish_def add_entry_def table_add_def get_inode_entry_def path_join_def proper_component_def example_info_def
  example_result_def fuse_fileattr_def send_def Let_def checked_add_def

lemma example_root: "table_get_path 1 (inodes (example_state n)) = Ret (Some [])"
  by (simp add: example_simps)

lemma example_lost:
  "\<exists>s1 s2 s3 s4. mt_create example_mt (example_info 1) 1 [97] 0 0 (example_state 0) = Ret s1 \<and> entry_inode (snd (last (sent s1))) = Some 2 \<and>
     mt_unlink example_mt (example_info 2) 1 [97] s1 = Ret s2 \<and> snd (last (sent s2)) = MtOk \<and>
     mt_create example_mt (example_info 3) 1 [97] 0 0 s2 = Ret s3 \<and> entry_inode (snd (last (sent s3))) = Some 3 \<and>
     mt_forget (of_nat 2) 1 s3 = Ret s4"
  by (simp add: mt_create_def mt_unlink_def mt_forget_def table_unlink_def table_forget_def example_simps)

theorem mt_recreated_file_lost_witness:
  "\<exists>s1 s2 s3 s4. mt_create example_mt (example_info 1) 1 [97] 0 0 (example_state 0) = Ret s1 \<and>
     mt_unlink example_mt (example_info 2) 1 [97] s1 = Ret s2 \<and>
     mt_create example_mt (example_info 3) 1 [97] 0 0 s2 = Ret s3 \<and> mt_forget (of_nat 2) 1 s3 = Ret s4 \<and>
     table_get_path 3 (inodes s4) = Ret (Some [[97]]) \<and> table_get_inode [[97]] (inodes s4) = None \<and>
     mt_rename example_mt (example_info 4) 1 [97] 1 [98] s4 = Panic ''called unwrap on a None value''"
proof -
  obtain s1 s2 s3 s4 where run:
    "mt_create example_mt (example_info 1) 1 [97] 0 0 (example_state 0) = Ret s1" "entry_inode (snd (last (sent s1))) = Some 2"
    "mt_unlink example_mt (example_info 2) 1 [97] s1 = Ret s2" "snd (last (sent s2)) = MtOk"
    "mt_create example_mt (example_info 3) 1 [97] 0 0 s2 = Ret s3" "entry_inode (snd (last (sent s3))) = Some 3"
    "mt_forget (of_nat 2) 1 s3 = Ret s4"
    using example_lost by blast
  have "path_join [] [97] = [[97]]" by (simp add: path_join_def proper_component_def)
  moreover have "length (table (inodes (example_state 0))) + 2 < 2 ^ 64" by (simp add: example_state_def fuse_mt_new_def inode_table_new_def)
  ultimately show ?thesis
    using mt_recreated_file_lost [OF example_start _ _ run, of "[]" "example_info 4" "[98]" "()"] run example_root by auto
qed

lemma example_created:
  "\<exists>s1 r. mt_handle example_mt (example_info 1) (McCreate 1 [97] 0 0) (example_state 0) = Ret s1 \<and>
     sent s1 = sent (example_state 0) @ [(1, r)] \<and> entry_inode r = Some 2 \<and> length (table (inodes s1)) = 2"
  by (simp add: mt_create_def example_simps)

lemma legal_example: "legal mt_kernel_new (example_state n) (McCreate 1 [97] 0 0)"
  "legal mt_kernel_new (example_state n) (McRead 1 0 0 1)"
  by (simp_all add: legal_def example_state_def fuse_mt_new_def inode_table_new_def)


theorem mt_answers_once_witness:
  "\<exists>k s s'. mt_reach example_mt k {#1#} s \<and> length (pool_jobs s) = 1 \<and> sent s = [] \<and>
     pool_drain example_mt 1 s = Ret s' \<and> mset (map fst (sent s')) = {#1#}"
proof -
  let ?s = "(example_state 1)\<lparr>threads := Some [JRead (example_info 1) [] 0 0 1]\<rparr>"
  have run: "mt_handle example_mt (example_info 1) (McRead 1 0 0 1) (example_state 1) = Ret ?s"
    by (simp add: mt_read_def threadpool_run_def pool_jobs_def example_simps)
  have "mt_reach example_mt (kernel_after (McRead 1 0 0 1) [] mt_kernel_new) ({#} + reply_due (example_info 1) (McRead 1 0 0 1)) ?s"
    by (rule mt_reach.call [OF example_start legal_example(2) run]) simp
  then have reach: "mt_reach example_mt (kernel_after (McRead 1 0 0 1) [] mt_kernel_new) {#1#} ?s" by (simp add: example_info_def)
  have "sent ?s = []" "length (pool_jobs ?s) = 1" by (simp_all add: example_state_def fuse_mt_new_def pool_jobs_def)
  with mt_answers_once [OF reach] reach show ?thesis by metis
qed


end
