(* ===== verification/Passthrough.thy ===== *)
theory Passthrough
  imports Fuse_Mt
begin

unbundle bit_operations_syntax

text \<open>
  The file system that passes all calls on to the host (\<^verbatim>\<open>src/fuse/src/passthrough/\<close>): the conversions of
  attributes and times, the wrappers of system calls (\<^verbatim>\<open>libc_wrappers.rs\<close>, \<^verbatim>\<open>libc_extras.rs\<close>) and one definition
  per method (\<^verbatim>\<open>passthrough_fs.rs\<close>), composed in \<open>pt_handle\<close>. The system calls are an argument, the record
  \<open>host\<close>, each with an error number or a result and the state of the host after it. Methods can panic, and
  the one that lists a directory may run for ever when the host never ends it; then its value is \<open>None\<close>.
\<close>

section \<open>The host\<close>

abbreviation (input) pt_EINVAL :: i32 where "pt_EINVAL \<equiv> 22"
abbreviation (input) pt_O_CREAT :: i32 where "pt_O_CREAT \<equiv> 0x40"
abbreviation (input) pt_O_EXCL :: i32 where "pt_O_EXCL \<equiv> 0x80"

record stat64 =
  sb_mode :: u32
  sb_nlink :: u64
  sb_uid :: u32
  sb_gid :: u32
  sb_rdev :: u64
  sb_size :: i64
  sb_blocks :: i64
  sb_atime :: i64
  sb_atime_nsec :: i64
  sb_mtime :: i64
  sb_mtime_nsec :: i64
  sb_ctime :: i64
  sb_ctime_nsec :: i64

record statfs_buf =
  f_blocks :: u64
  f_bfree :: u64
  f_bavail :: u64
  f_files :: u64
  f_ffree :: u64
  f_bsize :: i64
  f_namelen :: i64
  f_frsize :: i64

record timespec =
  tv_sec :: i64
  tv_nsec :: i64

text \<open>A directory entry is its type and its name; a list of attributes is its length and what fits the buffer.\<close>

type_synonym dirent = "u8 \<times> bytes"
type_synonym ('h, 'a) sys = "'h \<Rightarrow> (i32 + 'a) \<times> 'h"

record 'h host =
  h_lstat :: "bytes \<Rightarrow> ('h, stat64) sys"
  h_opendir :: "bytes \<Rightarrow> ('h, u64) sys"
  h_open :: "bytes \<Rightarrow> i32 \<Rightarrow> u32 option \<Rightarrow> ('h, i32) sys"
  h_chmod :: "bytes \<Rightarrow> u32 \<Rightarrow> ('h, unit) sys"
  h_chown :: "bytes \<Rightarrow> u32 \<Rightarrow> u32 \<Rightarrow> ('h, unit) sys"
  h_truncate :: "bytes \<Rightarrow> i64 \<Rightarrow> ('h, unit) sys"
  h_utimensat :: "bytes \<Rightarrow> timespec \<Rightarrow> timespec \<Rightarrow> ('h, unit) sys"
  h_readlink :: "bytes \<Rightarrow> ('h, bytes) sys"
  h_statfs :: "bytes \<Rightarrow> ('h, statfs_buf) sys"
  h_mknod :: "bytes \<Rightarrow> u32 \<Rightarrow> u64 \<Rightarrow> ('h, unit) sys"
  h_mkdir :: "bytes \<Rightarrow> u32 \<Rightarrow> ('h, unit) sys"
  h_unlink :: "bytes \<Rightarrow> ('h, unit) sys"
  h_rmdir :: "bytes \<Rightarrow> ('h, unit) sys"
  h_symlink :: "bytes \<Rightarrow> bytes \<Rightarrow> ('h, unit) sys"
  h_rename :: "bytes \<Rightarrow> bytes \<Rightarrow> ('h, unit) sys"
  h_link :: "bytes \<Rightarrow> bytes \<Rightarrow> ('h, unit) sys"
  h_llistxattr :: "bytes \<Rightarrow> nat \<Rightarrow> ('h, nat \<times> bytes) sys"
  h_lgetxattr :: "bytes \<Rightarrow> bytes \<Rightarrow> nat \<Rightarrow> ('h, nat \<times> bytes) sys"
  h_lsetxattr :: "bytes \<Rightarrow> bytes \<Rightarrow> bytes \<Rightarrow> i32 \<Rightarrow> ('h, unit) sys"
  h_lremovexattr :: "bytes \<Rightarrow> bytes \<Rightarrow> ('h, unit) sys"
  h_fstat :: "i32 \<Rightarrow> ('h, stat64) sys"
  h_readdir :: "u64 \<Rightarrow> ('h, dirent option) sys"
  h_closedir :: "u64 \<Rightarrow> ('h, unit) sys"
  h_close :: "i32 \<Rightarrow> ('h, unit) sys"
  h_lseek :: "i32 \<Rightarrow> i64 \<Rightarrow> ('h, i64) sys"
  h_read :: "i32 \<Rightarrow> nat \<Rightarrow> ('h, bytes) sys"
  h_write :: "i32 \<Rightarrow> bytes \<Rightarrow> ('h, nat) sys"
  h_fsync :: "i32 \<Rightarrow> ('h, unit) sys"
  h_fdatasync :: "i32 \<Rightarrow> ('h, unit) sys"
  h_fchmod :: "i32 \<Rightarrow> u32 \<Rightarrow> ('h, unit) sys"
  h_fchown :: "i32 \<Rightarrow> u32 \<Rightarrow> u32 \<Rightarrow> ('h, unit) sys"
  h_ftruncate :: "i32 \<Rightarrow> i64 \<Rightarrow> ('h, unit) sys"
  h_futimens :: "i32 \<Rightarrow> timespec \<Rightarrow> timespec \<Rightarrow> ('h, unit) sys"

section \<open>Conversions\<close>

definition mode_to_filetype :: "u32 \<Rightarrow> file_type outcome" where
  "mode_to_filetype mode =
     (let m = mode AND 0xF000 in
      if m = 0x4000 then Ret Directory
      else if m = 0x8000 then Ret RegularFile
      else if m = 0xA000 then Ret Symlink
      else if m = 0x6000 then Ret BlockDevice
      else if m = 0x2000 then Ret CharDevice
      else if m = 0x1000 then Ret NamedPipe
      else if m = 0xC000 then Ret Socket
      else Panic ''unknown file type'')"

text \<open>\<open>SystemTime::UNIX_EPOCH + Duration::new(secs as u64, nanos as u32)\<close>\<close>

definition epoch_plus :: "i64 \<Rightarrow> i64 \<Rightarrow> system_time outcome" where
  "epoch_plus secs nanos =
     (let n = uint (ucast nanos :: u32); s = uint secs + n div nanos_per_sec in
      if 2 ^ 64 \<le> s then Panic ''overflow in Duration::new''
      else system_time_at ''overflow when adding duration to instant'' (s * nanos_per_sec + n mod nanos_per_sec))"

definition stat_to_fuse :: "stat64 \<Rightarrow> file_attr_mt outcome" where
  "stat_to_fuse st =
     bind_outcome (mode_to_filetype (sb_mode st)) (\<lambda>kind.
     bind_outcome (epoch_plus (sb_atime st) (sb_atime_nsec st)) (\<lambda>atime.
     bind_outcome (epoch_plus (sb_mtime st) (sb_mtime_nsec st)) (\<lambda>mtime.
     bind_outcome (epoch_plus (sb_ctime st) (sb_ctime_nsec st)) (\<lambda>ctime.
       Ret \<lparr>ma_size = sb_size st, ma_blocks = sb_blocks st, ma_atime = atime, ma_mtime = mtime, ma_ctime = ctime,
            ma_crtime = 0, ma_kind = kind, ma_perm = ucast (sb_mode st AND 0xFFF), ma_nlink = ucast (sb_nlink st),
            ma_uid = sb_uid st, ma_gid = sb_gid st, ma_rdev = ucast (sb_rdev st), ma_flags = 0\<rparr>))))"

definition statfs_to_fuse :: "statfs_buf \<Rightarrow> statfs_mt" where
  "statfs_to_fuse b =
     \<lparr>st_blocks = f_blocks b, st_bfree = f_bfree b, st_bavail = f_bavail b, st_files = f_files b,
      st_ffree = f_ffree b, st_bsize = ucast (f_bsize b), st_namelen = ucast (f_namelen b), st_frsize = ucast (f_frsize b)\<rparr>"

definition UTIME_OMIT :: i64 where
  "UTIME_OMIT = push_bit 30 11 - 21"

definition systemtime_to_libc :: "system_time option \<Rightarrow> timespec outcome" where
  "systemtime_to_libc time =
     (case time of
        Some t \<Rightarrow> bind_outcome (time_from_system_time t) (\<lambda>(secs, nanos). Ret \<lparr>tv_sec = secs, tv_nsec = ucast nanos\<rparr>)
      | None \<Rightarrow> Ret \<lparr>tv_sec = 0, tv_nsec = UTIME_OMIT\<rparr>)"

definition TTL :: duration where
  "TTL = \<lparr>as_secs = 1, subsec_nanos = 0\<rparr>"

section \<open>Paths\<close>

record passthrough_fs =
  pt_target :: bytes

text \<open>\<open>PathBuf::join\<close>, and a path as a string without its first separator.\<close>

definition pathbuf_join :: "bytes \<Rightarrow> bytes \<Rightarrow> bytes" where
  "pathbuf_join base p =
     (if take 1 p = [47] then p
      else if base \<noteq> [] \<and> last base \<noteq> 47 then base @ 47 # p
      else base @ p)"

fun relative_path :: "path \<Rightarrow> bytes" where
  "relative_path [] = []"
| "relative_path [c] = c"
| "relative_path (c # cs) = c @ 47 # relative_path cs"

definition real_path :: "passthrough_fs \<Rightarrow> path \<Rightarrow> bytes" where
  "real_path fs partial = pathbuf_join (pt_target fs) (relative_path partial)"

definition real_child :: "passthrough_fs \<Rightarrow> path \<Rightarrow> bytes \<Rightarrow> bytes" where
  "real_child fs parent_path name = pathbuf_join (real_path fs parent_path) name"

section \<open>System calls\<close>

type_synonym ('h, 'a) pmeth = "'h \<Rightarrow> ((i32 + 'a) \<times> 'h) outcome"

definition sys :: "('h, 'a) sys \<Rightarrow> ('h, 'a) pmeth" where
  "sys m h = Ret (m h)"

definition pm_return :: "'a \<Rightarrow> ('h, 'a) pmeth" where
  "pm_return x h = Ret (Inr x, h)"

definition pm_fail :: "i32 \<Rightarrow> ('h, 'a) pmeth" where
  "pm_fail e h = Ret (Inl e, h)"

text \<open>\<open>match m { Ok(x) => f(x), Err(e) => Err(e) }\<close>\<close>

definition pm_bind :: "('h, 'a) pmeth \<Rightarrow> ('a \<Rightarrow> ('h, 'b) pmeth) \<Rightarrow> ('h, 'b) pmeth" where
  "pm_bind m f h =
     bind_outcome (m h) (\<lambda>(r, h1). case r of Inl e \<Rightarrow> Ret (Inl e, h1) | Inr x \<Rightarrow> f x h1)"

definition pm_value :: "'a outcome \<Rightarrow> ('h, 'a) pmeth" where
  "pm_value r h = bind_outcome r (\<lambda>x. Ret (Inr x, h))"

text \<open>
  The macro \<open>into_cstring!\<close>; the string the C library sees of a vector that may have a zero byte
  (\<open>from_vec_unchecked\<close>); and the functions of the standard library, whose error for a zero byte has no error
  number to unwrap.
\<close>

definition into_cstring :: "bytes \<Rightarrow> (bytes \<Rightarrow> ('h, 'a) pmeth) \<Rightarrow> ('h, 'a) pmeth" where
  "into_cstring p f = (if 0 \<in> set p then pm_fail pt_EINVAL else f p)"

definition unchecked_cstring :: "bytes \<Rightarrow> bytes" where
  "unchecked_cstring p = takeWhile (\<lambda>b. b \<noteq> 0) p"

definition std_call :: "bytes list \<Rightarrow> ('h, 'a) sys \<Rightarrow> ('h, 'a) pmeth" where
  "std_call ps m h = (if list_ex (\<lambda>p. 0 \<in> set p) ps then Panic ''called unwrap on a None value'' else Ret (m h))"

definition lstat :: "'h host \<Rightarrow> bytes \<Rightarrow> ('h, stat64) pmeth" where
  "lstat host p = into_cstring p (\<lambda>c. sys (h_lstat host c))"

definition fstat :: "'h host \<Rightarrow> u64 \<Rightarrow> ('h, stat64) pmeth" where
  "fstat host fd = sys (h_fstat host (ucast fd))"

definition llistxattr :: "'h host \<Rightarrow> bytes \<Rightarrow> nat \<Rightarrow> ('h, nat \<times> bytes) pmeth" where
  "llistxattr host p len = into_cstring p (\<lambda>c. sys (h_llistxattr host c len))"

definition lgetxattr :: "'h host \<Rightarrow> bytes \<Rightarrow> bytes \<Rightarrow> nat \<Rightarrow> ('h, nat \<times> bytes) pmeth" where
  "lgetxattr host p name len = into_cstring p (\<lambda>c. into_cstring name (\<lambda>n. sys (h_lgetxattr host c n len)))"

definition lsetxattr :: "'h host \<Rightarrow> bytes \<Rightarrow> bytes \<Rightarrow> bytes \<Rightarrow> u32 \<Rightarrow> u32 \<Rightarrow> ('h, unit) pmeth" where
  "lsetxattr host p name v flags position =
     into_cstring p (\<lambda>c. into_cstring name (\<lambda>n.
       if position \<noteq> 0 then pm_fail pt_EINVAL else sys (h_lsetxattr host c n v flags)))"

definition lremovexattr :: "'h host \<Rightarrow> bytes \<Rightarrow> bytes \<Rightarrow> ('h, unit) pmeth" where
  "lremovexattr host p name = into_cstring p (\<lambda>c. into_cstring name (\<lambda>n. sys (h_lremovexattr host c n)))"

section \<open>Methods\<close>

definition attr_of :: "stat64 \<Rightarrow> ('h, result_entry) pmeth" where
  "attr_of st = pm_value (bind_outcome (stat_to_fuse st) (\<lambda>attr. Ret (TTL, attr)))"

definition stat_real :: "'h host \<Rightarrow> passthrough_fs \<Rightarrow> path \<Rightarrow> ('h, file_attr_mt) pmeth" where
  "stat_real host fs path = pm_bind (lstat host (real_path fs path)) (\<lambda>st. pm_value (stat_to_fuse st))"

definition pt_getattr :: "'h host \<Rightarrow> passthrough_fs \<Rightarrow> path \<Rightarrow> u64 option \<Rightarrow> ('h, result_entry) pmeth" where
  "pt_getattr host fs path fh =
     (case fh of
        Some fd \<Rightarrow> pm_bind (fstat host fd) attr_of
      | None \<Rightarrow> pm_bind (stat_real host fs path) (\<lambda>attr. pm_return (TTL, attr)))"

definition pt_opendir :: "'h host \<Rightarrow> passthrough_fs \<Rightarrow> path \<Rightarrow> u32 \<Rightarrow> ('h, u64 \<times> u32) pmeth" where
  "pt_opendir host fs path flags =
     pm_bind (into_cstring (real_path fs path) (\<lambda>c. sys (h_opendir host c))) (\<lambda>fh. pm_return (fh, 0))"

definition pt_releasedir :: "'h host \<Rightarrow> u64 \<Rightarrow> ('h, unit) pmeth" where
  "pt_releasedir host fh = sys (h_closedir host fh)"

definition dirent_kind :: "'h host \<Rightarrow> passthrough_fs \<Rightarrow> path \<Rightarrow> dirent \<Rightarrow> 'h \<Rightarrow> (file_type \<times> 'h) outcome" where
  "dirent_kind host fs path e h =
     (let (d_type, name) = e in
      if d_type = 4 then Ret (Directory, h)
      else if d_type = 8 then Ret (RegularFile, h)
      else if d_type = 10 then Ret (Symlink, h)
      else if d_type = 6 then Ret (BlockDevice, h)
      else if d_type = 2 then Ret (CharDevice, h)
      else if d_type = 1 then Ret (NamedPipe, h)
      else if d_type = 12 then Ret (NamedPipe, h)
      else
        bind_outcome (lstat host (real_path fs (path_join path name)) h) (\<lambda>(r, h1).
          case r of
            Inl errno \<Rightarrow> Panic ''lstat failed after readdir_r gave no file type''
          | Inr st \<Rightarrow> bind_outcome (mode_to_filetype (sb_mode st)) (\<lambda>kind. Ret (kind, h1))))"

partial_function (option) readdir_loop ::
    "'h host \<Rightarrow> passthrough_fs \<Rightarrow> path \<Rightarrow> u64 \<Rightarrow> directory_entry list \<Rightarrow> 'h \<Rightarrow>
      ((i32 + directory_entry list) \<times> 'h) outcome option" where
  "readdir_loop host fs path fh entries h =
     (case h_readdir host fh h of
        (r, h1) \<Rightarrow>
          (case r of
             Inl e \<Rightarrow> Some (Ret (Inl e, h1))
           | Inr next \<Rightarrow>
               (case next of
                  None \<Rightarrow> Some (Ret (Inr entries, h1))
                | Some entry \<Rightarrow>
                    (case dirent_kind host fs path entry h1 of
                       Ret kh \<Rightarrow>
                         readdir_loop host fs path fh
                           (entries @ [\<lparr>den_name = snd entry, den_kind = fst kh\<rparr>]) (snd kh)
                     | Panic m \<Rightarrow> Some (Panic m)
                     | Undefined m \<Rightarrow> Some (Undefined m)))))"

definition pt_readdir ::
    "'h host \<Rightarrow> passthrough_fs \<Rightarrow> path \<Rightarrow> u64 \<Rightarrow> 'h \<Rightarrow> ((i32 + directory_entry list) \<times> 'h) outcome option" where
  "pt_readdir host fs path fh h =
     (if fh = 0 then Some (Ret (Inl pt_EINVAL, h)) else readdir_loop host fs path fh [] h)"

definition pt_open :: "'h host \<Rightarrow> passthrough_fs \<Rightarrow> path \<Rightarrow> u32 \<Rightarrow> ('h, u64 \<times> u32) pmeth" where
  "pt_open host fs path flags =
     pm_bind (into_cstring (real_path fs path) (\<lambda>c. sys (h_open host c flags None))) (\<lambda>fd. pm_return (scast fd, flags))"

definition pt_release :: "'h host \<Rightarrow> u64 \<Rightarrow> ('h, unit) pmeth" where
  "pt_release host fh = sys (h_close host (ucast fh))"

text \<open>The file of a handle, which is not closed when it goes out of scope; the descriptor must not be \<open>-1\<close>.\<close>

definition unmanaged_file :: "u64 \<Rightarrow> (i32 \<Rightarrow> ('h, 'a) pmeth) \<Rightarrow> ('h, 'a) pmeth" where
  "unmanaged_file fh f h = (if (ucast fh :: i32) = - 1 then Panic ''assertion failed: fd != -1'' else f (ucast fh) h)"

definition pt_read :: "'h host \<Rightarrow> u64 \<Rightarrow> u64 \<Rightarrow> u32 \<Rightarrow> ('h, bytes) pmeth" where
  "pt_read host fh offset sz =
     unmanaged_file fh (\<lambda>fd.
       pm_bind (sys (h_lseek host fd offset)) (\<lambda>_.
       pm_bind (sys (h_read host fd (unat sz))) (\<lambda>d h.
         if unat sz < length d then Undefined ''set_len'' else Ret (Inr d, h))))"

definition pt_write :: "'h host \<Rightarrow> u64 \<Rightarrow> u64 \<Rightarrow> bytes \<Rightarrow> ('h, u32) pmeth" where
  "pt_write host fh offset d =
     unmanaged_file fh (\<lambda>fd.
       pm_bind (sys (h_lseek host fd offset)) (\<lambda>_.
       pm_bind (sys (h_write host fd d)) (\<lambda>n. pm_return (of_nat n))))"

definition pt_flush :: "u64 \<Rightarrow> ('h, unit) pmeth" where
  "pt_flush fh = unmanaged_file fh (\<lambda>fd. pm_return ())"

definition pt_fsync :: "'h host \<Rightarrow> u64 \<Rightarrow> bool \<Rightarrow> ('h, unit) pmeth" where
  "pt_fsync host fh datasync =
     unmanaged_file fh (\<lambda>fd. sys (if datasync then h_fdatasync host fd else h_fsync host fd))"

definition pt_chmod :: "'h host \<Rightarrow> passthrough_fs \<Rightarrow> path \<Rightarrow> u64 option \<Rightarrow> u32 \<Rightarrow> ('h, unit) pmeth" where
  "pt_chmod host fs path fh mode =
     (case fh of
        Some fd \<Rightarrow> sys (h_fchmod host (ucast fd) mode)
      | None \<Rightarrow> sys (h_chmod host (unchecked_cstring (real_path fs path)) mode))"

definition pt_chown :: "'h host \<Rightarrow> passthrough_fs \<Rightarrow> path \<Rightarrow> u64 option \<Rightarrow> u32 option \<Rightarrow> u32 option \<Rightarrow> ('h, unit) pmeth" where
  "pt_chown host fs path fh uid gid =
     (let u = (case uid of Some x \<Rightarrow> x | None \<Rightarrow> - 1); g = (case gid of Some x \<Rightarrow> x | None \<Rightarrow> - 1) in
      case fh of
        Some fd \<Rightarrow> sys (h_fchown host (ucast fd) u g)
      | None \<Rightarrow> sys (h_chown host (unchecked_cstring (real_path fs path)) u g))"

definition pt_truncate :: "'h host \<Rightarrow> passthrough_fs \<Rightarrow> path \<Rightarrow> u64 option \<Rightarrow> u64 \<Rightarrow> ('h, unit) pmeth" where
  "pt_truncate host fs path fh sz =
     (case fh of
        Some fd \<Rightarrow> sys (h_ftruncate host (ucast fd) sz)
      | None \<Rightarrow> sys (h_truncate host (unchecked_cstring (real_path fs path)) sz))"

definition pt_utimens ::
    "'h host \<Rightarrow> passthrough_fs \<Rightarrow> path \<Rightarrow> u64 option \<Rightarrow> system_time option \<Rightarrow> system_time option \<Rightarrow> ('h, unit) pmeth" where
  "pt_utimens host fs path fh atime mtime = (\<lambda>h.
     bind_outcome (systemtime_to_libc atime) (\<lambda>a.
     bind_outcome (systemtime_to_libc mtime) (\<lambda>m.
       case fh of
         Some fd \<Rightarrow> sys (h_futimens host (ucast fd) a m) h
       | None \<Rightarrow> sys (h_utimensat host (unchecked_cstring (real_path fs path)) a m) h)))"

definition pt_readlink :: "'h host \<Rightarrow> passthrough_fs \<Rightarrow> path \<Rightarrow> ('h, bytes) pmeth" where
  "pt_readlink host fs path = (let real = real_path fs path in std_call [real] (h_readlink host real))"

definition pt_statfs :: "'h host \<Rightarrow> passthrough_fs \<Rightarrow> path \<Rightarrow> ('h, statfs_mt) pmeth" where
  "pt_statfs host fs path =
     pm_bind (sys (h_statfs host (unchecked_cstring (real_path fs path)))) (\<lambda>buf. pm_return (statfs_to_fuse buf))"

definition pt_fsyncdir :: "'h host \<Rightarrow> u64 \<Rightarrow> bool \<Rightarrow> ('h, unit) pmeth" where
  "pt_fsyncdir host fh datasync = sys (h_fsync host (ucast fh))"

definition pt_mknod :: "'h host \<Rightarrow> passthrough_fs \<Rightarrow> path \<Rightarrow> bytes \<Rightarrow> u32 \<Rightarrow> u32 \<Rightarrow> ('h, result_entry) pmeth" where
  "pt_mknod host fs parent_path name mode rdev =
     (let real = real_child fs parent_path name in
      pm_bind (sys (h_mknod host (unchecked_cstring real) mode (ucast rdev))) (\<lambda>_. pm_bind (lstat host real) attr_of))"

definition pt_mkdir :: "'h host \<Rightarrow> passthrough_fs \<Rightarrow> path \<Rightarrow> bytes \<Rightarrow> u32 \<Rightarrow> ('h, result_entry) pmeth" where
  "pt_mkdir host fs parent_path name mode =
     (let real = real_child fs parent_path name in
      pm_bind (sys (h_mkdir host (unchecked_cstring real) mode)) (\<lambda>_. pm_bind (lstat host real) attr_of))"

definition pt_unlink :: "'h host \<Rightarrow> passthrough_fs \<Rightarrow> path \<Rightarrow> bytes \<Rightarrow> ('h, unit) pmeth" where
  "pt_unlink host fs parent_path name =
     (let real = real_child fs parent_path name in std_call [real] (h_unlink host real))"

definition pt_rmdir :: "'h host \<Rightarrow> passthrough_fs \<Rightarrow> path \<Rightarrow> bytes \<Rightarrow> ('h, unit) pmeth" where
  "pt_rmdir host fs parent_path name =
     (let real = real_child fs parent_path name in std_call [real] (h_rmdir host real))"

definition pt_symlink :: "'h host \<Rightarrow> passthrough_fs \<Rightarrow> path \<Rightarrow> bytes \<Rightarrow> bytes \<Rightarrow> ('h, result_entry) pmeth" where
  "pt_symlink host fs parent_path name link =
     (let real = real_child fs parent_path name in
      pm_bind (std_call [link, real] (h_symlink host link real)) (\<lambda>_. pm_bind (lstat host real) attr_of))"

definition pt_rename :: "'h host \<Rightarrow> passthrough_fs \<Rightarrow> path \<Rightarrow> bytes \<Rightarrow> path \<Rightarrow> bytes \<Rightarrow> ('h, unit) pmeth" where
  "pt_rename host fs parent_path name newparent_path newname =
     (let real = real_child fs parent_path name; newreal = real_child fs newparent_path newname in
      std_call [real, newreal] (h_rename host real newreal))"

definition pt_link :: "'h host \<Rightarrow> passthrough_fs \<Rightarrow> path \<Rightarrow> path \<Rightarrow> bytes \<Rightarrow> ('h, result_entry) pmeth" where
  "pt_link host fs path newparent newname =
     (let real = real_path fs path; newreal = real_child fs newparent newname in
      pm_bind (std_call [real, newreal] (h_link host real newreal)) (\<lambda>_. pm_bind (lstat host real) attr_of))"

definition pt_create :: "'h host \<Rightarrow> passthrough_fs \<Rightarrow> path \<Rightarrow> bytes \<Rightarrow> u32 \<Rightarrow> u32 \<Rightarrow> ('h, created_entry) pmeth" where
  "pt_create host fs parent_path name mode flags =
     (let real = real_child fs parent_path name in
      pm_bind (sys (h_open host (unchecked_cstring real) (flags OR pt_O_CREAT OR pt_O_EXCL) (Some mode))) (\<lambda>fd.
      pm_bind (lstat host real) (\<lambda>st.
      pm_bind (pm_value (stat_to_fuse st)) (\<lambda>attr.
        pm_return \<lparr>ce_ttl = TTL, ce_attr = attr, ce_fh = scast fd, ce_flags = flags\<rparr>))))"

text \<open>What a call stored in a buffer of \<open>sz\<close> bytes, or the size it needs.\<close>

definition xattr_value :: "u32 \<Rightarrow> (nat \<Rightarrow> ('h, nat \<times> bytes) pmeth) \<Rightarrow> ('h, xattr) pmeth" where
  "xattr_value sz call =
     (if 0 < sz then
        pm_bind (call (unat sz)) (\<lambda>(n, d) h.
          if unat sz < n then Undefined ''set_len'' else Ret (Inr (Xattr_Data (take n d)), h))
      else pm_bind (call 0) (\<lambda>(n, d). pm_return (Xattr_Size (of_nat n))))"

definition pt_listxattr :: "'h host \<Rightarrow> passthrough_fs \<Rightarrow> path \<Rightarrow> u32 \<Rightarrow> ('h, xattr) pmeth" where
  "pt_listxattr host fs path sz = xattr_value sz (llistxattr host (real_path fs path))"

definition pt_getxattr :: "'h host \<Rightarrow> passthrough_fs \<Rightarrow> path \<Rightarrow> bytes \<Rightarrow> u32 \<Rightarrow> ('h, xattr) pmeth" where
  "pt_getxattr host fs path name sz = xattr_value sz (lgetxattr host (real_path fs path) name)"

definition pt_setxattr :: "'h host \<Rightarrow> passthrough_fs \<Rightarrow> path \<Rightarrow> bytes \<Rightarrow> bytes \<Rightarrow> u32 \<Rightarrow> u32 \<Rightarrow> ('h, unit) pmeth" where
  "pt_setxattr host fs path name v flags position = lsetxattr host (real_path fs path) name v flags position"

definition pt_removexattr :: "'h host \<Rightarrow> passthrough_fs \<Rightarrow> path \<Rightarrow> bytes \<Rightarrow> ('h, unit) pmeth" where
  "pt_removexattr host fs path name = lremovexattr host (real_path fs path) name"

section \<open>The calls\<close>

datatype (plugins only: code) pt_call =
    PtGetattr path "u64 option"
  | PtChmod path "u64 option" u32
  | PtChown path "u64 option" "u32 option" "u32 option"
  | PtTruncate path "u64 option" u64
  | PtUtimens path "u64 option" "system_time option" "system_time option"
  | PtReadlink path
  | PtMknod path bytes u32 u32
  | PtMkdir path bytes u32
  | PtUnlink path bytes
  | PtRmdir path bytes
  | PtSymlink path bytes bytes
  | PtRename path bytes path bytes
  | PtLink path path bytes
  | PtOpen path u32
  | PtRead u64 u64 u32
  | PtWrite u64 u64 bytes
  | PtFlush u64
  | PtRelease u64
  | PtFsync u64 bool
  | PtOpendir path u32
  | PtReaddir path u64
  | PtReleasedir u64
  | PtFsyncdir u64 bool
  | PtStatfs path
  | PtSetxattr path bytes bytes u32 u32
  | PtGetxattr path bytes u32
  | PtListxattr path u32
  | PtRemovexattr path bytes
  | PtCreate path bytes u32 u32

datatype (plugins only: code) pt_result =
    PrUnit
  | PrEntry result_entry
  | PrOpened "u64 \<times> u32"
  | PrData bytes
  | PrWritten u32
  | PrEntries "directory_entry list"
  | PrStatfs statfs_mt
  | PrXattr xattr
  | PrCreated created_entry

definition as_result :: "('a \<Rightarrow> pt_result) \<Rightarrow> ('h, 'a) pmeth \<Rightarrow> ('h, pt_result) pmeth" where
  "as_result f m = pm_bind m (\<lambda>x. pm_return (f x))"

fun pt_handle :: "'h host \<Rightarrow> passthrough_fs \<Rightarrow> pt_call \<Rightarrow> 'h \<Rightarrow> ((i32 + pt_result) \<times> 'h) outcome option" where
  "pt_handle host fs (PtGetattr p fh) h = Some (as_result PrEntry (pt_getattr host fs p fh) h)"
| "pt_handle host fs (PtChmod p fh mode) h = Some (as_result (\<lambda>_. PrUnit) (pt_chmod host fs p fh mode) h)"
| "pt_handle host fs (PtChown p fh uid gid) h = Some (as_result (\<lambda>_. PrUnit) (pt_chown host fs p fh uid gid) h)"
| "pt_handle host fs (PtTruncate p fh sz) h = Some (as_result (\<lambda>_. PrUnit) (pt_truncate host fs p fh sz) h)"
| "pt_handle host fs (PtUtimens p fh a m) h = Some (as_result (\<lambda>_. PrUnit) (pt_utimens host fs p fh a m) h)"
| "pt_handle host fs (PtReadlink p) h = Some (as_result PrData (pt_readlink host fs p) h)"
| "pt_handle host fs (PtMknod p name mode rdev) h = Some (as_result PrEntry (pt_mknod host fs p name mode rdev) h)"
| "pt_handle host fs (PtMkdir p name mode) h = Some (as_result PrEntry (pt_mkdir host fs p name mode) h)"
| "pt_handle host fs (PtUnlink p name) h = Some (as_result (\<lambda>_. PrUnit) (pt_unlink host fs p name) h)"
| "pt_handle host fs (PtRmdir p name) h = Some (as_result (\<lambda>_. PrUnit) (pt_rmdir host fs p name) h)"
| "pt_handle host fs (PtSymlink p name link) h = Some (as_result PrEntry (pt_symlink host fs p name link) h)"
| "pt_handle host fs (PtRename p name q newname) h = Some (as_result (\<lambda>_. PrUnit) (pt_rename host fs p name q newname) h)"
| "pt_handle host fs (PtLink p q newname) h = Some (as_result PrEntry (pt_link host fs p q newname) h)"
| "pt_handle host fs (PtOpen p flags) h = Some (as_result PrOpened (pt_open host fs p flags) h)"
| "pt_handle host fs (PtRead fh offset sz) h = Some (as_result PrData (pt_read host fh offset sz) h)"
| "pt_handle host fs (PtWrite fh offset d) h = Some (as_result PrWritten (pt_write host fh offset d) h)"
| "pt_handle host fs (PtFlush fh) h = Some (as_result (\<lambda>_. PrUnit) (pt_flush fh) h)"
| "pt_handle host fs (PtRelease fh) h = Some (as_result (\<lambda>_. PrUnit) (pt_release host fh) h)"
| "pt_handle host fs (PtFsync fh datasync) h = Some (as_result (\<lambda>_. PrUnit) (pt_fsync host fh datasync) h)"
| "pt_handle host fs (PtOpendir p flags) h = Some (as_result PrOpened (pt_opendir host fs p flags) h)"
| "pt_handle host fs (PtReleasedir fh) h = Some (as_result (\<lambda>_. PrUnit) (pt_releasedir host fh) h)"
| "pt_handle host fs (PtFsyncdir fh datasync) h = Some (as_result (\<lambda>_. PrUnit) (pt_fsyncdir host fh datasync) h)"
| "pt_handle host fs (PtStatfs p) h = Some (as_result PrStatfs (pt_statfs host fs p) h)"
| "pt_handle host fs (PtSetxattr p name v flags position) h = Some (as_result (\<lambda>_. PrUnit) (pt_setxattr host fs p name v flags position) h)"
| "pt_handle host fs (PtGetxattr p name sz) h = Some (as_result PrXattr (pt_getxattr host fs p name sz) h)"
| "pt_handle host fs (PtListxattr p sz) h = Some (as_result PrXattr (pt_listxattr host fs p sz) h)"
| "pt_handle host fs (PtRemovexattr p name) h = Some (as_result (\<lambda>_. PrUnit) (pt_removexattr host fs p name) h)"
| "pt_handle host fs (PtCreate p name mode flags) h = Some (as_result PrCreated (pt_create host fs p name mode flags) h)"
| "pt_handle host fs (PtReaddir p fh) h = map_option (\<lambda>r. as_result PrEntries (\<lambda>_. r) h) (pt_readdir host fs p fh h)"

lemmas pt_defs =
  pt_getattr_def stat_real_def pt_chmod_def pt_chown_def pt_truncate_def pt_utimens_def pt_readlink_def pt_mknod_def
  pt_mkdir_def pt_unlink_def pt_rmdir_def pt_symlink_def pt_rename_def pt_link_def pt_open_def pt_read_def
  pt_write_def pt_release_def pt_fsync_def pt_opendir_def pt_releasedir_def pt_fsyncdir_def pt_statfs_def
  pt_setxattr_def pt_getxattr_def pt_listxattr_def pt_removexattr_def pt_create_def

end
