(* ===== verification/Passthrough_Props.thy ===== *)
theory Passthrough_Props
  imports Passthrough
begin

unbundle bit_operations_syntax

text \<open>
  The properties of the passthrough file system: it uses nothing of the host but what lies below its target,
  which attributes and times survive the conversions, and what it lists of a directory.
\<close>

section \<open>Paths below the target\<close>

definition absolute :: "bytes \<Rightarrow> bool" where
  "absolute p \<longleftrightarrow> take 1 p = [47]"

definition components :: "bytes \<Rightarrow> bytes list" where
  "components p = filter proper_component (split_slash p)"

text \<open>A path whose components are those of the target and then others, none of which leads upwards.\<close>

definition inside :: "bytes \<Rightarrow> bytes \<Rightarrow> bool" where
  "inside t p \<longleftrightarrow>
     absolute p = absolute t \<and> take (length (components t)) (components p) = components t \<and>
     [46, 46] \<notin> set (drop (length (components t)) (components p))"

definition valid_name :: "bytes \<Rightarrow> bool" where
  "valid_name n \<longleftrightarrow> n \<noteq> [] \<and> 47 \<notin> set n \<and> 0 \<notin> set n \<and> n \<noteq> [46, 46]"

lemma split_slash_append: "split_slash (a @ 47 # b) = split_slash a @ split_slash b"
proof (induction a)
  case (Cons x a)
  have "split_slash a \<noteq> []" by (induction a) (auto split: list.split)
  with Cons show ?case by (auto split: list.split)
qed simp

lemma split_slash_name: "47 \<notin> set n \<Longrightarrow> split_slash n = [n]"
  by (induction n) auto

lemma components_append: "components (a @ 47 # b) = components a @ components b"
  by (simp add: components_def split_slash_append)

lemma components_name: "47 \<notin> set n \<Longrightarrow> components n = filter proper_component [n]"
  by (simp add: components_def split_slash_name)

lemma components_join:
  assumes "\<not> absolute p"
  shows "components (pathbuf_join base p) = components base @ components p"
proof -
  have nil: "components [] = []" by (simp add: components_def proper_component_def)
  consider "base = []" | b where "base = b @ [47]" | "base \<noteq> []" "last base \<noteq> 47"
    by (metis append_butlast_last_id)
  then show ?thesis
  proof cases
    case 2
    have "components (b @ [47]) = components b" using components_append [of b "[]"] nil by simp
    with 2 assms show ?thesis by (simp add: pathbuf_join_def absolute_def components_append)
  qed (use assms nil in \<open>auto simp: pathbuf_join_def absolute_def components_append\<close>)
qed

lemma absolute_join: "\<not> absolute p \<Longrightarrow> absolute (pathbuf_join base p) = absolute base"
  by (cases base) (auto simp: pathbuf_join_def absolute_def)

lemma valid_not_absolute: "valid_name n \<Longrightarrow> \<not> absolute n"
  by (cases n) (auto simp: valid_name_def absolute_def)

lemma relative_path_valid:
  assumes "list_all valid_name ps"
  shows "\<not> absolute (relative_path ps) \<and> components (relative_path ps) = filter proper_component ps \<and> 0 \<notin> set (relative_path ps)"
  using assms
proof (induction ps rule: relative_path.induct)
  case (3 c d cs)
  then have "take 1 (c @ 47 # relative_path (d # cs)) = take 1 c" by (cases c) (auto simp: valid_name_def)
  with 3 show ?case using components_name [of c] valid_not_absolute [of c]
    by (auto simp: components_append valid_name_def absolute_def)
next
  case (2 c)
  then show ?case using components_name [of c] valid_not_absolute [of c] by (simp add: valid_name_def)
qed (simp add: components_def proper_component_def absolute_def)

lemma inside_real_path:
  assumes "list_all valid_name ps"
  shows "inside (pt_target fs) (real_path fs ps)"
proof -
  have "[46, 46] \<notin> set ps" using assms by (auto simp: list_all_iff valid_name_def)
  then show ?thesis using relative_path_valid [OF assms]
    by (auto simp: inside_def real_path_def components_join absolute_join)
qed

lemma real_child_eq:
  assumes "list_all valid_name ps" and "valid_name n"
  shows "inside (pt_target fs) (real_child fs ps n)"
proof -
  have n: "components n = filter proper_component [n]" "\<not> absolute n" "n \<noteq> [46, 46]"
    using assms(2) components_name valid_not_absolute by (auto simp: valid_name_def)
  have "[46, 46] \<notin> set ps" using assms by (auto simp: list_all_iff valid_name_def)
  with n show ?thesis using relative_path_valid [OF assms(1)]
    by (auto simp: inside_def real_child_def real_path_def components_join absolute_join)
qed

lemma set_join: "set (pathbuf_join base p) \<subseteq> insert 47 (set base \<union> set p)"
  by (auto simp: pathbuf_join_def)

lemma no_nul_join: "0 \<notin> set base \<Longrightarrow> 0 \<notin> set p \<Longrightarrow> 0 \<notin> set (pathbuf_join base p)"
  using set_join [of base p] by auto

lemma no_nul:
  assumes "0 \<notin> set (pt_target fs)" and "list_all valid_name ps"
  shows "0 \<notin> set (real_path fs ps)" and "valid_name n \<Longrightarrow> 0 \<notin> set (real_child fs ps n)"
  using assms relative_path_valid [OF assms(2)] by (simp_all add: real_path_def real_child_def valid_name_def no_nul_join)

lemma unchecked_no_nul: "0 \<notin> set p \<Longrightarrow> unchecked_cstring p = p"
  by (auto simp: unchecked_cstring_def takeWhile_eq_all_conv)

section \<open>What is used of the host\<close>

text \<open>Two hosts that behave the same on the paths in \<open>P\<close>, and on everything that is open.\<close>

definition agree_paths :: "bytes set \<Rightarrow> 'h host \<Rightarrow> 'h host \<Rightarrow> bool" where
  "agree_paths P a b \<longleftrightarrow>
     (\<forall>p \<in> P. h_lstat a p = h_lstat b p \<and> h_opendir a p = h_opendir b p \<and> h_open a p = h_open b p \<and>
        h_chmod a p = h_chmod b p \<and> h_chown a p = h_chown b p \<and> h_truncate a p = h_truncate b p \<and>
        h_utimensat a p = h_utimensat b p \<and> h_readlink a p = h_readlink b p \<and> h_statfs a p = h_statfs b p \<and>
        h_mknod a p = h_mknod b p \<and> h_mkdir a p = h_mkdir b p \<and> h_unlink a p = h_unlink b p \<and>
        h_rmdir a p = h_rmdir b p \<and> (\<forall>link. h_symlink a link p = h_symlink b link p) \<and>
        (\<forall>q \<in> P. h_rename a p q = h_rename b p q \<and> h_link a p q = h_link b p q) \<and>
        h_llistxattr a p = h_llistxattr b p \<and> h_lgetxattr a p = h_lgetxattr b p \<and>
        h_lsetxattr a p = h_lsetxattr b p \<and> h_lremovexattr a p = h_lremovexattr b p)"

definition agree_open :: "'h host \<Rightarrow> 'h host \<Rightarrow> bool" where
  "agree_open a b \<longleftrightarrow>
     h_fstat a = h_fstat b \<and> h_readdir a = h_readdir b \<and> h_closedir a = h_closedir b \<and> h_close a = h_close b \<and>
     h_lseek a = h_lseek b \<and> h_read a = h_read b \<and> h_write a = h_write b \<and> h_fsync a = h_fsync b \<and>
     h_fdatasync a = h_fdatasync b \<and> h_fchmod a = h_fchmod b \<and> h_fchown a = h_fchown b \<and>
     h_ftruncate a = h_ftruncate b \<and> h_futimens a = h_futimens b"

text \<open>The kernel names entries, and the paths of the adapter are made of them.\<close>

fun named :: "pt_call \<Rightarrow> bool" where
  "named (PtMknod p name mode rdev) = (list_all valid_name p \<and> valid_name name)"
| "named (PtMkdir p name mode) = (list_all valid_name p \<and> valid_name name)"
| "named (PtUnlink p name) = (list_all valid_name p \<and> valid_name name)"
| "named (PtRmdir p name) = (list_all valid_name p \<and> valid_name name)"
| "named (PtSymlink p name link) = (list_all valid_name p \<and> valid_name name)"
| "named (PtCreate p name mode flags) = (list_all valid_name p \<and> valid_name name)"
| "named (PtRename p name q newname) = (list_all valid_name p \<and> valid_name name \<and> list_all valid_name q \<and> valid_name newname)"
| "named (PtLink p q newname) = (list_all valid_name p \<and> list_all valid_name q \<and> valid_name newname)"
| "named (PtGetattr p fh) = list_all valid_name p"
| "named (PtChmod p fh mode) = list_all valid_name p"
| "named (PtChown p fh uid gid) = list_all valid_name p"
| "named (PtTruncate p fh sz) = list_all valid_name p"
| "named (PtUtimens p fh at mt) = list_all valid_name p"
| "named (PtReadlink p) = list_all valid_name p"
| "named (PtOpen p flags) = list_all valid_name p"
| "named (PtOpendir p flags) = list_all valid_name p"
| "named (PtReaddir p fh) = list_all valid_name p"
| "named (PtStatfs p) = list_all valid_name p"
| "named (PtSetxattr p name v flags position) = list_all valid_name p"
| "named (PtGetxattr p name sz) = list_all valid_name p"
| "named (PtListxattr p sz) = list_all valid_name p"
| "named (PtRemovexattr p name) = list_all valid_name p"
| "named c = True"

text \<open>The entries of a directory have a type, or else a name that is neither that of the parent nor a path.\<close>

definition typed :: "u8 \<Rightarrow> bool" where
  "typed t \<longleftrightarrow> t = 4 \<or> t = 8 \<or> t = 10 \<or> t = 6 \<or> t = 2 \<or> t = 1 \<or> t = 12"

definition dirents_named :: "'h host \<Rightarrow> bool" where
  "dirents_named a \<longleftrightarrow> (\<forall>fh h t n h1. h_readdir a fh h = (Inr (Some (t, n)), h1) \<longrightarrow> typed t \<or> valid_name n)"

lemma path_join_valid: "list_all valid_name ps \<Longrightarrow> valid_name n \<Longrightarrow> list_all valid_name (path_join ps n)"
  using valid_not_absolute [of n] by (auto simp: path_join_def absolute_def split_slash_name valid_name_def)

lemma wrappers_agree:
  assumes "agree_paths {p. inside (pt_target fs) p} a b" and "inside (pt_target fs) p"
  shows "lstat a p = lstat b p" and "llistxattr a p = llistxattr b p" and "lgetxattr a p = lgetxattr b p"
    and "lsetxattr a p = lsetxattr b p" and "lremovexattr a p = lremovexattr b p"
  using assms
  by (auto simp: lstat_def llistxattr_def lgetxattr_def lsetxattr_def lremovexattr_def into_cstring_def sys_def agree_paths_def fun_eq_iff)

lemma dirent_kind_agree:
  assumes "agree_paths {p. inside (pt_target fs) p} a b" and "list_all valid_name path" and "typed (fst e) \<or> valid_name (snd e)"
  shows "dirent_kind a fs path e = dirent_kind b fs path e"
proof (cases "typed (fst e)")
  case True
  then show ?thesis by (cases e) (auto simp: dirent_kind_def typed_def fun_eq_iff)
next
  case False
  with assms have "lstat a (real_path fs (path_join path (snd e))) = lstat b (real_path fs (path_join path (snd e)))"
    using wrappers_agree(1) inside_real_path path_join_valid by metis
  then show ?thesis by (cases e) (simp add: dirent_kind_def fun_eq_iff)
qed

lemma readdir_loop_agree:
  assumes "agree_paths {p. inside (pt_target fs) p} a b" and "agree_open a b" and "dirents_named a" and "list_all valid_name path"
    and "readdir_loop a fs path fh es h = Some r"
  shows "readdir_loop b fs path fh es h = Some r"
proof -
  have "agree_paths {p. inside (pt_target fs) p} x b \<Longrightarrow> agree_open x b \<Longrightarrow> dirents_named x \<Longrightarrow> list_all valid_name path \<Longrightarrow>
      readdir_loop b fs path fh es h = Some r"
    if "readdir_loop x fs path fh es h = Some r" for x
  proof (induction rule: readdir_loop.raw_induct [OF _ that])
    case (1 loop x fs path fh es h r)
    obtain d h1 where d: "h_readdir x fh h = (d, h1)" by (cases "h_readdir x fh h")
    have db: "h_readdir b fh h = (d, h1)" using d 1(4) by (simp add: agree_open_def)
    show ?case
    proof (cases d)
      case (Inl e)
      with 1(2) d db show ?thesis by (subst readdir_loop.simps) simp
    next
      case (Inr nxt)
      show ?thesis
      proof (cases nxt)
        case None
        with Inr 1(2) d db show ?thesis by (subst readdir_loop.simps) simp
      next
        case (Some e)
        have "typed (fst e) \<or> valid_name (snd e)" using 1(5) d Inr Some unfolding dirents_named_def by (metis prod.collapse)
        then have "dirent_kind x fs path e h1 = dirent_kind b fs path e h1" using dirent_kind_agree [OF 1(3) 1(6)] by simp
        then show ?thesis using 1 d db Inr Some by (subst readdir_loop.simps) (auto split: outcome.splits)
      qed
    qed
  qed
  with assms show ?thesis by blast
qed

lemma agree_sym:
  assumes "agree_paths P a b" and "agree_open a b" and "dirents_named a"
  shows "agree_paths P b a" and "agree_open b a" and "dirents_named b"
  using assms by (simp_all add: agree_paths_def agree_open_def dirents_named_def)

lemma pt_readdir_agree:
  assumes "agree_paths {p. inside (pt_target fs) p} a b" and "agree_open a b" and "dirents_named a" and "list_all valid_name path"
  shows "pt_readdir a fs path fh h = pt_readdir b fs path fh h"
proof -
  have "readdir_loop a fs path fh [] h = readdir_loop b fs path fh [] h"
  proof (rule option.expand)
    show "(readdir_loop a fs path fh [] h = None) = (readdir_loop b fs path fh [] h = None)"
      using readdir_loop_agree [OF assms] readdir_loop_agree [OF agree_sym [OF assms(1-3)] assms(4)]
      by (metis not_None_eq)
    show "the (readdir_loop a fs path fh [] h) = the (readdir_loop b fs path fh [] h)"
      if "readdir_loop a fs path fh [] h \<noteq> None" "readdir_loop b fs path fh [] h \<noteq> None"
      using readdir_loop_agree [OF assms] that by (metis option.collapse)
  qed
  then show ?thesis by (simp add: pt_readdir_def)
qed

section \<open>Attributes and times\<close>

lemma uint_of_sint: "uint (w :: i64) = sint w mod 2 ^ 64"
  by (simp add: uint_sint take_bit_eq_mod)

lemma sint_bounds: "- (2 ^ 63) \<le> sint (w :: i64)" "sint w < 2 ^ 63"
  using sint_greater_eq [of w] sint_less [of w] by simp_all

lemma uint_cases: "uint (w :: i64) = (if 0 \<le> sint w then sint w else sint w + 2 ^ 64)"
proof (cases "0 \<le> sint w")
  case True
  then show ?thesis using sint_bounds [of w] by (simp add: uint_of_sint)
next
  case False
  then have "sint w mod 2 ^ 64 = (sint w + 2 ^ 64) mod 2 ^ 64" by simp
  also have "\<dots> = sint w + 2 ^ 64" using False sint_bounds [of w] by (intro mod_pos_pos_trivial) simp_all
  finally show ?thesis using False by (simp add: uint_of_sint)
qed

text \<open>What the host gives and takes as nanoseconds.\<close>

definition nanos_ok :: "i64 \<Rightarrow> bool" where
  "nanos_ok n \<longleftrightarrow> 0 \<le> sint n \<and> sint n < nanos_per_sec"

lemma epoch_plus_exact:
  assumes "nanos_ok n"
  shows "epoch_plus s n =
    (if 0 \<le> sint s then Ret (sint s * nanos_per_sec + sint n) else Panic ''overflow when adding duration to instant'')"
proof -
  have "uint n = sint n" using assms uint_cases [of n] by (simp add: nanos_ok_def)
  then have n: "uint (ucast n :: u32) = sint n"
    using assms by (simp add: unsigned_ucast_eq nanos_ok_def nanos_per_sec_def take_bit_int_eq_self)
  have small: "sint n div nanos_per_sec = 0" "sint n mod nanos_per_sec = sint n" using assms by (simp_all add: nanos_ok_def)
  have "(uint s * nanos_per_sec + sint n) div nanos_per_sec = uint s" using small(1) by (simp add: nanos_per_sec_def)
  moreover have "uint s < 2 ^ 64" using unsigned_less [of s] by simp
  ultimately have "epoch_plus s n =
      (if in_i64 (uint s) then Ret (uint s * nanos_per_sec + sint n) else Panic ''overflow when adding duration to instant'')"
    using n small by (simp add: epoch_plus_def system_time_at_def Let_def)
  then show ?thesis using uint_cases [of s] sint_bounds [of s] by (auto simp: in_i64_def)
qed

lemma mode_split:
  assumes "mode_to_filetype mode = Ret kind"
  shows "mode_from_kind_and_perm kind (ucast (mode AND 0xFFF)) = mode AND 0xFFFF"
proof -
  have mask: "(0xFFF :: u32) = mask 12" by (simp add: mask_eq_exp_minus_1)
  have perm: "ucast (ucast (mode AND 0xFFF) :: u16) = mode AND 0xFFF"
    unfolding mask by (rule bit_word_eqI) (auto simp: bit_simps)
  have "file_type_bits kind = mode AND 0xF000"
    using assms by (auto simp: mode_to_filetype_def Let_def split: if_splits)
  then have "mode_from_kind_and_perm kind (ucast (mode AND 0xFFF)) = mode AND 0xF000 OR mode AND 0xFFF"
    using perm by (simp add: mode_from_kind_and_perm_def)
  also have "\<dots> = mode AND (0xF000 OR 0xFFF)" by (simp only: bit.conj_disj_distrib)
  finally show ?thesis by simp
qed

lemma times_round_trip:
  assumes "nanos_ok n" and "0 \<le> sint s"
  shows "systemtime_to_libc (Some (sint s * nanos_per_sec + sint n)) = Ret \<lparr>tv_sec = s, tv_nsec = n\<rparr>"
proof -
  let ?t = "sint s * nanos_per_sec + sint n"
  have n: "0 \<le> sint n" "sint n < 1000000000" using assms(1) by (simp_all add: nanos_ok_def nanos_per_sec_def)
  then have t: "?t div nanos_per_sec = sint s" "?t mod nanos_per_sec = sint n" "0 \<le> ?t"
    using assms(2) by (simp_all add: nanos_per_sec_def)
  have u: "uint n = sint n" using n(1) uint_cases [of n] by simp
  have widen: "(ucast (word_of_int k :: u32) :: i64) = word_of_int k" if "0 \<le> k" "k < 1000000000" for k
    using that by (simp add: ucast_eq unsigned_of_int take_bit_int_eq_self)
  have "ucast (word_of_int (sint n) :: u32) = (word_of_int (uint n) :: i64)" using widen [OF n] u by metis
  with t show ?thesis by (simp add: systemtime_to_libc_def time_from_system_time_def )
qed

definition known_type :: "u32 \<Rightarrow> bool" where
  "known_type mode \<longleftrightarrow> (\<exists>kind. mode_to_filetype mode = Ret kind)"

definition nanos_of_stat_ok :: "stat64 \<Rightarrow> bool" where
  "nanos_of_stat_ok st \<longleftrightarrow> nanos_ok (sb_atime_nsec st) \<and> nanos_ok (sb_mtime_nsec st) \<and> nanos_ok (sb_ctime_nsec st)"

lemma stat_to_fuse_Ret:
  assumes "nanos_of_stat_ok st"
  shows "(\<exists>a. stat_to_fuse st = Ret a) \<longleftrightarrow>
    known_type (sb_mode st) \<and> 0 \<le> sint (sb_atime st) \<and> 0 \<le> sint (sb_mtime st) \<and> 0 \<le> sint (sb_ctime st)"
proof (cases "mode_to_filetype (sb_mode st)")
  case (Ret kind)
  with assms show ?thesis by (simp add: stat_to_fuse_def nanos_of_stat_ok_def epoch_plus_exact known_type_def)
qed (simp_all add: stat_to_fuse_def known_type_def)

lemma stat_to_fuse_values:
  assumes "nanos_of_stat_ok st" and "stat_to_fuse st = Ret a"
  shows "mode_from_kind_and_perm (ma_kind a) (ma_perm a) = sb_mode st AND 0xFFFF \<and>
    systemtime_to_libc (Some (ma_atime a)) = Ret \<lparr>tv_sec = sb_atime st, tv_nsec = sb_atime_nsec st\<rparr> \<and>
    systemtime_to_libc (Some (ma_mtime a)) = Ret \<lparr>tv_sec = sb_mtime st, tv_nsec = sb_mtime_nsec st\<rparr> \<and>
    ma_size a = sb_size st \<and> ma_uid a = sb_uid st \<and> ma_gid a = sb_gid st"
proof -
  have "\<exists>a. stat_to_fuse st = Ret a" using assms(2) by blast
  then have times: "0 \<le> sint (sb_atime st)" "0 \<le> sint (sb_mtime st)" "0 \<le> sint (sb_ctime st)"
    by (simp_all add: stat_to_fuse_Ret [OF assms(1)])
  obtain kind where kind: "mode_to_filetype (sb_mode st) = Ret kind"
    using assms(2) by (auto simp: stat_to_fuse_def elim: bind_outcome_RetE)
  have "a = \<lparr>ma_size = sb_size st, ma_blocks = sb_blocks st,
      ma_atime = sint (sb_atime st) * nanos_per_sec + sint (sb_atime_nsec st),
      ma_mtime = sint (sb_mtime st) * nanos_per_sec + sint (sb_mtime_nsec st),
      ma_ctime = sint (sb_ctime st) * nanos_per_sec + sint (sb_ctime_nsec st),
      ma_crtime = 0, ma_kind = kind, ma_perm = ucast (sb_mode st AND 0xFFF), ma_nlink = ucast (sb_nlink st),
      ma_uid = sb_uid st, ma_gid = sb_gid st, ma_rdev = ucast (sb_rdev st), ma_flags = 0\<rparr>"
    using assms times kind by (simp add: stat_to_fuse_def nanos_of_stat_ok_def epoch_plus_exact)
  with assms(1) times mode_split [OF kind] show ?thesis by (simp add: nanos_of_stat_ok_def times_round_trip)
qed

text \<open>
  The nanoseconds the host takes to set a time: below a second, or the values that stand for the current time
  and for leaving the time alone. With any others, setting the times fails.
\<close>

definition settable :: "i64 \<Rightarrow> bool" where
  "settable n \<longleftrightarrow> nanos_ok n \<or> n = 0x3FFFFFFF \<or> n = 0x3FFFFFFE"

definition sets_times :: "'h host \<Rightarrow> bool" where
  "sets_times host \<longleftrightarrow>
     (\<forall>a m h. \<not> (settable (tv_nsec a) \<and> settable (tv_nsec m)) \<longrightarrow>
        (\<forall>fd. isl (fst (h_futimens host fd a m h))) \<and> (\<forall>p. isl (fst (h_utimensat host p a m h))))"

lemma sint_ucast_u32: "sint (ucast (n :: u32) :: i64) = uint n"
proof -
  have "0 \<le> uint n" "uint n < 2 ^ 32" using unsigned_greater_eq [of n] unsigned_less [of n] by simp_all
  then have "signed_take_bit 63 (uint n) = uint n"
    by (intro signed_take_bit_int_eq_self order_trans [of "- (2 ^ 63)" 0 "uint n"]) simp_all
  then show ?thesis by (simp add: signed_ucast_eq)
qed

lemma libc_nanos:
  assumes "in_i64 (t div nanos_per_sec)" and "- (2 ^ 63) < t div nanos_per_sec" and "time_from_system_time t = Ret (s, n)"
  shows "uint n < nanos_per_sec"
proof (cases "0 \<le> t")
  case True
  then show ?thesis using time_after_epoch [OF True assms(1)] assms(3) by (auto simp: nanos_per_sec_def)
next
  case False
  then show ?thesis using time_before_epoch [of t] assms(2,3) by (auto simp: nanos_per_sec_def)
qed

lemma omit_not_settable: "\<not> settable UTIME_OMIT"
  by (simp add: settable_def nanos_ok_def nanos_per_sec_def UTIME_OMIT_def)

section \<open>Listings\<close>

text \<open>The type of an entry: what the directory says, or what the host says of the file.\<close>

definition listed_kind :: "(bytes \<Rightarrow> stat64 option) \<Rightarrow> passthrough_fs \<Rightarrow> path \<Rightarrow> dirent \<Rightarrow> file_type option" where
  "listed_kind stat_of fs path e =
     (if fst e = 12 then Some NamedPipe
      else if typed (fst e) then
        (case mode_to_filetype (push_bit 12 (ucast (fst e))) of Ret k \<Rightarrow> Some k | _ \<Rightarrow> None)
      else
        let p = real_path fs (path_join path (snd e)) in
        if 0 \<in> set p then None
        else (case stat_of p of
                None \<Rightarrow> None
              | Some st \<Rightarrow> (case mode_to_filetype (sb_mode st) of Ret k \<Rightarrow> Some k | _ \<Rightarrow> None)))"

fun listing :: "(bytes \<Rightarrow> stat64 option) \<Rightarrow> passthrough_fs \<Rightarrow> path \<Rightarrow> dirent list \<Rightarrow> directory_entry list option" where
  "listing stat_of fs path [] = Some []"
| "listing stat_of fs path (e # es) =
     (case listed_kind stat_of fs path e of
        None \<Rightarrow> None
      | Some k \<Rightarrow> map_option (Cons \<lparr>den_name = snd e, den_kind = k\<rparr>) (listing stat_of fs path es))"

text \<open>The host gives the entries of an open directory one after another, and files stay as they are.\<close>

definition streams :: "'h host \<Rightarrow> (bytes \<Rightarrow> stat64 option) \<Rightarrow> u64 \<Rightarrow> ('h \<Rightarrow> dirent list) \<Rightarrow> bool" where
  "streams host stat_of fh rest \<longleftrightarrow>
     (\<forall>h. (case rest h of
            [] \<Rightarrow> fst (h_readdir host fh h) = Inr None
          | e # es \<Rightarrow> fst (h_readdir host fh h) = Inr (Some e) \<and> rest (snd (h_readdir host fh h)) = es) \<and>
        (\<forall>p. (case stat_of p of Some st \<Rightarrow> fst (h_lstat host p h) = Inr st | None \<Rightarrow> isl (fst (h_lstat host p h))) \<and>
           rest (snd (h_lstat host p h)) = rest h))"

lemma streams_next:
  assumes "streams host stat_of fh rest"
  shows "case rest h of
      [] \<Rightarrow> fst (h_readdir host fh h) = Inr None
    | e # es \<Rightarrow> fst (h_readdir host fh h) = Inr (Some e) \<and> rest (snd (h_readdir host fh h)) = es"
  using assms unfolding streams_def by blast

lemma streams_stat:
  assumes "streams host stat_of fh rest" and "h_lstat host p h = (r, h1)"
  shows "(case stat_of p of Some st \<Rightarrow> r = Inr st | None \<Rightarrow> isl r) \<and> rest h1 = rest h"
proof -
  have "(case stat_of p of Some st \<Rightarrow> fst (h_lstat host p h) = Inr st | None \<Rightarrow> isl (fst (h_lstat host p h))) \<and>
      rest (snd (h_lstat host p h)) = rest h"
    using assms(1) unfolding streams_def by blast
  then show ?thesis unfolding assms(2) fst_conv snd_conv .
qed

lemma typed_kind:
  assumes "typed (fst e)"
  shows "\<exists>k. listed_kind stat_of fs path e = Some k \<and> dirent_kind host fs path e h = Ret (k, h)"
  using assms by (cases e) (auto simp: typed_def listed_kind_def dirent_kind_def mode_to_filetype_def)

lemma stat_kind:
  assumes "streams host stat_of fh rest" and "\<not> typed (fst e)"
  shows "case listed_kind stat_of fs path e of
      None \<Rightarrow> \<exists>m. dirent_kind host fs path e h = Panic m
    | Some k \<Rightarrow> \<exists>h1. dirent_kind host fs path e h = Ret (k, h1) \<and> rest h1 = rest h"
proof -
  let ?p = "real_path fs (path_join path (snd e))"
  obtain r h1 where l: "h_lstat host ?p h = (r, h1)" by (cases "h_lstat host ?p h")
  note r = streams_stat [OF assms(1) l]
  have "dirent_kind host fs path e h =
      bind_outcome (lstat host ?p h) (\<lambda>(r, h1).
        case r of
          Inl errno \<Rightarrow> Panic ''lstat failed after readdir_r gave no file type''
        | Inr st \<Rightarrow> bind_outcome (mode_to_filetype (sb_mode st)) (\<lambda>kind. Ret (kind, h1)))"
    using assms(2) by (cases e) (simp add: dirent_kind_def typed_def)
  moreover have "listed_kind stat_of fs path e =
      (if 0 \<in> set ?p then None
       else (case stat_of ?p of
               None \<Rightarrow> None
             | Some st \<Rightarrow> (case mode_to_filetype (sb_mode st) of Ret k \<Rightarrow> Some k | _ \<Rightarrow> None)))"
    using assms(2) by (simp add: listed_kind_def typed_def Let_def)
  ultimately show ?thesis using l r
    by (auto simp: lstat_def into_cstring_def pm_fail_def sys_def isl_def mode_to_filetype_def Let_def split: option.splits)
qed

lemma dirent_kind_cases:
  assumes "streams host stat_of fh rest"
  shows "case listed_kind stat_of fs path e of
      None \<Rightarrow> \<exists>m. dirent_kind host fs path e h = Panic m
    | Some k \<Rightarrow> \<exists>h1. dirent_kind host fs path e h = Ret (k, h1) \<and> rest h1 = rest h"
  using typed_kind [of e stat_of fs path host h] stat_kind [OF assms] by (cases "typed (fst e)") auto

lemma readdir_loop_listing:
  assumes "streams host stat_of fh rest"
  shows "case listing stat_of fs path (rest h) of
      None \<Rightarrow> \<exists>m. readdir_loop host fs path fh acc h = Some (Panic m)
    | Some es \<Rightarrow> \<exists>h1. readdir_loop host fs path fh acc h = Some (Ret (Inr (acc @ es), h1))"
proof (induction "rest h" arbitrary: h acc)
  case Nil
  obtain h1 where "h_readdir host fh h = (Inr None, h1)"
    using streams_next [OF assms, of h] Nil [symmetric] by (cases "h_readdir host fh h") simp
  then show ?case using Nil [symmetric] by (subst readdir_loop.simps) simp
next
  case (Cons e es)
  obtain r h1 where hr: "h_readdir host fh h = (r, h1)" by (cases "h_readdir host fh h")
  have e: "r = Inr (Some e)" "rest h1 = es"
    using streams_next [OF assms, of h] Cons(2) [symmetric] hr by simp_all
  note kinds = dirent_kind_cases [OF assms, of fs path e h1]
  show ?case
  proof (cases "listed_kind stat_of fs path e")
    case None
    with kinds obtain m where "dirent_kind host fs path e h1 = Panic m" by auto
    then show ?thesis using None hr e Cons(2) [symmetric] by (subst readdir_loop.simps) simp
  next
    case (Some k)
    with kinds obtain h2 where h2: "dirent_kind host fs path e h1 = Ret (k, h2)" "rest h2 = es" using e(2) by auto
    let ?acc = "acc @ [\<lparr>den_name = snd e, den_kind = k\<rparr>]"
    have loop: "readdir_loop host fs path fh acc h = readdir_loop host fs path fh ?acc h2"
      using hr e h2(1) by (subst readdir_loop.simps) simp
    from Cons(1) [of h2 ?acc] h2(2) Some Cons(2) [symmetric] show ?thesis
      unfolding loop by (auto split: option.splits)
  qed
qed

text \<open>
  Listing a directory ends and gives its entries in their order, each with the type the directory or the
  host says of it, a socket as a named pipe; if there is an entry without a type that is no longer there, the
  file system panics.
\<close>

lemma passthrough_listing:
  assumes "streams host stat_of fh rest" and "fh \<noteq> 0"
  shows "case listing stat_of fs path (rest h) of
      None \<Rightarrow> \<exists>m. pt_readdir host fs path fh h = Some (Panic m)
    | Some es \<Rightarrow> map den_name es = map snd (rest h) \<and> (\<exists>h1. pt_readdir host fs path fh h = Some (Ret (Inr es, h1)))"
proof -
  have names: "listing stat_of fs path ds = Some es \<Longrightarrow> map den_name es = map snd ds" for ds es
    by (induction ds arbitrary: es) (auto split: option.splits)
  show ?thesis using readdir_loop_listing [OF assms(1), where acc = "[]" and fs = fs and path = path and h = h] assms(2) names
    by (auto simp: pt_readdir_def split: option.splits)
qed

section \<open>Properties\<close>


text \<open>
  C37. Asking for the attributes of a file that exists gives an answer if and only if the file has a known type
  and none of its times lies before the epoch; otherwise the file system panics. When it answers, the file's
  type and permissions are the mode of the file, and its times are those that set it to the same times again.
\<close>

theorem passthrough_attributes:
  assumes "h_lstat host (real_path fs path) h = (Inr st, h1)" and "0 \<notin> set (real_path fs path)" and "nanos_of_stat_ok st"
  shows "((\<exists>r. pt_getattr host fs path None h = Ret r) \<longleftrightarrow>
      known_type (sb_mode st) \<and> 0 \<le> sint (sb_atime st) \<and> 0 \<le> sint (sb_mtime st) \<and> 0 \<le> sint (sb_ctime st)) \<and>
    (\<forall>r h2. pt_getattr host fs path None h = Ret (r, h2) \<longrightarrow>
      (\<exists>a. r = Inr (TTL, a) \<and> h2 = h1 \<and>
         mode_from_kind_and_perm (ma_kind a) (ma_perm a) = sb_mode st AND 0xFFFF \<and>
         systemtime_to_libc (Some (ma_atime a)) = Ret \<lparr>tv_sec = sb_atime st, tv_nsec = sb_atime_nsec st\<rparr> \<and>
         systemtime_to_libc (Some (ma_mtime a)) = Ret \<lparr>tv_sec = sb_mtime st, tv_nsec = sb_mtime_nsec st\<rparr> \<and>
         ma_size a = sb_size st \<and> ma_uid a = sb_uid st \<and> ma_gid a = sb_gid st))"
proof -
  have get: "pt_getattr host fs path None h = bind_outcome (stat_to_fuse st) (\<lambda>a. Ret (Inr (TTL, a), h1))"
    using assms(1,2) by (cases "stat_to_fuse st")
      (simp_all add: pt_getattr_def stat_real_def lstat_def into_cstring_def sys_def pm_bind_def pm_value_def pm_return_def)
  then have "(\<exists>r. pt_getattr host fs path None h = Ret r) \<longleftrightarrow> (\<exists>a. stat_to_fuse st = Ret a)"
    by (cases "stat_to_fuse st") auto
  with get stat_to_fuse_Ret [OF assms(3)] show ?thesis
    using stat_to_fuse_values [OF assms(3)] by (auto elim!: bind_outcome_RetE)
qed


section \<open>Witnesses\<close>

text \<open>
  A host on which every file has the same attributes; its state is the rest of the one directory that is open.
\<close>

definition example_stat :: stat64 where
  "example_stat = \<lparr>sb_mode = 0x81A4, sb_nlink = 1, sb_uid = 0, sb_gid = 0, sb_rdev = 0, sb_size = 5, sb_blocks = 8,
     sb_atime = 1, sb_atime_nsec = 0, sb_mtime = - 1, sb_mtime_nsec = 500000000, sb_ctime = 1, sb_ctime_nsec = 0\<rparr>"

definition set_times :: "timespec \<Rightarrow> timespec \<Rightarrow> 'h \<Rightarrow> (i32 + unit) \<times> 'h" where
  "set_times a m h = (if settable (tv_nsec a) \<and> settable (tv_nsec m) then Inr () else Inl 22, h)"

definition example_host :: "dirent list host" where
  "example_host =
     \<lparr>h_lstat = (\<lambda>_ h. (Inr example_stat, h)), h_opendir = (\<lambda>_ h. (Inr 64, h)), h_open = (\<lambda>_ _ _ h. (Inr 3, h)),
      h_chmod = (\<lambda>_ _ h. (Inr (), h)), h_chown = (\<lambda>_ _ _ h. (Inr (), h)), h_truncate = (\<lambda>_ _ h. (Inr (), h)),
      h_utimensat = (\<lambda>_. set_times), h_readlink = (\<lambda>_ h. (Inr [97], h)), h_statfs = (\<lambda>_ h. (Inl 38, h)),
      h_mknod = (\<lambda>_ _ _ h. (Inr (), h)), h_mkdir = (\<lambda>_ _ h. (Inr (), h)), h_unlink = (\<lambda>_ h. (Inr (), h)),
      h_rmdir = (\<lambda>_ h. (Inr (), h)), h_symlink = (\<lambda>_ _ h. (Inr (), h)), h_rename = (\<lambda>_ _ h. (Inr (), h)),
      h_link = (\<lambda>_ _ h. (Inr (), h)), h_llistxattr = (\<lambda>_ _ h. (Inr (0, []), h)), h_lgetxattr = (\<lambda>_ _ _ h. (Inl 61, h)),
      h_lsetxattr = (\<lambda>_ _ _ _ h. (Inr (), h)), h_lremovexattr = (\<lambda>_ _ h. (Inr (), h)),
      h_fstat = (\<lambda>_ h. (Inr example_stat, h)),
      h_readdir = (\<lambda>_ h. case h of [] \<Rightarrow> (Inr None, []) | e # es \<Rightarrow> if snd e = [46, 46] then (Inr (Some (4, [46, 46])), es) else (Inr (Some (8, snd e)), es)),
      h_closedir = (\<lambda>_ h. (Inr (), h)), h_close = (\<lambda>_ h. (Inr (), h)), h_lseek = (\<lambda>_ _ h. (Inr 0, h)),
      h_read = (\<lambda>_ _ h. (Inr [], h)), h_write = (\<lambda>_ d h. (Inr (length d), h)), h_fsync = (\<lambda>_ h. (Inr (), h)),
      h_fdatasync = (\<lambda>_ h. (Inr (), h)), h_fchmod = (\<lambda>_ _ h. (Inr (), h)), h_fchown = (\<lambda>_ _ _ h. (Inr (), h)),
      h_ftruncate = (\<lambda>_ _ h. (Inr (), h)), h_futimens = (\<lambda>_. set_times)\<rparr>"

definition example_target :: passthrough_fs where
  "example_target = \<lparr>pt_target = [47, 116]\<rparr>"

text \<open>The same host, without files outside the target.\<close>

definition other_host :: "dirent list host" where
  "other_host = example_host\<lparr>h_lstat := (\<lambda>p h. (if inside [47, 116] p then Inr example_stat else Inl 2, h))\<rparr>"


theorem passthrough_attributes_witness:
  "\<not> (\<exists>r. pt_getattr example_host example_target [[97]] None [] = Ret r)"
proof -
  have "h_lstat example_host (real_path example_target [[97]]) [] = (Inr example_stat, [])" by (simp add: example_host_def)
  moreover have "0 \<notin> set (real_path example_target [[97]])" by (simp add: real_path_def example_target_def pathbuf_join_def)
  moreover have "nanos_of_stat_ok example_stat" by (simp add: nanos_of_stat_ok_def nanos_ok_def nanos_per_sec_def example_stat_def)
  ultimately show ?thesis using passthrough_attributes [of example_host example_target "[[97]]" "[]" example_stat "[]"]
    by (simp add: example_stat_def)
qed


end
