(* ===== verification/BTree_Map.thy ===== *)
theory BTree_Map
  imports Prelude "HOL-Library.List_Lexorder"
begin

text \<open>
  The ordered maps of the standard library (\<^verbatim>\<open>BTreeMap\<close>), as association lists with strictly increasing
  keys: what iteration gives is the list itself. The locale \<open>ordered_map\<close> is what a client relies on.
\<close>

fun bt_get :: "('k::linorder \<times> 'v) list \<Rightarrow> 'k \<Rightarrow> 'v option" where
  "bt_get [] k = None"
| "bt_get ((a, b) # m) k = (if k = a then Some b else bt_get m k)"

fun bt_insert :: "'k::linorder \<Rightarrow> 'v \<Rightarrow> ('k \<times> 'v) list \<Rightarrow> ('k \<times> 'v) list" where
  "bt_insert k v [] = [(k, v)]"
| "bt_insert k v ((a, b) # m) =
     (if k < a then (k, v) # (a, b) # m else if k = a then (k, v) # m else (a, b) # bt_insert k v m)"

fun bt_remove :: "'k::linorder \<Rightarrow> ('k \<times> 'v) list \<Rightarrow> ('k \<times> 'v) list" where
  "bt_remove k [] = []"
| "bt_remove k ((a, b) # m) = (if k = a then m else (a, b) # bt_remove k m)"

definition bt_inv :: "('k::linorder \<times> 'v) list \<Rightarrow> bool" where
  "bt_inv m \<longleftrightarrow> sorted_wrt (<) (map fst m)"

locale ordered_map =
  fixes get :: "'m \<Rightarrow> 'k::linorder \<Rightarrow> 'v option"
    and ins :: "'k \<Rightarrow> 'v \<Rightarrow> 'm \<Rightarrow> 'm"
    and rem :: "'k \<Rightarrow> 'm \<Rightarrow> 'm"
    and items :: "'m \<Rightarrow> ('k \<times> 'v) list"
    and inv :: "'m \<Rightarrow> bool"
  assumes get_ins: "get (ins k v m) j = (if j = k then Some v else get m j)"
    and get_rem: "inv m \<Longrightarrow> get (rem k m) j = (if j = k then None else get m j)"
    and inv_ins: "inv m \<Longrightarrow> inv (ins k v m)"
    and inv_rem: "inv m \<Longrightarrow> inv (rem k m)"
    and items_get: "inv m \<Longrightarrow> get m k = Some v \<longleftrightarrow> (k, v) \<in> set (items m)"
    and items_sorted: "inv m \<Longrightarrow> sorted_wrt (<) (map fst (items m))"
begin

lemma items_ins: "inv m \<Longrightarrow> set (items (ins k v m)) = insert (k, v) {(a, b) \<in> set (items m). a \<noteq> k}"
proof (intro set_eqI)
  fix x assume "inv m"
  then show "x \<in> set (items (ins k v m)) \<longleftrightarrow> x \<in> insert (k, v) {(a, b) \<in> set (items m). a \<noteq> k}"
    by (cases x) (auto simp: items_get [symmetric] inv_ins get_ins split: if_splits)
qed

lemma items_rem: "inv m \<Longrightarrow> set (items (rem k m)) = {(a, b) \<in> set (items m). a \<noteq> k}"
proof (intro set_eqI)
  fix x assume "inv m"
  then show "x \<in> set (items (rem k m)) \<longleftrightarrow> x \<in> {(a, b) \<in> set (items m). a \<noteq> k}"
    by (cases x) (auto simp: items_get [symmetric] inv_rem get_rem split: if_splits)
qed

lemma items_distinct: "inv m \<Longrightarrow> distinct (map fst (items m))"
  using items_sorted strict_sorted_iff by blast

end

lemma bt_get_insert: "bt_get (bt_insert k v m) j = (if j = k then Some v else bt_get m j)"
  by (induction k v m rule: bt_insert.induct) auto

lemma bt_keys_insert: "set (map fst (bt_insert k v m)) = insert k (set (map fst m))"
  by (induction k v m rule: bt_insert.induct) auto

lemma bt_keys_remove: "set (map fst (bt_remove k m)) \<subseteq> set (map fst m)"
  by (induction k m rule: bt_remove.induct) auto

lemma bt_get_None: "bt_get m k = None \<longleftrightarrow> k \<notin> fst ` set m"
  by (induction m k rule: bt_get.induct) auto

lemma bt_inv_insert: "bt_inv m \<Longrightarrow> bt_inv (bt_insert k v m)"
proof (induction k v m rule: bt_insert.induct)
  case (2 k v a b m)
  then show ?case
    using bt_keys_insert [of k v m] by (auto simp: bt_inv_def)
qed (simp add: bt_inv_def)

lemma bt_inv_remove: "bt_inv m \<Longrightarrow> bt_inv (bt_remove k m)"
proof (induction k m rule: bt_remove.induct)
  case (2 k a b m)
  then show ?case
    using bt_keys_remove [of k m] by (auto simp: bt_inv_def) (metis fst_conv image_eqI image_iff subsetD)
qed (simp add: bt_inv_def)

lemma bt_get_remove: "bt_inv m \<Longrightarrow> bt_get (bt_remove k m) j = (if j = k then None else bt_get m j)"
proof (induction k m rule: bt_remove.induct)
  case (2 k a b m)
  then have "a \<notin> fst ` set m" by (auto simp: bt_inv_def)
  then have "bt_get m a = None" by (simp add: bt_get_None)
  with 2 show ?case by (auto simp: bt_inv_def)
qed simp

lemma bt_get_iff: "bt_inv m \<Longrightarrow> bt_get m k = Some v \<longleftrightarrow> (k, v) \<in> set m"
proof (induction m k rule: bt_get.induct)
  case (2 a b m k)
  then show ?case by (force simp: bt_inv_def)
qed simp

interpretation btree: ordered_map bt_get bt_insert bt_remove "\<lambda>m. m" bt_inv
  by unfold_locales (simp_all add: bt_get_insert bt_get_remove bt_inv_insert bt_inv_remove bt_get_iff, simp add: bt_inv_def)

end
