(* ===== verification/Simple_Fs.thy ===== *)
theory Simple_Fs
  imports Kernel_Config BTree_Map
begin

text \<open>
  The file system of \<^verbatim>\<open>src/fuse/src/filesystem.rs\<close>, which keeps inodes and contents in a directory of the
  host: its state is what is stored there. Attributes are stored and read back with a serialiser, so
  the store of inodes maps numbers to attributes; the contents of files are bytes, and a directory is
  the serialised map of its entries, with the serialiser a parameter. The host's storage does not
  fail. Each use of the clock in a handler is a separate reading, numbered in their order.
\<close>

text \<open>The names of the source, from the C library.\<close>

abbreviation (input) S_ISUID :: "'a::len word" where "S_ISUID \<equiv> 0x800"
abbreviation (input) S_ISGID :: "'a::len word" where "S_ISGID \<equiv> 0x400"
abbreviation (input) S_ISVTX :: "'a::len word" where "S_ISVTX \<equiv> 0x200"
abbreviation (input) S_IXUSR :: "'a::len word" where "S_IXUSR \<equiv> 0x40"
abbreviation (input) S_IXGRP :: "'a::len word" where "S_IXGRP \<equiv> 0x8"
abbreviation (input) S_IXOTH :: "'a::len word" where "S_IXOTH \<equiv> 0x1"
abbreviation (input) S_IFMT :: u32 where "S_IFMT \<equiv> 0xF000"
abbreviation (input) S_IFREG :: u32 where "S_IFREG \<equiv> 0x8000"
abbreviation (input) S_IFLNK :: u32 where "S_IFLNK \<equiv> 0xA000"
abbreviation (input) S_IFDIR :: u32 where "S_IFDIR \<equiv> 0x4000"
abbreviation (input) R_OK :: i32 where "R_OK \<equiv> 4"
abbreviation (input) W_OK :: i32 where "W_OK \<equiv> 2"
abbreviation (input) X_OK :: i32 where "X_OK \<equiv> 1"
abbreviation (input) F_OK :: i32 where "F_OK \<equiv> 0"
abbreviation (input) O_ACCMODE :: i32 where "O_ACCMODE \<equiv> 3"
abbreviation (input) O_RDONLY :: i32 where "O_RDONLY \<equiv> 0"
abbreviation (input) O_WRONLY :: i32 where "O_WRONLY \<equiv> 1"
abbreviation (input) O_RDWR :: i32 where "O_RDWR \<equiv> 2"
abbreviation (input) O_TRUNC :: i32 where "O_TRUNC \<equiv> 0x200"
abbreviation (input) RENAME_EXCHANGE :: u32 where "RENAME_EXCHANGE \<equiv> 2"
abbreviation (input) FALLOC_FL_KEEP_SIZE :: i32 where "FALLOC_FL_KEEP_SIZE \<equiv> 1"

datatype errno =
    EPERM | ENOENT | EBADF | EACCES | EEXIST | EINVAL | EFBIG | ERANGE | ENAMETOOLONG | ENOSYS
  | ENOTEMPTY | ENODATA | ENOTSUP

definition BLOCK_SIZE :: u64 where "BLOCK_SIZE = 512"
definition MAX_NAME_LENGTH :: nat where "MAX_NAME_LENGTH = 255"
definition MAX_FILE_SIZE :: u64 where "MAX_FILE_SIZE = 1024 * 1024 * 1024 * 1024"
definition FILE_HANDLE_READ_BIT :: u64 where "FILE_HANDLE_READ_BIT = push_bit 63 1"
definition FILE_HANDLE_WRITE_BIT :: u64 where "FILE_HANDLE_WRITE_BIT = push_bit 62 1"
definition FMODE_EXEC :: i32 where "FMODE_EXEC = 0x20"
definition ROOT_ID :: u64 where "ROOT_ID = 1"

datatype file_kind = File | Directory | Symlink

datatype xattr_namespace = Security | System | Trusted | User

type_synonym time = "i64 \<times> u32"
type_synonym directory_descriptor = "(bytes \<times> u64 \<times> file_kind) list"

record inode_attributes =
  ia_inode :: u64
  open_file_handles :: u64
  ia_size :: u64
  last_accessed :: time
  last_modified :: time
  last_metadata_changed :: time
  ia_kind :: file_kind
  ia_mode :: u16
  hardlinks :: u32
  ia_uid :: u32
  ia_gid :: u32
  xattrs :: "(bytes \<times> bytes) list"

text \<open>The user, group and process of a request.\<close>

record request =
  req_uid :: u32
  req_gid :: u32
  req_pid :: u32

text \<open>
  The environment: the readings of the clock in a handler, the lines of the status file of a
  process, the serialiser of directories, and what the host's \<open>fallocate64\<close> makes of the contents of a file.
\<close>

record environment =
  clock :: "nat \<Rightarrow> time"
  proc_status :: "u32 \<Rightarrow> string list option"
  serialize_dir :: "directory_descriptor \<Rightarrow> bytes"
  deserialize_dir :: "bytes \<Rightarrow> directory_descriptor option"
  host_fallocate :: "bytes \<Rightarrow> i32 \<Rightarrow> i64 \<Rightarrow> i64 \<Rightarrow> bytes"

record simple_fs =
  inodes :: "u64 \<rightharpoonup> inode_attributes"
  contents :: "u64 \<rightharpoonup> bytes"
  superblock :: "u64 option"
  next_file_handle :: u64
  direct_io :: bool
  suid_support :: bool

section \<open>Access\<close>

definition parse_xattr_namespace :: "bytes \<Rightarrow> errno + xattr_namespace" where
  "parse_xattr_namespace key =
     (let user = map (of_nat \<circ> of_char) ''user.''; system = map (of_nat \<circ> of_char) ''system.'';
          trusted = map (of_nat \<circ> of_char) ''trusted.''; security = map (of_nat \<circ> of_char) ''security'' in
      if length key < length user then Inl ENOTSUP
      else if take (length user) key = user then Inr User
      else if length key < length system then Inl ENOTSUP
      else if take (length system) key = system then Inr System
      else if length key < length trusted then Inl ENOTSUP
      else if take (length trusted) key = trusted then Inr Trusted
      else if length key < length security then Inl ENOTSUP
      else if take (length security) key = security then Inr Security
      else Inl ENOTSUP)"

definition check_access :: "u32 \<Rightarrow> u32 \<Rightarrow> u16 \<Rightarrow> u32 \<Rightarrow> u32 \<Rightarrow> i32 \<Rightarrow> bool" where
  "check_access file_uid file_gid file_mode16 uid gid access_mask =
     (if access_mask = F_OK then True
      else
        let file_mode = (ucast file_mode16 :: i32) in
        if uid = 0 then
          let m0 = access_mask AND X_OK;
              m1 = m0 - (m0 AND signed_drop_bit 6 file_mode);
              m2 = m1 - (m1 AND signed_drop_bit 3 file_mode);
              m3 = m2 - (m2 AND file_mode) in
          m3 = 0
        else if uid = file_uid then access_mask - (access_mask AND signed_drop_bit 6 file_mode) = 0
        else if gid = file_gid then access_mask - (access_mask AND signed_drop_bit 3 file_mode) = 0
        else access_mask - (access_mask AND file_mode) = 0)"

abbreviation may_access :: "inode_attributes \<Rightarrow> request \<Rightarrow> i32 \<Rightarrow> bool" where
  "may_access a req access_mask \<equiv>
     check_access (ia_uid a) (ia_gid a) (ia_mode a) (req_uid req) (req_gid req) access_mask"

definition clear_suid_sgid :: "inode_attributes \<Rightarrow> inode_attributes" where
  "clear_suid_sgid a =
     (let m = ia_mode a AND NOT S_ISUID in
      a\<lparr>ia_mode := if m AND S_IXGRP \<noteq> 0 then m AND NOT S_ISGID else m\<rparr>)"

definition creation_gid :: "inode_attributes \<Rightarrow> u32 \<Rightarrow> u32" where
  "creation_gid parent gid = (if ia_mode parent AND S_ISGID \<noteq> 0 then ia_gid parent else gid)"

definition xattr_access_check :: "bytes \<Rightarrow> i32 \<Rightarrow> inode_attributes \<Rightarrow> request \<Rightarrow> errno + unit" where
  "xattr_access_check key access_mask a req =
     (case parse_xattr_namespace key of
        Inl e \<Rightarrow> Inl e
      | Inr Security \<Rightarrow> if access_mask \<noteq> R_OK \<and> req_uid req \<noteq> 0 then Inl EPERM else Inr ()
      | Inr Trusted \<Rightarrow> if req_uid req \<noteq> 0 then Inl EPERM else Inr ()
      | Inr System \<Rightarrow>
          if key = map (of_nat \<circ> of_char) ''system.posix_acl_access'' then
            (if \<not> may_access a req access_mask then Inl EPERM else Inr ())
          else if req_uid req \<noteq> 0 then Inl EPERM else Inr ()
      | Inr User \<Rightarrow> if \<not> may_access a req access_mask then Inl EPERM else Inr ())"

definition as_file_kind :: "u32 \<Rightarrow> file_kind outcome" where
  "as_file_kind mode0 =
     (let mode = mode0 AND S_IFMT in
      if mode = S_IFREG then Ret File
      else if mode = S_IFLNK then Ret Symlink
      else if mode = S_IFDIR then Ret Directory
      else Panic ''not implemented'')"

text \<open>
  The groups of a process: the numbers after \<open>Groups:\<close> in its status file, separated by blanks.
  \<open>parse_u32\<close> is the parser of the standard library: decimal digits, an optional sign, in range.
\<close>

fun split_blank :: "string \<Rightarrow> string list" where
  "split_blank [] = [[]]"
| "split_blank (c # cs) =
     (if c = CHR '' '' then [] # split_blank cs
      else case split_blank cs of w # ws \<Rightarrow> (c # w) # ws | [] \<Rightarrow> [[c]])"

definition parse_digits :: "string \<Rightarrow> nat option" where
  "parse_digits cs =
     (if cs = [] \<or> \<not> list_all (\<lambda>c. 48 \<le> (of_char c :: nat) \<and> of_char c \<le> (57 :: nat)) cs then None
      else Some (foldl (\<lambda>n c. 10 * n + (of_char c - 48)) 0 cs))"

definition parse_u32 :: "string \<Rightarrow> u32 option" where
  "parse_u32 cs =
     (case parse_digits (case cs of c # r \<Rightarrow> if c = CHR ''+'' then r else cs | [] \<Rightarrow> cs) of
        Some n \<Rightarrow> if n < 2 ^ 32 then Some (of_nat n) else None
      | None \<Rightarrow> None)"

fun parse_groups :: "string list \<Rightarrow> u32 list outcome" where
  "parse_groups [] = Ret []"
| "parse_groups (x # xs) =
     (case parse_u32 x of
        None \<Rightarrow> Panic ''called unwrap on an Err value''
      | Some g \<Rightarrow> bind_outcome (parse_groups xs) (\<lambda>gs. Ret (g # gs)))"

definition blank :: "char \<Rightarrow> bool" where
  "blank c \<longleftrightarrow> c = CHR '' '' \<or> (9 \<le> (of_char c :: nat) \<and> of_char c \<le> (13 :: nat))"

fun groups_of_lines :: "string list \<Rightarrow> u32 list outcome" where
  "groups_of_lines [] = Ret []"
| "groups_of_lines (line # ls) =
     (if take 7 line = ''Groups:'' then
        (if length line < 8 then Panic ''byte index 8 is out of bounds''
         else parse_groups (filter (\<lambda>x. \<not> list_all blank x) (split_blank (drop 8 line))))
      else groups_of_lines ls)"

definition get_groups :: "environment \<Rightarrow> u32 \<Rightarrow> u32 list outcome" where
  "get_groups env pid =
     (case proc_status env pid of
        None \<Rightarrow> Panic ''called unwrap on an Err value''
      | Some ls \<Rightarrow> groups_of_lines ls)"

section \<open>Attributes for the kernel\<close>

definition fs_system_time_from_time :: "i64 \<Rightarrow> u32 \<Rightarrow> system_time outcome" where
  "fs_system_time_from_time secs nsecs =
     (if 0 \<le> sint secs then
        system_time_at ''overflow when adding duration to instant'' (sint secs * nanos_per_sec + uint nsecs)
      else if sint secs = - (2 ^ 63) then Panic ''attempt to negate with overflow''
      else
        system_time_at ''overflow when subtracting duration from instant''
          (- ((- sint secs) * nanos_per_sec + uint nsecs)))"

definition fs_time_from_system_time :: "system_time \<Rightarrow> time outcome" where
  "fs_time_from_system_time t =
     (if 0 \<le> t then Ret (word_of_int (t div nanos_per_sec), word_of_int (t mod nanos_per_sec))
      else
        let secs = (word_of_int ((- t) div nanos_per_sec) :: i64) in
        if sint secs = - (2 ^ 63) then Panic ''attempt to negate with overflow''
        else Ret (- secs, word_of_int ((- t) mod nanos_per_sec)))"

fun file_type_from :: "file_kind \<Rightarrow> file_type" where
  "file_type_from File = RegularFile"
| "file_type_from Directory = file_type.Directory"
| "file_type_from Symlink = file_type.Symlink"

definition file_attr_from :: "inode_attributes \<Rightarrow> FileAttr outcome" where
  "file_attr_from a =
     (if 2 ^ 64 \<le> unat (ia_size a) + unat BLOCK_SIZE then Panic ''attempt to add with overflow''
      else
        bind_outcome (fs_system_time_from_time (fst (last_accessed a)) (snd (last_accessed a))) (\<lambda>atime.
        bind_outcome (fs_system_time_from_time (fst (last_modified a)) (snd (last_modified a))) (\<lambda>mtime.
        bind_outcome (fs_system_time_from_time (fst (last_metadata_changed a)) (snd (last_metadata_changed a))) (\<lambda>ctime.
          Ret \<lparr>fa_ino = ia_inode a, fa_size = ia_size a, fa_blocks = (ia_size a + BLOCK_SIZE - 1) div BLOCK_SIZE,
               fa_atime = atime, fa_mtime = mtime, fa_ctime = ctime, fa_crtime = 0,
               fa_kind = file_type_from (ia_kind a), fa_perm = ia_mode a, fa_nlink = hardlinks a,
               fa_uid = ia_uid a, fa_gid = ia_gid a, fa_rdev = 0, fa_blksize = ucast BLOCK_SIZE,
               fa_flags = 0\<rparr>))))"

section \<open>Storage\<close>

text \<open>The readings of the clock after the first \<open>n\<close>.\<close>

definition later :: "nat \<Rightarrow> environment \<Rightarrow> environment" where
  "later n env = env\<lparr>clock := (\<lambda>i. clock env (n + i))\<rparr>"

definition simple_fs_new :: "bool \<Rightarrow> bool \<Rightarrow> simple_fs" where
  "simple_fs_new direct suid =
     \<lparr>inodes = (\<lambda>k. None), contents = (\<lambda>k. None), superblock = None, next_file_handle = 1,
      direct_io = direct, suid_support = suid\<rparr>"

definition creation_mode :: "simple_fs \<Rightarrow> u32 \<Rightarrow> u16" where
  "creation_mode s mode =
     (if \<not> suid_support s then ucast (mode AND NOT (S_ISUID OR S_ISGID)) else ucast mode)"

definition allocate_next_inode :: "simple_fs \<Rightarrow> (u64 \<times> simple_fs) outcome" where
  "allocate_next_inode s =
     (let current = (case superblock s of Some n \<Rightarrow> n | None \<Rightarrow> ROOT_ID) in
      if current = - 1 then Panic ''attempt to add with overflow''
      else Ret (current + 1, s\<lparr>superblock := Some (current + 1)\<rparr>))"

definition allocate_next_file_handle :: "bool \<Rightarrow> bool \<Rightarrow> simple_fs \<Rightarrow> (u64 \<times> simple_fs) outcome" where
  "allocate_next_file_handle rd wr s =
     (let fh = next_file_handle s; s1 = s\<lparr>next_file_handle := fh + 1\<rparr> in
      if \<not> fh < FILE_HANDLE_WRITE_BIT then Panic ''assertion failed: fh < FILE_HANDLE_WRITE_BIT''
      else
        let fh1 = (if rd then fh OR FILE_HANDLE_READ_BIT else fh);
            fh2 = (if wr then fh1 OR FILE_HANDLE_WRITE_BIT else fh1) in
        Ret (fh2, s1))"

definition check_file_handle_read :: "u64 \<Rightarrow> bool" where
  "check_file_handle_read fh \<longleftrightarrow> fh AND FILE_HANDLE_READ_BIT \<noteq> 0"

definition check_file_handle_write :: "u64 \<Rightarrow> bool" where
  "check_file_handle_write fh \<longleftrightarrow> fh AND FILE_HANDLE_WRITE_BIT \<noteq> 0"

definition get_directory_content ::
    "environment \<Rightarrow> simple_fs \<Rightarrow> u64 \<Rightarrow> (errno + directory_descriptor) outcome" where
  "get_directory_content env s ino =
     (case contents s ino of
        None \<Rightarrow> Ret (Inl ENOENT)
      | Some b \<Rightarrow>
          (case deserialize_dir env b of
             None \<Rightarrow> Panic ''called unwrap on an Err value''
           | Some d \<Rightarrow> Ret (Inr d)))"

definition write_directory_content :: "environment \<Rightarrow> u64 \<Rightarrow> directory_descriptor \<Rightarrow> simple_fs \<Rightarrow> simple_fs" where
  "write_directory_content env ino entries s =
     s\<lparr>contents := (contents s)(ino \<mapsto> serialize_dir env entries)\<rparr>"

definition get_inode :: "simple_fs \<Rightarrow> u64 \<Rightarrow> errno + inode_attributes" where
  "get_inode s ino = (case inodes s ino of None \<Rightarrow> Inl ENOENT | Some a \<Rightarrow> Inr a)"

definition write_inode :: "inode_attributes \<Rightarrow> simple_fs \<Rightarrow> simple_fs" where
  "write_inode a s = s\<lparr>inodes := (inodes s)(ia_inode a \<mapsto> a)\<rparr>"

text \<open>\<open>get_directory_content(...).unwrap()\<close>, and the same followed by a change that is written back.\<close>

definition dir_unwrap :: "environment \<Rightarrow> simple_fs \<Rightarrow> u64 \<Rightarrow> directory_descriptor outcome" where
  "dir_unwrap env s ino =
     bind_outcome (get_directory_content env s ino) (\<lambda>r. case r of
       Inl e \<Rightarrow> Panic ''called unwrap on an Err value'' | Inr d \<Rightarrow> Ret d)"

definition update_directory ::
    "environment \<Rightarrow> u64 \<Rightarrow> (directory_descriptor \<Rightarrow> directory_descriptor) \<Rightarrow> simple_fs \<Rightarrow> simple_fs outcome" where
  "update_directory env ino f s =
     bind_outcome (dir_unwrap env s ino) (\<lambda>d. Ret (write_directory_content env ino (f d) s))"

definition gc_inode :: "inode_attributes \<Rightarrow> simple_fs \<Rightarrow> (bool \<times> simple_fs) outcome" where
  "gc_inode a s =
     (if hardlinks a = 0 \<and> open_file_handles a = 0 then
        (if inodes s (ia_inode a) = None \<or> contents s (ia_inode a) = None
         then Panic ''called unwrap on an Err value''
         else Ret (True, s\<lparr>inodes := (inodes s)(ia_inode a := None),
                           contents := (contents s)(ia_inode a := None)\<rparr>))
      else Ret (False, s))"

text \<open>\<open>set_len\<close>, and writing at an offset after seeking, on the contents of a file.\<close>

definition file_set_len :: "nat \<Rightarrow> bytes \<Rightarrow> bytes" where
  "file_set_len n b = take n b @ replicate (n - length b) 0"

definition file_write_at :: "nat \<Rightarrow> bytes \<Rightarrow> bytes \<Rightarrow> bytes" where
  "file_write_at off d b =
     (if d = [] then b
      else take off b @ replicate (off - length b) 0 @ d @ drop (off + length d) b)"

definition truncate ::
    "environment \<Rightarrow> u64 \<Rightarrow> u64 \<Rightarrow> u32 \<Rightarrow> u32 \<Rightarrow> simple_fs \<Rightarrow> ((errno + inode_attributes) \<times> simple_fs) outcome" where
  "truncate env ino new_length uid gid s =
     (if MAX_FILE_SIZE < new_length then Ret (Inl EFBIG, s)
      else case get_inode s ino of
        Inl e \<Rightarrow> Ret (Inl e, s)
      | Inr a \<Rightarrow>
          if \<not> check_access (ia_uid a) (ia_gid a) (ia_mode a) uid gid W_OK then Ret (Inl EACCES, s)
          else case contents s ino of
            None \<Rightarrow> Panic ''called unwrap on an Err value''
          | Some b \<Rightarrow>
              let a1 = clear_suid_sgid (a\<lparr>ia_size := new_length, last_metadata_changed := clock env 0,
                                          last_modified := clock env 1\<rparr>);
                  s1 = s\<lparr>contents := (contents s)(ino \<mapsto> file_set_len (unat new_length) b)\<rparr> in
              Ret (Inr a1, write_inode a1 s1))"

definition lookup_name :: "environment \<Rightarrow> simple_fs \<Rightarrow> u64 \<Rightarrow> bytes \<Rightarrow> (errno + inode_attributes) outcome" where
  "lookup_name env s parent name =
     bind_outcome (get_directory_content env s parent) (\<lambda>r. case r of
       Inl e \<Rightarrow> Ret (Inl e)
     | Inr entries \<Rightarrow>
         (case bt_get entries name of
            Some (ino, _) \<Rightarrow> Ret (get_inode s ino)
          | None \<Rightarrow> Ret (Inl ENOENT)))"

definition insert_link ::
    "environment \<Rightarrow> request \<Rightarrow> u64 \<Rightarrow> bytes \<Rightarrow> u64 \<Rightarrow> file_kind \<Rightarrow> simple_fs \<Rightarrow> ((errno + unit) \<times> simple_fs) outcome" where
  "insert_link env req parent name ino kind s =
     bind_outcome (lookup_name env s parent name) (\<lambda>r. case r of
       Inr a \<Rightarrow> Ret (Inl EEXIST, s)
     | Inl e0 \<Rightarrow>
         (case get_inode s parent of
            Inl e \<Rightarrow> Ret (Inl e, s)
          | Inr p \<Rightarrow>
              if \<not> may_access p req W_OK then Ret (Inl EACCES, s)
              else
                let s1 = write_inode (p\<lparr>last_modified := clock env 0, last_metadata_changed := clock env 1\<rparr>) s in
                bind_outcome (update_directory env parent (bt_insert name (ino, kind)) s1) (\<lambda>s2.
                  Ret (Inr (), s2))))"

end
