(* ===== verification/Simple_Ops.thy ===== *)
theory Simple_Ops
  imports Simple_Fs
begin

text \<open>
  The methods of the file system of \<^verbatim>\<open>src/fuse/src/filesystem.rs\<close>, one definition each, and their
  composition \<open>simple_handle\<close>. A method answers with the value it hands to its reply object; it ends
  with the reply, so that the state is the one after the call.
\<close>

datatype reply =
    RError errno
  | REntry FileAttr
  | RAttr FileAttr
  | RData bytes
  | ROk
  | ROpened u64 u32
  | RWritten u32
  | RDirectory ent_list_buf
  | RStatfs u64 u64 u64 u64 u64 u32 u32 u32
  | RXattrSize u32
  | RCreated FileAttr u64
  | RNone

type_synonym answer = "(reply \<times> simple_fs) outcome"

definition reject :: "errno \<Rightarrow> simple_fs \<Rightarrow> answer" where
  "reject e s = Ret (RError e, s)"

text \<open>\<open>match result { Ok(x) => x, Err(e) => { reply.error(e); return } }\<close>\<close>

fun or_reject :: "errno + 'a \<Rightarrow> simple_fs \<Rightarrow> ('a \<Rightarrow> answer) \<Rightarrow> answer" where
  "or_reject (Inl e) s f = reject e s"
| "or_reject (Inr x) s f = f x"

fun unwrap :: "errno + 'a \<Rightarrow> 'a outcome" where
  "unwrap (Inl e) = Panic ''called unwrap on an Err value''"
| "unwrap (Inr x) = Ret x"

definition entry_reply :: "inode_attributes \<Rightarrow> simple_fs \<Rightarrow> answer" where
  "entry_reply a s = bind_outcome (file_attr_from a) (\<lambda>f. Ret (REntry f, s))"

definition attr_reply :: "inode_attributes \<Rightarrow> simple_fs \<Rightarrow> answer" where
  "attr_reply a s = bind_outcome (file_attr_from a) (\<lambda>f. Ret (RAttr f, s))"

section \<open>Initialisation and lookup\<close>

definition dot :: bytes where "dot = [46]"
definition dotdot :: bytes where "dotdot = [46, 46]"

definition simple_init :: "environment \<Rightarrow> kernel_config \<Rightarrow> simple_fs \<Rightarrow> (kernel_config \<times> simple_fs) outcome" where
  "simple_init env config s =
     (case add_capabilities FUSE_HANDLE_KILLPRIV config of
        (Inl _, _) \<Rightarrow> Panic ''called unwrap on an Err value''
      | (Inr _, config1) \<Rightarrow>
          (case get_inode s ROOT_ID of
             Inr _ \<Rightarrow> Ret (config1, s)
           | Inl _ \<Rightarrow>
               let root = \<lparr>ia_inode = ROOT_ID, open_file_handles = 0, ia_size = 0, last_accessed = clock env 0,
                           last_modified = clock env 1, last_metadata_changed = clock env 2,
                           ia_kind = Directory, ia_mode = 0x1FF, hardlinks = 2, ia_uid = 0, ia_gid = 0,
                           xattrs = []\<rparr> in
               Ret (config1, write_directory_content env ROOT_ID [(dot, ROOT_ID, Directory)] (write_inode root s))))"

definition simple_lookup :: "environment \<Rightarrow> request \<Rightarrow> u64 \<Rightarrow> bytes \<Rightarrow> simple_fs \<Rightarrow> answer" where
  "simple_lookup env req parent name s =
     (if MAX_NAME_LENGTH < length name then reject ENAMETOOLONG s
      else
        bind_outcome (unwrap (get_inode s parent)) (\<lambda>parent_attrs.
          if \<not> may_access parent_attrs req X_OK then reject EACCES s
          else
            bind_outcome (lookup_name env s parent name) (\<lambda>r.
              or_reject r s (\<lambda>attrs. entry_reply attrs s))))"

definition simple_getattr :: "u64 \<Rightarrow> simple_fs \<Rightarrow> answer" where
  "simple_getattr ino s = or_reject (get_inode s ino) s (\<lambda>attrs. attr_reply attrs s)"

section \<open>Attributes\<close>

definition set_mode :: "environment \<Rightarrow> request \<Rightarrow> inode_attributes \<Rightarrow> u32 \<Rightarrow> simple_fs \<Rightarrow> answer" where
  "set_mode env req attrs mode s =
     (if req_uid req \<noteq> 0 \<and> req_uid req \<noteq> ia_uid attrs then reject EPERM s
      else
        bind_outcome
          (if req_uid req \<noteq> 0 \<and> req_gid req \<noteq> ia_gid attrs
           then bind_outcome (get_groups env (req_pid req)) (\<lambda>gs. Ret (ia_gid attrs \<notin> set gs))
           else Ret False) (\<lambda>foreign.
        let a = attrs\<lparr>ia_mode := (if foreign then ucast (mode AND NOT S_ISGID) else ucast mode),
                      last_metadata_changed := clock env 0\<rparr> in
        attr_reply a (write_inode a s)))"

definition set_owner ::
    "environment \<Rightarrow> request \<Rightarrow> inode_attributes \<Rightarrow> u32 option \<Rightarrow> u32 option \<Rightarrow> simple_fs \<Rightarrow> answer" where
  "set_owner env req attrs uid gid s =
     bind_outcome
       (case gid of
          Some g \<Rightarrow>
            if req_uid req \<noteq> 0 then bind_outcome (get_groups env (req_pid req)) (\<lambda>gs. Ret (g \<notin> set gs))
            else Ret False
        | None \<Rightarrow> Ret False) (\<lambda>foreign.
     if foreign then reject EPERM s
     else if (case uid of Some u \<Rightarrow> req_uid req \<noteq> 0 \<and> \<not> (u = ia_uid attrs \<and> req_uid req = ia_uid attrs) | None \<Rightarrow> False)
     then reject EPERM s
     else if gid \<noteq> None \<and> req_uid req \<noteq> 0 \<and> req_uid req \<noteq> ia_uid attrs then reject EPERM s
     else
       let a1 = (if ia_mode attrs AND (S_IXUSR OR S_IXGRP OR S_IXOTH) \<noteq> 0 then clear_suid_sgid attrs else attrs);
           a2 = (case uid of Some u \<Rightarrow> a1\<lparr>ia_uid := u, ia_mode := ia_mode a1 AND NOT S_ISUID\<rparr> | None \<Rightarrow> a1);
           a3 = (case gid of
                   Some g \<Rightarrow> a2\<lparr>ia_gid := g,
                               ia_mode := if req_uid req \<noteq> 0 then ia_mode a2 AND NOT S_ISGID else ia_mode a2\<rparr>
                 | None \<Rightarrow> a2);
           a4 = a3\<lparr>last_metadata_changed := clock env 0\<rparr> in
       attr_reply a4 (write_inode a4 s))"

text \<open>The truncation of \<open>setattr\<close>: a file handle that may write replaces the check of the user.\<close>

definition set_size ::
    "environment \<Rightarrow> request \<Rightarrow> u64 \<Rightarrow> u64 option \<Rightarrow> u64 option \<Rightarrow> simple_fs \<Rightarrow> ((errno + unit) \<times> simple_fs) outcome" where
  "set_size env req ino sz fh s =
     (case sz of
        None \<Rightarrow> Ret (Inr (), s)
      | Some n \<Rightarrow>
          (case fh of
             Some handle \<Rightarrow>
               if check_file_handle_write handle then
                 bind_outcome (truncate env ino n 0 0 s) (\<lambda>(r, s1).
                   Ret (case r of Inl e \<Rightarrow> Inl e | Inr _ \<Rightarrow> Inr (), s1))
               else Ret (Inl EACCES, s)
           | None \<Rightarrow>
               bind_outcome (truncate env ino n (req_uid req) (req_gid req) s) (\<lambda>(r, s1).
                 Ret (case r of Inl e \<Rightarrow> Inl e | Inr _ \<Rightarrow> Inr (), s1))))"

text \<open>One of the two times of \<open>setattr\<close>, on the attributes read at its start.\<close>

definition set_time ::
    "request \<Rightarrow> time \<Rightarrow> time_or_now option \<Rightarrow> (time \<Rightarrow> inode_attributes \<Rightarrow> inode_attributes) \<Rightarrow>
     inode_attributes \<Rightarrow> simple_fs \<Rightarrow> ((errno + inode_attributes) \<times> simple_fs) outcome" where
  "set_time req now t upd attrs s =
     (case t of
        None \<Rightarrow> Ret (Inr attrs, s)
      | Some tn \<Rightarrow>
          if ia_uid attrs \<noteq> req_uid req \<and> req_uid req \<noteq> 0 \<and> tn \<noteq> Now then Ret (Inl EPERM, s)
          else if ia_uid attrs \<noteq> req_uid req \<and> \<not> may_access attrs req W_OK then Ret (Inl EACCES, s)
          else
            bind_outcome (case tn of SpecificTime st \<Rightarrow> fs_time_from_system_time st | Now \<Rightarrow> Ret now) (\<lambda>v.
              let a = (upd v attrs)\<lparr>last_metadata_changed := now\<rparr> in
              Ret (Inr a, write_inode a s)))"

definition simple_setattr ::
    "environment \<Rightarrow> request \<Rightarrow> u64 \<Rightarrow> u32 option \<Rightarrow> u32 option \<Rightarrow> u32 option \<Rightarrow> u64 option \<Rightarrow>
     time_or_now option \<Rightarrow> time_or_now option \<Rightarrow> u64 option \<Rightarrow> simple_fs \<Rightarrow> answer" where
  "simple_setattr env req ino mode uid gid sz atime mtime fh s =
     or_reject (get_inode s ino) s (\<lambda>attrs.
       case mode of
         Some m \<Rightarrow> set_mode env req attrs m s
       | None \<Rightarrow>
           if uid \<noteq> None \<or> gid \<noteq> None then set_owner env req attrs uid gid s
           else
             bind_outcome (set_size env req ino sz fh s) (\<lambda>(r, s1). or_reject r s1 (\<lambda>u.
             bind_outcome (set_time req (clock env 2) atime (\<lambda>t a. a\<lparr>last_accessed := t\<rparr>) attrs s1)
               (\<lambda>(r, s2). or_reject r s2 (\<lambda>attrs1.
             bind_outcome (set_time req (clock env 2) mtime (\<lambda>t a. a\<lparr>last_modified := t\<rparr>) attrs1 s2)
               (\<lambda>(r, s3). or_reject r s3 (\<lambda>attrs2.
             bind_outcome (unwrap (get_inode s3 ino)) (\<lambda>attrs3. attr_reply attrs3 s3))))))))"

definition simple_readlink :: "u64 \<Rightarrow> simple_fs \<Rightarrow> answer" where
  "simple_readlink ino s = (case contents s ino of Some b \<Rightarrow> Ret (RData b, s) | None \<Rightarrow> reject ENOENT s)"

section \<open>Making and removing nodes\<close>

text \<open>The attributes of a new node; the reading of the clock for its times starts at \<open>n\<close>.\<close>

definition new_attributes ::
    "environment \<Rightarrow> nat \<Rightarrow> request \<Rightarrow> inode_attributes \<Rightarrow> u64 \<Rightarrow> u64 \<Rightarrow> u64 \<Rightarrow> file_kind \<Rightarrow> u16 \<Rightarrow> u32 \<Rightarrow> inode_attributes" where
  "new_attributes env n req parent_attrs ino handles sz kind mode links =
     \<lparr>ia_inode = ino, open_file_handles = handles, ia_size = sz, last_accessed = clock env n,
      last_modified = clock env (n + 1), last_metadata_changed = clock env (n + 2), ia_kind = kind,
      ia_mode = mode, hardlinks = links, ia_uid = req_uid req,
      ia_gid = creation_gid parent_attrs (req_gid req), xattrs = []\<rparr>"

text \<open>The first entries of a directory, and the file that holds the contents of a new node.\<close>

definition dir_entries :: "u64 \<Rightarrow> u64 \<Rightarrow> directory_descriptor" where
  "dir_entries ino parent =
     bt_insert dotdot (parent, Directory) (bt_insert dot (ino, Directory) [])"

definition create_contents :: "u64 \<Rightarrow> bytes \<Rightarrow> simple_fs \<Rightarrow> simple_fs" where
  "create_contents ino b s = s\<lparr>contents := (contents s)(ino \<mapsto> b)\<rparr>"

text \<open>
  The common part of \<open>mknod\<close> and \<open>create\<close> once the parent may be written: its times, the mode, the new
  inode with its contents, and the entry.
\<close>

definition make_node ::
    "environment \<Rightarrow> request \<Rightarrow> u64 \<Rightarrow> inode_attributes \<Rightarrow> bytes \<Rightarrow> u32 \<Rightarrow> u64 \<Rightarrow> simple_fs \<Rightarrow>
     (inode_attributes \<times> simple_fs) outcome" where
  "make_node env req parent parent_attrs0 name mode0 handles s =
     (let parent_attrs = parent_attrs0\<lparr>last_modified := clock env 0, last_metadata_changed := clock env 1\<rparr>;
          s1 = write_inode parent_attrs s;
          mode = (if req_uid req \<noteq> 0 then mode0 AND NOT (S_ISUID OR S_ISGID) else mode0) in
      bind_outcome (allocate_next_inode s1) (\<lambda>(ino, s2).
      bind_outcome (as_file_kind mode) (\<lambda>kind.
        let attrs = new_attributes env 2 req parent_attrs ino handles 0 kind (creation_mode s mode) 1;
            s3 = create_contents ino [] (write_inode attrs s2);
            s4 = (if kind = Directory then write_directory_content env ino (dir_entries ino parent) s3 else s3) in
        bind_outcome (update_directory env parent (bt_insert name (ino, kind)) s4) (\<lambda>s5.
          Ret (attrs, s5)))))"

definition simple_mknod :: "environment \<Rightarrow> request \<Rightarrow> u64 \<Rightarrow> bytes \<Rightarrow> u32 \<Rightarrow> simple_fs \<Rightarrow> answer" where
  "simple_mknod env req parent name mode s =
     (let file_type = mode AND S_IFMT in
      if file_type \<noteq> S_IFREG \<and> file_type \<noteq> S_IFLNK \<and> file_type \<noteq> S_IFDIR then reject ENOSYS s
      else
        bind_outcome (lookup_name env s parent name) (\<lambda>r. case r of
          Inr _ \<Rightarrow> reject EEXIST s
        | Inl _ \<Rightarrow>
            or_reject (get_inode s parent) s (\<lambda>parent_attrs.
              if \<not> may_access parent_attrs req W_OK then reject EACCES s
              else
                bind_outcome (make_node env req parent parent_attrs name mode 0 s) (\<lambda>(attrs, s1).
                  entry_reply attrs s1))))"

definition simple_mkdir :: "environment \<Rightarrow> request \<Rightarrow> u64 \<Rightarrow> bytes \<Rightarrow> u32 \<Rightarrow> simple_fs \<Rightarrow> answer" where
  "simple_mkdir env req parent name mode0 s =
     bind_outcome (lookup_name env s parent name) (\<lambda>r. case r of
       Inr _ \<Rightarrow> reject EEXIST s
     | Inl _ \<Rightarrow>
         or_reject (get_inode s parent) s (\<lambda>parent_attrs0.
           if \<not> may_access parent_attrs0 req W_OK then reject EACCES s
           else
             let parent_attrs = parent_attrs0\<lparr>last_modified := clock env 0, last_metadata_changed := clock env 1\<rparr>;
                 s1 = write_inode parent_attrs s;
                 mode1 = (if req_uid req \<noteq> 0 then mode0 AND NOT (S_ISUID OR S_ISGID) else mode0);
                 mode = (if ia_mode parent_attrs AND S_ISGID \<noteq> 0 then mode1 OR S_ISGID else mode1) in
             bind_outcome (allocate_next_inode s1) (\<lambda>(ino, s2).
               let attrs = new_attributes env 2 req parent_attrs ino 0 BLOCK_SIZE Directory (creation_mode s mode) 2;
                   s3 = write_directory_content env ino (dir_entries ino parent) (write_inode attrs s2) in
               bind_outcome (update_directory env parent (bt_insert name (ino, Directory)) s3) (\<lambda>s4.
                 entry_reply attrs s4))))"

text \<open>The sticky bit of a directory protects the entries of other users.\<close>

definition sticky :: "request \<Rightarrow> inode_attributes \<Rightarrow> inode_attributes \<Rightarrow> bool" where
  "sticky req parent_attrs attrs \<longleftrightarrow>
     ia_mode parent_attrs AND S_ISVTX \<noteq> 0 \<and> req_uid req \<noteq> 0 \<and>
     req_uid req \<noteq> ia_uid parent_attrs \<and> req_uid req \<noteq> ia_uid attrs"

definition simple_unlink :: "environment \<Rightarrow> request \<Rightarrow> u64 \<Rightarrow> bytes \<Rightarrow> simple_fs \<Rightarrow> answer" where
  "simple_unlink env req parent name s =
     bind_outcome (lookup_name env s parent name) (\<lambda>r. or_reject r s (\<lambda>attrs.
     or_reject (get_inode s parent) s (\<lambda>parent_attrs.
       if \<not> may_access parent_attrs req W_OK then reject EACCES s
       else if sticky req parent_attrs attrs then reject EACCES s
       else
         let s1 = write_inode (parent_attrs\<lparr>last_metadata_changed := clock env 0, last_modified := clock env 1\<rparr>) s in
         if hardlinks attrs = 0 then Panic ''attempt to subtract with overflow''
         else
           let attrs1 = attrs\<lparr>hardlinks := hardlinks attrs - 1, last_metadata_changed := clock env 2\<rparr> in
           bind_outcome (gc_inode attrs1 (write_inode attrs1 s1)) (\<lambda>(b, s2).
           bind_outcome (update_directory env parent (bt_remove name) s2) (\<lambda>s3. Ret (ROk, s3))))))"

definition simple_rmdir :: "environment \<Rightarrow> request \<Rightarrow> u64 \<Rightarrow> bytes \<Rightarrow> simple_fs \<Rightarrow> answer" where
  "simple_rmdir env req parent name s =
     bind_outcome (lookup_name env s parent name) (\<lambda>r. or_reject r s (\<lambda>attrs.
     or_reject (get_inode s parent) s (\<lambda>parent_attrs.
     bind_outcome (dir_unwrap env s (ia_inode attrs)) (\<lambda>d.
       if 2 < length d then reject ENOTEMPTY s
       else if \<not> may_access parent_attrs req W_OK then reject EACCES s
       else if sticky req parent_attrs attrs then reject EACCES s
       else
         let s1 = write_inode (parent_attrs\<lparr>last_metadata_changed := clock env 0, last_modified := clock env 1\<rparr>) s;
             attrs1 = attrs\<lparr>hardlinks := 0, last_metadata_changed := clock env 2\<rparr> in
         bind_outcome (gc_inode attrs1 (write_inode attrs1 s1)) (\<lambda>(b, s2).
         bind_outcome (update_directory env parent (bt_remove name) s2) (\<lambda>s3. Ret (ROk, s3)))))))"

definition simple_symlink :: "environment \<Rightarrow> request \<Rightarrow> u64 \<Rightarrow> bytes \<Rightarrow> bytes \<Rightarrow> simple_fs \<Rightarrow> answer" where
  "simple_symlink env req parent name link s =
     or_reject (get_inode s parent) s (\<lambda>parent_attrs0.
       if \<not> may_access parent_attrs0 req W_OK then reject EACCES s
       else
         let parent_attrs = parent_attrs0\<lparr>last_modified := clock env 0, last_metadata_changed := clock env 1\<rparr>;
             s1 = write_inode parent_attrs s in
         bind_outcome (allocate_next_inode s1) (\<lambda>(ino, s2).
           let attrs = new_attributes env 2 req parent_attrs ino 0 (of_nat (length link)) Symlink 0x1FF 1 in
           bind_outcome (insert_link (later 5 env) req parent name ino Symlink s2) (\<lambda>(r, s3).
             or_reject r s3 (\<lambda>u.
               entry_reply attrs (create_contents ino link (write_inode attrs s3))))))"

section \<open>Renaming and linking\<close>

text \<open>The other half of \<open>RENAME_EXCHANGE\<close>, and the rewriting of the parent entry of a moved directory.\<close>

definition set_parent :: "environment \<Rightarrow> inode_attributes \<Rightarrow> u64 \<Rightarrow> simple_fs \<Rightarrow> simple_fs outcome" where
  "set_parent env attrs parent s =
     (if ia_kind attrs = Directory
      then update_directory env (ia_inode attrs) (bt_insert dotdot (parent, Directory)) s
      else Ret s)"

definition rename_exchange ::
    "environment \<Rightarrow> u64 \<Rightarrow> inode_attributes \<Rightarrow> bytes \<Rightarrow> inode_attributes \<Rightarrow> u64 \<Rightarrow> inode_attributes \<Rightarrow> bytes \<Rightarrow>
     inode_attributes \<Rightarrow> simple_fs \<Rightarrow> answer" where
  "rename_exchange env parent parent_attrs name inode_attrs new_parent new_parent_attrs new_name new_inode_attrs s =
     bind_outcome (update_directory env new_parent (bt_insert new_name (ia_inode inode_attrs, ia_kind inode_attrs)) s) (\<lambda>s1.
     bind_outcome (update_directory env parent (bt_insert name (ia_inode new_inode_attrs, ia_kind new_inode_attrs)) s1) (\<lambda>s2.
       let s3 = write_inode (parent_attrs\<lparr>last_metadata_changed := clock env 0, last_modified := clock env 1\<rparr>) s2;
           s4 = write_inode (new_parent_attrs\<lparr>last_metadata_changed := clock env 2, last_modified := clock env 3\<rparr>) s3;
           s5 = write_inode (inode_attrs\<lparr>last_metadata_changed := clock env 4\<rparr>) s4;
           s6 = write_inode (new_inode_attrs\<lparr>last_metadata_changed := clock env 5\<rparr>) s5 in
       bind_outcome (set_parent env inode_attrs new_parent s6) (\<lambda>s7.
       bind_outcome (set_parent env new_inode_attrs parent s7) (\<lambda>s8. Ret (ROk, s8)))))"

text \<open>The entry that a renaming replaces, if there is one.\<close>

definition rename_replace :: "environment \<Rightarrow> u64 \<Rightarrow> bytes \<Rightarrow> simple_fs \<Rightarrow> simple_fs outcome" where
  "rename_replace env new_parent new_name s =
     bind_outcome (lookup_name env s new_parent new_name) (\<lambda>r. case r of
       Inl _ \<Rightarrow> Ret s
     | Inr existing \<Rightarrow>
         bind_outcome (update_directory env new_parent (bt_remove new_name) s) (\<lambda>s1.
           if ia_kind existing \<noteq> Directory \<and> hardlinks existing = 0 then Panic ''attempt to subtract with overflow''
           else
             let existing1 = existing\<lparr>hardlinks := (if ia_kind existing = Directory then 0 else hardlinks existing - 1),
                                      last_metadata_changed := clock env 0\<rparr> in
             bind_outcome (gc_inode existing1 (write_inode existing1 s1)) (\<lambda>(b, s2). Ret s2)))"

definition rename_move ::
    "environment \<Rightarrow> u64 \<Rightarrow> inode_attributes \<Rightarrow> bytes \<Rightarrow> inode_attributes \<Rightarrow> u64 \<Rightarrow> inode_attributes \<Rightarrow> bytes \<Rightarrow>
     simple_fs \<Rightarrow> answer" where
  "rename_move env parent parent_attrs name inode_attrs new_parent new_parent_attrs new_name s =
     bind_outcome (rename_replace env new_parent new_name s) (\<lambda>s1.
     bind_outcome (update_directory env parent (bt_remove name) s1) (\<lambda>s2.
     bind_outcome (update_directory env new_parent (bt_insert new_name (ia_inode inode_attrs, ia_kind inode_attrs)) s2) (\<lambda>s3.
       let s4 = write_inode (parent_attrs\<lparr>last_metadata_changed := clock env 1, last_modified := clock env 2\<rparr>) s3;
           s5 = write_inode (new_parent_attrs\<lparr>last_metadata_changed := clock env 3, last_modified := clock env 4\<rparr>) s4;
           s6 = write_inode (inode_attrs\<lparr>last_metadata_changed := clock env 5\<rparr>) s5 in
       bind_outcome (set_parent env inode_attrs new_parent s6) (\<lambda>s7. Ret (ROk, s7)))))"

definition sticky_target ::
    "environment \<Rightarrow> request \<Rightarrow> u64 \<Rightarrow> inode_attributes \<Rightarrow> bytes \<Rightarrow> simple_fs \<Rightarrow> bool outcome" where
  "sticky_target env req new_parent new_parent_attrs new_name s =
     (if ia_mode new_parent_attrs AND S_ISVTX \<noteq> 0 then
        bind_outcome (lookup_name env s new_parent new_name) (\<lambda>r.
          Ret (case r of Inr existing \<Rightarrow> sticky req new_parent_attrs existing | Inl _ \<Rightarrow> False))
      else Ret False)"

definition full_target :: "environment \<Rightarrow> u64 \<Rightarrow> bytes \<Rightarrow> simple_fs \<Rightarrow> bool outcome" where
  "full_target env new_parent new_name s =
     bind_outcome (lookup_name env s new_parent new_name) (\<lambda>r. case r of
       Inl _ \<Rightarrow> Ret False
     | Inr existing \<Rightarrow>
         if ia_kind existing = Directory
         then bind_outcome (dir_unwrap env s (ia_inode existing)) (\<lambda>d. Ret (2 < length d))
         else Ret False)"

definition simple_rename ::
    "environment \<Rightarrow> request \<Rightarrow> u64 \<Rightarrow> bytes \<Rightarrow> u64 \<Rightarrow> bytes \<Rightarrow> u32 \<Rightarrow> simple_fs \<Rightarrow> answer" where
  "simple_rename env req parent name new_parent new_name flags s =
     bind_outcome (lookup_name env s parent name) (\<lambda>r. or_reject r s (\<lambda>inode_attrs.
     or_reject (get_inode s parent) s (\<lambda>parent_attrs.
       if \<not> may_access parent_attrs req W_OK then reject EACCES s
       else if sticky req parent_attrs inode_attrs then reject EACCES s
       else
         or_reject (get_inode s new_parent) s (\<lambda>new_parent_attrs.
           if \<not> may_access new_parent_attrs req W_OK then reject EACCES s
           else
             bind_outcome (sticky_target env req new_parent new_parent_attrs new_name s) (\<lambda>protected.
               if protected then reject EACCES s
               else if flags AND RENAME_EXCHANGE \<noteq> 0 then
                 bind_outcome (lookup_name env s new_parent new_name) (\<lambda>r. or_reject r s (\<lambda>new_inode_attrs.
                   rename_exchange env parent parent_attrs name inode_attrs new_parent new_parent_attrs new_name
                     new_inode_attrs s))
               else
                 bind_outcome (full_target env new_parent new_name s) (\<lambda>full.
                   if full then reject ENOTEMPTY s
                   else if ia_kind inode_attrs = Directory \<and> parent \<noteq> new_parent \<and> \<not> may_access inode_attrs req W_OK
                   then reject EACCES s
                   else rename_move env parent parent_attrs name inode_attrs new_parent new_parent_attrs new_name s))))))"

definition simple_link :: "environment \<Rightarrow> request \<Rightarrow> u64 \<Rightarrow> u64 \<Rightarrow> bytes \<Rightarrow> simple_fs \<Rightarrow> answer" where
  "simple_link env req ino new_parent new_name s =
     or_reject (get_inode s ino) s (\<lambda>attrs.
     bind_outcome (insert_link env req new_parent new_name ino (ia_kind attrs) s) (\<lambda>(r, s1).
       or_reject r s1 (\<lambda>u.
         if hardlinks attrs = - 1 then Panic ''attempt to add with overflow''
         else
           let attrs1 = attrs\<lparr>hardlinks := hardlinks attrs + 1, last_metadata_changed := clock env 2\<rparr> in
           entry_reply attrs1 (write_inode attrs1 s1))))"

section \<open>Files\<close>

text \<open>The access mode of \<open>open\<close> and \<open>opendir\<close>; only \<open>open\<close> knows execution.\<close>

definition open_access :: "bool \<Rightarrow> i32 \<Rightarrow> errno + (i32 \<times> bool \<times> bool)" where
  "open_access exec flags =
     (let m = flags AND O_ACCMODE in
      if m = O_RDONLY then
        (if flags AND O_TRUNC \<noteq> 0 then Inl EACCES
         else if exec \<and> flags AND FMODE_EXEC \<noteq> 0 then Inr (X_OK, True, False)
         else Inr (R_OK, True, False))
      else if m = O_WRONLY then Inr (W_OK, False, True)
      else if m = O_RDWR then Inr (R_OK OR W_OK, True, True)
      else Inl EINVAL)"

definition open_node :: "request \<Rightarrow> u64 \<Rightarrow> i32 \<times> bool \<times> bool \<Rightarrow> simple_fs \<Rightarrow> answer" where
  "open_node req ino acc s =
     (case acc of (access_mask, rd, wr) \<Rightarrow>
        or_reject (get_inode s ino) s (\<lambda>attr.
          if may_access attr req access_mask then
            (if open_file_handles attr = - 1 then Panic ''attempt to add with overflow''
             else
               let s1 = write_inode (attr\<lparr>open_file_handles := open_file_handles attr + 1\<rparr>) s in
               bind_outcome (allocate_next_file_handle rd wr s1) (\<lambda>(fh, s2).
                 Ret (ROpened fh (if direct_io s then FOPEN_DIRECT_IO else 0), s2)))
          else reject EACCES s))"

definition simple_open :: "request \<Rightarrow> u64 \<Rightarrow> i32 \<Rightarrow> simple_fs \<Rightarrow> answer" where
  "simple_open req ino flags s = or_reject (open_access True flags) s (\<lambda>acc. open_node req ino acc s)"

definition simple_opendir :: "request \<Rightarrow> u64 \<Rightarrow> i32 \<Rightarrow> simple_fs \<Rightarrow> answer" where
  "simple_opendir req ino flags s = or_reject (open_access False flags) s (\<lambda>acc. open_node req ino acc s)"

definition simple_read :: "u64 \<Rightarrow> u64 \<Rightarrow> i64 \<Rightarrow> u32 \<Rightarrow> simple_fs \<Rightarrow> answer" where
  "simple_read ino fh offset sz s =
     (if sint offset < 0 then Panic ''assertion failed: offset >= 0''
      else if \<not> check_file_handle_read fh then reject EACCES s
      else case contents s ino of
        None \<Rightarrow> reject ENOENT s
      | Some b \<Rightarrow>
          let read_size = min sz (of_nat (length b - unat offset)) in
          Ret (RData (take (unat read_size) (drop (unat offset) b)), s))"

text \<open>The size after writing \<open>n\<close> bytes at an offset.\<close>

definition grow :: "nat \<Rightarrow> nat \<Rightarrow> inode_attributes \<Rightarrow> inode_attributes outcome" where
  "grow n offset a =
     (if 2 ^ 64 \<le> n + offset then Panic ''attempt to add with overflow''
      else Ret (if unat (ia_size a) < n + offset then a\<lparr>ia_size := of_nat (n + offset)\<rparr> else a))"

definition simple_write :: "environment \<Rightarrow> u64 \<Rightarrow> u64 \<Rightarrow> i64 \<Rightarrow> bytes \<Rightarrow> simple_fs \<Rightarrow> answer" where
  "simple_write env ino fh offset d s =
     (if sint offset < 0 then Panic ''assertion failed: offset >= 0''
      else if \<not> check_file_handle_write fh then reject EACCES s
      else case contents s ino of
        None \<Rightarrow> reject EBADF s
      | Some b \<Rightarrow>
          let s1 = create_contents ino (file_write_at (unat offset) d b) s in
          bind_outcome (unwrap (get_inode s1 ino)) (\<lambda>attrs.
          bind_outcome (grow (length d) (unat offset)
              (attrs\<lparr>last_metadata_changed := clock env 0, last_modified := clock env 1\<rparr>)) (\<lambda>attrs1.
            Ret (RWritten (of_nat (length d)), write_inode (clear_suid_sgid attrs1) s1))))"

text \<open>The decremented count is not written back.\<close>

definition simple_release :: "u64 \<Rightarrow> simple_fs \<Rightarrow> answer" where
  "simple_release ino s =
     (case get_inode s ino of
        Inr attrs \<Rightarrow>
          if open_file_handles attrs = 0 then Panic ''attempt to subtract with overflow'' else Ret (ROk, s)
      | Inl _ \<Rightarrow> Ret (ROk, s))"

definition simple_releasedir :: "u64 \<Rightarrow> simple_fs \<Rightarrow> answer" where
  "simple_releasedir ino s =
     (case get_inode s ino of
        Inr attrs \<Rightarrow>
          if open_file_handles attrs = 0 then Panic ''attempt to subtract with overflow'' else Ret (ROk, s)
      | Inl _ \<Rightarrow> Ret (ROk, s))"

fun dir_loop ::
    "i64 \<Rightarrow> nat \<Rightarrow> directory_descriptor \<Rightarrow> ent_list_buf \<Rightarrow> ent_list_buf outcome" where
  "dir_loop offset index [] l = Ret l"
| "dir_loop offset index ((name, ino, kind) # es) l =
     (if \<not> in_i64 (sint offset + int index + 1) then Panic ''attempt to add with overflow''
      else
        bind_outcome
          (dir_list_push \<lparr>de_ino = ino, de_offset = offset + of_nat index + 1, de_kind = file_type_from kind,
                          de_name = name\<rparr> l) (\<lambda>(buffer_full, l1).
          if buffer_full then Ret l1 else dir_loop offset (index + 1) es l1))"

definition simple_readdir :: "environment \<Rightarrow> u64 \<Rightarrow> i64 \<Rightarrow> nat \<Rightarrow> simple_fs \<Rightarrow> answer" where
  "simple_readdir env ino offset sz s =
     (if sint offset < 0 then Panic ''assertion failed: offset >= 0''
      else
        bind_outcome (get_directory_content env s ino) (\<lambda>r. or_reject r s (\<lambda>entries.
        bind_outcome (dir_loop offset 0 (drop (unat offset) entries) (ent_list_new sz)) (\<lambda>l.
          Ret (RDirectory l, s)))))"

definition simple_statfs :: "simple_fs \<Rightarrow> answer" where
  "simple_statfs s =
     Ret (RStatfs 10000 10000 10000 1 10000 (ucast BLOCK_SIZE) (of_nat MAX_NAME_LENGTH) (ucast BLOCK_SIZE), s)"

section \<open>Extended attributes and access\<close>

definition simple_setxattr :: "environment \<Rightarrow> request \<Rightarrow> u64 \<Rightarrow> bytes \<Rightarrow> bytes \<Rightarrow> simple_fs \<Rightarrow> answer" where
  "simple_setxattr env req ino key v s =
     (case get_inode s ino of
        Inl _ \<Rightarrow> reject EBADF s
      | Inr attrs \<Rightarrow>
          or_reject (xattr_access_check key W_OK attrs req) s (\<lambda>u.
            Ret (ROk, write_inode (attrs\<lparr>xattrs := bt_insert key v (xattrs attrs),
                                         last_metadata_changed := clock env 0\<rparr>) s)))"

text \<open>The three answers of the calls that return a value: its size, the value, or that it does not fit.\<close>

definition sized_reply :: "u32 \<Rightarrow> bytes \<Rightarrow> simple_fs \<Rightarrow> answer" where
  "sized_reply sz b s =
     (if sz = 0 then Ret (RXattrSize (of_nat (length b)), s)
      else if length b \<le> unat sz then Ret (RData b, s)
      else reject ERANGE s)"

definition simple_getxattr :: "request \<Rightarrow> u64 \<Rightarrow> bytes \<Rightarrow> u32 \<Rightarrow> simple_fs \<Rightarrow> answer" where
  "simple_getxattr req ino key sz s =
     (case get_inode s ino of
        Inl _ \<Rightarrow> reject EBADF s
      | Inr attrs \<Rightarrow>
          or_reject (xattr_access_check key R_OK attrs req) s (\<lambda>u.
            case bt_get (xattrs attrs) key of
              Some b \<Rightarrow> sized_reply sz b s
            | None \<Rightarrow> reject ENODATA s))"

definition simple_listxattr :: "u64 \<Rightarrow> u32 \<Rightarrow> simple_fs \<Rightarrow> answer" where
  "simple_listxattr ino sz s =
     (case get_inode s ino of
        Inl _ \<Rightarrow> reject EBADF s
      | Inr attrs \<Rightarrow> sized_reply sz (concat (map (\<lambda>(key, v). key @ [0]) (xattrs attrs))) s)"

definition simple_removexattr :: "environment \<Rightarrow> request \<Rightarrow> u64 \<Rightarrow> bytes \<Rightarrow> simple_fs \<Rightarrow> answer" where
  "simple_removexattr env req ino key s =
     (case get_inode s ino of
        Inl _ \<Rightarrow> reject EBADF s
      | Inr attrs \<Rightarrow>
          or_reject (xattr_access_check key W_OK attrs req) s (\<lambda>u.
            if bt_get (xattrs attrs) key = None then reject ENODATA s
            else Ret (ROk, write_inode (attrs\<lparr>xattrs := bt_remove key (xattrs attrs),
                                              last_metadata_changed := clock env 0\<rparr>) s)))"

definition simple_access :: "request \<Rightarrow> u64 \<Rightarrow> i32 \<Rightarrow> simple_fs \<Rightarrow> answer" where
  "simple_access req ino access_mask s =
     or_reject (get_inode s ino) s (\<lambda>attr.
       if may_access attr req access_mask then Ret (ROk, s) else reject EACCES s)"

section \<open>Creating and copying files\<close>

definition create_access :: "i32 \<Rightarrow> errno + (bool \<times> bool)" where
  "create_access flags =
     (let m = flags AND O_ACCMODE in
      if m = O_RDONLY then Inr (True, False)
      else if m = O_WRONLY then Inr (False, True)
      else if m = O_RDWR then Inr (True, True)
      else Inl EINVAL)"

definition simple_create :: "environment \<Rightarrow> request \<Rightarrow> u64 \<Rightarrow> bytes \<Rightarrow> u32 \<Rightarrow> i32 \<Rightarrow> simple_fs \<Rightarrow> answer" where
  "simple_create env req parent name mode flags s =
     bind_outcome (lookup_name env s parent name) (\<lambda>r. case r of
       Inr _ \<Rightarrow> reject EEXIST s
     | Inl _ \<Rightarrow>
         or_reject (create_access flags) s (\<lambda>(rd, wr).
         or_reject (get_inode s parent) s (\<lambda>parent_attrs.
           if \<not> may_access parent_attrs req W_OK then reject EACCES s
           else
             bind_outcome (make_node env req parent parent_attrs name mode 1 s) (\<lambda>(attrs, s1).
             bind_outcome (file_attr_from attrs) (\<lambda>f.
             bind_outcome (allocate_next_file_handle rd wr s1) (\<lambda>(fh, s2).
               Ret (RCreated f fh, s2)))))))"

definition simple_fallocate :: "environment \<Rightarrow> u64 \<Rightarrow> i64 \<Rightarrow> i64 \<Rightarrow> i32 \<Rightarrow> simple_fs \<Rightarrow> answer" where
  "simple_fallocate env ino offset len mode s =
     (case contents s ino of
        None \<Rightarrow> reject ENOENT s
      | Some b \<Rightarrow>
          let s1 = create_contents ino (host_fallocate env b mode offset len) s in
          if mode AND FALLOC_FL_KEEP_SIZE = 0 then
            bind_outcome (unwrap (get_inode s1 ino)) (\<lambda>attrs.
              if \<not> in_i64 (sint offset + sint len) then Panic ''attempt to add with overflow''
              else
                let a = attrs\<lparr>last_metadata_changed := clock env 0, last_modified := clock env 1\<rparr>;
                    a1 = (if ia_size a < offset + len then a\<lparr>ia_size := offset + len\<rparr> else a) in
                Ret (ROk, write_inode a1 s1))
          else Ret (ROk, s1))"

text \<open>A seek to an offset that is negative as a signed number fails.\<close>

definition simple_copy_file_range ::
    "environment \<Rightarrow> u64 \<Rightarrow> u64 \<Rightarrow> i64 \<Rightarrow> u64 \<Rightarrow> u64 \<Rightarrow> i64 \<Rightarrow> u64 \<Rightarrow> simple_fs \<Rightarrow> answer" where
  "simple_copy_file_range env src_inode src_fh src_offset dest_inode dest_fh dest_offset sz s =
     (if \<not> check_file_handle_read src_fh then reject EACCES s
      else if \<not> check_file_handle_write dest_fh then reject EACCES s
      else case contents s src_inode of
        None \<Rightarrow> reject ENOENT s
      | Some b \<Rightarrow>
          let d = take (min (unat sz) (length b - unat src_offset)) (drop (unat src_offset) b) in
          case contents s dest_inode of
            None \<Rightarrow> reject EBADF s
          | Some b1 \<Rightarrow>
              if sint dest_offset < 0 then Panic ''called unwrap on an Err value''
              else
                let s1 = create_contents dest_inode (file_write_at (unat dest_offset) d b1) s in
                bind_outcome (unwrap (get_inode s1 dest_inode)) (\<lambda>attrs.
                bind_outcome (grow (length d) (unat dest_offset)
                    (attrs\<lparr>last_metadata_changed := clock env 0, last_modified := clock env 1\<rparr>)) (\<lambda>attrs1.
                  Ret (RWritten (of_nat (length d)), write_inode attrs1 s1))))"

section \<open>Calls\<close>

datatype (plugins only: code) simple_call =
    SfLookup u64 bytes
  | SfForget u64 u64
  | SfGetattr u64
  | SfSetattr u64 "u32 option" "u32 option" "u32 option" "u64 option" "time_or_now option" "time_or_now option" "u64 option"
  | SfReadlink u64
  | SfMknod u64 bytes u32
  | SfMkdir u64 bytes u32
  | SfUnlink u64 bytes
  | SfRmdir u64 bytes
  | SfSymlink u64 bytes bytes
  | SfRename u64 bytes u64 bytes u32
  | SfLink u64 u64 bytes
  | SfOpen u64 i32
  | SfRead u64 u64 i64 u32
  | SfWrite u64 u64 i64 bytes
  | SfRelease u64
  | SfOpendir u64 i32
  | SfReaddir u64 i64 nat
  | SfReleasedir u64
  | SfStatfs
  | SfSetxattr u64 bytes bytes
  | SfGetxattr u64 bytes u32
  | SfListxattr u64 u32
  | SfRemovexattr u64 bytes
  | SfAccess u64 i32
  | SfCreate u64 bytes u32 i32
  | SfFallocate u64 i64 i64 i32
  | SfCopy_file_range u64 u64 i64 u64 u64 i64 u64

fun simple_handle :: "environment \<Rightarrow> request \<Rightarrow> simple_call \<Rightarrow> simple_fs \<Rightarrow> answer" where
  "simple_handle env req (SfLookup parent name) s = simple_lookup env req parent name s"
| "simple_handle env req (SfForget ino nlookup) s = Ret (RNone, s)"
| "simple_handle env req (SfGetattr ino) s = simple_getattr ino s"
| "simple_handle env req (SfSetattr ino mode uid gid sz atime mtime fh) s =
     simple_setattr env req ino mode uid gid sz atime mtime fh s"
| "simple_handle env req (SfReadlink ino) s = simple_readlink ino s"
| "simple_handle env req (SfMknod parent name mode) s = simple_mknod env req parent name mode s"
| "simple_handle env req (SfMkdir parent name mode) s = simple_mkdir env req parent name mode s"
| "simple_handle env req (SfUnlink parent name) s = simple_unlink env req parent name s"
| "simple_handle env req (SfRmdir parent name) s = simple_rmdir env req parent name s"
| "simple_handle env req (SfSymlink parent name link) s = simple_symlink env req parent name link s"
| "simple_handle env req (SfRename parent name new_parent new_name flags) s =
     simple_rename env req parent name new_parent new_name flags s"
| "simple_handle env req (SfLink ino new_parent new_name) s = simple_link env req ino new_parent new_name s"
| "simple_handle env req (SfOpen ino flags) s = simple_open req ino flags s"
| "simple_handle env req (SfRead ino fh offset sz) s = simple_read ino fh offset sz s"
| "simple_handle env req (SfWrite ino fh offset d) s = simple_write env ino fh offset d s"
| "simple_handle env req (SfRelease ino) s = simple_release ino s"
| "simple_handle env req (SfOpendir ino flags) s = simple_opendir req ino flags s"
| "simple_handle env req (SfReaddir ino offset sz) s = simple_readdir env ino offset sz s"
| "simple_handle env req (SfReleasedir ino) s = simple_releasedir ino s"
| "simple_handle env req SfStatfs s = simple_statfs s"
| "simple_handle env req (SfSetxattr ino key v) s = simple_setxattr env req ino key v s"
| "simple_handle env req (SfGetxattr ino key sz) s = simple_getxattr req ino key sz s"
| "simple_handle env req (SfListxattr ino sz) s = simple_listxattr ino sz s"
| "simple_handle env req (SfRemovexattr ino key) s = simple_removexattr env req ino key s"
| "simple_handle env req (SfAccess ino access_mask) s = simple_access req ino access_mask s"
| "simple_handle env req (SfCreate parent name mode flags) s = simple_create env req parent name mode flags s"
| "simple_handle env req (SfFallocate ino offset len mode) s = simple_fallocate env ino offset len mode s"
| "simple_handle env req (SfCopy_file_range src_inode src_fh src_offset dest_inode dest_fh dest_offset sz) s =
     simple_copy_file_range env src_inode src_fh src_offset dest_inode dest_fh dest_offset sz s"

end
