(* ===== verification/Simple_Inv.thy ===== *)
theory Simple_Inv
  imports Simple_Ops
begin

text \<open>
  What the storage of the file system of \<^verbatim>\<open>src/fuse/src/filesystem.rs\<close> keeps under every call the
  kernel makes: each stored inode has contents, directories can be read back and are sorted, and new
  numbers are fresh. With it no \<open>unwrap\<close> of the methods fails.
\<close>

section \<open>The invariant\<close>

text \<open>The serialiser reads back what it wrote.\<close>

definition codec :: "environment \<Rightarrow> bool" where
  "codec env \<longleftrightarrow> (\<forall>d. deserialize_dir env (serialize_dir env d) = Some d)"

definition top_inode :: "simple_fs \<Rightarrow> u64" where
  "top_inode s = (case superblock s of Some n \<Rightarrow> n | None \<Rightarrow> ROOT_ID)"

definition content_ok :: "environment \<Rightarrow> file_kind \<Rightarrow> bytes \<Rightarrow> bool" where
  "content_ok env kind b \<longleftrightarrow> (kind = Directory \<longrightarrow> (\<exists>d. deserialize_dir env b = Some d \<and> bt_inv d))"

definition node_ok :: "environment \<Rightarrow> simple_fs \<Rightarrow> u64 \<Rightarrow> inode_attributes \<Rightarrow> bool" where
  "node_ok env s i a \<longleftrightarrow>
     ia_inode a = i \<and> i \<le> top_inode s \<and> bt_inv (xattrs a) \<and> (\<exists>b. contents s i = Some b \<and> content_ok env (ia_kind a) b)"

definition storage_inv :: "environment \<Rightarrow> simple_fs \<Rightarrow> bool" where
  "storage_inv env s \<longleftrightarrow>
     (\<forall>i a. inodes s i = Some a \<longrightarrow> node_ok env s i a) \<and> (\<forall>i. inodes s i = None \<longrightarrow> contents s i = None)"

definition kind_of :: "simple_fs \<Rightarrow> u64 \<Rightarrow> file_kind option" where
  "kind_of s i = map_option ia_kind (inodes s i)"

section \<open>Storage operations\<close>

lemma get_inode_Inr: "get_inode s i = Inr a \<longleftrightarrow> inodes s i = Some a"
  by (simp add: get_inode_def split: option.split)

lemma get_inode_Inl: "get_inode s i = Inl e \<longleftrightarrow> inodes s i = None \<and> e = ENOENT"
  by (auto simp: get_inode_def split: option.split)

lemma kind_of_Some: "inodes s i = Some a \<Longrightarrow> kind_of s i = Some (ia_kind a)"
  by (simp add: kind_of_def)

lemma storage_invD:
  assumes "storage_inv env s" and "inodes s i = Some a"
  shows "ia_inode a = i" "i \<le> top_inode s" "bt_inv (xattrs a)" "\<exists>b. contents s i = Some b \<and> content_ok env (ia_kind a) b"
  using assms by (simp_all add: storage_inv_def node_ok_def)

lemma kind_of_None: "storage_inv env s \<Longrightarrow> kind_of s i = None \<longleftrightarrow> contents s i = None"
  by (auto simp: storage_inv_def node_ok_def kind_of_def) (metis not_None_eq option.distinct(1))

lemma storage_inv_write:
  assumes "storage_inv env s" and "kind_of s (ia_inode a) = Some (ia_kind a)" and "bt_inv (xattrs a)"
  shows "storage_inv env (write_inode a s)" and "kind_of (write_inode a s) = kind_of s"
proof -
  obtain a0 where a0: "inodes s (ia_inode a) = Some a0" "ia_kind a0 = ia_kind a"
    using assms(2) by (auto simp: kind_of_def)
  show "storage_inv env (write_inode a s)"
    using assms(1,3) a0 storage_invD [OF assms(1) a0(1)]
    by (auto simp: storage_inv_def node_ok_def write_inode_def top_inode_def)
  show "kind_of (write_inode a s) = kind_of s"
    using a0 by (auto simp: kind_of_def write_inode_def)
qed

lemma storage_inv_contents:
  assumes "storage_inv env s" and "kind_of s i = Some k" and "content_ok env k b"
  shows "storage_inv env (create_contents i b s)" and "kind_of (create_contents i b s) = kind_of s"
  using assms by (auto simp: storage_inv_def node_ok_def kind_of_def create_contents_def top_inode_def)

lemma write_directory_content_eq: "write_directory_content env i d s = create_contents i (serialize_dir env d) s"
  by (simp add: write_directory_content_def create_contents_def)

lemma content_ok_dir: "codec env \<Longrightarrow> bt_inv d \<Longrightarrow> content_ok env k (serialize_dir env d)"
  by (simp add: content_ok_def codec_def)

lemma storage_inv_add:
  assumes "storage_inv env s" and "kind_of s (ia_inode a) = None" and "ia_inode a \<le> top_inode s"
    and "bt_inv (xattrs a)" and "content_ok env (ia_kind a) b"
  shows "storage_inv env (create_contents (ia_inode a) b (write_inode a s))"
    and "kind_of (create_contents (ia_inode a) b (write_inode a s)) = (kind_of s)(ia_inode a \<mapsto> ia_kind a)"
  using assms
  by (auto simp: storage_inv_def node_ok_def kind_of_def create_contents_def write_inode_def top_inode_def)

lemma storage_inv_remove:
  assumes "storage_inv env s"
  shows "storage_inv env (s\<lparr>inodes := (inodes s)(i := None), contents := (contents s)(i := None)\<rparr>)"
    and "kind_of (s\<lparr>inodes := (inodes s)(i := None), contents := (contents s)(i := None)\<rparr>) = (kind_of s)(i := None)"
  using assms by (auto simp: storage_inv_def node_ok_def kind_of_def top_inode_def)

lemma directory_content:
  assumes "storage_inv env s" and "kind_of s i = Some Directory"
  obtains d where "get_directory_content env s i = Ret (Inr d)" and "dir_unwrap env s i = Ret d" and "bt_inv d"
    and "contents s i \<noteq> None"
proof -
  obtain a where "inodes s i = Some a" "ia_kind a = Directory" using assms(2) by (auto simp: kind_of_def)
  then obtain b d where "contents s i = Some b" "deserialize_dir env b = Some d" "bt_inv d"
    using storage_invD(4) [OF assms(1) \<open>inodes s i = Some a\<close>] by (auto simp: content_ok_def)
  then show thesis using that by (simp add: get_directory_content_def dir_unwrap_def)
qed

lemma update_directory_keeps:
  assumes "storage_inv env s" and "kind_of s i = Some Directory" and "codec env" and "\<And>d. bt_inv d \<Longrightarrow> bt_inv (f d)"
  obtains s' where "update_directory env i f s = Ret s'" and "storage_inv env s'" and "kind_of s' = kind_of s"
    and "inodes s' = inodes s"
proof -
  obtain d where d: "dir_unwrap env s i = Ret d" "bt_inv d" using directory_content [OF assms(1,2)] by metis
  then have "update_directory env i f s = Ret (create_contents i (serialize_dir env (f d)) s)"
    by (simp add: update_directory_def write_directory_content_eq)
  with storage_inv_contents [OF assms(1,2) content_ok_dir [OF assms(3) assms(4) [OF d(2)]]] show thesis
    by (intro that [of "create_contents i (serialize_dir env (f d)) s"]) (simp_all add: create_contents_def)
qed

lemma lookup_name_found:
  assumes "storage_inv env s" and "kind_of s i = Some Directory"
  obtains r where "lookup_name env s i n = Ret r" and "\<And>a. r = Inr a \<Longrightarrow> inodes s (ia_inode a) = Some a"
proof -
  obtain d where "get_directory_content env s i = Ret (Inr d)" using directory_content [OF assms] by metis
  then show thesis
    using that storage_invD(1) [OF assms(1)]
    by (force simp: lookup_name_def get_inode_def split: option.splits)
qed

lemma gc_inode_keeps:
  assumes "storage_inv env s" and "kind_of s (ia_inode a) \<noteq> None"
  obtains b s' where "gc_inode a s = Ret (b, s')" and "storage_inv env s'"
    and "kind_of s' = (if b then (kind_of s)(ia_inode a := None) else kind_of s)"
proof -
  have "inodes s (ia_inode a) \<noteq> None" "contents s (ia_inode a) \<noteq> None"
    using assms(2) kind_of_None [OF assms(1), of "ia_inode a"] by (auto simp: kind_of_def simp del: not_None_eq)
  then show thesis
    using that [of True] that [of False s] storage_inv_remove [OF assms(1)] assms(1)
    by (cases "hardlinks a = 0 \<and> open_file_handles a = 0") (auto simp: gc_inode_def)
qed

definition simple_panics :: "string set" where
  "simple_panics =
     {''attempt to add with overflow'', ''attempt to subtract with overflow'', ''attempt to negate with overflow'',
      ''overflow when adding duration to instant'', ''overflow when subtracting duration from instant'',
      ''assertion failed: offset >= 0'', ''assertion failed: fh < FILE_HANDLE_WRITE_BIT'', ''Name too long''}"

lemma overflow_panics:
  "''attempt to add with overflow'' \<in> simple_panics" "''attempt to subtract with overflow'' \<in> simple_panics"
  "''assertion failed: offset >= 0'' \<in> simple_panics"
  by (simp_all add: simple_panics_def)

lemma storage_inv_superblock:
  assumes "storage_inv env s" and "top_inode s \<le> n"
  shows "storage_inv env (s\<lparr>superblock := Some n\<rparr>)" and "kind_of (s\<lparr>superblock := Some n\<rparr>) = kind_of s"
  using assms by (force simp: storage_inv_def node_ok_def top_inode_def kind_of_def)+

lemma less_inc:
  fixes x :: "'a::len word"
  assumes "x \<noteq> - 1"
  shows "x < x + 1"
proof -
  have "1 + x \<noteq> 0" using assms by (metis add.inverse_unique)
  then show ?thesis by (simp add: word_less_nat_alt unatSuc add.commute)
qed

lemma allocate_next_inode_ok:
  assumes "storage_inv env s"
  shows "ok simple_panics (allocate_next_inode s) (\<lambda>(ino, s').
     storage_inv env s' \<and> kind_of s' = kind_of s \<and> kind_of s ino = None \<and> ino \<le> top_inode s')"
proof -
  let ?n = "top_inode s + 1"
  have less: "top_inode s < ?n" if "top_inode s \<noteq> - 1" using that by (rule less_inc)
  then have "kind_of s ?n = None" if "top_inode s \<noteq> - 1"
    using that storage_invD(2) [OF assms, of ?n] by (cases "inodes s ?n") (auto simp: kind_of_def leD)
  moreover have "storage_inv env (s\<lparr>superblock := Some ?n\<rparr>)" if "top_inode s \<noteq> - 1"
    using that less storage_inv_superblock(1) [OF assms] by simp
  ultimately show ?thesis
    using storage_inv_superblock(2)
    by (auto simp: allocate_next_inode_def top_inode_def [symmetric] Let_def simple_panics_def kind_of_def)
      (simp add: top_inode_def)
qed

lemma file_attr_from_ok: "ok simple_panics (file_attr_from a) (\<lambda>_. True)"
  by (simp add: file_attr_from_def fs_system_time_from_time_def system_time_at_def simple_panics_def ok_bind)

lemma attr_replies_ok: "P s \<Longrightarrow> ok simple_panics (entry_reply a s) (\<lambda>(r, s'). P s')"
  "P s \<Longrightarrow> ok simple_panics (attr_reply a s) (\<lambda>(r, s'). P s')"
  using file_attr_from_ok [of a] by (simp_all add: entry_reply_def attr_reply_def ok_bind)

lemma reject_ok: "P s \<Longrightarrow> ok E (reject e s) (\<lambda>(r, s'). P s')"
  by (simp add: reject_def)

lemma or_reject_ok:
  "P s \<Longrightarrow> (\<And>x. r = Inr x \<Longrightarrow> ok E (f x) (\<lambda>(r, s'). P s')) \<Longrightarrow> ok E (or_reject r s f) (\<lambda>(r, s'). P s')"
  by (cases r) (simp_all add: reject_ok)

lemma allocate_next_file_handle_ok:
  assumes "storage_inv env s"
  shows "ok simple_panics (allocate_next_file_handle rd wr s) (\<lambda>(fh, s'). storage_inv env s')"
proof -
  have "storage_inv env (s\<lparr>next_file_handle := n\<rparr>)" for n
    using assms by (simp add: storage_inv_def node_ok_def top_inode_def)
  then show ?thesis by (simp add: allocate_next_file_handle_def simple_panics_def Let_def)
qed

section \<open>Calls of the kernel\<close>

text \<open>
  What the kernel guarantees of the calls it makes: parents and listed inodes are directories, a
  directory is neither written nor truncated, the offset of a copy is not negative, a removed or replaced node is not one of the
  directories involved, \<open>rmdir\<close> names a directory, a renaming does not replace a node by itself,
  \<open>create\<close> makes a regular file, and the process of a request has a status file.
\<close>

abbreviation is_dir :: "simple_fs \<Rightarrow> u64 \<Rightarrow> bool" where
  "is_dir s i \<equiv> kind_of s i = Some Directory"

definition target :: "environment \<Rightarrow> simple_fs \<Rightarrow> u64 \<Rightarrow> bytes \<Rightarrow> inode_attributes option" where
  "target env s p n = (case lookup_name env s p n of Ret (Inr a) \<Rightarrow> Some a | _ \<Rightarrow> None)"

definition apart :: "inode_attributes option \<Rightarrow> u64 list \<Rightarrow> bool" where
  "apart t is = (case t of None \<Rightarrow> True | Some a \<Rightarrow> ia_inode a \<notin> set is)"

fun legal :: "environment \<Rightarrow> request \<Rightarrow> simple_call \<Rightarrow> simple_fs \<Rightarrow> bool" where
  "legal env req (SfLookup p n) s = is_dir s p"
| "legal env req (SfSetattr i mode uid gid sz at mt fh) s =
     ((sz \<noteq> None \<longrightarrow> \<not> is_dir s i) \<and> is_ret (get_groups env (req_pid req)))"
| "legal env req (SfMknod p n mode) s = is_dir s p"
| "legal env req (SfMkdir p n mode) s = is_dir s p"
| "legal env req (SfSymlink p n l) s = is_dir s p"
| "legal env req (SfCreate p n mode flags) s = (is_dir s p \<and> mode AND S_IFMT = S_IFREG)"
| "legal env req (SfUnlink p n) s = (is_dir s p \<and> apart (target env s p n) [p])"
| "legal env req (SfRmdir p n) s =
     (is_dir s p \<and> apart (target env s p n) [p] \<and>
      (case target env s p n of None \<Rightarrow> True | Some a \<Rightarrow> ia_kind a = Directory))"
| "legal env req (SfRename p n np nn flags) s =
     (is_dir s p \<and> is_dir s np \<and> apart (target env s p n) [p, np] \<and> apart (target env s np nn) [p, np] \<and>
      (case target env s p n of None \<Rightarrow> True | Some a \<Rightarrow> apart (target env s np nn) [ia_inode a]))"
| "legal env req (SfLink i np nn) s = is_dir s np"
| "legal env req (SfWrite i fh off d) s = (\<not> is_dir s i)"
| "legal env req (SfReaddir i off sz) s = is_dir s i"
| "legal env req (SfFallocate i off len mode) s = (\<not> is_dir s i)"
| "legal env req (SfCopy_file_range si sfh soff di dfh doff sz) s = (\<not> is_dir s di \<and> 0 \<le> sint doff)"
| "legal env req _ s = True"

abbreviation safe :: "environment \<Rightarrow> answer \<Rightarrow> bool" where
  "safe env r \<equiv> ok simple_panics r (\<lambda>(_, s'). storage_inv env s')"

lemmas safe_intros = attr_replies_ok reject_ok or_reject_ok

lemma stored_write:
  assumes "storage_inv env s" and "inodes s i = Some a0" and "ia_inode a = ia_inode a0"
    and "ia_kind a = ia_kind a0" and "bt_inv (xattrs a0) \<Longrightarrow> bt_inv (xattrs a)"
  shows "storage_inv env (write_inode a s)" and "kind_of (write_inode a s) = kind_of s"
proof -
  have "kind_of s (ia_inode a) = Some (ia_kind a)" "bt_inv (xattrs a)"
    using storage_invD [OF assms(1,2)] assms by (auto simp: kind_of_def)
  with storage_inv_write [OF assms(1)] show "storage_inv env (write_inode a s)" "kind_of (write_inode a s) = kind_of s"
    by simp_all
qed

text \<open>Attributes read from \<open>s\<close> and written to a later state in which the inode still exists.\<close>

lemma stale_write:
  assumes "storage_inv env s" and "inodes s i = Some a0" and "storage_inv env s1" and "kind_of s1 i = kind_of s i"
    and "ia_inode a = ia_inode a0" and "ia_kind a = ia_kind a0" and "xattrs a = xattrs a0"
  shows "storage_inv env (write_inode a s1)" and "kind_of (write_inode a s1) = kind_of s1"
proof -
  have "kind_of s1 (ia_inode a) = Some (ia_kind a)" "bt_inv (xattrs a)"
    using storage_invD [OF assms(1,2)] assms by (auto simp: kind_of_def)
  with storage_inv_write [OF assms(3)] show "storage_inv env (write_inode a s1)" "kind_of (write_inode a s1) = kind_of s1"
    by simp_all
qed

lemma unwrap_inode:
  assumes "storage_inv env s" and "contents s i \<noteq> None"
  obtains a where "unwrap (get_inode s i) = Ret a" and "inodes s i = Some a"
proof -
  have "inodes s i \<noteq> None" using assms by (auto simp: storage_inv_def)
  then show thesis using that by (auto simp: get_inode_def)
qed

lemma lookup_safe:
  assumes "storage_inv env s" and "is_dir s p"
  shows "safe env (simple_lookup env req p n s)"
proof -
  obtain r where "lookup_name env s p n = Ret r" using lookup_name_found [OF assms] by metis
  moreover obtain a where "get_inode s p = Inr a" using assms(2) by (auto simp: kind_of_def get_inode_Inr)
  ultimately show ?thesis using assms(1) by (auto simp: simple_lookup_def intro!: safe_intros)
qed

lemma clear_suid_sgid_keeps [simp]:
  "ia_inode (clear_suid_sgid a) = ia_inode a" "ia_kind (clear_suid_sgid a) = ia_kind a"
  "xattrs (clear_suid_sgid a) = xattrs a" "ia_size (clear_suid_sgid a) = ia_size a"
  "ia_uid (clear_suid_sgid a) = ia_uid a" "ia_gid (clear_suid_sgid a) = ia_gid a"
  "open_file_handles (clear_suid_sgid a) = open_file_handles a"
  by (simp_all add: clear_suid_sgid_def Let_def)

lemma set_mode_safe:
  assumes "storage_inv env s" and "inodes s i = Some a" and "is_ret (get_groups env (req_pid req))"
  shows "safe env (set_mode env req a m s)"
proof -
  obtain gs where "get_groups env (req_pid req) = Ret gs" using assms(3) by (cases "get_groups env (req_pid req)") auto
  then show ?thesis
    using assms(1,2) by (auto simp: set_mode_def Let_def intro!: safe_intros stored_write)
qed

lemma set_owner_safe:
  assumes "storage_inv env s" and "inodes s i = Some a" and "is_ret (get_groups env (req_pid req))"
  shows "safe env (set_owner env req a uid gid s)"
proof -
  obtain gs where gs: "get_groups env (req_pid req) = Ret gs"
    using assms(3) by (cases "get_groups env (req_pid req)") auto
  show ?thesis
    using assms(1,2)
    by (cases uid; cases gid) (auto simp: set_owner_def gs Let_def intro!: safe_intros stored_write)
qed

lemma ok_bind_pair:
  "ok E m (\<lambda>(x, s). P x s) \<Longrightarrow> (\<And>x s. P x s \<Longrightarrow> ok E (f x s) Q) \<Longrightarrow> ok E (bind_outcome m (\<lambda>(x, s). f x s)) Q"
  by (cases m) auto

text \<open>Two states with the same nodes, and attributes of the same node.\<close>

definition keeps :: "environment \<Rightarrow> simple_fs \<Rightarrow> simple_fs \<Rightarrow> bool" where
  "keeps env s s' \<longleftrightarrow> storage_inv env s' \<and> kind_of s' = kind_of s \<and> top_inode s' = top_inode s"

definition same_node :: "inode_attributes \<Rightarrow> inode_attributes \<Rightarrow> bool" where
  "same_node a b \<longleftrightarrow> ia_inode b = ia_inode a \<and> ia_kind b = ia_kind a \<and> xattrs b = xattrs a"

lemma keeps_write:
  assumes "storage_inv env s" and "inodes s i = Some a0" and "keeps env s s1" and "same_node a0 a"
  shows "keeps env s (write_inode a s1)"
  using stale_write [OF assms(1,2), of s1 a] assms(3,4)
  by (simp add: keeps_def same_node_def top_inode_def write_inode_def)

lemma truncate_keeps:
  assumes "storage_inv env s" and "\<not> is_dir s i"
  shows "ok simple_panics (truncate env i n u g s) (\<lambda>(r, s'). keeps env s s')"
proof (cases "inodes s i")
  case None
  then show ?thesis using assms(1) by (simp add: truncate_def get_inode_def keeps_def)
next
  case (Some a)
  then obtain b where b: "contents s i = Some b" using storage_invD(4) [OF assms(1)] by blast
  have "content_ok env (ia_kind a) x" for x using Some assms(2) by (simp add: content_ok_def kind_of_def)
  then have "keeps env s (create_contents i x s)" for x
    using storage_inv_contents [OF assms(1), of i] Some
    by (simp add: keeps_def kind_of_def top_inode_def create_contents_def)
  then have "keeps env s (write_inode a' (create_contents i x s))" if "same_node a a'" for a' x
    using keeps_write [OF assms(1) Some _ that] by simp
  with Some b assms(1) show ?thesis
    by (auto simp: truncate_def get_inode_def Let_def create_contents_def keeps_def same_node_def)
qed

lemma set_size_keeps:
  assumes "storage_inv env s" and "sz \<noteq> None \<Longrightarrow> \<not> is_dir s i"
  shows "ok simple_panics (set_size env req i sz fh s) (\<lambda>(r, s'). keeps env s s')"
proof (cases sz)
  case (Some n)
  have "ok simple_panics (truncate env i n u g s) (\<lambda>(r, s'). keeps env s s')" for u g
    using truncate_keeps [OF assms(1)] assms(2) Some by simp
  then have "ok simple_panics (bind_outcome (truncate env i n u g s) (\<lambda>(r, s1). Ret (f r, s1))) (\<lambda>(r, s'). keeps env s s')"
    for u g and f :: "errno + inode_attributes \<Rightarrow> errno + unit"
    unfolding ok_bind by (rule ok_mono) auto
  then show ?thesis using Some assms(1) by (auto simp: set_size_def keeps_def split: option.split)
qed (use assms(1) in \<open>simp add: set_size_def keeps_def\<close>)

lemma set_time_keeps:
  assumes "storage_inv env s" and "inodes s i = Some a0" and "keeps env s s1" and "same_node a0 a"
    and "\<And>v x. same_node a0 x \<Longrightarrow> same_node a0 (upd v x)"
  shows "ok simple_panics (set_time req now t upd a s1) (\<lambda>(r, s'). keeps env s s' \<and> (\<forall>a'. r = Inr a' \<longrightarrow> same_node a0 a'))"
proof -
  have w: "same_node a0 ((upd v a)\<lparr>last_metadata_changed := now\<rparr>)" for v
    using assms(5) [OF assms(4), of v] by (simp add: same_node_def)
  have "ok simple_panics (fs_time_from_system_time st) (\<lambda>_. True)" for st
    by (auto simp: fs_time_from_system_time_def simple_panics_def Let_def)
  with assms(3,4) w keeps_write [OF assms(1,2,3) w] show ?thesis
    by (auto simp: set_time_def ok_bind Let_def split: option.split time_or_now.split intro: ok_mono)
qed

lemma setattr_safe:
  assumes "storage_inv env s" and "sz \<noteq> None \<Longrightarrow> \<not> is_dir s i" and "is_ret (get_groups env (req_pid req))"
  shows "safe env (simple_setattr env req i mode uid gid sz at mt fh s)"
proof (cases "inodes s i")
  case None
  then show ?thesis using assms(1) by (simp add: simple_setattr_def get_inode_def reject_ok)
next
  case (Some a)
  let ?at = "\<lambda>t a :: inode_attributes. a\<lparr>last_accessed := t\<rparr>" and ?mt = "\<lambda>t a :: inode_attributes. a\<lparr>last_modified := t\<rparr>"
  have final: "safe env (bind_outcome (unwrap (get_inode s3 i)) (\<lambda>attrs3. attr_reply attrs3 s3))"
    if "keeps env s s3" for s3
  proof -
    have "kind_of s3 i = Some (ia_kind a)" using that Some by (simp add: keeps_def kind_of_def)
    then obtain x where "get_inode s3 i = Inr x" by (auto simp: kind_of_def get_inode_Inr)
    with that show ?thesis by (simp add: attr_replies_ok keeps_def)
  qed
  have m: "safe env (bind_outcome (set_time req now mt ?mt a1 s2) (\<lambda>(r, s3). or_reject r s3 (\<lambda>attrs2.
       bind_outcome (unwrap (get_inode s3 i)) (\<lambda>attrs3. attr_reply attrs3 s3))))"
    if "keeps env s s2" "same_node a a1" for now s2 a1
    by (rule ok_bind_pair, rule set_time_keeps [OF assms(1) Some that])
      (auto simp: same_node_def intro!: or_reject_ok final, simp add: keeps_def)
  have "safe env (bind_outcome (set_time req now at ?at a s1) (\<lambda>(r, s2). or_reject r s2 (\<lambda>a1.
       bind_outcome (set_time req now mt ?mt a1 s2) (\<lambda>(r, s3). or_reject r s3 (\<lambda>attrs2.
       bind_outcome (unwrap (get_inode s3 i)) (\<lambda>attrs3. attr_reply attrs3 s3))))))"
    if "keeps env s s1" for now s1
    by (rule ok_bind_pair, rule set_time_keeps [OF assms(1) Some that])
      (auto simp: same_node_def intro!: or_reject_ok m, simp_all add: keeps_def)
  then have "safe env (bind_outcome (set_size env req i sz fh s) (\<lambda>(r, s1). or_reject r s1 (\<lambda>u.
       bind_outcome (set_time req now at ?at a s1) (\<lambda>(r, s2). or_reject r s2 (\<lambda>a1.
       bind_outcome (set_time req now mt ?mt a1 s2) (\<lambda>(r, s3). or_reject r s3 (\<lambda>attrs2.
       bind_outcome (unwrap (get_inode s3 i)) (\<lambda>attrs3. attr_reply attrs3 s3))))))))" for now
    by (intro ok_bind_pair [OF set_size_keeps [OF assms(1,2)]] or_reject_ok) (simp_all add: keeps_def)
  then show ?thesis
    using Some set_mode_safe [OF assms(1) Some assms(3)] set_owner_safe [OF assms(1) Some assms(3)]
    by (simp add: simple_setattr_def get_inode_def split: option.split)
qed

section \<open>Files\<close>

lemma keeps_refl: "storage_inv env s \<Longrightarrow> keeps env s s"
  by (simp add: keeps_def)

lemma data_keeps:
  assumes "storage_inv env s" and "\<not> is_dir s i" and "contents s i = Some b0"
  shows "keeps env s (create_contents i b s)"
proof -
  obtain k where "kind_of s i = Some k" using kind_of_None [OF assms(1), of i] assms(3) by auto
  with assms(2) storage_inv_contents [OF assms(1), of i k b] show ?thesis
    by (simp add: keeps_def content_ok_def top_inode_def create_contents_def)
qed

lemma grow_ok: "ok simple_panics (grow n off a) (\<lambda>a'. same_node a a')"
  by (simp add: grow_def simple_panics_def same_node_def)

lemma same_node_trans: "same_node a b \<Longrightarrow> same_node b c \<Longrightarrow> same_node a c"
  by (simp add: same_node_def)

text \<open>Writing data to a file and then its attributes.\<close>

lemma data_write_safe:
  assumes "storage_inv env s" and "\<not> is_dir s i" and "contents s i = Some b0"
    and "\<And>a. same_node a (g a)" and "\<And>a. ok simple_panics (h a) (\<lambda>(r, a'). same_node a a')"
  shows "safe env (bind_outcome (unwrap (get_inode (create_contents i b s) i)) (\<lambda>a.
     bind_outcome (h (g a)) (\<lambda>(r, a'). Ret (r, write_inode a' (create_contents i b s)))))"
proof -
  obtain a where a: "inodes s i = Some a" using unwrap_inode [OF assms(1)] assms(3) by auto
  have "storage_inv env (write_inode a' (create_contents i b s))" if "same_node (g a) a'" for a'
    using keeps_write [OF assms(1) a data_keeps [OF assms(1-3)] same_node_trans [OF assms(4) that]]
    by (simp add: keeps_def)
  then have "safe env (bind_outcome (h (g a)) (\<lambda>(r, a'). Ret (r, write_inode a' (create_contents i b s))))"
    by (intro ok_bind_pair [OF assms(5)]) auto
  with a show ?thesis by (simp add: get_inode_def create_contents_def)
qed

lemma grow_reply_ok:
  assumes "\<And>a. same_node a (k a)"
  shows "ok simple_panics (bind_outcome (grow n off a) (\<lambda>a'. Ret (r, k a'))) (\<lambda>(r, a'). same_node a a')"
  unfolding ok_bind by (rule ok_mono [OF grow_ok]) (simp add: same_node_trans [OF _ assms])

lemma write_safe:
  assumes "storage_inv env s" and "\<not> is_dir s i"
  shows "safe env (simple_write env i fh off d s)"
proof (cases "contents s i")
  case (Some b)
  let ?g = "\<lambda>a :: inode_attributes. a\<lparr>last_metadata_changed := clock env 0, last_modified := clock env 1\<rparr>"
  let ?h = "\<lambda>a. bind_outcome (grow (length d) (unat off) a) (\<lambda>a'. Ret (RWritten (of_nat (length d)), clear_suid_sgid a'))"
  have "ok simple_panics (?h a) (\<lambda>(r, a'). same_node a a')" for a
    by (rule grow_reply_ok) (simp add: same_node_def)
  from data_write_safe [OF assms Some _ this, of ?g] Some assms(1) show ?thesis
    by (auto simp: simple_write_def Let_def reject_ok same_node_def bind_outcome_assoc simple_panics_def)
qed (use assms(1) in \<open>simp add: simple_write_def reject_ok simple_panics_def\<close>)

lemma copy_file_range_safe:
  assumes "storage_inv env s" and "\<not> is_dir s di" and "0 \<le> sint doff"
  shows "safe env (simple_copy_file_range env si sfh soff di dfh doff sz s)"
proof (cases "contents s di")
  case (Some b)
  let ?g = "\<lambda>a :: inode_attributes. a\<lparr>last_metadata_changed := clock env 0, last_modified := clock env 1\<rparr>"
  let ?h = "\<lambda>(n :: nat) a. bind_outcome (grow n (unat doff) a) (\<lambda>a'. Ret (RWritten (of_nat n), a'))"
  have "ok simple_panics (?h n a) (\<lambda>(r, a'). same_node a a')" for n a
    by (rule grow_reply_ok) (simp add: same_node_def)
  from data_write_safe [OF assms(1,2) Some _ this, of ?g] Some assms(1,3) show ?thesis
    by (auto simp: simple_copy_file_range_def Let_def reject_ok same_node_def bind_outcome_assoc split: option.split)
qed (use assms(1) in \<open>auto simp: simple_copy_file_range_def Let_def reject_ok split: option.split\<close>)

lemma fallocate_safe:
  assumes "storage_inv env s" and "\<not> is_dir s i"
  shows "safe env (simple_fallocate env i off len mode s)"
proof (cases "contents s i")
  case (Some b)
  let ?g = "\<lambda>a :: inode_attributes. a\<lparr>last_metadata_changed := clock env 0, last_modified := clock env 1\<rparr>"
  let ?h = "\<lambda>a. if \<not> in_i64 (sint off + sint len) then Panic ''attempt to add with overflow''
                else Ret (ROk, if ia_size a < off + len then a\<lparr>ia_size := off + len\<rparr> else a)"
  have "ok simple_panics (?h a) (\<lambda>(r, a'). same_node a a')" for a
    by (simp add: same_node_def simple_panics_def)
  from data_write_safe [OF assms Some _ this, of ?g] Some data_keeps [OF assms Some] show ?thesis
    by (auto simp: simple_fallocate_def Let_def same_node_def keeps_def if_distrib [of "\<lambda>m. bind_outcome m _"]
        cong: if_cong bind_outcome_cong)
qed (use assms(1) in \<open>simp add: simple_fallocate_def reject_ok\<close>)

lemma open_node_safe:
  assumes "storage_inv env s"
  shows "safe env (open_node req i acc s)"
proof (cases "inodes s i")
  case (Some a)
  obtain m rd wr where acc: "acc = (m, rd, wr)" by (cases acc)
  have "storage_inv env (write_inode (a\<lparr>open_file_handles := n\<rparr>) s)" for n
    using stored_write(1) [OF assms Some] by simp
  then have "safe env (bind_outcome (allocate_next_file_handle rd wr (write_inode (a\<lparr>open_file_handles := n\<rparr>) s))
      (\<lambda>(fh, s2). Ret (ROpened fh fl, s2)))" for n fl
    by (intro ok_bind_pair [OF allocate_next_file_handle_ok]) auto
  with Some assms show ?thesis
    by (auto simp: open_node_def acc get_inode_def Let_def simple_panics_def reject_ok)
qed (use assms in \<open>auto simp: open_node_def get_inode_def reject_ok split: prod.split\<close>)

lemma xattr_safe:
  assumes "storage_inv env s"
  shows "safe env (simple_setxattr env req i key v s)" and "safe env (simple_removexattr env req i key s)"
    and "safe env (simple_getxattr req i key sz s)" and "safe env (simple_listxattr i sz s)"
proof -
  have w: "storage_inv env (write_inode (a\<lparr>xattrs := f (xattrs a), last_metadata_changed := t\<rparr>) s)"
    if "inodes s i = Some a" "\<And>m. bt_inv m \<Longrightarrow> bt_inv (f m)" for a f t
    using stored_write(1) [OF assms that(1)] that(2) by simp
  show "safe env (simple_setxattr env req i key v s)"
    using assms
    by (auto simp: simple_setxattr_def get_inode_def split: option.split intro!: safe_intros w btree.inv_ins)
  show "safe env (simple_removexattr env req i key s)"
    using assms
    by (auto simp: simple_removexattr_def get_inode_def split: option.split intro!: safe_intros w btree.inv_rem)
  show "safe env (simple_getxattr req i key sz s)"
    using assms by (auto simp: simple_getxattr_def sized_reply_def get_inode_def split: option.split intro!: safe_intros)
  show "safe env (simple_listxattr i sz s)"
    using assms by (auto simp: simple_listxattr_def sized_reply_def get_inode_def split: option.split intro!: safe_intros)
qed

lemma dir_loop_ok: "ok simple_panics (dir_loop off idx es l) (\<lambda>_. True)"
proof (induction es arbitrary: idx l)
  case (Cons e es)
  obtain n i k where e: "e = (n, i, k)" by (cases e)
  show ?case
    using Cons by (auto simp: e ok_bind dir_list_push_def simple_panics_def split: prod.split)
qed simp

lemma readdir_safe:
  assumes "storage_inv env s" and "is_dir s i"
  shows "safe env (simple_readdir env i off sz s)"
proof -
  obtain d where "get_directory_content env s i = Ret (Inr d)" using directory_content [OF assms] by metis
  moreover have "safe env (bind_outcome (dir_loop off idx es l) (\<lambda>l. Ret (RDirectory l, s)))" for idx es l
    unfolding ok_bind using dir_loop_ok by (rule ok_mono) (simp add: assms(1))
  ultimately show ?thesis by (simp add: simple_readdir_def simple_panics_def)
qed

section \<open>Making nodes\<close>

lemma create_contents_twice: "create_contents i b (create_contents i b' s) = create_contents i b s"
  by (simp add: create_contents_def)

lemma bt_inv_dir_entries: "bt_inv (dir_entries i p)"
  unfolding dir_entries_def by (intro btree.inv_ins) (simp add: bt_inv_def)

lemma as_file_kind_mask: "as_file_kind (if b then mode AND NOT (S_ISUID OR S_ISGID) else mode) = as_file_kind mode"
proof -
  have "(- 3073 :: u32) AND 0xF000 = 0xF000" by simp
  then have "(mode AND - 3073) AND 0xF000 = mode AND 0xF000" by (metis and.assoc)
  then show ?thesis by (simp add: as_file_kind_def)
qed

text \<open>The state in which the entry of a new node is made, and the entry.\<close>

lemma add_node_keeps:
  assumes "codec env" and "storage_inv env s" and "is_dir s p" and "kind_of s i = None"
    and "i \<le> top_inode s" and "ia_inode a = i" and "xattrs a = []" and "content_ok env (ia_kind a) b"
  obtains s' where "update_directory env p (bt_insert n x) (create_contents i b (write_inode a s)) = Ret s'"
    and "storage_inv env s'"
proof -
  have "kind_of s (ia_inode a) = None" "ia_inode a \<le> top_inode s" "bt_inv (xattrs a)"
    using assms by (simp_all add: bt_inv_def)
  note add = storage_inv_add [OF assms(2) this assms(8)]
  have "is_dir (create_contents i b (write_inode a s)) p"
    using assms(3,4,6) add(2) by auto
  from update_directory_keeps [OF add(1) [unfolded assms(6)] this assms(1), of "bt_insert n x"] that show thesis
    by (metis btree.inv_ins)
qed

lemma make_node_safe:
  assumes "codec env" and "storage_inv env s" and "is_dir s p" and "inodes s p = Some pa"
    and "as_file_kind mode = Ret kind"
  shows "ok simple_panics (make_node env req p pa n mode handles s) (\<lambda>(a, s'). storage_inv env s')"
proof -
  define pa1 where "pa1 = pa\<lparr>last_modified := clock env 0, last_metadata_changed := clock env 1\<rparr>"
  have s1: "keeps env s (write_inode pa1 s)"
    using keeps_write [OF assms(2,4) keeps_refl [OF assms(2)], of pa1] by (simp add: pa1_def same_node_def)
  then have inv1: "storage_inv env (write_inode pa1 s)" by (simp add: keeps_def)
  have "ok simple_panics (bind_outcome (as_file_kind (if b then mode AND NOT (S_ISUID OR S_ISGID) else mode)) (\<lambda>kind.
        let attrs = new_attributes env 2 req pa1 ino handles 0 kind m 1;
            s3 = create_contents ino [] (write_inode attrs s2);
            s4 = (if kind = Directory then write_directory_content env ino (dir_entries ino p) s3 else s3) in
        bind_outcome (update_directory env p (bt_insert n (ino, kind)) s4) (\<lambda>s5. Ret (attrs, s5))))
      (\<lambda>(a, s'). storage_inv env s')"
    if s2: "storage_inv env s2 \<and> kind_of s2 = kind_of (write_inode pa1 s) \<and>
       kind_of (write_inode pa1 s) ino = None \<and> ino \<le> top_inode s2" for b m ino s2
  proof -
    let ?a = "new_attributes env 2 req pa1 ino handles 0 kind m 1"
    let ?b = "if kind = Directory then serialize_dir env (dir_entries ino p) else []"
    have c: "content_ok env kind ?b"
      using content_ok_dir [OF assms(1) bt_inv_dir_entries] by (simp add: content_ok_def)
    have d: "is_dir s2 p" using s1 s2 assms(3) by (simp add: keeps_def)
    obtain s' where
      "update_directory env p (bt_insert n (ino, kind)) (create_contents ino ?b (write_inode ?a s2)) = Ret s'"
      and "storage_inv env s'"
      by (rule add_node_keeps [OF assms(1), of s2 p ino ?a ?b]) (use s2 c d in \<open>simp_all add: new_attributes_def\<close>)
    then show ?thesis
      by (auto simp: as_file_kind_mask assms(5) Let_def write_directory_content_eq create_contents_twice split: if_splits)
  qed
  then show ?thesis
    unfolding make_node_def Let_def pa1_def [symmetric]
    by (intro ok_bind_pair [OF allocate_next_inode_ok [OF inv1]]) (simp add: Let_def)
qed

lemma mknod_safe:
  assumes "codec env" and "storage_inv env s" and "is_dir s p"
  shows "safe env (simple_mknod env req p n mode s)"
proof -
  obtain r where r: "lookup_name env s p n = Ret r" using lookup_name_found [OF assms(2,3)] by metis
  obtain pa where pa: "inodes s p = Some pa" using assms(3) by (auto simp: kind_of_def)
  show ?thesis
  proof (cases "as_file_kind mode")
    case (Ret kind)
    have "safe env (bind_outcome (make_node env req p pa n mode 0 s) (\<lambda>(attrs, s1). entry_reply attrs s1))"
      by (rule ok_bind_pair [OF make_node_safe [OF assms pa Ret]]) (rule attr_replies_ok)
    then show ?thesis
      using r pa assms(2) by (auto simp: simple_mknod_def Let_def get_inode_def split: sum.split intro!: safe_intros)
  qed (use assms(2) in \<open>auto simp: simple_mknod_def Let_def as_file_kind_def reject_ok split: if_splits\<close>)
qed

lemma create_safe:
  assumes "codec env" and "storage_inv env s" and "is_dir s p" and "mode AND S_IFMT = S_IFREG"
  shows "safe env (simple_create env req p n mode flags s)"
proof -
  obtain r where r: "lookup_name env s p n = Ret r" using lookup_name_found [OF assms(2,3)] by metis
  obtain pa where pa: "inodes s p = Some pa" using assms(3) by (auto simp: kind_of_def)
  have f: "as_file_kind mode = Ret File" using assms(4) by (simp add: as_file_kind_def)
  have "safe env (bind_outcome (file_attr_from a) (\<lambda>f. bind_outcome (allocate_next_file_handle rd wr s1)
      (\<lambda>(fh, s2). Ret (RCreated f fh, s2))))" if "storage_inv env s1" for a rd wr s1
    unfolding ok_bind [of _ "file_attr_from a"]
    by (rule ok_mono [OF file_attr_from_ok], rule ok_bind_pair [OF allocate_next_file_handle_ok [OF that]]) simp
  then have "safe env (bind_outcome (make_node env req p pa n mode 1 s) (\<lambda>(a, s1). bind_outcome (file_attr_from a)
      (\<lambda>f. bind_outcome (allocate_next_file_handle rd wr s1) (\<lambda>(fh, s2). Ret (RCreated f fh, s2)))))" for rd wr
    by (intro ok_bind_pair [OF make_node_safe [OF assms(1-3) pa f]])
  then show ?thesis
    using r pa assms(2) by (auto simp: simple_create_def get_inode_def split: sum.split prod.split intro!: safe_intros)
qed

lemma mkdir_safe:
  assumes "codec env" and "storage_inv env s" and "is_dir s p"
  shows "safe env (simple_mkdir env req p n mode s)"
proof -
  obtain r where r: "lookup_name env s p n = Ret r" using lookup_name_found [OF assms(2,3)] by metis
  obtain pa where pa: "inodes s p = Some pa" using assms(3) by (auto simp: kind_of_def)
  define pa1 where "pa1 = pa\<lparr>last_modified := clock env 0, last_metadata_changed := clock env 1\<rparr>"
  have s1: "keeps env s (write_inode pa1 s)"
    using keeps_write [OF assms(2) pa keeps_refl [OF assms(2)], of pa1] by (simp add: pa1_def same_node_def)
  then have inv1: "storage_inv env (write_inode pa1 s)" by (simp add: keeps_def)
  have "safe env (let a = new_attributes env 2 req pa1 ino 0 BLOCK_SIZE Directory m 2;
       s3 = write_directory_content env ino (dir_entries ino p) (write_inode a s2) in
       bind_outcome (update_directory env p (bt_insert n (ino, Directory)) s3) (\<lambda>s4. entry_reply a s4))"
    if s2: "storage_inv env s2 \<and> kind_of s2 = kind_of (write_inode pa1 s) \<and>
       kind_of (write_inode pa1 s) ino = None \<and> ino \<le> top_inode s2" for m ino s2
  proof -
    let ?a = "new_attributes env 2 req pa1 ino 0 BLOCK_SIZE Directory m 2"
    have d: "is_dir s2 p" using s1 s2 assms(3) by (simp add: keeps_def)
    obtain s' where "update_directory env p (bt_insert n (ino, Directory))
        (create_contents ino (serialize_dir env (dir_entries ino p)) (write_inode ?a s2)) = Ret s'" and "storage_inv env s'"
      by (rule add_node_keeps [OF assms(1), of s2 p ino ?a])
        (use s2 d content_ok_dir [OF assms(1) bt_inv_dir_entries] in \<open>simp_all add: new_attributes_def\<close>)
    then show ?thesis by (simp add: Let_def write_directory_content_eq attr_replies_ok)
  qed
  then have "safe env (bind_outcome (allocate_next_inode (write_inode pa1 s)) (\<lambda>(ino, s2).
       let a = new_attributes env 2 req pa1 ino 0 BLOCK_SIZE Directory m 2;
       s3 = write_directory_content env ino (dir_entries ino p) (write_inode a s2) in
       bind_outcome (update_directory env p (bt_insert n (ino, Directory)) s3) (\<lambda>s4. entry_reply a s4)))" for m
    by (intro ok_bind_pair [OF allocate_next_inode_ok [OF inv1]])
  then show ?thesis
    using r pa assms(2)
    by (auto simp: simple_mkdir_def get_inode_def Let_def pa1_def split: sum.split intro!: safe_intros)
qed

section \<open>Links\<close>

lemma later_storage [simp]: "storage_inv (later k env) s = storage_inv env s" "codec (later k env) = codec env"
  "keeps (later k env) s s' = keeps env s s'"
  by (simp_all add: storage_inv_def node_ok_def content_ok_def codec_def later_def keeps_def)

lemma keeps_update:
  assumes "codec env" and "keeps env s s1" and "is_dir s p" and "\<And>d. bt_inv d \<Longrightarrow> bt_inv (f d)"
  obtains s2 where "update_directory env p f s1 = Ret s2" and "keeps env s s2"
proof -
  have s1: "storage_inv env s1" "is_dir s1 p" using assms(2,3) by (simp_all add: keeps_def)
  obtain s2 where "update_directory env p f s1 = Ret s2" "storage_inv env s2" "kind_of s2 = kind_of s1"
    by (rule update_directory_keeps [OF s1 assms(1,4)])
  moreover from this have "top_inode s2 = top_inode s1"
    by (auto simp: update_directory_def bind_outcome_Ret_iff write_directory_content_def top_inode_def)
  ultimately show thesis using that assms(2) by (simp add: keeps_def)
qed

lemma insert_link_keeps:
  assumes "codec env" and "storage_inv env s" and "is_dir s p"
  shows "ok simple_panics (insert_link env req p n i k s) (\<lambda>(r, s'). keeps env s s')"
proof -
  obtain r where r: "lookup_name env s p n = Ret r" using lookup_name_found [OF assms(2,3)] by metis
  obtain pa where pa: "inodes s p = Some pa" using assms(3) by (auto simp: kind_of_def)
  let ?s1 = "write_inode (pa\<lparr>last_modified := clock env 0, last_metadata_changed := clock env 1\<rparr>) s"
  have "keeps env s ?s1"
    using keeps_write [OF assms(2) pa keeps_refl [OF assms(2)]] by (simp add: same_node_def)
  then obtain s2 where "update_directory env p (bt_insert n (i, k)) ?s1 = Ret s2" "keeps env s s2"
    by (rule keeps_update [OF assms(1) _ assms(3)]) (rule btree.inv_ins)
  with r pa keeps_refl [OF assms(2)] show ?thesis
    by (auto simp: insert_link_def get_inode_def Let_def split: sum.split)
qed

lemma symlink_safe:
  assumes "codec env" and "storage_inv env s" and "is_dir s p"
  shows "safe env (simple_symlink env req p n l s)"
proof -
  obtain pa where pa: "inodes s p = Some pa" using assms(3) by (auto simp: kind_of_def)
  define pa1 where "pa1 = pa\<lparr>last_modified := clock env 0, last_metadata_changed := clock env 1\<rparr>"
  have s1: "keeps env s (write_inode pa1 s)"
    using keeps_write [OF assms(2) pa keeps_refl [OF assms(2)], of pa1] by (simp add: pa1_def same_node_def)
  then have inv1: "storage_inv env (write_inode pa1 s)" by (simp add: keeps_def)
  have "safe env (bind_outcome (insert_link (later 5 env) req p n ino Symlink s2) (\<lambda>(r, s3). or_reject r s3 (\<lambda>u.
      entry_reply a (create_contents ino l (write_inode a s3)))))"
    if s2: "storage_inv env s2 \<and> kind_of s2 = kind_of (write_inode pa1 s) \<and>
       kind_of (write_inode pa1 s) ino = None \<and> ino \<le> top_inode s2"
      and a: "ia_inode a = ino" "xattrs a = []" "ia_kind a = Symlink" for ino s2 a
  proof -
    have inv2: "storage_inv (later 5 env) s2" "is_dir s2 p" using s2 s1 assms(3) by (simp_all add: keeps_def)
    have "storage_inv env (create_contents ino l (write_inode a s3))" if "keeps env s2 s3" for s3
      using that s2 a storage_inv_add(1) [of env s3 a l] by (simp add: keeps_def bt_inv_def content_ok_def)
    then show ?thesis
      by (intro ok_bind_pair [OF insert_link_keeps [OF _ inv2]] or_reject_ok attr_replies_ok)
        (simp_all add: assms(1) keeps_def)
  qed
  then have "safe env (bind_outcome (allocate_next_inode (write_inode pa1 s)) (\<lambda>(ino, s2).
      let a = new_attributes env 2 req pa1 ino 0 (of_nat (length l)) Symlink 0x1FF 1 in
      bind_outcome (insert_link (later 5 env) req p n ino Symlink s2) (\<lambda>(r, s3). or_reject r s3 (\<lambda>u.
      entry_reply a (create_contents ino l (write_inode a s3))))))"
    by (intro ok_bind_pair [OF allocate_next_inode_ok [OF inv1]]) (simp add: Let_def new_attributes_def)
  then show ?thesis
    using pa assms(2) by (simp add: simple_symlink_def get_inode_def Let_def pa1_def reject_ok)
qed

lemma link_safe:
  assumes "codec env" and "storage_inv env s" and "is_dir s p"
  shows "safe env (simple_link env req i p n s)"
proof (cases "inodes s i")
  case (Some a)
  have "safe env (if hardlinks a = - 1 then Panic ''attempt to add with overflow''
      else let a1 = a\<lparr>hardlinks := hardlinks a + 1, last_metadata_changed := clock env 2\<rparr> in
        entry_reply a1 (write_inode a1 s1))" if "keeps env s s1" for s1
    using keeps_write [OF assms(2) Some that, of "a\<lparr>hardlinks := hardlinks a + 1, last_metadata_changed := clock env 2\<rparr>"]
    by (auto simp: Let_def same_node_def overflow_panics keeps_def intro!: safe_intros)
  then have "safe env (bind_outcome (insert_link env req p n i (ia_kind a) s) (\<lambda>(r, s1). or_reject r s1 (\<lambda>u.
      if hardlinks a = - 1 then Panic ''attempt to add with overflow''
      else let a1 = a\<lparr>hardlinks := hardlinks a + 1, last_metadata_changed := clock env 2\<rparr> in
        entry_reply a1 (write_inode a1 s1))))"
    by (intro ok_bind_pair [OF insert_link_keeps [OF assms]] or_reject_ok) (simp_all add: keeps_def)
  with Some show ?thesis by (simp add: simple_link_def get_inode_def)
qed (use assms(2) in \<open>simp add: simple_link_def get_inode_def reject_ok\<close>)

text \<open>Removing the entry of a node after its attributes were written.\<close>

lemma remove_entry_safe:
  assumes "codec env" and "storage_inv env s" and "is_dir s p" and "keeps env s s1" and "inodes s i = Some a"
    and "same_node a a1" and "i \<noteq> p"
  shows "safe env (bind_outcome (gc_inode a1 (write_inode a1 s1)) (\<lambda>(b, s2).
     bind_outcome (update_directory env p (bt_remove n) s2) (\<lambda>s3. Ret (ROk, s3))))"
proof -
  have i: "ia_inode a1 = i" using storage_invD(1) [OF assms(2,5)] assms(6) by (simp add: same_node_def)
  have w: "keeps env s (write_inode a1 s1)" by (rule keeps_write [OF assms(2,5,4,6)])
  then have "storage_inv env (write_inode a1 s1)" "kind_of (write_inode a1 s1) (ia_inode a1) \<noteq> None"
    using assms(5) by (simp_all add: keeps_def i kind_of_def)
  then obtain b s2 where g: "gc_inode a1 (write_inode a1 s1) = Ret (b, s2)" "storage_inv env s2"
      "kind_of s2 = (if b then (kind_of (write_inode a1 s1))(ia_inode a1 := None) else kind_of (write_inode a1 s1))"
    by (rule gc_inode_keeps)
  then have "is_dir s2 p" using w assms(3,7) i by (simp add: keeps_def)
  then obtain s3 where "update_directory env p (bt_remove n) s2 = Ret s3" "storage_inv env s3"
    by (rule update_directory_keeps [OF g(2) _ assms(1)]) (rule btree.inv_rem)
  with g(1) show ?thesis by simp
qed

lemma unlink_safe:
  assumes "codec env" and "storage_inv env s" and "is_dir s p" and "apart (target env s p n) [p]"
  shows "safe env (simple_unlink env req p n s)"
proof -
  obtain r where r: "lookup_name env s p n = Ret r" and found: "\<And>a. r = Inr a \<Longrightarrow> inodes s (ia_inode a) = Some a"
    using lookup_name_found [OF assms(2,3), where n = n] by metis
  obtain pa where pa: "inodes s p = Some pa" using assms(3) by (auto simp: kind_of_def)
  let ?s1 = "write_inode (pa\<lparr>last_metadata_changed := clock env 0, last_modified := clock env 1\<rparr>) s"
  have s1: "keeps env s ?s1"
    using keeps_write [OF assms(2) pa keeps_refl [OF assms(2)]] by (simp add: same_node_def)
  show ?thesis
  proof (cases r)
    case (Inr a)
    then have "ia_inode a \<noteq> p" using r assms(4) by (simp add: target_def apart_def)
    from remove_entry_safe [OF assms(1-3) s1 found [OF Inr] _ this, of _ n] r pa Inr assms(2) show ?thesis
      by (auto simp: simple_unlink_def get_inode_def Let_def overflow_panics same_node_def intro!: reject_ok)
  qed (use r assms(2) in \<open>simp add: simple_unlink_def reject_ok\<close>)
qed

lemma rmdir_safe:
  assumes "codec env" and "storage_inv env s" and "is_dir s p" and "apart (target env s p n) [p]"
    and "\<And>a. target env s p n = Some a \<Longrightarrow> ia_kind a = Directory"
  shows "safe env (simple_rmdir env req p n s)"
proof -
  obtain r where r: "lookup_name env s p n = Ret r" and found: "\<And>a. r = Inr a \<Longrightarrow> inodes s (ia_inode a) = Some a"
    using lookup_name_found [OF assms(2,3), where n = n] by metis
  obtain pa where pa: "inodes s p = Some pa" using assms(3) by (auto simp: kind_of_def)
  let ?s1 = "write_inode (pa\<lparr>last_metadata_changed := clock env 0, last_modified := clock env 1\<rparr>) s"
  have s1: "keeps env s ?s1"
    using keeps_write [OF assms(2) pa keeps_refl [OF assms(2)]] by (simp add: same_node_def)
  show ?thesis
  proof (cases r)
    case (Inr a)
    then have "ia_inode a \<noteq> p" using r assms(4) by (simp add: target_def apart_def)
    have "ia_kind a = Directory" using assms(5) r Inr by (simp add: target_def)
    then have "is_dir s (ia_inode a)" using found [OF Inr] by (simp add: kind_of_def)
    then obtain d where "dir_unwrap env s (ia_inode a) = Ret d" using directory_content [OF assms(2)] by metis
    with remove_entry_safe [OF assms(1-3) s1 found [OF Inr] _ \<open>ia_inode a \<noteq> p\<close>, of _ n] r pa Inr assms(2) show ?thesis
      by (auto simp: simple_rmdir_def get_inode_def Let_def same_node_def intro!: reject_ok)
  qed (use r assms(2) in \<open>simp add: simple_rmdir_def reject_ok\<close>)
qed

section \<open>Renaming\<close>

lemma rename_replace_keeps:
  assumes "codec env" and "storage_inv env s" and "is_dir s np" and "apart (target env s np nn) [np]"
  shows "ok simple_panics (rename_replace env np nn s) (\<lambda>s1.
     storage_inv env s1 \<and> (\<forall>j. apart (target env s np nn) [j] \<longrightarrow> kind_of s1 j = kind_of s j))"
proof -
  obtain r where r: "lookup_name env s np nn = Ret r" and found: "\<And>a. r = Inr a \<Longrightarrow> inodes s (ia_inode a) = Some a"
    using lookup_name_found [OF assms(2,3), where n = nn] by metis
  show ?thesis
  proof (cases r)
    case (Inr a)
    obtain s1 where s1: "update_directory env np (bt_remove nn) s = Ret s1" "keeps env s s1"
      by (rule keeps_update [OF assms(1) keeps_refl [OF assms(2)] assms(3)]) (rule btree.inv_rem)
    define a1 where "a1 = a\<lparr>hardlinks := (if ia_kind a = Directory then 0 else hardlinks a - 1),
                            last_metadata_changed := clock env 0\<rparr>"
    have w: "keeps env s (write_inode a1 s1)"
      by (rule keeps_write [OF assms(2) found [OF Inr] s1(2)]) (simp add: a1_def same_node_def)
    have i: "ia_inode a1 = ia_inode a" by (simp add: a1_def)
    have "storage_inv env (write_inode a1 s1)" "kind_of (write_inode a1 s1) (ia_inode a1) \<noteq> None"
      using w found [OF Inr] by (simp_all add: keeps_def i kind_of_def)
    then obtain b s2 where "gc_inode a1 (write_inode a1 s1) = Ret (b, s2)" "storage_inv env s2"
        "kind_of s2 = (if b then (kind_of (write_inode a1 s1))(ia_inode a1 := None) else kind_of (write_inode a1 s1))"
      by (rule gc_inode_keeps)
    then show ?thesis
      using r Inr s1(1) w i
      by (auto simp: rename_replace_def a1_def [symmetric] overflow_panics keeps_def target_def apart_def)
  qed (use r assms(2) in \<open>simp add: rename_replace_def\<close>)
qed

lemma set_parent_keeps:
  assumes "codec env" and "keeps env s0 s" and "kind_of s0 (ia_inode a) = Some (ia_kind a)"
  obtains s' where "set_parent env a p s = Ret s'" and "keeps env s0 s'"
proof (cases "ia_kind a = Directory")
  case True
  then have "is_dir s0 (ia_inode a)" using assms(3) by simp
  then obtain s' where "update_directory env (ia_inode a) (bt_insert dotdot (p, Directory)) s = Ret s'" "keeps env s0 s'"
    by (rule keeps_update [OF assms(1,2)]) (rule btree.inv_ins)
  with True that show thesis by (simp add: set_parent_def)
qed (use assms(2) that in \<open>simp add: set_parent_def\<close>)

text \<open>Attributes of \<open>s\<close> that are written to a state whose nodes are those of \<open>s1\<close>.\<close>

lemma keeps_stale:
  assumes "storage_inv env s" and "inodes s i = Some a0" and "keeps env s1 s2" and "kind_of s1 i = kind_of s i"
    and "same_node a0 a"
  shows "keeps env s1 (write_inode a s2)"
  using stale_write [OF assms(1,2), of s2 a] assms(3-5)
  by (simp add: keeps_def same_node_def top_inode_def write_inode_def)

lemma rename_move_safe:
  assumes "codec env" and inv: "storage_inv env s" and dirs: "is_dir s p" "is_dir s np"
    and nodes: "inodes s p = Some pa" "inodes s np = Some npa" "inodes s (ia_inode a) = Some a"
    and apart: "apart (target env s np nn) [p]" "apart (target env s np nn) [np]" "apart (target env s np nn) [ia_inode a]"
  shows "safe env (rename_move env p pa n a np npa nn s)"
proof -
  have "safe env (bind_outcome (update_directory env p (bt_remove n) s1) (\<lambda>s2.
     bind_outcome (update_directory env np (bt_insert nn (ia_inode a, ia_kind a)) s2) (\<lambda>s3.
       bind_outcome (set_parent env a np (write_inode a1 (write_inode npa1 (write_inode pa1 s3)))) (\<lambda>s7. Ret (ROk, s7)))))"
    if s1: "storage_inv env s1 \<and> (\<forall>j. apart (target env s np nn) [j] \<longrightarrow> kind_of s1 j = kind_of s j)"
      and same: "same_node pa pa1" "same_node npa npa1" "same_node a a1" for s1 pa1 npa1 a1
  proof -
    have k: "kind_of s1 p = kind_of s p" "kind_of s1 np = kind_of s np" "kind_of s1 (ia_inode a) = kind_of s (ia_inode a)"
      using s1 apart by simp_all
    have "is_dir s1 p" "is_dir s1 np" using k dirs by simp_all
    have "keeps env s1 s1" using s1 by (simp add: keeps_refl)
    then obtain s2 where s2: "update_directory env p (bt_remove n) s1 = Ret s2" "keeps env s1 s2"
      using \<open>is_dir s1 p\<close> by (rule keeps_update [OF assms(1)]) (rule btree.inv_rem)
    obtain s3 where s3: "update_directory env np (bt_insert nn (ia_inode a, ia_kind a)) s2 = Ret s3" "keeps env s1 s3"
      by (rule keeps_update [OF assms(1) s2(2) \<open>is_dir s1 np\<close>]) (rule btree.inv_ins)
    have "keeps env s1 (write_inode a1 (write_inode npa1 (write_inode pa1 s3)))"
      using keeps_stale [OF inv] nodes k same s3(2) by blast
    moreover have "kind_of s1 (ia_inode a) = Some (ia_kind a)" using k nodes by (simp add: kind_of_def)
    ultimately obtain s4 where "set_parent env a np (write_inode a1 (write_inode npa1 (write_inode pa1 s3))) = Ret s4"
        "keeps env s1 s4"
      by (rule set_parent_keeps [OF assms(1)])
    with s2 s3 show ?thesis by (simp add: keeps_def)
  qed
  then show ?thesis
    unfolding rename_move_def Let_def ok_bind [of _ "rename_replace env np nn s"]
    by (intro ok_mono [OF rename_replace_keeps [OF assms(1) inv dirs(2) apart(2)]]) (simp add: same_node_def)
qed

lemma rename_exchange_safe:
  assumes "codec env" and inv: "storage_inv env s" and dirs: "is_dir s p" "is_dir s np"
    and nodes: "inodes s p = Some pa" "inodes s np = Some npa" "inodes s (ia_inode a) = Some a" "inodes s (ia_inode b) = Some b"
  shows "safe env (rename_exchange env p pa n a np npa nn b s)"
proof -
  obtain s1 where s1: "update_directory env np (bt_insert nn (ia_inode a, ia_kind a)) s = Ret s1" "keeps env s s1"
    by (rule keeps_update [OF assms(1) keeps_refl [OF inv] dirs(2)]) (rule btree.inv_ins)
  obtain s2 where s2: "update_directory env p (bt_insert n (ia_inode b, ia_kind b)) s1 = Ret s2" "keeps env s s2"
    by (rule keeps_update [OF assms(1) s1(2) dirs(1)]) (rule btree.inv_ins)
  have k: "kind_of s (ia_inode a) = Some (ia_kind a)" "kind_of s (ia_inode b) = Some (ia_kind b)"
    using nodes by (simp_all add: kind_of_def)
  have "safe env (bind_outcome (set_parent env a np (write_inode b1 (write_inode a1 (write_inode npa1 (write_inode pa1 s2)))))
     (\<lambda>s7. bind_outcome (set_parent env b p s7) (\<lambda>s8. Ret (ROk, s8))))"
    if same: "same_node pa pa1" "same_node npa npa1" "same_node a a1" "same_node b b1" for pa1 npa1 a1 b1
  proof -
    have w: "keeps env s (write_inode b1 (write_inode a1 (write_inode npa1 (write_inode pa1 s2))))"
      using keeps_write [OF inv] nodes same s2(2) by blast
    obtain s7 where s7: "set_parent env a np (write_inode b1 (write_inode a1 (write_inode npa1 (write_inode pa1 s2)))) = Ret s7"
        "keeps env s s7"
      by (rule set_parent_keeps [OF assms(1) w k(1)])
    obtain s8 where "set_parent env b p s7 = Ret s8" "keeps env s s8"
      by (rule set_parent_keeps [OF assms(1) s7(2) k(2)])
    with s7 show ?thesis by (simp add: keeps_def)
  qed
  with s1 s2 show ?thesis by (simp add: rename_exchange_def Let_def same_node_def)
qed

lemma rename_safe:
  assumes "codec env" and inv: "storage_inv env s" and legal: "legal env req (SfRename p n np nn flags) s"
  shows "safe env (simple_rename env req p n np nn flags s)"
proof -
  have dirs: "is_dir s p" "is_dir s np" using legal by simp_all
  obtain r where r: "lookup_name env s p n = Ret r" and found: "\<And>a. r = Inr a \<Longrightarrow> inodes s (ia_inode a) = Some a"
    using lookup_name_found [OF inv dirs(1), where n = n] by metis
  obtain r' where r': "lookup_name env s np nn = Ret r'" and found': "\<And>a. r' = Inr a \<Longrightarrow> inodes s (ia_inode a) = Some a"
    using lookup_name_found [OF inv dirs(2), where n = nn] by metis
  obtain pa npa where pa: "inodes s p = Some pa" "inodes s np = Some npa" using dirs by (auto simp: kind_of_def)
  have full: "ok simple_panics (full_target env np nn s) (\<lambda>_. True)"
  proof (cases r')
    case (Inr b)
    then have "is_dir s (ia_inode b)" if "ia_kind b = Directory" using found' that by (simp add: kind_of_def)
    then have "\<exists>d. dir_unwrap env s (ia_inode b) = Ret d" if "ia_kind b = Directory"
      using that directory_content [OF inv] by metis
    with r' Inr show ?thesis by (auto simp: full_target_def)
  qed (use r' in \<open>simp add: full_target_def\<close>)
  show ?thesis
  proof (cases r)
    case (Inr a)
    have "apart (target env s np nn) [p]" "apart (target env s np nn) [np]" "apart (target env s np nn) [ia_inode a]"
      using legal r Inr by (auto simp: apart_def target_def split: option.splits)
    note move = rename_move_safe [OF assms(1) inv dirs pa found [OF Inr] this]
    have "safe env (bind_outcome (full_target env np nn s) (\<lambda>full. if full then reject ENOTEMPTY s
        else if ia_kind a = Directory \<and> p \<noteq> np \<and> \<not> may_access a req W_OK then reject EACCES s
        else rename_move env p pa n a np npa nn s))"
      unfolding ok_bind by (rule ok_mono [OF full]) (use move inv in \<open>auto intro!: reject_ok\<close>)
    then show ?thesis
      using r r' Inr pa inv rename_exchange_safe [OF assms(1) inv dirs pa found [OF Inr] found']
      by (auto simp: simple_rename_def get_inode_def sticky_target_def intro!: reject_ok or_reject_ok)
  qed (use r inv in \<open>simp add: simple_rename_def reject_ok\<close>)
qed

text \<open>Every call the kernel makes keeps the invariant and panics only for the listed reasons.\<close>

lemma handle_safe:
  assumes "codec env" and "storage_inv env s" and "legal env req c s"
  shows "safe env (simple_handle env req c s)"
proof (cases c)
  case (SfRename p n np nn flags)
  with assms rename_safe show ?thesis by simp
next
  case (SfRmdir p n)
  with assms rmdir_safe [of env s p n req] show ?thesis by (simp split: option.splits)
next
  case (SfSetattr i mode uid gid sz at mt fh)
  with assms setattr_safe [of env s sz i req] show ?thesis by simp
qed (use assms in \<open>auto simp: simple_getattr_def simple_readlink_def simple_open_def simple_opendir_def simple_read_def
      simple_release_def simple_releasedir_def simple_statfs_def simple_access_def get_inode_def overflow_panics
      Let_def lookup_safe mknod_safe mkdir_safe unlink_safe symlink_safe
      link_safe open_node_safe write_safe readdir_safe xattr_safe create_safe fallocate_safe copy_file_range_safe
      split: option.split sum.split intro!: safe_intros\<close>)

end
