(* ===== verification/Simple_Attr.thy ===== *)
theory Simple_Attr
  imports Simple_Inv
begin

text \<open>
  What the calls of the file system of \<^verbatim>\<open>src/fuse/src/filesystem.rs\<close> change in the attributes of the
  inodes that exist: ownership is protected, and the counts of open handles never decrease.
\<close>

section \<open>What a call changes in the attributes\<close>

definition on_ret :: "'a outcome \<Rightarrow> ('a \<Rightarrow> bool) \<Rightarrow> bool" where
  "on_ret m Q \<longleftrightarrow> (\<forall>x. m = Ret x \<longrightarrow> Q x)"

lemma on_ret_simps [simp]: "on_ret (Ret x) Q = Q x" "on_ret (Panic m) Q" "on_ret (Undefined m) Q"
  by (simp_all add: on_ret_def)

lemma on_ret_bind: "on_ret (bind_outcome m f) Q = on_ret m (\<lambda>x. on_ret (f x) Q)"
  by (cases m) simp_all

lemma on_ret_mono: "on_ret m P \<Longrightarrow> (\<And>x. P x \<Longrightarrow> Q x) \<Longrightarrow> on_ret m Q"
  by (simp add: on_ret_def)

lemma on_ret_True [simp]: "on_ret m (\<lambda>_. True)"
  by (simp add: on_ret_def)

text \<open>
  The steps the attributes of an inode may take under a request: the count of open handles does not
  decrease, and without privileges the owner stays, and only the owner changes the group or the mode,
  except that its set-user and set-group bits may be cleared.
\<close>

definition attr_step :: "request \<Rightarrow> inode_attributes \<Rightarrow> inode_attributes \<Rightarrow> bool" where
  "attr_step req a a' \<longleftrightarrow>
     open_file_handles a \<le> open_file_handles a' \<and>
     (req_uid req \<noteq> 0 \<longrightarrow>
        ia_uid a' = ia_uid a \<and>
        (req_uid req \<noteq> ia_uid a \<longrightarrow>
           ia_gid a' = ia_gid a \<and> (ia_mode a' = ia_mode a \<or> ia_mode a' = ia_mode (clear_suid_sgid a))))"

definition evolves :: "request \<Rightarrow> simple_fs \<Rightarrow> simple_fs \<Rightarrow> bool" where
  "evolves req s s' \<longleftrightarrow>
     (\<forall>i a. inodes s i = Some a \<longrightarrow>
        (case inodes s' i of None \<Rightarrow> open_file_handles a = 0 | Some a' \<Rightarrow> attr_step req a a'))"

lemma attr_step_refl: "attr_step req a a"
  by (simp add: attr_step_def)

lemma evolves_refl: "evolves req s s"
  by (simp add: evolves_def attr_step_refl)

lemma evolves_write:
  "evolves req s s1 \<Longrightarrow> (\<And>a0. inodes s (ia_inode a) = Some a0 \<Longrightarrow> attr_step req a0 a) \<Longrightarrow>
     evolves req s (write_inode a s1)"
  by (simp add: evolves_def write_inode_def)

lemma evolves_contents [simp]: "evolves req s (create_contents i b s1) = evolves req s s1"
  by (simp add: evolves_def create_contents_def)

lemma evolves_inodes: "inodes s2 = inodes s1 \<Longrightarrow> evolves req s s2 = evolves req s s1"
  by (simp add: evolves_def)

lemma update_directory_inodes:
  "on_ret (update_directory env p f s1) (\<lambda>s2. inodes s2 = inodes s1 \<and> superblock s2 = superblock s1)"
  by (cases "dir_unwrap env s1 p") (simp_all add: update_directory_def write_directory_content_def)

lemma evolves_update:
  "evolves req s s1 \<Longrightarrow> on_ret (update_directory env p f s1) (\<lambda>s2. evolves req s s2)"
  by (rule on_ret_mono [OF update_directory_inodes]) (simp add: evolves_def)

lemma evolves_gc:
  assumes "evolves req s s1" and "\<And>a0. inodes s (ia_inode a) = Some a0 \<Longrightarrow> open_file_handles a = 0 \<Longrightarrow> open_file_handles a0 = 0"
  shows "on_ret (gc_inode a s1) (\<lambda>(b, s2). evolves req s s2)"
  using assms by (auto simp: gc_inode_def evolves_def)

lemma lookup_stored:
  "storage_inv env s \<Longrightarrow> on_ret (lookup_name env s p n) (\<lambda>r. \<forall>a. r = Inr a \<longrightarrow> inodes s (ia_inode a) = Some a)"
  by (auto simp: on_ret_def lookup_name_def get_inode_def dest: storage_invD(1) elim!: bind_outcome_RetE
      split: sum.split_asm option.split_asm prod.split_asm)

lemma allocate_fresh:
  assumes "storage_inv env s" and "superblock s1 = superblock s"
  shows "on_ret (allocate_next_inode s1) (\<lambda>(i, s2). inodes s2 = inodes s1 \<and> inodes s i = None)"
proof -
  have "inodes s (top_inode s + 1) = None" if "top_inode s \<noteq> - 1"
    using allocate_next_inode_ok [OF assms(1)] that
    by (auto simp: allocate_next_inode_def top_inode_def [symmetric] Let_def kind_of_def)
  then show ?thesis
    using assms(2) by (auto simp: allocate_next_inode_def top_inode_def Let_def split: option.split)
qed

lemma evolves_replies:
  "evolves req s s1 \<Longrightarrow> on_ret (reject e s1) (\<lambda>(r, s'). evolves req s s')"
  "evolves req s s1 \<Longrightarrow> on_ret (entry_reply a s1) (\<lambda>(r, s'). evolves req s s')"
  "evolves req s s1 \<Longrightarrow> on_ret (attr_reply a s1) (\<lambda>(r, s'). evolves req s s')"
  by (cases "file_attr_from a"; simp add: reject_def entry_reply_def attr_reply_def)+

lemma evolves_or_reject:
  "evolves req s s1 \<Longrightarrow> (\<And>x. r = Inr x \<Longrightarrow> on_ret (f x) (\<lambda>(r, s'). evolves req s s')) \<Longrightarrow>
     on_ret (or_reject r s1 f) (\<lambda>(r, s'). evolves req s s')"
  by (cases r) (simp_all add: evolves_replies)

lemma evolves_bind_pair:
  "on_ret m (\<lambda>(x, s). P x s) \<Longrightarrow> (\<And>x s. P x s \<Longrightarrow> on_ret (f x s) Q) \<Longrightarrow> on_ret (bind_outcome m (\<lambda>(x, s). f x s)) Q"
  by (cases m) auto

lemma evolves_bind: "(\<And>x. m = Ret x \<Longrightarrow> on_ret (f x) Q) \<Longrightarrow> on_ret (bind_outcome m f) Q"
  by (cases m) simp_all

lemma attr_step_clear: "attr_step req a a1 \<Longrightarrow> ia_mode a1 = ia_mode a \<Longrightarrow> attr_step req a (clear_suid_sgid a1)"
  by (auto simp: attr_step_def clear_suid_sgid_def Let_def)

lemma stored_unique: "storage_inv env s \<Longrightarrow> inodes s i = Some a \<Longrightarrow> inodes s (ia_inode a) = Some a0 \<Longrightarrow> a0 = a"
  using storage_invD(1) by fastforce

lemma evolves_set_mode:
  assumes "storage_inv env s" and "inodes s i = Some a"
  shows "on_ret (set_mode env req a m s) (\<lambda>(r, s'). evolves req s s')"
proof (cases "req_uid req \<noteq> 0 \<and> req_uid req \<noteq> ia_uid a")
  case False
  then have "attr_step req a0 (a\<lparr>ia_mode := m', last_metadata_changed := t\<rparr>)" if "inodes s (ia_inode a) = Some a0" for a0 m' t
    using stored_unique [OF assms that] by (auto simp: attr_step_def)
  then have "evolves req s (write_inode (a\<lparr>ia_mode := m', last_metadata_changed := t\<rparr>) s)" for m' t
    by (intro evolves_write evolves_refl) simp
  with False show ?thesis
    by (simp add: set_mode_def Let_def evolves_bind evolves_replies evolves_refl)
qed (auto simp: set_mode_def intro!: evolves_replies evolves_refl)

lemma evolves_set_owner:
  assumes "storage_inv env s" and "inodes s i = Some a"
  shows "on_ret (set_owner env req a uid gid s) (\<lambda>(r, s'). evolves req s s')"
proof -
  have "attr_step req a0 a4"
    if "inodes s (ia_inode a) = Some a0" "open_file_handles a4 = open_file_handles a"
      "req_uid req \<noteq> 0 \<Longrightarrow> ia_uid a4 = ia_uid a"
      "req_uid req \<noteq> 0 \<Longrightarrow> req_uid req \<noteq> ia_uid a \<Longrightarrow> ia_gid a4 = ia_gid a \<and> ia_mode a4 \<in> {ia_mode a, ia_mode (clear_suid_sgid a)}"
    for a0 a4
    using stored_unique [OF assms that(1)] that by (auto simp: attr_step_def)
  then show ?thesis
    by (cases uid; cases gid)
      (auto simp: set_owner_def Let_def intro!: evolves_bind evolves_replies evolves_write evolves_refl)
qed

text \<open>Attributes read from \<open>s\<close> whose protected part is unchanged, and their mode cleared.\<close>

definition plain_step :: "inode_attributes \<Rightarrow> inode_attributes \<Rightarrow> bool" where
  "plain_step a0 a \<longleftrightarrow>
     ia_inode a = ia_inode a0 \<and> open_file_handles a = open_file_handles a0 \<and> ia_uid a = ia_uid a0 \<and>
     ia_gid a = ia_gid a0 \<and> (ia_mode a = ia_mode a0 \<or> ia_mode a = ia_mode (clear_suid_sgid a0))"

lemma evolves_plain:
  assumes "storage_inv env s" and "inodes s i = Some a0" and "evolves req s s1" and "plain_step a0 a"
  shows "evolves req s (write_inode a s1)"
proof (rule evolves_write [OF assms(3)])
  fix x assume "inodes s (ia_inode a) = Some x"
  then have "x = a0" using stored_unique [OF assms(1,2)] assms(4) by (simp add: plain_step_def)
  then show "attr_step req x a" using assms(4) by (auto simp: plain_step_def attr_step_def)
qed

lemma plain_step_clear: "plain_step a0 a \<Longrightarrow> ia_mode a = ia_mode a0 \<Longrightarrow> plain_step a0 (clear_suid_sgid a)"
  by (simp add: plain_step_def clear_suid_sgid_def Let_def)

lemma evolves_fresh:
  "inodes s (ia_inode a) = None \<Longrightarrow> evolves req s s1 \<Longrightarrow> evolves req s (write_inode a s1)"
  by (rule evolves_write) simp_all

lemma evolves_truncate:
  assumes "storage_inv env s"
  shows "on_ret (truncate env i n u g s) (\<lambda>(r, s'). evolves req s s')"
proof (cases "inodes s i")
  case (Some a)
  have "evolves req s (write_inode (clear_suid_sgid (a\<lparr>ia_size := n, last_metadata_changed := t, last_modified := t'\<rparr>))
      (create_contents i b s))" for b t t'
    by (intro evolves_plain [OF assms Some] plain_step_clear) (simp_all add: evolves_refl plain_step_def)
  with Some show ?thesis
    by (auto simp: truncate_def get_inode_def Let_def evolves_refl create_contents_def [symmetric] split: option.split)
qed (simp add: truncate_def get_inode_def evolves_refl)

lemma evolves_set_size:
  assumes "storage_inv env s"
  shows "on_ret (set_size env req0 i sz fh s) (\<lambda>(r, s'). evolves req s s')"
  by (auto simp: set_size_def evolves_refl intro!: evolves_bind_pair [OF evolves_truncate [OF assms]] split: option.split)

lemma evolves_set_time:
  assumes "storage_inv env s" and "inodes s i = Some a0" and "evolves req s s1"
    and "plain_step a0 a \<and> ia_mode a = ia_mode a0"
    and "\<And>v x. plain_step x (upd v x) \<and> ia_mode (upd v x) = ia_mode x"
  shows "on_ret (set_time req0 now t upd a s1) (\<lambda>(r, s'). evolves req s s' \<and>
     (\<forall>a'. r = Inr a' \<longrightarrow> plain_step a0 a' \<and> ia_mode a' = ia_mode a0))"
proof -
  have "plain_step a0 ((upd v a)\<lparr>last_metadata_changed := now\<rparr>) \<and> ia_mode (upd v a) = ia_mode a0" for v
    using assms(4) assms(5) [where v = v and x = a] by (auto simp: plain_step_def)
  then show ?thesis
    using assms(3,4) evolves_plain [OF assms(1-3)]
    by (auto simp: set_time_def Let_def intro!: evolves_bind split: option.split)
qed

lemma evolves_setattr:
  assumes "storage_inv env s"
  shows "on_ret (simple_setattr env req i mode uid gid sz at mt fh s) (\<lambda>(r, s'). evolves req s s')"
proof (cases "inodes s i")
  case (Some a)
  let ?at = "\<lambda>t a :: inode_attributes. a\<lparr>last_accessed := t\<rparr>" and ?mt = "\<lambda>t a :: inode_attributes. a\<lparr>last_modified := t\<rparr>"
  have "on_ret (bind_outcome (set_size env req i sz fh s) (\<lambda>(r, s1). or_reject r s1 (\<lambda>u.
       bind_outcome (set_time req now at ?at a s1) (\<lambda>(r, s2). or_reject r s2 (\<lambda>a1.
       bind_outcome (set_time req now mt ?mt a1 s2) (\<lambda>(r, s3). or_reject r s3 (\<lambda>attrs2.
       bind_outcome (unwrap (get_inode s3 i)) (\<lambda>attrs3. attr_reply attrs3 s3)))))))) (\<lambda>(r, s'). evolves req s s')" for now
    by (intro evolves_bind_pair [OF evolves_set_size [OF assms]] evolves_or_reject
        evolves_bind_pair [OF evolves_set_time [OF assms Some]] evolves_bind evolves_replies)
      (auto simp: plain_step_def)
  with Some evolves_set_mode [OF assms Some] evolves_set_owner [OF assms Some] show ?thesis
    by (simp add: simple_setattr_def get_inode_def split: option.split)
qed (simp add: simple_setattr_def get_inode_def evolves_replies evolves_refl)

lemma evolves_data:
  assumes "storage_inv env s"
    and "\<And>a. plain_step a (g a) \<and> ia_mode (g a) = ia_mode a"
    and "\<And>a a'. h a = Ret a' \<Longrightarrow> plain_step a a'"
  shows "on_ret (bind_outcome (unwrap (get_inode (create_contents i b s) i)) (\<lambda>a.
     bind_outcome (h (g a)) (\<lambda>a'. Ret (r, write_inode a' (create_contents i b s))))) (\<lambda>(r, s'). evolves req s s')"
proof (cases "inodes s i")
  case (Some a)
  have "evolves req s (write_inode a' (create_contents i b s))" if "h (g a) = Ret a'" for a'
  proof (rule evolves_plain [OF assms(1) Some])
    show "plain_step a a'"
      using assms(2) [of a] assms(3) [OF that] by (auto simp: plain_step_def clear_suid_sgid_def Let_def)
  qed (simp add: evolves_refl)
  with Some show ?thesis by (auto simp: get_inode_def create_contents_def [of i b] intro!: evolves_bind)
qed (simp add: get_inode_def create_contents_def)

lemma grow_plain: "grow n off a = Ret a' \<Longrightarrow> plain_step a a' \<and> ia_mode a' = ia_mode a"
  by (auto simp: grow_def plain_step_def split: if_splits)

lemma evolves_write_call:
  assumes "storage_inv env s"
  shows "on_ret (simple_write env i fh off d s) (\<lambda>(r, s'). evolves req s s')"
proof -
  let ?g = "\<lambda>a :: inode_attributes. a\<lparr>last_metadata_changed := clock env 0, last_modified := clock env 1\<rparr>"
  let ?h = "\<lambda>a. bind_outcome (grow (length d) (unat off) a) (\<lambda>a'. Ret (clear_suid_sgid a'))"
  have g: "plain_step a (?g a) \<and> ia_mode (?g a) = ia_mode a" for a
    by (simp add: plain_step_def)
  have h: "plain_step a a'" if "?h a = Ret a'" for a a'
    using that by (auto elim!: bind_outcome_RetE dest!: grow_plain intro: plain_step_clear)
  from evolves_data [OF assms g, of ?h, OF h] show ?thesis
    by (auto simp: simple_write_def Let_def evolves_refl bind_outcome_assoc split: option.split intro!: evolves_replies)
qed

lemma evolves_copy:
  assumes "storage_inv env s"
  shows "on_ret (simple_copy_file_range env si sfh soff i dfh doff sz s) (\<lambda>(r, s'). evolves req s s')"
proof -
  let ?g = "\<lambda>a :: inode_attributes. a\<lparr>last_metadata_changed := clock env 0, last_modified := clock env 1\<rparr>"
  have g: "plain_step a (?g a) \<and> ia_mode (?g a) = ia_mode a" for a
    by (simp add: plain_step_def)
  have h: "plain_step a a'" if "grow n (unat doff) a = Ret a'" for n a a'
    using grow_plain [OF that] by simp
  from evolves_data [OF assms g, of "grow n (unat doff)" for n, OF h] show ?thesis
    by (auto simp: simple_copy_file_range_def Let_def evolves_refl split: option.split intro!: evolves_replies)
qed

lemma evolves_fallocate:
  assumes "storage_inv env s"
  shows "on_ret (simple_fallocate env i off len mode s) (\<lambda>(r, s'). evolves req s s')"
proof -
  let ?g = "\<lambda>a :: inode_attributes. a\<lparr>last_metadata_changed := clock env 0, last_modified := clock env 1\<rparr>"
  let ?h = "\<lambda>a. if \<not> in_i64 (sint off + sint len) then Panic ''attempt to add with overflow''
                else Ret (if ia_size a < off + len then a\<lparr>ia_size := off + len\<rparr> else a)"
  have g: "plain_step a (?g a) \<and> ia_mode (?g a) = ia_mode a" for a
    by (simp add: plain_step_def)
  have h: "plain_step a a'" if "?h a = Ret a'" for a a'
    using that by (auto simp: plain_step_def split: if_splits)
  from evolves_data [OF assms g, of ?h, OF h] show ?thesis
    by (auto simp: simple_fallocate_def Let_def evolves_refl if_distrib [of "\<lambda>m. bind_outcome m _"]
        cong: if_cong bind_outcome_cong split: option.split intro!: evolves_replies)
qed

lemma evolves_open:
  assumes "storage_inv env s"
  shows "on_ret (open_node req0 i acc s) (\<lambda>(r, s'). evolves req s s')"
proof (cases "inodes s i")
  case (Some a)
  have "evolves req s (write_inode (a\<lparr>open_file_handles := open_file_handles a + 1\<rparr>) s)" if "open_file_handles a \<noteq> - 1"
  proof (rule evolves_write [OF evolves_refl])
    fix x assume "inodes s (ia_inode (a\<lparr>open_file_handles := open_file_handles a + 1\<rparr>)) = Some x"
    then have "x = a" using stored_unique [OF assms Some] by simp
    moreover have "open_file_handles a \<le> open_file_handles a + 1"
      using less_inc [OF that] by simp
    ultimately show "attr_step req x (a\<lparr>open_file_handles := open_file_handles a + 1\<rparr>)"
      by (simp add: attr_step_def)
  qed
  then show ?thesis
    using Some
    by (auto simp: open_node_def get_inode_def Let_def evolves_refl allocate_next_file_handle_def evolves_def [where s' = "_\<lparr>next_file_handle := _\<rparr>"]
        split: prod.split intro!: evolves_replies) (auto simp: evolves_def)
qed (auto simp: open_node_def get_inode_def evolves_refl split: prod.split intro!: evolves_replies)

lemma evolves_xattr:
  assumes "storage_inv env s"
  shows "on_ret (simple_setxattr env req0 i key v s) (\<lambda>(r, s'). evolves req s s')"
    and "on_ret (simple_removexattr env req0 i key s) (\<lambda>(r, s'). evolves req s s')"
  by (auto simp: simple_setxattr_def simple_removexattr_def get_inode_def plain_step_def evolves_refl split: option.split
      intro!: evolves_or_reject evolves_replies evolves_plain [OF assms])

lemma evolves_alloc:
  assumes "storage_inv env s" and "superblock s1 = superblock s" and "evolves req s s1"
  shows "on_ret (allocate_next_inode s1) (\<lambda>(i, s2). evolves req s s2 \<and> inodes s i = None)"
  by (rule on_ret_mono [OF allocate_fresh [OF assms(1,2)]]) (use assms(3) in \<open>auto simp: evolves_def\<close>)

lemma superblock_write [simp]: "superblock (write_inode a s) = superblock s"
  by (simp add: write_inode_def)

lemma evolves_bind_update:
  "evolves req s s1 \<Longrightarrow> (\<And>s2. evolves req s s2 \<Longrightarrow> on_ret (f s2) Q) \<Longrightarrow>
     on_ret (bind_outcome (update_directory env p g s1) f) Q"
  unfolding on_ret_bind by (rule on_ret_mono [OF evolves_update])

lemma evolves_bind_lookup:
  "storage_inv env s \<Longrightarrow> (\<And>r. (\<And>a. r = Inr a \<Longrightarrow> inodes s (ia_inode a) = Some a) \<Longrightarrow> on_ret (f r) Q) \<Longrightarrow>
     on_ret (bind_outcome (lookup_name env s p n) f) Q"
  unfolding on_ret_bind by (rule on_ret_mono [OF lookup_stored]) auto

lemma evolves_touch:
  assumes "storage_inv env s" and "inodes s p = Some pa"
  shows "evolves req s (write_inode (pa\<lparr>last_modified := t, last_metadata_changed := t'\<rparr>) s)"
  by (rule evolves_plain [OF assms evolves_refl]) (simp add: plain_step_def)

lemma evolves_make_node:
  assumes "storage_inv env s" and "inodes s p = Some pa"
  shows "on_ret (make_node env req0 p pa n mode handles s) (\<lambda>(a, s'). evolves req s s')"
  unfolding make_node_def Let_def
  by (intro evolves_bind_pair [OF evolves_alloc [OF assms(1), where req = req]] evolves_bind
      evolves_bind_update [where req = req and s = s])
    (auto simp: write_directory_content_eq new_attributes_def evolves_fresh evolves_touch [OF assms])

lemma evolves_make:
  assumes "storage_inv env s"
  shows "on_ret (simple_mknod env req0 p n mode s) (\<lambda>(r, s'). evolves req s s')"
    and "on_ret (simple_create env req0 p n mode flags s) (\<lambda>(r, s'). evolves req s s')"
proof -
  have mk: "on_ret (bind_outcome (make_node env req0 p pa n mode handles s) (\<lambda>(a, s1). f a s1)) (\<lambda>(r, s'). evolves req s s')"
    if "inodes s p = Some pa" "\<And>a s1. evolves req s s1 \<Longrightarrow> on_ret (f a s1) (\<lambda>(r, s'). evolves req s s')" for pa handles f
    by (rule evolves_bind_pair [OF evolves_make_node [OF assms that(1)]]) (rule that(2))
  show "on_ret (simple_mknod env req0 p n mode s) (\<lambda>(r, s'). evolves req s s')"
    by (auto simp: simple_mknod_def Let_def get_inode_Inr evolves_refl split: sum.split
        intro!: evolves_bind [of "lookup_name env s p n"] evolves_replies evolves_or_reject mk)
  have "on_ret (bind_outcome (file_attr_from a) (\<lambda>f. bind_outcome (allocate_next_file_handle rd wr s1)
      (\<lambda>(fh, s2). Ret (RCreated f fh, s2)))) (\<lambda>(r, s'). evolves req s s')" if "evolves req s s1" for a rd wr s1
    using that by (auto simp: allocate_next_file_handle_def Let_def evolves_def intro!: evolves_bind)
  then show "on_ret (simple_create env req0 p n mode flags s) (\<lambda>(r, s'). evolves req s s')"
    by (auto simp: simple_create_def get_inode_Inr evolves_refl split: sum.split prod.split
        intro!: evolves_bind [of "lookup_name env s p n"] evolves_replies evolves_or_reject mk)
qed

lemma evolves_mkdir:
  assumes "storage_inv env s"
  shows "on_ret (simple_mkdir env req0 p n mode s) (\<lambda>(r, s'). evolves req s s')"
  by (auto simp: simple_mkdir_def Let_def get_inode_Inr evolves_refl write_directory_content_eq new_attributes_def split: sum.split
      intro!: evolves_bind [of "lookup_name env s p n"] evolves_or_reject
        evolves_bind_pair [OF evolves_alloc [OF assms, where req = req]] evolves_bind_update [where req = req and s = s]
        evolves_replies evolves_fresh evolves_touch [OF assms])

lemma evolves_insert_link:
  assumes "evolves req s s1" and "\<And>a. inodes s1 p = Some a \<Longrightarrow> ia_inode a = p"
  shows "on_ret (insert_link env req0 p n i k s1) (\<lambda>(r, s'). evolves req s s')"
proof -
  have step: "evolves req s (write_inode (a\<lparr>last_modified := t, last_metadata_changed := t'\<rparr>) s1)"
    if "inodes s1 p = Some a" for a t t'
  proof (rule evolves_write [OF assms(1)])
    fix a0 assume "inodes s (ia_inode (a\<lparr>last_modified := t, last_metadata_changed := t'\<rparr>)) = Some a0"
    then have "attr_step req a0 a" using assms that by (force simp: evolves_def)
    then show "attr_step req a0 (a\<lparr>last_modified := t, last_metadata_changed := t'\<rparr>)" by (simp add: attr_step_def)
  qed
  show ?thesis
    using assms(1)
    by (auto simp: insert_link_def Let_def get_inode_Inr split: sum.split
        intro!: evolves_bind [of "lookup_name env s1 p n"] evolves_bind_update [where req = req and s = s] step)
qed

lemma evolves_symlink:
  assumes "storage_inv env s"
  shows "on_ret (simple_symlink env req0 p n l s) (\<lambda>(r, s'). evolves req s s')"
proof -
  have alloc: "on_ret (allocate_next_inode (write_inode (pa\<lparr>last_modified := t, last_metadata_changed := t'\<rparr>) s))
      (\<lambda>(i, s2). evolves req s s2 \<and> inodes s i = None \<and> (\<forall>a1. inodes s2 p = Some a1 \<longrightarrow> ia_inode a1 = p))"
    if "inodes s p = Some pa" for pa t t'
    using evolves_alloc [OF assms _ evolves_touch [OF assms that, where t = t and t' = t']] storage_invD(1) [OF assms]
    by (auto simp: allocate_next_inode_def Let_def write_inode_def split: if_splits)
  have link: "on_ret (bind_outcome (insert_link env' req0 p n ino k s2) (\<lambda>(r, s3). or_reject r s3 (\<lambda>u.
      entry_reply a (create_contents ino l (write_inode a s3))))) (\<lambda>(r, s'). evolves req s s')"
    if "evolves req s s2" "inodes s ino = None" "ia_inode a = ino" "\<And>a1. inodes s2 p = Some a1 \<Longrightarrow> ia_inode a1 = p"
    for env' ino k s2 a
    by (rule evolves_bind_pair [OF evolves_insert_link [OF that(1,4)]])
      (auto simp: that(2,3) intro!: evolves_or_reject evolves_replies evolves_fresh)
  show ?thesis
    by (auto simp: simple_symlink_def Let_def get_inode_Inr evolves_refl new_attributes_def
        intro!: evolves_or_reject evolves_replies evolves_bind_pair [OF alloc] link)
qed

lemma evolves_link:
  assumes "storage_inv env s"
  shows "on_ret (simple_link env req0 i p n s) (\<lambda>(r, s'). evolves req s s')"
proof -
  have "on_ret (insert_link env req0 p n i k s) (\<lambda>(r, s'). evolves req s s')" for k
    using evolves_insert_link [OF evolves_refl] storage_invD(1) [OF assms] by blast
  then show ?thesis
    by (auto simp: simple_link_def Let_def get_inode_Inr evolves_refl plain_step_def
        intro!: evolves_or_reject evolves_replies evolves_bind_pair [of "insert_link env req0 p n i _ s"] evolves_plain [OF assms])
qed

lemma evolves_gc_plain:
  assumes "storage_inv env s" and "inodes s i = Some a" and "evolves req s s1" and "plain_step a a1"
  shows "on_ret (gc_inode a1 (write_inode a1 s1)) (\<lambda>(b, s2). evolves req s s2)"
proof (rule evolves_gc)
  show "evolves req s (write_inode a1 s1)" by (rule evolves_plain [OF assms])
next
  fix a0 assume "inodes s (ia_inode a1) = Some a0" "open_file_handles a1 = 0"
  then show "open_file_handles a0 = 0"
    using stored_unique [OF assms(1,2)] assms(4) by (auto simp: plain_step_def)
qed

lemma evolves_remove:
  assumes "storage_inv env s"
  shows "on_ret (simple_unlink env req0 p n s) (\<lambda>(r, s'). evolves req s s')"
    and "on_ret (simple_rmdir env req0 p n s) (\<lambda>(r, s'). evolves req s s')"
proof -
  have rm: "on_ret (bind_outcome (gc_inode a1 (write_inode a1
        (write_inode (pa\<lparr>last_metadata_changed := t, last_modified := t'\<rparr>) s))) (\<lambda>(b, s2).
      bind_outcome (update_directory env p (bt_remove n) s2) (\<lambda>s3. Ret (ROk, s3)))) (\<lambda>(r, s'). evolves req s s')"
    if "inodes s p = Some pa" "inodes s (ia_inode a) = Some a" "plain_step a a1" for pa a a1 t t'
    using evolves_gc_plain [OF assms that(2) _ that(3)] evolves_plain [OF assms that(1) evolves_refl]
    by (intro evolves_bind_pair [where P = "\<lambda>b. evolves req s"] evolves_bind_update [where req = req and s = s])
      (auto simp: plain_step_def)
  show "on_ret (simple_unlink env req0 p n s) (\<lambda>(r, s'). evolves req s s')"
    by (auto simp: simple_unlink_def Let_def get_inode_Inr evolves_refl plain_step_def
        intro!: evolves_bind_lookup [OF assms] evolves_or_reject evolves_replies rm)
  show "on_ret (simple_rmdir env req0 p n s) (\<lambda>(r, s'). evolves req s s')"
    by (auto simp: simple_rmdir_def Let_def get_inode_Inr evolves_refl plain_step_def
        intro!: evolves_bind_lookup [OF assms] evolves_bind [of "dir_unwrap env s _"] evolves_or_reject evolves_replies rm)
qed

lemma evolves_set_parent:
  "evolves req s s1 \<Longrightarrow> on_ret (set_parent env a p s1) (\<lambda>s2. evolves req s s2)"
  by (simp add: set_parent_def evolves_update)

lemma evolves_bind_set_parent:
  "evolves req s s1 \<Longrightarrow> (\<And>s2. evolves req s s2 \<Longrightarrow> on_ret (f s2) Q) \<Longrightarrow>
     on_ret (bind_outcome (set_parent env a p s1) f) Q"
  unfolding on_ret_bind by (rule on_ret_mono [OF evolves_set_parent])

lemma evolves_rename_replace:
  assumes "storage_inv env s"
  shows "on_ret (rename_replace env np nn s) (\<lambda>s1. evolves req s s1)"
proof -
  have "on_ret (bind_outcome (gc_inode a1 (write_inode a1 s1)) (\<lambda>(b, s2). Ret s2)) (\<lambda>s1. evolves req s s1)"
    if "inodes s (ia_inode a) = Some a" "evolves req s s1" "plain_step a a1" for a a1 s1
    by (rule evolves_bind_pair [OF evolves_gc_plain [OF assms that]]) simp
  then show ?thesis
    unfolding rename_replace_def Let_def
    by (intro evolves_bind_lookup [OF assms])
      (auto simp: evolves_refl plain_step_def split: sum.split intro!: evolves_bind_update [where req = req and s = s])
qed

lemma evolves_rename:
  assumes "storage_inv env s"
  shows "on_ret (simple_rename env req0 p n np nn flags s) (\<lambda>(r, s'). evolves req s s')"
proof -
  have "on_ret (rename_exchange env p pa n a np npa nn b s) (\<lambda>(r, s'). evolves req s s')"
    if "inodes s p = Some pa" "inodes s np = Some npa" "inodes s (ia_inode a) = Some a" "inodes s (ia_inode b) = Some b"
    for pa npa a b
    unfolding rename_exchange_def Let_def
    by (intro evolves_bind_update [where req = req and s = s] evolves_bind_set_parent [where req = req and s = s]
        evolves_refl evolves_plain [OF assms that(1)] evolves_plain [OF assms that(2)] evolves_plain [OF assms that(3)]
        evolves_plain [OF assms that(4)]) (auto simp: plain_step_def)
  moreover have "on_ret (rename_move env p pa n a np npa nn s) (\<lambda>(r, s'). evolves req s s')"
    if "inodes s p = Some pa" "inodes s np = Some npa" "inodes s (ia_inode a) = Some a" for pa npa a
    unfolding rename_move_def Let_def on_ret_bind [of "rename_replace env np nn s"]
    by (rule on_ret_mono [OF evolves_rename_replace [OF assms, where req = req]])
      (intro evolves_bind_update [where req = req and s = s] evolves_bind_set_parent [where req = req and s = s]
        evolves_plain [OF assms that(1)] evolves_plain [OF assms that(2)] evolves_plain [OF assms that(3)];
       auto simp: plain_step_def)
  ultimately show ?thesis
    by (auto simp: simple_rename_def get_inode_Inr evolves_refl
        intro!: evolves_bind_lookup [OF assms] evolves_bind [of "sticky_target env req0 np _ nn s"]
          evolves_bind [of "full_target env np nn s"] evolves_or_reject evolves_replies)
qed

lemma evolves_handle:
  assumes "storage_inv env s"
  shows "on_ret (simple_handle env req c s) (\<lambda>(r, s'). evolves req s s')"
  by (cases c)
    (auto simp: simple_getattr_def simple_readlink_def simple_open_def simple_opendir_def simple_read_def simple_lookup_def
      simple_release_def simple_releasedir_def simple_statfs_def simple_access_def simple_getxattr_def simple_listxattr_def
      sized_reply_def simple_readdir_def get_inode_def Let_def evolves_refl evolves_setattr evolves_make evolves_mkdir
      evolves_remove evolves_symlink evolves_rename evolves_link evolves_write_call evolves_xattr
      evolves_fallocate evolves_copy evolves_open [OF assms] assms
      split: option.split sum.split intro!: evolves_bind evolves_or_reject evolves_replies)

end
