(* ===== verification/Simple_Props.thy ===== *)
theory Simple_Props
  imports Simple_Attr
begin

text \<open>
  Properties of the file system of \<^verbatim>\<open>src/fuse/src/filesystem.rs\<close> over all runs, and of single methods:
  access checks, reading what was written, and the entries of directories.
\<close>

section \<open>Runs\<close>

text \<open>
  The states a file system reaches from an empty store: it is initialised and answers calls of the
  kernel. Calls may differ in the clock, the process table and the host, not in the serialiser.
\<close>

definition same_codec :: "environment \<Rightarrow> environment \<Rightarrow> bool" where
  "same_codec env env' \<longleftrightarrow> serialize_dir env' = serialize_dir env \<and> deserialize_dir env' = deserialize_dir env"

inductive simple_step :: "environment \<Rightarrow> simple_fs \<Rightarrow> simple_fs \<Rightarrow> bool" for env where
  "same_codec env env' \<Longrightarrow> legal env' req c s \<Longrightarrow> simple_handle env' req c s = Ret (r, s') \<Longrightarrow> simple_step env s s'"

inductive simple_reachable :: "environment \<Rightarrow> simple_fs \<Rightarrow> bool" for env where
  init: "same_codec env env' \<Longrightarrow> simple_init env' config (simple_fs_new direct suid) = Ret (config', s) \<Longrightarrow>
           simple_reachable env s"
| step: "simple_reachable env s \<Longrightarrow> simple_step env s s' \<Longrightarrow> simple_reachable env s'"

inductive_cases simple_stepE: "simple_step env s s'"

lemma same_codec_storage:
  "same_codec env env' \<Longrightarrow> storage_inv env' s = storage_inv env s" "same_codec env env' \<Longrightarrow> codec env' = codec env"
  by (simp_all add: same_codec_def storage_inv_def node_ok_def content_ok_def codec_def)

lemma init_storage:
  assumes "codec env" and "simple_init env config (simple_fs_new direct suid) = Ret (config', s)"
  shows "storage_inv env s"
proof -
  have "storage_inv env (simple_fs_new direct suid)"
    by (simp add: storage_inv_def simple_fs_new_def)
  moreover have "bt_inv [(dot, ROOT_ID, Directory)]" by (simp add: bt_inv_def)
  ultimately have add: "storage_inv env (create_contents ROOT_ID (serialize_dir env [(dot, ROOT_ID, Directory)])
      (write_inode a (simple_fs_new direct suid)))" if "ia_inode a = ROOT_ID" "xattrs a = []" for a
    using that content_ok_dir [OF assms(1)] storage_inv_add(1) [of env "simple_fs_new direct suid" a]
    by (simp add: kind_of_def simple_fs_new_def top_inode_def bt_inv_def)
  have "inodes (simple_fs_new direct suid) ROOT_ID = None" by (simp add: simple_fs_new_def)
  with assms(2) show ?thesis
    by (auto simp: simple_init_def get_inode_def Let_def write_directory_content_eq
        split: prod.splits sum.splits intro!: add)
qed

lemma step_storage:
  assumes "simple_step env s s'" and "codec env" and "storage_inv env s"
  shows "storage_inv env s'"
proof -
  obtain env' req c r where c: "same_codec env env'" "legal env' req c s" "simple_handle env' req c s = Ret (r, s')"
    using assms(1) by (rule simple_stepE)
  then have "safe env' (simple_handle env' req c s)"
    using handle_safe [of env' s req c] assms(2,3) same_codec_storage by simp
  with c show ?thesis using same_codec_storage by simp
qed

lemma reachable_storage: "simple_reachable env s \<Longrightarrow> codec env \<Longrightarrow> storage_inv env s"
proof (induction rule: simple_reachable.induct)
  case (init env' config direct suid config' s)
  then show ?case using init_storage [of env'] same_codec_storage by metis
qed (rule step_storage)

text \<open>The handles of an inode along a run.\<close>

lemma steps_handles:
  assumes "(simple_step env)\<^sup>*\<^sup>* s s'" and "codec env" and "storage_inv env s" and "inodes s i = Some a"
    and "open_file_handles a \<noteq> 0"
  shows "storage_inv env s' \<and> (\<exists>a'. inodes s' i = Some a' \<and> open_file_handles a \<le> open_file_handles a')"
  using assms(1)
proof (induction rule: rtranclp_induct)
  case base
  show ?case using assms by simp
next
  case (step y z)
  then obtain b where b: "inodes y i = Some b" "open_file_handles a \<le> open_file_handles b" and inv: "storage_inv env y"
    by blast
  then have nz: "open_file_handles b \<noteq> 0" using assms(5) by auto
  obtain env' req c r where c: "same_codec env env'" "simple_handle env' req c y = Ret (r, z)"
    using step(2) by (rule simple_stepE)
  then have "evolves req y z" using evolves_handle [of env' y req c] inv same_codec_storage by simp
  then have "\<exists>a'. inodes z i = Some a' \<and> open_file_handles b \<le> open_file_handles a'"
    using b(1) nz by (cases "inodes z i") (fastforce simp: evolves_def attr_step_def)+
  with step_storage [OF step(2) assms(2) inv] b(2) show ?case by force
qed

section \<open>An example\<close>

text \<open>A serialiser with its inverse, and the environment that has it.\<close>

fun put_name :: "bytes \<Rightarrow> bytes" where
  "put_name [] = [0]"
| "put_name (b # bs) = 1 # b # put_name bs"

fun get_name :: "bytes \<Rightarrow> (bytes \<times> bytes) option" where
  "get_name (t # b # r) =
     (if t = 0 then Some ([], b # r)
      else case get_name r of Some (n, r1) \<Rightarrow> Some (b # n, r1) | None \<Rightarrow> None)"
| "get_name [t] = (if t = 0 then Some ([], []) else None)"
| "get_name [] = None"

fun put_kind :: "file_kind \<Rightarrow> u8" where
  "put_kind File = 0" | "put_kind Directory = 1" | "put_kind Symlink = 2"

fun put_dir :: "directory_descriptor \<Rightarrow> bytes" where
  "put_dir [] = [0]"
| "put_dir ((n, i, k) # d) = 1 # put_kind k # le_bytes 8 i @ put_name n @ put_dir d"

fun get_dir :: "nat \<Rightarrow> bytes \<Rightarrow> directory_descriptor option" where
  "get_dir (Suc m) (t # k # r) =
     (if t = 0 then Some []
      else
        case get_name (drop 8 r) of
          None \<Rightarrow> None
        | Some (n, r1) \<Rightarrow>
            map_option (Cons (n, le_word (take 8 r), if k = 0 then File else if k = 1 then Directory else Symlink)) (get_dir m r1))"
| "get_dir m r = Some []"

lemma get_put_name: "get_name (put_name n @ r) = Some (n, r)"
proof (induction n)
  case Nil
  show ?case by (cases r) simp_all
qed simp

lemma get_put_dir: "length d < m \<Longrightarrow> get_dir m (put_dir d) = Some d"
proof (induction d arbitrary: m)
  case Nil
  then show ?case by (cases m) simp_all
next
  case (Cons e d)
  obtain n i k where e: "e = (n, i, k)" by (cases e)
  from Cons obtain m' where m: "m = Suc m'" "get_dir m' (put_dir d) = Some d" by (cases m) auto
  have "drop 8 (le_bytes 8 i @ put_name n @ put_dir d) = put_name n @ put_dir d"
      "take 8 (le_bytes 8 i @ put_name n @ put_dir d) = le_bytes 8 i" by simp_all
  then show ?case using m(2) by (cases k) (simp_all add: e m(1) get_put_name)
qed

lemma length_put_dir: "length d < length (put_dir d)"
  by (induction d rule: put_dir.induct) auto

definition example_env :: environment where
  "example_env =
     \<lparr>clock = (\<lambda>i. (0, 0)), proc_status = (\<lambda>pid. Some [''Groups: 5 6 '']), serialize_dir = put_dir,
      deserialize_dir = (\<lambda>b. get_dir (length b) b), host_fallocate = (\<lambda>b mode offset len. b)\<rparr>"

lemma example_codec: "codec example_env"
  by (simp add: codec_def example_env_def get_put_dir length_put_dir)

lemma example_env_simps: "deserialize_dir example_env (serialize_dir example_env d) = Some d" "clock example_env i = (0, 0)"
  using example_codec by (simp_all add: codec_def) (simp add: example_env_def)

definition example_attr :: inode_attributes where
  "example_attr =
     \<lparr>ia_inode = 1, open_file_handles = 0, ia_size = 0, last_accessed = (0, 0), last_modified = (0, 0),
      last_metadata_changed = (0, 0), ia_kind = Directory, ia_mode = 0x1FF, hardlinks = 2, ia_uid = 0,
      ia_gid = 0, xattrs = []\<rparr>"

definition example_root :: simple_fs where
  "example_root =
     \<lparr>inodes = [1 \<mapsto> example_attr], contents = [1 \<mapsto> serialize_dir example_env [(dot, 1, Directory)]], superblock = None,
      next_file_handle = 1, direct_io = False, suid_support = False\<rparr>"

definition example_user :: request where
  "example_user = \<lparr>req_uid = 7, req_gid = 5, req_pid = 42\<rparr>"

lemma simple_example_reachable: "simple_reachable example_env example_root"
proof (rule simple_reachable.init)
  show "same_codec example_env example_env" by (simp add: same_codec_def)
  show "simple_init example_env (kernel_config_new (- 1) 0) (simple_fs_new False False) =
      Ret (snd (add_capabilities FUSE_HANDLE_KILLPRIV (kernel_config_new (- 1) 0)), example_root)"
    by (simp add: simple_init_def add_capabilities_def kernel_config_new_def get_inode_def simple_fs_new_def
        write_inode_def write_directory_content_def example_env_def example_root_def example_attr_def ROOT_ID_def Let_def)
qed

lemma example_call:
  assumes "is_ret (simple_handle example_env example_user c s)"
  obtains r s' where "simple_handle example_env example_user c s = Ret (r, s')"
  using assms by (cases "simple_handle example_env example_user c s") auto

section \<open>Properties of all runs\<close>



text \<open>
  C30. No call of a user without privileges changes the owner of an existing file; one that is not its
  owner cannot change its group either, nor its mode, except that the set-user and set-group bits are
  cleared when data is written or the file truncated.
\<close>

theorem simple_ownership:
  assumes "codec env" and "simple_reachable env s" and "simple_handle env req c s = Ret (r, s')"
    and "req_uid req \<noteq> 0" and "inodes s i = Some a" and "inodes s' i = Some a'"
  shows "ia_uid a' = ia_uid a \<and>
     (req_uid req = ia_uid a \<or>
      ia_gid a' = ia_gid a \<and> (ia_mode a' = ia_mode a \<or> ia_mode a' = ia_mode (clear_suid_sgid a)))"
proof -
  have "evolves req s s'"
    using evolves_handle [OF reachable_storage [OF assms(2,1)], of req c] assms(3) by simp
  with assms(5,6) have "attr_step req a a'" unfolding evolves_def by (metis option.simps(5))
  with assms(4) show ?thesis by (auto simp: attr_step_def)
qed

theorem simple_ownership_witness:
  "\<exists>r s' a'. simple_handle example_env example_user (SfOpendir 1 0) example_root = Ret (r, s') \<and>
     inodes s' 1 = Some a' \<and> ia_uid a' = 0 \<and> ia_gid a' = 0"
proof -
  have "is_ret (simple_handle example_env example_user (SfOpendir 1 0) example_root)" by code_simp
  then obtain r s' where c: "simple_handle example_env example_user (SfOpendir 1 0) example_root = Ret (r, s')"
    by (rule example_call)
  have "case simple_handle example_env example_user (SfOpendir 1 0) example_root of
      Ret (r, s') \<Rightarrow> inodes s' 1 \<noteq> None | _ \<Rightarrow> False" by code_simp
  with c obtain a' where a': "inodes s' 1 = Some a'" by auto
  have "req_uid example_user \<noteq> 0" "inodes example_root 1 = Some example_attr" "req_uid example_user \<noteq> ia_uid example_attr"
      "ia_uid example_attr = 0" "ia_gid example_attr = 0"
    by (simp_all add: example_user_def example_root_def example_attr_def)
  with simple_ownership [OF example_codec simple_example_reachable c _ _ a'] c a' show ?thesis by auto
qed

text \<open>
  An inode with an open handle is never removed by any later call, and its count of handles never
  decreases: releasing a handle does not write back the count. A file that was unlinked while open
  stays in the store for ever.
\<close>

lemma simple_never_collected:
  assumes "codec env" and "simple_reachable env s" and "(simple_step env)\<^sup>*\<^sup>* s s'"
    and "inodes s i = Some a" and "open_file_handles a \<noteq> 0"
  shows "\<exists>a'. inodes s' i = Some a' \<and> open_file_handles a \<le> open_file_handles a'"
  using steps_handles [OF assms(3,1) reachable_storage [OF assms(2,1)] assms(4,5)] by simp

section \<open>Access checks\<close>

text \<open>
  The rule of the access bits: the owner's, the group's or the others' bits apply; root may read and
  write anything and execute what someone may execute.
\<close>

definition posix_access :: "u32 \<Rightarrow> u32 \<Rightarrow> u16 \<Rightarrow> u32 \<Rightarrow> u32 \<Rightarrow> nat set \<Rightarrow> bool" where
  "posix_access file_uid file_gid mode uid gid wanted \<longleftrightarrow>
     (if uid = 0 then 0 \<in> wanted \<longrightarrow> bit mode 0 \<or> bit mode 3 \<or> bit mode 6
      else \<forall>b \<in> wanted. bit mode ((if uid = file_uid then 6 else if gid = file_gid then 3 else 0) + b))"

lemma sub_and:
  fixes x y :: "'a::len word"
  shows "x - (x AND y) = x AND NOT y"
proof -
  have "(x AND y) AND (x AND NOT y) = 0" "(x AND y) OR (x AND NOT y) = x"
    by (auto simp: bit_eq_iff bit_simps)
  then have "(x AND y) + (x AND NOT y) = x"
    using word_plus_and_or [of "x AND y" "x AND NOT y"] by simp
  then show ?thesis by (metis add_diff_cancel_left')
qed

lemma and_eq_0: "(x :: 'a::len word) AND y = 0 \<longleftrightarrow> (\<forall>n. bit x n \<longrightarrow> \<not> bit y n)"
  by (auto simp: bit_eq_iff bit_simps dest: bit_imp_le_length)

lemma bits_below_8: "(m :: i32) < 8 \<Longrightarrow> bit m n \<Longrightarrow> n < 3"
proof -
  assume "m < 8" "bit m n"
  then have "take_bit 3 m = m"
    by (simp add: word_less_nat_alt word_unat_eq_iff unsigned_take_bit_eq take_bit_nat_eq_self_iff)
  with \<open>bit m n\<close> show ?thesis by (metis bit_take_bit_iff)
qed

lemma bit_not: "n < LENGTH('a) \<Longrightarrow> bit (NOT (y :: 'a::len word)) n \<longleftrightarrow> \<not> bit y n"
  by (simp add: bit_simps)

lemma mode_bits: "b < 3 \<Longrightarrow> k \<le> 6 \<Longrightarrow> bit (signed_drop_bit k (ucast (mode :: u16) :: i32)) b \<longleftrightarrow> bit mode (k + b)"
  by (auto simp: bit_simps min_def)

lemma access_bits:
  assumes "m < 8" and "k \<le> 6"
  shows "m - (m AND signed_drop_bit k (ucast (mode :: u16) :: i32)) = 0 \<longleftrightarrow> (\<forall>b \<in> {b. bit m b}. bit mode (k + b))"
proof -
  have "bit (NOT (signed_drop_bit k (ucast mode :: i32))) n \<longleftrightarrow> \<not> bit mode (k + n)" if "bit m n" for n
    using bits_below_8 [OF assms(1) that] mode_bits [OF _ assms(2), of n mode] by (simp add: bit_not)
  then show ?thesis unfolding sub_and and_eq_0 by auto
qed

lemma root_bits:
  "(let m0 = (m :: i32) AND 1; m1 = m0 - (m0 AND signed_drop_bit 6 f); m2 = m1 - (m1 AND signed_drop_bit 3 f);
        m3 = m2 - (m2 AND f) in m3 = 0) \<longleftrightarrow> (bit m 0 \<longrightarrow> bit f 0 \<or> bit f 3 \<or> bit f 6)"
proof -
  have one: "bit (1 :: i32) n \<longleftrightarrow> n = 0" for n by (simp add: bit_simps)
  have "m AND 1 AND NOT (signed_drop_bit 6 f) AND NOT (signed_drop_bit 3 f) AND NOT f = 0 \<longleftrightarrow>
      (\<forall>n. bit m n \<and> n = 0 \<longrightarrow> \<not> (\<not> bit f 6 \<and> \<not> bit f 3 \<and> \<not> bit f 0))"
    by (auto simp: and_eq_0 bit_simps one) (drule spec [of _ 0], simp)
  then show ?thesis by (auto simp: sub_and Let_def and.assoc)
qed

text \<open>
  For a request for any combination of reading, writing and executing, the file system's access
  check is the rule of the access bits.
\<close>

lemma check_access_posix:
  assumes "access_mask < 8"
  shows "check_access file_uid file_gid mode uid gid access_mask =
     posix_access file_uid file_gid mode uid gid {b. bit access_mask b}"
proof (cases "access_mask = 0")
  case False
  have "bit (ucast mode :: i32) k = bit mode k" if "k \<le> 6" for k using that by (simp add: bit_simps)
  then show ?thesis
    using False access_bits [OF assms, of 6] access_bits [OF assms, of 3] access_bits [OF assms, of 0]
      root_bits [of access_mask "ucast mode"]
    by (simp add: check_access_def posix_access_def del: right_minus_eq)
qed (simp add: check_access_def posix_access_def)

section \<open>Contents\<close>

definition byte_at :: "bytes \<Rightarrow> nat \<Rightarrow> u8" where
  "byte_at b k = (if k < length b then b ! k else 0)"

lemma length_write_at: "length (file_write_at off d b) = (if d = [] then length b else max (length b) (off + length d))"
  by (auto simp: file_write_at_def)

lemma byte_at_write:
  "byte_at (file_write_at off d b) k = (if off \<le> k \<and> k < off + length d then d ! (k - off) else byte_at b k)"
  by (auto simp: byte_at_def file_write_at_def nth_append min_def)

lemma read_bytes:
  assumes "contents s i = Some b" and "check_file_handle_read fh" and "0 \<le> sint off" and "length b - unat off < 2 ^ 32"
  shows "simple_read i fh off sz s =
     Ret (RData (map (byte_at b) [unat off..<min (unat off + unat sz) (length b)]), s)"
proof -
  have "unat (min sz (of_nat (length b - unat off))) = min (unat sz) (length b - unat off)"
    using assms(4) by (simp add: min_def word_le_nat_alt unat_of_nat take_bit_nat_eq_self)
  moreover have "take (min (unat sz) (length b - unat off)) (drop (unat off) b) =
      map (byte_at b) [unat off..<min (unat off + unat sz) (length b)]"
    by (rule nth_equalityI) (auto simp: byte_at_def)
  ultimately show ?thesis using assms(1-3) by (simp add: simple_read_def Let_def)
qed


text \<open>A file in the example: inode 2 with three bytes.\<close>

definition example_file :: simple_fs where
  "example_file = example_root\<lparr>inodes := [1 \<mapsto> example_attr, 2 \<mapsto> example_attr\<lparr>ia_inode := 2, ia_kind := File, ia_size := 3\<rparr>],
     contents := [1 \<mapsto> serialize_dir example_env [(dot, 1, Directory), ([97], 2, File)], 2 \<mapsto> [10, 11, 12]], superblock := Some 2\<rparr>"


text \<open>
  The number of bytes that remain is cut to 32 bits: at \<open>2 ^ 32\<close> bytes before the end of a file, a
  read returns nothing, as at the end of the file.
\<close>

lemma read_4_gib:
  assumes "contents s i = Some b" and "check_file_handle_read fh" and "0 \<le> sint off" and "length b = unat off + 2 ^ 32"
  shows "simple_read i fh off sz s = Ret (RData [], s)"
proof -
  have "(of_nat (length b - unat off) :: u32) = 0" using assms(4) by simp
  then show ?thesis using assms(1-3) by (simp add: simple_read_def Let_def min_def)
qed

section \<open>Entries\<close>

lemma make_node_effect:
  assumes "storage_inv env s" and "inodes s p = Some pa" and "make_node env req p pa n mode handles s = Ret (a, s')"
  obtains pa1 d kind where "pa1 = pa\<lparr>last_modified := clock env 0, last_metadata_changed := clock env 1\<rparr>"
    and "inodes s (ia_inode a) = None" and "inodes s' = (inodes s)(p \<mapsto> pa1, ia_inode a \<mapsto> a)"
    and "contents s' p = Some (serialize_dir env (bt_insert n (ia_inode a, kind) d))"
    and "ia_uid a = req_uid req" and "ia_kind a = kind" and "as_file_kind mode = Ret kind"
proof -
  let ?pa1 = "pa\<lparr>last_modified := clock env 0, last_metadata_changed := clock env 1\<rparr>"
  let ?m = "if req_uid req \<noteq> 0 then mode AND NOT (S_ISUID OR S_ISGID) else mode"
  have p: "ia_inode pa = p" using storage_invD(1) [OF assms(1,2)] .
  obtain ino s2 kind where s2: "allocate_next_inode (write_inode ?pa1 s) = Ret (ino, s2)" and k: "as_file_kind ?m = Ret kind"
    and u: "bind_outcome (update_directory env p (bt_insert n (ino, kind))
        (if kind = Directory then write_directory_content env ino (dir_entries ino p)
           (create_contents ino [] (write_inode (new_attributes env 2 req ?pa1 ino handles 0 kind (creation_mode s ?m) 1) s2))
         else create_contents ino [] (write_inode (new_attributes env 2 req ?pa1 ino handles 0 kind (creation_mode s ?m) 1) s2)))
        (\<lambda>s5. Ret (new_attributes env 2 req ?pa1 ino handles 0 kind (creation_mode s ?m) 1, s5)) = Ret (a, s')"
    using assms(3) unfolding make_node_def Let_def by (auto elim!: bind_outcome_RetE)
  have s2': "inodes s2 = (inodes s)(p \<mapsto> ?pa1)" "inodes s ino = None"
    using allocate_fresh [OF assms(1), of "write_inode ?pa1 s"] s2 p by (simp_all add: write_inode_def)
  then have "ino \<noteq> p" using assms(2) by auto
  have a: "a = new_attributes env 2 req ?pa1 ino handles 0 kind (creation_mode s ?m) 1"
    using u by (auto elim!: bind_outcome_RetE)
  obtain d where "contents s' p = Some (serialize_dir env (bt_insert n (ino, kind) d))"
      and "inodes s' = (inodes s)(p \<mapsto> ?pa1, ino \<mapsto> a)"
    using u s2'(1)
    by (auto simp: update_directory_def write_directory_content_def create_contents_def write_inode_def new_attributes_def
        elim!: bind_outcome_RetE)
  moreover have "as_file_kind mode = Ret kind" using k as_file_kind_mask [of "req_uid req \<noteq> 0"] by simp
  ultimately show thesis using that [OF refl] s2'(2) by (simp add: a new_attributes_def)
qed

lemma and_push_bit: "n < 64 \<Longrightarrow> (x :: u64) AND push_bit n 1 \<noteq> 0 \<longleftrightarrow> bit x n"
  by (auto simp: and_eq_0 bit_exp_iff)

lemma bit_push_bit_1: "bit (push_bit n (1 :: u64)) k \<longleftrightarrow> n < 64 \<and> k = n"
  by (auto simp: bit_exp_iff)

lemma check_handle_bit:
  "check_file_handle_read fh \<longleftrightarrow> bit fh 63" "check_file_handle_write fh \<longleftrightarrow> bit fh 62"
  "bit FILE_HANDLE_READ_BIT k \<longleftrightarrow> k = 63" "bit FILE_HANDLE_WRITE_BIT k \<longleftrightarrow> k = 62"
  unfolding check_file_handle_read_def check_file_handle_write_def FILE_HANDLE_READ_BIT_def FILE_HANDLE_WRITE_BIT_def
  by (subst and_push_bit bit_push_bit_1; simp)+

lemma handle_bits:
  assumes "allocate_next_file_handle rd wr s = Ret (fh, s')"
  shows "check_file_handle_read fh = rd" and "check_file_handle_write fh = wr" and "inodes s' = inodes s"
    and "contents s' = contents s"
proof -
  have small: "next_file_handle s < push_bit 62 1"
    using assms by (simp add: allocate_next_file_handle_def FILE_HANDLE_WRITE_BIT_def Let_def split: if_splits)
  then have "take_bit 62 (next_file_handle s) = next_file_handle s"
    by (simp add: word_less_nat_alt word_unat_eq_iff unsigned_take_bit_eq take_bit_nat_eq_self_iff)
  then have "bit (next_file_handle s) k = (k < 62 \<and> bit (next_file_handle s) k)" for k
    by (metis bit_take_bit_iff)
  from this [of 62] this [of 63] have "\<not> bit (next_file_handle s) 62" "\<not> bit (next_file_handle s) 63"
    by simp_all
  then show "check_file_handle_read fh = rd" "check_file_handle_write fh = wr"
    using assms
    by (auto simp: allocate_next_file_handle_def check_handle_bit Let_def bit_or_iff split: if_splits)
  show "inodes s' = inodes s" "contents s' = contents s"
    using assms by (auto simp: allocate_next_file_handle_def Let_def split: if_splits)
qed

lemma create_effect:
  assumes "simple_create env req p n mode flags s = Ret (RCreated f fh, s')" and "inodes s p = Some pa"
  obtains rd wr a s1 where "create_access flags = Inr (rd, wr)" and "make_node env req p pa n mode 1 s = Ret (a, s1)"
    and "file_attr_from a = Ret f" and "allocate_next_file_handle rd wr s1 = Ret (fh, s')"
  using assms
  by (cases "create_access flags")
    (auto simp: simple_create_def get_inode_def reject_def elim!: bind_outcome_RetE split: sum.split_asm if_split_asm)

lemma create_access_bits:
  "create_access flags = Inr (rd, wr) \<Longrightarrow> rd = (flags AND O_ACCMODE \<noteq> O_WRONLY) \<and> wr = (flags AND O_ACCMODE \<noteq> O_RDONLY)"
  by (auto simp: create_access_def Let_def split: if_splits)

text \<open>
  When \<open>create\<close> succeeds, the new file has a fresh inode number, belongs to the user of the request
  and has the type of the mode; the handle may read and write as the flags ask; and whoever may search
  the directory finds the file under its name with the attributes of the answer.
\<close>

lemma simple_create_lookup:
  assumes "codec env" and "simple_reachable env s" and "simple_create env req p n mode flags s = Ret (RCreated f fh, s')"
    and "inodes s p = Some pa" and "may_access pa req' X_OK" and "length n \<le> MAX_NAME_LENGTH"
  shows "inodes s (fa_ino f) = None \<and> fa_uid f = req_uid req \<and>
     (\<exists>kind. as_file_kind mode = Ret kind \<and> fa_kind f = file_type_from kind) \<and>
     check_file_handle_read fh = (flags AND O_ACCMODE \<noteq> O_WRONLY) \<and>
     check_file_handle_write fh = (flags AND O_ACCMODE \<noteq> O_RDONLY) \<and>
     simple_lookup env req' p n s' = Ret (REntry f, s')"
proof -
  obtain rd wr a s1 where c: "create_access flags = Inr (rd, wr)" "make_node env req p pa n mode 1 s = Ret (a, s1)"
      "file_attr_from a = Ret f" "allocate_next_file_handle rd wr s1 = Ret (fh, s')"
    by (rule create_effect [OF assms(3,4)])
  obtain pa1 d kind where node: "pa1 = pa\<lparr>last_modified := clock env 0, last_metadata_changed := clock env 1\<rparr>"
      "inodes s (ia_inode a) = None" "inodes s1 = (inodes s)(p \<mapsto> pa1, ia_inode a \<mapsto> a)"
      "contents s1 p = Some (serialize_dir env (bt_insert n (ia_inode a, kind) d))"
      "ia_uid a = req_uid req" "ia_kind a = kind" "as_file_kind mode = Ret kind"
    by (rule make_node_effect [OF reachable_storage [OF assms(2,1)] assms(4) c(2)])
  note bits = handle_bits [OF c(4)]
  have f: "fa_ino f = ia_inode a" "fa_uid f = ia_uid a" "fa_kind f = file_type_from kind"
    using c(3) node(6) by (auto simp: file_attr_from_def elim!: bind_outcome_RetE split: if_splits)
  have "ia_inode a \<noteq> p" using node(2) assms(4) by auto
  then have "inodes s' p = Some pa1" "inodes s' (ia_inode a) = Some a" by (simp_all add: bits node(3))
  moreover have "get_directory_content env s' p = Ret (Inr (bt_insert n (ia_inode a, kind) d))"
    using assms(1) by (simp add: get_directory_content_def bits node(4) codec_def)
  ultimately have "simple_lookup env req' p n s' = Ret (REntry f, s')"
    using assms(5,6) c(3)
    by (simp add: simple_lookup_def get_inode_def node(1) lookup_name_def bt_get_insert entry_reply_def)
  with bits f node create_access_bits [OF c(1)] show ?thesis by simp
qed

lemmas example_eval = example_env_simps example_root_def example_attr_def example_user_def check_access_def
  get_directory_content_def get_inode_def write_inode_def create_contents_def dir_unwrap_def update_directory_def
  write_directory_content_def file_attr_from_def fs_system_time_from_time_def system_time_at_def in_i64_def
  nanos_per_sec_def BLOCK_SIZE_def

lemma or_reject_attr: "or_reject r s f = Ret (RAttr g, s') \<longleftrightarrow> (\<exists>y. r = Inr y \<and> f y = Ret (RAttr g, s'))"
  by (cases r) (auto simp: reject_def)

text \<open>
  When one \<open>setattr\<close> both truncates a file and sets its modification time, the contents are cut but
  the recorded and the reported size stay the old ones: the attributes read before the truncation are
  written back over the new ones.
\<close>

lemma simple_truncate_stale:
  assumes "codec env" and "simple_reachable env s" and "inodes s i = Some a" and "contents s i = Some b"
    and "simple_setattr env req i None None None (Some n) None (Some t) fh s = Ret (RAttr f, s')"
  shows "contents s' i = Some (file_set_len (unat n) b) \<and> fa_size f = ia_size a \<and>
     (\<exists>a'. inodes s' i = Some a' \<and> ia_size a' = ia_size a)"
proof -
  have i: "ia_inode a = i" using storage_invD(1) [OF reachable_storage [OF assms(2,1)] assms(3)] .
  obtain s1 where s1: "set_size env req i (Some n) fh s = Ret (Inr (), s1)"
    and "bind_outcome (set_time req (clock env 2) (Some t) (\<lambda>t a. a\<lparr>last_modified := t\<rparr>) a s1)
      (\<lambda>(r, s3). or_reject r s3 (\<lambda>a2. bind_outcome (unwrap (get_inode s3 i)) (\<lambda>a3. attr_reply a3 s3))) = Ret (RAttr f, s')"
    using assms(3,5)
    by (auto simp: simple_setattr_def get_inode_def [of s] set_time_def [where t = None] or_reject_attr elim!: bind_outcome_RetE)
  then obtain v where "s' = write_inode (a\<lparr>last_modified := v, last_metadata_changed := clock env 2\<rparr>) s1"
    and "file_attr_from (a\<lparr>last_modified := v, last_metadata_changed := clock env 2\<rparr>) = Ret f"
    by (auto simp: set_time_def or_reject_attr reject_def Let_def get_inode_def write_inode_def attr_reply_def i
        elim!: bind_outcome_RetE split: if_splits)
  moreover have "contents s1 i = Some (file_set_len (unat n) b)"
    using s1 assms(3,4)
    by (auto simp: set_size_def truncate_def get_inode_def Let_def write_inode_def elim!: bind_outcome_RetE
        split: option.splits if_splits sum.splits)
  ultimately show ?thesis
    by (auto simp: write_inode_def i file_attr_from_def elim!: bind_outcome_RetE split: if_splits)
qed

end
