(* ===== verification/Simple_Names.thy ===== *)
theory Simple_Names
  imports Simple_Props
begin

text \<open>
  The entries of directories under the calls of the file system of \<^verbatim>\<open>src/fuse/src/filesystem.rs\<close>: names
  appear, change and disappear only in directories that the user of the request may write.
\<close>

definition entry :: "environment \<Rightarrow> simple_fs \<Rightarrow> u64 \<Rightarrow> bytes \<Rightarrow> (u64 \<times> file_kind) option" where
  "entry env s i n =
     (case contents s i of
        None \<Rightarrow> None
      | Some b \<Rightarrow> (case deserialize_dir env b of None \<Rightarrow> None | Some d \<Rightarrow> bt_get d n))"

text \<open>
  A directory that the user may not write keeps its entries while it exists; the entry of the parent
  is apart, since moving a directory rewrites it.
\<close>

definition guarded :: "environment \<Rightarrow> request \<Rightarrow> simple_fs \<Rightarrow> simple_fs \<Rightarrow> bool" where
  "guarded env req s s' \<longleftrightarrow>
     (\<forall>i a n. inodes s i = Some a \<longrightarrow> ia_kind a = Directory \<longrightarrow> \<not> may_access a req W_OK \<longrightarrow>
        contents s' i \<noteq> None \<longrightarrow> n \<noteq> dotdot \<longrightarrow> entry env s' i n = entry env s i n)"

lemma guarded_refl: "guarded env req s s"
  by (simp add: guarded_def)

lemma guarded_contents: "contents s2 = contents s1 \<Longrightarrow> guarded env req s s1 \<Longrightarrow> guarded env req s s2"
  by (simp add: guarded_def entry_def)

lemma guarded_write: "guarded env req s s1 \<Longrightarrow> guarded env req s (write_inode a s1)"
  by (rule guarded_contents) (simp_all add: write_inode_def)

lemma guarded_create:
  assumes "guarded env req s s1" and "\<And>a. inodes s i = Some a \<Longrightarrow> ia_kind a \<noteq> Directory \<or> may_access a req W_OK"
  shows "guarded env req s (create_contents i b s1)"
  using assms by (auto simp: guarded_def entry_def create_contents_def)

lemma guarded_bind_update:
  assumes "guarded env req s s1" and "\<And>a. inodes s p = Some a \<Longrightarrow> may_access a req W_OK"
    and "\<And>s2. guarded env req s s2 \<Longrightarrow> on_ret (f s2) Q"
  shows "on_ret (bind_outcome (update_directory env p g s1) f) Q"
  using assms(3) guarded_create [OF assms(1), of p] assms(2)
  by (cases "dir_unwrap env s1 p") (simp_all add: update_directory_def write_directory_content_eq)

lemma guarded_bind_set_parent:
  assumes "codec env" and "guarded env req s s1" and "\<And>s2. guarded env req s s2 \<Longrightarrow> on_ret (f s2) Q"
  shows "on_ret (bind_outcome (set_parent env a p s1) f) Q"
proof (cases "dir_unwrap env s1 (ia_inode a)")
  case (Ret d)
  let ?s2 = "create_contents (ia_inode a) (serialize_dir env (bt_insert dotdot (p, Directory) d)) s1"
  obtain b where "contents s1 (ia_inode a) = Some b" "deserialize_dir env b = Some d"
    using Ret by (auto simp: dir_unwrap_def get_directory_content_def elim!: bind_outcome_RetE split: option.splits sum.splits)
  then have "entry env ?s2 i n = entry env s1 i n" if "n \<noteq> dotdot" for i n
    using that assms(1) by (simp add: entry_def create_contents_def codec_def bt_get_insert)
  moreover have "contents ?s2 i \<noteq> None \<Longrightarrow> contents s1 i \<noteq> None" for i
    using \<open>contents s1 (ia_inode a) = Some b\<close> by (auto simp: create_contents_def split: if_splits)
  ultimately have "guarded env req s ?s2" using assms(2) unfolding guarded_def by metis
  then show ?thesis using assms(2,3) Ret by (simp add: set_parent_def update_directory_def write_directory_content_eq)
qed (use assms(2,3) in \<open>simp_all add: set_parent_def update_directory_def\<close>)

lemma guarded_gc: "guarded env req s s1 \<Longrightarrow> on_ret (gc_inode a s1) (\<lambda>(b, s2). guarded env req s s2)"
  by (auto simp: gc_inode_def guarded_def entry_def)

lemma guarded_replies:
  "guarded env req s s1 \<Longrightarrow> on_ret (reject e s1) (\<lambda>(r, s'). guarded env req s s')"
  "guarded env req s s1 \<Longrightarrow> on_ret (entry_reply a s1) (\<lambda>(r, s'). guarded env req s s')"
  "guarded env req s s1 \<Longrightarrow> on_ret (attr_reply a s1) (\<lambda>(r, s'). guarded env req s s')"
  by (cases "file_attr_from a"; simp add: reject_def entry_reply_def attr_reply_def)+

lemma guarded_or_reject:
  "guarded env req s s1 \<Longrightarrow> (\<And>x. r = Inr x \<Longrightarrow> on_ret (f x) (\<lambda>(r, s'). guarded env req s s')) \<Longrightarrow>
     on_ret (or_reject r s1 f) (\<lambda>(r, s'). guarded env req s s')"
  by (cases r) (simp_all add: guarded_replies)

lemma guarded_alloc:
  assumes "storage_inv env s" and "superblock s1 = superblock s" and "guarded env req s s1"
  shows "on_ret (allocate_next_inode s1) (\<lambda>(i, s2). guarded env req s s2 \<and> inodes s i = None \<and> inodes s2 = inodes s1)"
proof -
  have "contents (snd x) = contents s1" if "allocate_next_inode s1 = Ret x" for x
    using that by (auto simp: allocate_next_inode_def Let_def split: if_splits)
  then show ?thesis
    using allocate_fresh [OF assms(1,2)] guarded_contents [OF _ assms(3)]
    by (cases "allocate_next_inode s1") (simp_all add: case_prod_beta)
qed

section \<open>Calls\<close>

lemma guarded_make_node:
  assumes "storage_inv env s" and "inodes s p = Some pa" and "may_access pa req W_OK"
  shows "on_ret (make_node env req p pa n mode handles s) (\<lambda>(a, s'). guarded env req s s')"
  unfolding make_node_def Let_def
  by (intro evolves_bind_pair [OF guarded_alloc [OF assms(1), where req = req]] evolves_bind
      guarded_bind_update [where req = req and s = s])
    (auto simp: write_directory_content_eq assms(2,3) intro!: guarded_create guarded_write guarded_refl)

lemma guarded_make:
  assumes "storage_inv env s"
  shows "on_ret (simple_mknod env req p n mode s) (\<lambda>(r, s'). guarded env req s s')"
    and "on_ret (simple_create env req p n mode flags s) (\<lambda>(r, s'). guarded env req s s')"
proof -
  have mk: "on_ret (bind_outcome (make_node env req p pa n mode handles s) (\<lambda>(a, s1). f a s1)) (\<lambda>(r, s'). guarded env req s s')"
    if "inodes s p = Some pa" "may_access pa req W_OK"
      "\<And>a s1. guarded env req s s1 \<Longrightarrow> on_ret (f a s1) (\<lambda>(r, s'). guarded env req s s')" for pa handles f
    by (rule evolves_bind_pair [OF guarded_make_node [OF assms that(1,2)]]) (rule that(3))
  show "on_ret (simple_mknod env req p n mode s) (\<lambda>(r, s'). guarded env req s s')"
    by (auto simp: simple_mknod_def Let_def get_inode_Inr guarded_refl split: sum.split
        intro!: evolves_bind [of "lookup_name env s p n"] guarded_replies guarded_or_reject mk)
  have "on_ret (bind_outcome (file_attr_from a) (\<lambda>f. bind_outcome (allocate_next_file_handle rd wr s1)
      (\<lambda>(fh, s2). Ret (RCreated f fh, s2)))) (\<lambda>(r, s'). guarded env req s s')" if "guarded env req s s1" for a rd wr s1
    using that by (auto simp: guarded_contents handle_bits(4) intro!: evolves_bind)
  then show "on_ret (simple_create env req p n mode flags s) (\<lambda>(r, s'). guarded env req s s')"
    by (auto simp: simple_create_def get_inode_Inr guarded_refl split: sum.split prod.split
        intro!: evolves_bind [of "lookup_name env s p n"] guarded_replies guarded_or_reject mk)
qed

lemma guarded_mkdir:
  assumes "storage_inv env s"
  shows "on_ret (simple_mkdir env req p n mode s) (\<lambda>(r, s'). guarded env req s s')"
  by (auto simp: simple_mkdir_def Let_def get_inode_Inr guarded_refl write_directory_content_eq split: sum.split
      intro!: evolves_bind [of "lookup_name env s p n"] guarded_or_reject
        evolves_bind_pair [OF guarded_alloc [OF assms, where req = req]] guarded_bind_update [where req = req and s = s]
        guarded_replies guarded_create guarded_write)

lemma entry_later: "entry (later k env) s i n = entry env s i n"
  by (simp add: entry_def later_def split: option.split)

lemma guarded_later [simp]: "guarded (later k env) req s s' = guarded env req s s'"
  by (simp add: guarded_def entry_later)

lemma guarded_insert_link:
  assumes "guarded env req s s1"
    and "\<And>a a1. inodes s p = Some a \<Longrightarrow> inodes s1 p = Some a1 \<Longrightarrow> may_access a1 req W_OK \<Longrightarrow> may_access a req W_OK"
  shows "on_ret (insert_link env req p n i k s1) (\<lambda>(r, s'). guarded env req s s')"
  using assms
  by (auto simp: insert_link_def Let_def get_inode_Inr split: sum.split
      intro!: evolves_bind [of "lookup_name env s1 p n"] guarded_bind_update [where req = req and s = s] guarded_write)

lemma guarded_symlink:
  assumes "storage_inv env s"
  shows "on_ret (simple_symlink env req p n l s) (\<lambda>(r, s'). guarded env req s s')"
proof -
  have link: "on_ret (bind_outcome (insert_link (later 5 env) req p n ino k s2) (\<lambda>(r, s3). or_reject r s3 (\<lambda>u.
      entry_reply a (create_contents ino l (write_inode a s3))))) (\<lambda>(r, s'). guarded env req s s')"
    if "guarded env req s s2" "inodes s ino = None" "\<And>a. inodes s p = Some a \<Longrightarrow> may_access a req W_OK" for ino k s2 a
    using guarded_insert_link [of "later 5 env" req s s2 p n ino k] that
    by (intro evolves_bind_pair [where P = "\<lambda>r. guarded env req s"])
      (auto intro!: guarded_or_reject guarded_replies guarded_create guarded_write)
  show ?thesis
    by (auto simp: simple_symlink_def Let_def get_inode_Inr guarded_refl
        intro!: guarded_or_reject guarded_replies evolves_bind_pair [OF guarded_alloc [OF assms, where req = req]] link guarded_write)
qed

lemma guarded_link:
  "on_ret (simple_link env req i p n s) (\<lambda>(r, s'). guarded env req s s')"
  by (auto simp: simple_link_def Let_def get_inode_Inr guarded_refl
      intro!: guarded_or_reject guarded_replies evolves_bind_pair [OF guarded_insert_link [OF guarded_refl]] guarded_write)

lemma guarded_remove:
  "on_ret (simple_unlink env req p n s) (\<lambda>(r, s'). guarded env req s s')"
  "on_ret (simple_rmdir env req p n s) (\<lambda>(r, s'). guarded env req s s')"
  by (auto simp: simple_unlink_def simple_rmdir_def Let_def get_inode_Inr guarded_refl
      intro!: evolves_bind [of "lookup_name env s p n"] evolves_bind [of "dir_unwrap env s _"] guarded_or_reject guarded_replies
        evolves_bind_pair [OF guarded_gc [where env = env and req = req and s = s]]
        guarded_bind_update [where req = req and s = s] guarded_write)

lemma guarded_rename_replace:
  assumes "\<And>a. inodes s np = Some a \<Longrightarrow> may_access a req W_OK"
  shows "on_ret (rename_replace env np nn s) (\<lambda>s1. guarded env req s s1)"
  using assms
  by (auto simp: rename_replace_def Let_def guarded_refl split: sum.split
      intro!: evolves_bind [of "lookup_name env s np nn"] guarded_bind_update [where req = req and s = s]
        evolves_bind_pair [OF guarded_gc] guarded_write)

lemma guarded_rename:
  assumes "codec env"
  shows "on_ret (simple_rename env req p n np nn flags s) (\<lambda>(r, s'). guarded env req s s')"
proof -
  have "on_ret (rename_exchange env p pa n a np npa nn b s) (\<lambda>(r, s'). guarded env req s s')"
    if "\<And>a. inodes s p = Some a \<Longrightarrow> may_access a req W_OK" "\<And>a. inodes s np = Some a \<Longrightarrow> may_access a req W_OK"
    for pa npa a b
    unfolding rename_exchange_def Let_def
    by (intro guarded_bind_update [where req = req and s = s] guarded_bind_set_parent [OF assms, where req = req and s = s]
        guarded_write guarded_refl that; simp)
  moreover have "on_ret (rename_move env p pa n a np npa nn s) (\<lambda>(r, s'). guarded env req s s')"
    if "\<And>a. inodes s p = Some a \<Longrightarrow> may_access a req W_OK" "\<And>a. inodes s np = Some a \<Longrightarrow> may_access a req W_OK"
    for pa npa a
  proof -
    have "on_ret (rename_replace env np nn s) (\<lambda>s1. guarded env req s s1)"
      using guarded_rename_replace that(2) by blast
    then show ?thesis
      unfolding rename_move_def Let_def on_ret_bind [of "rename_replace env np nn s"]
      by (rule on_ret_mono)
        (intro guarded_bind_update [where req = req and s = s] guarded_bind_set_parent [OF assms, where req = req and s = s]
          guarded_write that; simp)
  qed
  ultimately show ?thesis
    by (auto simp: simple_rename_def get_inode_Inr guarded_refl
        intro!: evolves_bind [of "lookup_name env s _ _"] evolves_bind [of "sticky_target env req np _ nn s"]
          evolves_bind [of "full_target env np nn s"] guarded_or_reject guarded_replies)
qed

text \<open>The calls that write data write to a file.\<close>

lemma guarded_data:
  assumes "\<not> is_dir s i"
  shows "on_ret (simple_write env i fh off d s) (\<lambda>(r, s'). guarded env req s s')"
    and "on_ret (simple_copy_file_range env si sfh soff i dfh doff sz s) (\<lambda>(r, s'). guarded env req s s')"
    and "on_ret (simple_fallocate env i off len mode s) (\<lambda>(r, s'). guarded env req s s')"
proof -
  have c: "guarded env req s (create_contents i b s)" for b
    using assms by (intro guarded_create guarded_refl) (auto simp: kind_of_def)
  show "on_ret (simple_write env i fh off d s) (\<lambda>(r, s'). guarded env req s s')"
    and "on_ret (simple_copy_file_range env si sfh soff i dfh doff sz s) (\<lambda>(r, s'). guarded env req s s')"
    and "on_ret (simple_fallocate env i off len mode s) (\<lambda>(r, s'). guarded env req s s')"
    by (auto simp: simple_write_def simple_copy_file_range_def simple_fallocate_def Let_def guarded_refl c split: option.split
        intro!: evolves_bind guarded_replies guarded_write)
qed

lemma guarded_setattr:
  assumes "sz \<noteq> None \<Longrightarrow> \<not> is_dir s i"
  shows "on_ret (simple_setattr env req i mode uid gid sz at mt fh s) (\<lambda>(r, s'). guarded env req s s')"
proof -
  have t: "on_ret (truncate env i n u g s) (\<lambda>(r, s'). guarded env req s s')" if "sz = Some n" for n u g
  proof -
    have "guarded env req s (create_contents i b s)" for b
      using assms that by (intro guarded_create guarded_refl) (auto simp: kind_of_def)
    then show ?thesis
      by (auto simp: truncate_def get_inode_def Let_def guarded_refl create_contents_def [symmetric] split: option.split
          intro!: guarded_write)
  qed
  have "on_ret (set_size env req i sz fh s) (\<lambda>(r, s'). guarded env req s s')"
    by (cases sz) (auto simp: set_size_def guarded_refl intro!: evolves_bind_pair [OF t] split: option.split)
  moreover have st: "on_ret (set_time req now t upd a s1) (\<lambda>(r, s'). guarded env req s s')" if "guarded env req s s1" for now t upd a s1
    using that by (auto simp: set_time_def Let_def split: option.split intro!: evolves_bind guarded_write)
  moreover have "on_ret (set_mode env req a m s) (\<lambda>(r, s'). guarded env req s s')"
      "on_ret (set_owner env req a u g s) (\<lambda>(r, s'). guarded env req s s')" for a m u g
    by (auto simp: set_mode_def set_owner_def Let_def guarded_refl intro!: evolves_bind guarded_replies guarded_write)
  ultimately show ?thesis
    by (auto simp: simple_setattr_def guarded_refl split: option.split
        intro!: guarded_or_reject guarded_replies evolves_bind_pair [where P = "\<lambda>r. guarded env req s"]
          evolves_bind [of "unwrap _"] st)
qed

lemma guarded_open: "on_ret (open_node req0 i (m, rd, wr) s) (\<lambda>(r, s'). guarded env req s s')"
proof -
  have "contents (snd x) = contents s" if "open_node req0 i (m, rd, wr) s = Ret x" for x
    using that
    by (auto simp: open_node_def get_inode_def reject_def Let_def write_inode_def elim!: bind_outcome_RetE
        dest!: handle_bits(4) split: option.split_asm if_split_asm)
  then show ?thesis
    using guarded_contents [OF _ guarded_refl, of _ s] by (cases "open_node req0 i (m, rd, wr) s") (auto simp: case_prod_beta)
qed

lemma guarded_handle:
  assumes "codec env" and "storage_inv env s" and "legal env req c s"
  shows "on_ret (simple_handle env req c s) (\<lambda>(r, s'). guarded env req s s')"
proof (cases c)
  case (SfSetattr i mode uid gid sz at mt fh)
  with assms(3) guarded_setattr [of sz s i] show ?thesis by simp
qed (use assms in \<open>auto simp: simple_getattr_def simple_readlink_def simple_read_def simple_lookup_def
      simple_release_def simple_releasedir_def simple_statfs_def simple_access_def simple_getxattr_def simple_listxattr_def
      simple_setxattr_def simple_removexattr_def sized_reply_def simple_readdir_def get_inode_def Let_def guarded_refl
      simple_open_def simple_opendir_def guarded_open guarded_make guarded_mkdir guarded_remove guarded_symlink guarded_rename guarded_link guarded_data
      split: option.split sum.split intro!: evolves_bind guarded_or_reject guarded_replies guarded_write\<close>)


text \<open>Root makes a directory with mode 0755, in which a user then tries to make another one.\<close>

definition example_super :: request where
  "example_super = \<lparr>req_uid = 0, req_gid = 0, req_pid = 1\<rparr>"


end
