(* ===== verification/Kv_Store.thy ===== *)
theory Kv_Store
  imports Prelude
begin

text \<open>
  The key-value store over files (\<^verbatim>\<open>src/common/src/kv_store/\<close>), the HTTP/2 service that offers it
  (\<^verbatim>\<open>src/common/src/h2/h2_service.rs\<close>), and the service of the worker. Files are used through a record of operations, with the state of the
  host as their own; the hash of a key is an argument, since its algorithm is not specified. What sending a
  response or data gives is an argument as well. The service of the worker
  (\<^verbatim>\<open>src/worker/src/h2_service.rs\<close>) is a sketch without a store: it prints what it receives and sends
  one fixed file. Keys and paths are strings.
\<close>

section \<open>Keys and paths\<close>

record kv_options =
  root_path :: string
  num_bucket :: u16
  chuck_size :: u32

definition short_hash :: "(string \<Rightarrow> u64) \<Rightarrow> string \<Rightarrow> u16" where
  "short_hash hash key = ucast (hash key)"

definition filename :: "string \<Rightarrow> string" where
  "filename key = key"

definition digit_char :: "nat \<Rightarrow> char" where
  "digit_char n = ''0123456789'' ! n"

fun show_nat :: "nat \<Rightarrow> string" where
  "show_nat n = (if n < 10 then [digit_char n] else show_nat (n div 10) @ [digit_char (n mod 10)])"

declare show_nat.simps [simp del]

definition data_path :: "(string \<Rightarrow> u64) \<Rightarrow> kv_options \<Rightarrow> string \<Rightarrow> string outcome" where
  "data_path hash options key =
     (if num_bucket options = 0 then Panic ''attempt to calculate the remainder with a divisor of zero''
      else Ret (root_path options @ ''/'' @ show_nat (unat (short_hash hash key mod num_bucket options)) @ ''/'' @ filename key))"

text \<open>
  The parent of a path, on the reversed string: trailing separators and components \<^verbatim>\<open>.\<close> do not count.
\<close>

fun strip_rev :: "string \<Rightarrow> string" where
  "strip_rev (c # cs) =
     (if c = CHR ''/'' then strip_rev cs
      else (case cs of
              [] \<Rightarrow> [c]
            | d # ds \<Rightarrow> if c = CHR ''.'' \<and> d = CHR ''/'' then strip_rev ds else c # cs))"
| "strip_rev [] = []"

definition parent :: "string \<Rightarrow> string option" where
  "parent path =
     (let r = strip_rev (rev path); rest = dropWhile (\<lambda>c. c \<noteq> CHR ''/'') r; q = strip_rev rest in
      if r = [] then None
      else Some (if q = [] \<and> rest \<noteq> [] then ''/'' else rev q))"

section \<open>The store\<close>

datatype io_error = NotFound | Other nat

type_synonym ('h, 'a) io = "'h \<Rightarrow> (io_error + 'a) \<times> 'h"

record ('h, 'f) file_io =
  io_create :: "string \<Rightarrow> ('h, 'f) io"
  io_create_dir_all :: "string \<Rightarrow> ('h, unit) io"
  io_write_all_at :: "'f \<Rightarrow> bytes \<Rightarrow> nat \<Rightarrow> ('h, unit) io"
  io_open :: "string \<Rightarrow> ('h, 'f) io"
  io_metadata_len :: "string \<Rightarrow> ('h, nat) io"
  io_read_exact_at :: "'f \<Rightarrow> bytes \<Rightarrow> nat \<Rightarrow> 'h \<Rightarrow> ((io_error + unit) \<times> bytes) \<times> 'h"
  io_close :: "'f \<Rightarrow> ('h, unit) io"

text \<open>
  Reading gives back the buffer whether it succeeds or not. The operator \<open>?\<close>, and what the caller does with
  the result of a read:
\<close>

definition io_bind :: "('h, 'a) io \<Rightarrow> ('a \<Rightarrow> ('h, 'b) io) \<Rightarrow> ('h, 'b) io" where
  "io_bind m f h = (case m h of (Inl e, h1) \<Rightarrow> (Inl e, h1) | (Inr x, h1) \<Rightarrow> f x h1)"

definition io_return :: "'a \<Rightarrow> ('h, 'a) io" where
  "io_return x h = (Inr x, h)"

definition io_result :: "('h \<Rightarrow> ((io_error + unit) \<times> bytes) \<times> 'h) \<Rightarrow> ('h, bytes) io" where
  "io_result m h = (case m h of ((Inl e, buf), h1) \<Rightarrow> (Inl e, h1) | ((Inr _, buf), h1) \<Rightarrow> (Inr buf, h1))"

definition write_and_close :: "('h, 'f) file_io \<Rightarrow> bytes \<Rightarrow> 'f \<Rightarrow> ('h, unit) io" where
  "write_and_close io buf f = io_bind (io_write_all_at io f buf 0) (\<lambda>_. io_close io f)"

definition kv_put ::
    "('h, 'f) file_io \<Rightarrow> (string \<Rightarrow> u64) \<Rightarrow> kv_options \<Rightarrow> string \<Rightarrow> bytes \<Rightarrow> 'h \<Rightarrow> ((io_error + unit) \<times> 'h) outcome" where
  "kv_put io hash options key buf h =
     bind_outcome (data_path hash options key) (\<lambda>path.
       case io_create io path h of
         (Inr f, h1) \<Rightarrow> Ret (write_and_close io buf f h1)
       | (Inl NotFound, h1) \<Rightarrow>
           (case parent path of
              None \<Rightarrow> Panic ''called unwrap on a None value''
            | Some prefix \<Rightarrow>
                Ret (io_bind (io_create_dir_all io prefix) (\<lambda>_. io_bind (io_create io path) (write_and_close io buf)) h1))
       | (Inl (Other e), h1) \<Rightarrow> Ret (Inl (Other e), h1))"

definition kv_get ::
    "('h, 'f) file_io \<Rightarrow> (string \<Rightarrow> u64) \<Rightarrow> kv_options \<Rightarrow> string \<Rightarrow> 'h \<Rightarrow> ((io_error + bytes) \<times> 'h) outcome" where
  "kv_get io hash options key h =
     bind_outcome (data_path hash options key) (\<lambda>path.
       Ret (io_bind (io_open io path) (\<lambda>f.
            io_bind (io_metadata_len io path) (\<lambda>file_size.
            io_bind (io_result (io_read_exact_at io f (replicate file_size 0) 0)) (\<lambda>buf.
            io_bind (io_close io f) (\<lambda>_. io_return buf)))) h))"

section \<open>The service\<close>

fun split_at_slash :: "string \<Rightarrow> string list" where
  "split_at_slash [] = [[]]"
| "split_at_slash (c # cs) =
     (if c = CHR ''/'' then [] # split_at_slash cs
      else (case split_at_slash cs of [] \<Rightarrow> [[c]] | s # ss \<Rightarrow> (c # s) # ss))"

definition parse_uri :: "string \<Rightarrow> string \<times> string" where
  "parse_uri uri =
     (case split_at_slash uri of
        [a, op, key] \<Rightarrow>
          if a = [] \<and> op = ''get'' then (''get'', key)
          else if a = [] \<and> op = ''put'' then (''put'', key)
          else (''none'', ''n/a'')
      | _ \<Rightarrow> (''none'', ''n/a''))"

datatype h2_frame = Headers | DataFrame bytes bool

record h2_request =
  uri :: string
  body :: "(nat + bytes) list"

text \<open>What the connection answers to sending the head and the data of a response.\<close>

record h2_send =
  send_response :: "nat + unit"
  send_data :: "nat + unit"

type_synonym 'h served = "((nat + unit) \<times> h2_frame list \<times> 'h) outcome"

definition respond_with :: "h2_send \<Rightarrow> bytes \<Rightarrow> 'h \<Rightarrow> 'h served" where
  "respond_with conn d h =
     (case send_data conn of
        Inl e \<Rightarrow> Ret (Inl e, [Headers], h)
      | Inr _ \<Rightarrow> Ret (Inr (), [Headers, DataFrame d True], h))"

definition world :: bytes where
  "world = map (\<lambda>c. of_char c) (''world'' @ [char_of (10 :: nat)])"

definition put_object ::
    "('h, 'f) file_io \<Rightarrow> (string \<Rightarrow> u64) \<Rightarrow> kv_options \<Rightarrow> h2_send \<Rightarrow> string \<Rightarrow> h2_request \<Rightarrow> 'h \<Rightarrow> 'h served" where
  "put_object io hash options conn key request h =
     bind_outcome
       (case body request of
          [] \<Rightarrow> Ret h
        | Inl e # _ \<Rightarrow> Panic ''called unwrap on an Err value''
        | Inr chunk # _ \<Rightarrow>
            bind_outcome (kv_put io hash options key chunk h) (\<lambda>(r, h1).
              case r of Inl e \<Rightarrow> Panic ''TODO: panic message'' | Inr _ \<Rightarrow> Ret h1))
       (\<lambda>h1. case send_response conn of
          Inl e \<Rightarrow> Ret (Inl e, [], h1)
        | Inr _ \<Rightarrow> respond_with conn world h1)"

definition get_object ::
    "('h, 'f) file_io \<Rightarrow> (string \<Rightarrow> u64) \<Rightarrow> kv_options \<Rightarrow> h2_send \<Rightarrow> string \<Rightarrow> 'h \<Rightarrow> 'h served" where
  "get_object io hash options conn key h =
     (case send_response conn of
        Inl e \<Rightarrow> Ret (Inl e, [], h)
      | Inr _ \<Rightarrow>
          bind_outcome (kv_get io hash options key h) (\<lambda>(r, h1).
            case r of
              Inl e \<Rightarrow> Panic ''read data failed from local''
            | Inr buf \<Rightarrow> respond_with conn buf h1))"

definition handle_request ::
    "('h, 'f) file_io \<Rightarrow> (string \<Rightarrow> u64) \<Rightarrow> kv_options \<Rightarrow> h2_send \<Rightarrow> h2_request \<Rightarrow> 'h \<Rightarrow> 'h served" where
  "handle_request io hash options conn request h =
     (case parse_uri (uri request) of
        (op, key) \<Rightarrow>
          if op = ''get'' then get_object io hash options conn key h
          else if op = ''put'' then put_object io hash options conn key request h
          else Ret (Inr (), [], h))"

section \<open>The worker\<close>

text \<open>
  Every chunk is read at offset \<open>0\<close>, and its buffer is sent whether reading succeeded or not. \<open>send pos\<close> is
  what sending the chunk that ends at \<open>pos\<close> gives.
\<close>

definition chunk_size :: nat where
  "chunk_size = 128"

function send_chunks ::
    "('h, 'f) file_io \<Rightarrow> (nat \<Rightarrow> nat + unit) \<Rightarrow> 'f \<Rightarrow> nat \<Rightarrow> nat \<Rightarrow> 'h \<Rightarrow> (nat + unit) \<times> h2_frame list \<times> 'h" where
  "send_chunks io send f file_size pos h =
     (if pos < file_size then
        let read_length = (if file_size - pos < chunk_size then file_size - pos else chunk_size);
            ((_, buffer), h1) = io_read_exact_at io f (replicate read_length 0) 0 h;
            pos1 = pos + read_length in
        case send pos1 of
          Inl e \<Rightarrow> (Inl e, [], h1)
        | Inr _ \<Rightarrow>
            (case send_chunks io send f file_size pos1 h1 of
               (r, frames, h2) \<Rightarrow> (r, DataFrame buffer (pos1 = file_size) # frames, h2))
      else (Inr (), [], h))"
  by auto
termination
  by (relation "measure (\<lambda>(io, send, f, file_size, pos, h). file_size - pos)") (auto simp: chunk_size_def Let_def)

declare send_chunks.simps [simp del]

type_synonym 'h worked = "((io_error + nat) + unit) \<times> h2_frame list \<times> 'h"

definition readme :: string where
  "readme = ''README.md''"

definition worker_get_object :: "('h, 'f) file_io \<Rightarrow> h2_send \<Rightarrow> (nat \<Rightarrow> nat + unit) \<Rightarrow> string \<Rightarrow> 'h \<Rightarrow> 'h worked" where
  "worker_get_object io conn send key h =
     (case send_response conn of
        Inl e \<Rightarrow> (Inl (Inr e), [], h)
      | Inr _ \<Rightarrow>
          (case io_metadata_len io readme h of
             (Inl e, h1) \<Rightarrow> (Inl (Inl e), [Headers], h1)
           | (Inr file_size, h1) \<Rightarrow>
               (case io_open io readme h1 of
                  (Inl e, h2) \<Rightarrow> (Inl (Inl e), [Headers], h2)
                | (Inr f, h2) \<Rightarrow>
                    (case send_chunks io send f file_size 0 h2 of
                       (Inl e, frames, h3) \<Rightarrow> (Inl (Inr e), Headers # frames, h3)
                     | (Inr _, frames, h3) \<Rightarrow>
                         (case io_close io f h3 of
                            (Inl e, h4) \<Rightarrow> (Inl (Inl e), Headers # frames, h4)
                          | (Inr _, h4) \<Rightarrow> (Inr (), Headers # frames, h4))))))"

text \<open>A put prints the chunks it receives and stores nothing.\<close>

definition worker_put_object :: "h2_send \<Rightarrow> h2_request \<Rightarrow> 'h \<Rightarrow> 'h worked outcome" where
  "worker_put_object conn request h =
     (if list_ex isl (body request) then Panic ''called unwrap on an Err value''
      else case send_response conn of
        Inl e \<Rightarrow> Ret (Inl (Inr e), [], h)
      | Inr _ \<Rightarrow>
          (case send_data conn of
             Inl e \<Rightarrow> Ret (Inl (Inr e), [Headers], h)
           | Inr _ \<Rightarrow> Ret (Inr (), [Headers, DataFrame world True], h)))"

definition worker_handle_request ::
    "('h, 'f) file_io \<Rightarrow> h2_send \<Rightarrow> (nat \<Rightarrow> nat + unit) \<Rightarrow> h2_request \<Rightarrow> 'h \<Rightarrow> 'h worked outcome" where
  "worker_handle_request io conn send request h =
     (case parse_uri (uri request) of
        (op, key) \<Rightarrow>
          if op = ''get'' then Ret (worker_get_object io conn send key h)
          else if op = ''put'' then worker_put_object conn request h
          else Ret (Inr (), [], h))"

fun frame_data :: "h2_frame \<Rightarrow> bytes" where
  "frame_data Headers = []"
| "frame_data (DataFrame d e) = d"

section \<open>Paths of keys\<close>

lemma split_at_slash_no_slash: "s \<in> set (split_at_slash cs) \<Longrightarrow> CHR ''/'' \<notin> set s"
proof (induction cs arbitrary: s)
  case (Cons c cs)
  then show ?case by (cases "split_at_slash cs") (auto split: if_splits)
qed simp

lemma parse_uri_key: "CHR ''/'' \<notin> set (snd (parse_uri u)) \<or> fst (parse_uri u) = ''none''"
proof (cases "\<exists>a op key. split_at_slash u = [a, op, key]")
  case True
  then obtain a op key where split: "split_at_slash u = [a, op, key]" by blast
  then have "CHR ''/'' \<notin> set key" using split_at_slash_no_slash [of key u] by simp
  then show ?thesis unfolding parse_uri_def split by simp
next
  case False
  then have "parse_uri u = (''none'', ''n/a'')" by (auto simp: parse_uri_def split: list.split)
  then show ?thesis by simp
qed

lemma last_component: "CHR ''/'' \<notin> set key \<Longrightarrow> takeWhile (\<lambda>c. c \<noteq> CHR ''/'') (rev (xs @ ''/'' @ key)) = rev key"
proof -
  assume "CHR ''/'' \<notin> set key"
  then have "takeWhile (\<lambda>c. c \<noteq> CHR ''/'') (rev key @ CHR ''/'' # rev xs) = rev key @ takeWhile (\<lambda>c. c \<noteq> CHR ''/'') (CHR ''/'' # rev xs)"
    by (intro takeWhile_append2) auto
  then show ?thesis by simp
qed

lemma data_path_inj:
  assumes "data_path hash options a = Ret p" and "data_path hash options b = Ret p"
    and "CHR ''/'' \<notin> set a" and "CHR ''/'' \<notin> set b"
  shows "a = b"
proof -
  have "rev k = takeWhile (\<lambda>c. c \<noteq> CHR ''/'') (rev p)" if "data_path hash options k = Ret p" "CHR ''/'' \<notin> set k" for k
  proof -
    have "p = (root_path options @ ''/'' @ show_nat (unat (short_hash hash k mod num_bucket options))) @ ''/'' @ k"
      using that(1) by (simp add: data_path_def filename_def split: if_splits)
    then obtain xs where "p = xs @ ''/'' @ k" by blast
    with last_component [OF that(2), of xs] show ?thesis by simp
  qed
  from this [OF assms(1,3)] this [OF assms(2,4)] show ?thesis by (metis rev_rev_ident)
qed

section \<open>The store as a map\<close>

text \<open>
  What the store relies on of the host's files, with the contents of the files and the paths of open files
  read off its state. Creating empties a file; writing at the start replaces the beginning; other files of
  the store are left alone; and files that exist can be opened, measured, read and closed.
\<close>

definition store_paths :: "(string \<Rightarrow> u64) \<Rightarrow> kv_options \<Rightarrow> string set" where
  "store_paths hash options = {p. \<exists>key. CHR ''/'' \<notin> set key \<and> data_path hash options key = Ret p}"

definition unchanged :: "string set \<Rightarrow> ('h \<Rightarrow> string \<Rightarrow> bytes option) \<Rightarrow> 'h \<Rightarrow> 'h \<Rightarrow> bool" where
  "unchanged P content h h1 \<longleftrightarrow> (\<forall>q \<in> P. content h1 q = content h q)"

definition creates :: "('h, 'f) file_io \<Rightarrow> string set \<Rightarrow> ('h \<Rightarrow> string \<Rightarrow> bytes option) \<Rightarrow> ('h \<Rightarrow> 'f \<Rightarrow> string option) \<Rightarrow> bool" where
  "creates io P content handle \<longleftrightarrow>
     (\<forall>p h. (\<forall>f h1. p \<in> P \<and> io_create io p h = (Inr f, h1) \<longrightarrow>
          content h1 p = Some [] \<and> handle h1 f = Some p \<and> unchanged (P - {p}) content h h1) \<and>
        (\<forall>e h1. io_create io p h = (Inl e, h1) \<longrightarrow> unchanged P content h h1)) \<and>
     (\<forall>d h r h1. io_create_dir_all io d h = (r, h1) \<longrightarrow> unchanged P content h h1)"

definition writes :: "('h, 'f) file_io \<Rightarrow> string set \<Rightarrow> ('h \<Rightarrow> string \<Rightarrow> bytes option) \<Rightarrow> ('h \<Rightarrow> 'f \<Rightarrow> string option) \<Rightarrow> bool" where
  "writes io P content handle \<longleftrightarrow>
     (\<forall>f p c buf h h1. handle h f = Some p \<and> content h p = Some c \<and> io_write_all_at io f buf 0 h = (Inr (), h1) \<longrightarrow>
        content h1 p = Some (buf @ drop (length buf) c) \<and> unchanged (P - {p}) content h h1) \<and>
     (\<forall>f h r h1. io_close io f h = (r, h1) \<longrightarrow> unchanged P content h h1)"

definition reads :: "('h, 'f) file_io \<Rightarrow> string set \<Rightarrow> ('h \<Rightarrow> string \<Rightarrow> bytes option) \<Rightarrow> ('h \<Rightarrow> 'f \<Rightarrow> string option) \<Rightarrow> bool" where
  "reads io P content handle \<longleftrightarrow>
     (\<forall>p c h. p \<in> P \<and> content h p = Some c \<longrightarrow>
        (\<exists>f h1. io_open io p h = (Inr f, h1) \<and> handle h1 f = Some p \<and> unchanged P content h h1) \<and>
        (\<exists>h1. io_metadata_len io p h = (Inr (length c), h1) \<and> handle h1 = handle h \<and> unchanged P content h h1)) \<and>
     (\<forall>f p c buf h. handle h f = Some p \<and> content h p = Some c \<and> length buf \<le> length c \<longrightarrow>
        (\<exists>h1. io_read_exact_at io f buf 0 h = ((Inr (), take (length buf) c), h1) \<and> handle h1 = handle h \<and> unchanged P content h h1)) \<and>
     (\<forall>f h. handle h f \<noteq> None \<longrightarrow> (\<exists>h1. io_close io f h = (Inr (), h1) \<and> unchanged P content h h1))"

definition file_laws :: "('h, 'f) file_io \<Rightarrow> string set \<Rightarrow> ('h \<Rightarrow> string \<Rightarrow> bytes option) \<Rightarrow> ('h \<Rightarrow> 'f \<Rightarrow> string option) \<Rightarrow> bool" where
  "file_laws io P content handle \<longleftrightarrow> creates io P content handle \<and> writes io P content handle \<and> reads io P content handle"

text \<open>The map that is stored.\<close>

definition stored :: "(string \<Rightarrow> u64) \<Rightarrow> kv_options \<Rightarrow> ('h \<Rightarrow> string \<Rightarrow> bytes option) \<Rightarrow> 'h \<Rightarrow> string \<Rightarrow> bytes option" where
  "stored hash options content h key = (case data_path hash options key of Ret p \<Rightarrow> content h p | _ \<Rightarrow> None)"

lemma io_bind_Inr: "io_bind m f h = (Inr y, h2) \<longleftrightarrow> (\<exists>x h1. m h = (Inr x, h1) \<and> f x h1 = (Inr y, h2))"
  by (auto simp: io_bind_def split: prod.split sum.split)

lemma write_and_close_stores:
  assumes "writes io P content handle" and "handle h f = Some p" and "content h p = Some []" and "p \<in> P"
    and "write_and_close io buf f h = (Inr (), h2)"
  shows "content h2 p = Some buf \<and> unchanged (P - {p}) content h h2"
proof -
  obtain h1 where h1: "io_write_all_at io f buf 0 h = (Inr (), h1)" "io_close io f h1 = (Inr (), h2)"
    using assms(5) by (auto simp: write_and_close_def io_bind_Inr)
  have "content h1 p = Some (buf @ drop (length buf) [])" "unchanged (P - {p}) content h h1"
    using assms(1-3) h1(1) unfolding writes_def by blast+
  moreover have "unchanged P content h1 h2" using assms(1) h1(2) unfolding writes_def by blast
  ultimately show ?thesis using assms(4) by (simp add: unchanged_def)
qed

lemma kv_put_stores:
  assumes laws: "file_laws io P content handle" and path: "data_path hash options key = Ret p" "p \<in> P"
    and put: "kv_put io hash options key buf h = Ret (Inr (), h2)"
  shows "content h2 p = Some buf \<and> unchanged (P - {p}) content h h2"
proof -
  have cr: "creates io P content handle" and wr: "writes io P content handle" using laws by (simp_all add: file_laws_def)
  have direct: "content h2 p = Some buf \<and> unchanged (P - {p}) content h0 h2"
    if "io_create io p h0 = (Inr f, h1)" "write_and_close io buf f h1 = (Inr (), h2)" for f h0 h1
  proof -
    have "content h1 p = Some []" "handle h1 f = Some p" "unchanged (P - {p}) content h0 h1"
      using cr that(1) path(2) unfolding creates_def by blast+
    with write_and_close_stores [OF wr _ _ path(2) that(2)] show ?thesis by (simp add: unchanged_def)
  qed
  show ?thesis
  proof (cases "io_create io p h")
    case (Pair r h1)
    show ?thesis
    proof (cases r)
      case (Inr f)
      with put path Pair direct show ?thesis by (simp add: kv_put_def)
    next
      case (Inl e)
      with put path Pair obtain prefix h3 f h4 where
        "io_create_dir_all io prefix h1 = (Inr (), h3)" "io_create io p h3 = (Inr f, h4)" "write_and_close io buf f h4 = (Inr (), h2)"
        by (cases e) (auto simp: kv_put_def io_bind_Inr split: option.splits)
      moreover have "unchanged P content h h1" using cr Pair Inl unfolding creates_def by blast
      moreover have "unchanged P content h1 h3" using cr calculation(1) unfolding creates_def by blast
      ultimately show ?thesis using direct by (simp add: unchanged_def)
    qed
  qed
qed

lemma reads_buffer:
  assumes "reads io P content handle" and "handle h f = Some p" and "content h p = Some c" and "length buf \<le> length c"
  shows "\<exists>h1. io_read_exact_at io f buf 0 h = ((Inr (), take (length buf) c), h1) \<and> handle h1 = handle h \<and> unchanged P content h h1"
  using assms unfolding reads_def by blast

lemma kv_get_reads:
  assumes laws: "file_laws io P content handle" and path: "data_path hash options key = Ret p" "p \<in> P"
    and "content h p = Some c"
  shows "\<exists>h1. kv_get io hash options key h = Ret (Inr c, h1) \<and> unchanged P content h h1"
proof -
  have rd: "reads io P content handle" using laws by (simp add: file_laws_def)
  obtain f h1 where h1: "io_open io p h = (Inr f, h1)" "handle h1 f = Some p" "unchanged P content h h1"
    using rd path(2) assms(4) unfolding reads_def by blast
  then have "content h1 p = Some c" using path(2) assms(4) by (simp add: unchanged_def)
  then obtain h2 where h2: "io_metadata_len io p h1 = (Inr (length c), h2)" "handle h2 = handle h1" "unchanged P content h1 h2"
    using rd path(2) unfolding reads_def by blast
  then have "content h2 p = Some c" "handle h2 f = Some p"
    using path(2) h1(2) \<open>content h1 p = Some c\<close> by (simp_all add: unchanged_def)
  then obtain h3 where h3: "io_read_exact_at io f (replicate (length c) 0) 0 h2 = ((Inr (), take (length (replicate (length c) (0 :: u8))) c), h3)"
      "handle h3 = handle h2" "unchanged P content h2 h3"
    using reads_buffer [OF rd, of h2 f p c "replicate (length c) 0"] by auto
  then have "handle h3 f \<noteq> None" using h2(2) h1(2) by simp
  then obtain h4 where h4: "io_close io f h3 = (Inr (), h4)" "unchanged P content h3 h4"
    using rd unfolding reads_def by blast
  have "kv_get io hash options key h = Ret (Inr c, h4)"
    using path(1) h1(1) h2(1) h3(1) h4(1) by (simp add: kv_get_def io_bind_def io_return_def io_result_def)
  then show ?thesis using h1(3) h2(3) h3(3) h4(2) by (auto simp: unchanged_def)
qed

lemma in_store_paths: "data_path hash options key = Ret p \<Longrightarrow> CHR ''/'' \<notin> set key \<Longrightarrow> p \<in> store_paths hash options"
  by (auto simp: store_paths_def)

section \<open>The loop of the worker\<close>

text \<open>The chunks of the rest of a file.\<close>

lemma send_chunks_data:
  assumes "reads io P content handle" and "\<forall>k. send k = Inr ()" and "p \<in> P"
    and "handle h f = Some p" and "content h p = Some c" and "pos \<le> length c"
  shows "\<exists>frames h1. send_chunks io send f (length c) pos h = (Inr (), frames, h1) \<and> handle h1 = handle h \<and> unchanged P content h h1 \<and>
    concat (map frame_data frames) =
      concat (replicate ((length c - pos) div chunk_size) (take chunk_size c)) @ take ((length c - pos) mod chunk_size) c"
  using assms(4-6)
proof (induction "length c - pos" arbitrary: pos h rule: less_induct)
  case less
  let ?n = "if length c - pos < chunk_size then length c - pos else chunk_size"
  have chunk: "0 < chunk_size" by (simp add: chunk_size_def)
  show ?case
  proof (cases "pos < length c")
    case False
    then show ?thesis by (simp add: send_chunks.simps unchanged_def)
  next
    case True
    have le: "?n \<le> length c" by (cases "length c - pos < chunk_size") auto
    obtain h1 where h1: "io_read_exact_at io f (replicate ?n 0) 0 h = ((Inr (), take ?n c), h1)" "handle h1 = handle h" "unchanged P content h h1"
      using reads_buffer [OF assms(1) less.prems(1,2), of "replicate ?n 0"] le unfolding length_replicate by blast
    have "content h1 p = Some c" "handle h1 f = Some p" using h1(2,3) assms(3) less.prems by (simp_all add: unchanged_def)
    note c1 = this
    have "length c - (pos + ?n) < length c - pos" "pos + ?n \<le> length c"
      using True chunk by (cases "length c - pos < chunk_size", auto)
    from less.hyps [OF this(1) c1(2,1) this(2)] obtain frames h2 where
      rest: "send_chunks io send f (length c) (pos + ?n) h1 = (Inr (), frames, h2)" "handle h2 = handle h1" "unchanged P content h1 h2"
      "concat (map frame_data frames) =
        concat (replicate ((length c - (pos + ?n)) div chunk_size) (take chunk_size c)) @ take ((length c - (pos + ?n)) mod chunk_size) c"
      by blast
    have send: "send_chunks io send f (length c) pos h = (Inr (), DataFrame (take ?n c) (pos + ?n = length c) # frames, h2)"
      using True h1(1) rest(1) assms(2) by (subst send_chunks.simps) (simp add: Let_def)
    have "take ?n c @ concat (map frame_data frames) =
        concat (replicate ((length c - pos) div chunk_size) (take chunk_size c)) @ take ((length c - pos) mod chunk_size) c"
      unfolding rest(4) using True chunk by (simp add: le_div_geq le_mod_geq)
    with send rest(2,3) h1(2,3) show ?thesis by (simp add: unchanged_def)
  qed
qed

lemma nth_repeat:
  assumes "length xs = m" and "0 < m" and "r \<le> m"
  shows "i < q * m + r \<Longrightarrow> (concat (replicate q xs) @ take r xs) ! i = xs ! (i mod m)"
proof (induction q arbitrary: i)
  case (Suc q)
  show ?case
  proof (cases "i < m")
    case False
    then have "(i - m) mod m = i mod m" by (simp add: le_mod_geq)
    with False Suc assms show ?thesis by (simp add: nth_append)
  qed (use assms in \<open>simp add: nth_append\<close>)
qed (use assms in simp)

lemma repeated_data:
  fixes c :: bytes
  defines "d \<equiv> concat (replicate (length c div 128) (take 128 c)) @ take (length c mod 128) c"
  shows "length d = length c \<and> (\<forall>i < length c. d ! i = c ! (i mod 128)) \<and> (d = c \<longleftrightarrow> (\<forall>i < length c. c ! i = c ! (i mod 128)))"
proof -
  let ?n = "length c"
  have len: "length d = ?n"
    unfolding d_def by (cases "?n < 128") (simp_all add: length_concat sum_list_replicate min_def)
  have nth: "d ! i = c ! (i mod 128)" if "i < ?n" for i
  proof (cases "?n < 128")
    case True
    then show ?thesis using that by (simp add: d_def)
  next
    case False
    have "i < ?n div 128 * 128 + ?n mod 128" using that by simp
    from nth_repeat [OF _ _ _ this, of "take 128 c"] False
    have "(concat (replicate (?n div 128) (take 128 c)) @ take (?n mod 128) (take 128 c)) ! i = take 128 c ! (i mod 128)"
      by simp
    then show ?thesis by (simp add: d_def min_def)
  qed
  have "d = c \<longleftrightarrow> (\<forall>i < ?n. d ! i = c ! i)" using len by (auto simp: list_eq_iff_nth_eq [of d])
  also have "\<dots> \<longleftrightarrow> (\<forall>i < ?n. c ! i = c ! (i mod 128))" using nth by metis
  finally show ?thesis using len nth by blast
qed

section \<open>Properties\<close>

text \<open>
  C39. The store is a map from keys without separators to bytes: when a put succeeds, its key leads to what was
  put and all other keys to what they led to, also when the directory of the bucket had to be made and
  whatever the hash of the keys; a get of a stored key succeeds, returns what is stored and changes nothing.
\<close>

theorem kv_store_refines:
  assumes "file_laws io (store_paths hash options) content handle" and "CHR ''/'' \<notin> set key"
  shows "(kv_put io hash options key buf h = Ret (Inr (), h1) \<and> CHR ''/'' \<notin> set k \<longrightarrow>
      stored hash options content h1 k = ((stored hash options content h)(key \<mapsto> buf)) k) \<and>
    (stored hash options content h key = Some c \<longrightarrow>
      (\<exists>h1. kv_get io hash options key h = Ret (Inr c, h1) \<and>
        unchanged (store_paths hash options) content h h1))"
proof (intro conjI impI)
  assume put: "kv_put io hash options key buf h = Ret (Inr (), h1) \<and> CHR ''/'' \<notin> set k"
  then obtain p where p: "data_path hash options key = Ret p" by (auto simp: kv_put_def elim!: bind_outcome_RetE)
  note stores = kv_put_stores [OF assms(1) p in_store_paths [OF p assms(2)] conjunct1 [OF put]]
  show "stored hash options content h1 k = ((stored hash options content h)(key \<mapsto> buf)) k"
  proof (cases "data_path hash options k")
    case (Ret q)
    then have "q \<in> store_paths hash options" using put in_store_paths by blast
    moreover have "q = p \<longleftrightarrow> k = key" using data_path_inj [OF _ p _ assms(2), of k] Ret put p by auto
    ultimately show ?thesis using stores Ret by (auto simp: stored_def unchanged_def)
  qed (use p in \<open>auto simp: stored_def data_path_def split: if_splits\<close>)
next
  assume "stored hash options content h key = Some c"
  then obtain p where "data_path hash options key = Ret p" "content h p = Some c"
    by (auto simp: stored_def split: outcome.splits)
  with kv_get_reads [OF assms(1)] in_store_paths [OF _ assms(2)]
  show "\<exists>h1. kv_get io hash options key h = Ret (Inr c, h1) \<and> unchanged (store_paths hash options) content h h1" by blast
qed

text \<open>
  C40. After a put request that was answered with success, a get request of the same key is answered with the
  first chunk of the body of the put, and with it only: what the body had after its first chunk is lost.
\<close>

theorem h2_put_get:
  assumes "file_laws io (store_paths hash options) content handle"
    and "parse_uri (uri request) = (''put'', key)" and "body request = Inr chunk # rest"
    and "parse_uri (uri request1) = (''get'', key)"
    and "handle_request io hash options conn request h = Ret (Inr (), frames, h1)"
  shows "\<exists>h2. handle_request io hash options \<lparr>send_response = Inr (), send_data = Inr ()\<rparr> request1 h1 =
     Ret (Inr (), [Headers, DataFrame chunk True], h2)"
proof -
  have key: "CHR ''/'' \<notin> set key" using parse_uri_key [of "uri request"] assms(2) by simp
  have put: "kv_put io hash options key chunk h = Ret (Inr (), h1)"
    using assms(2,3,5)
    by (auto simp: handle_request_def put_object_def respond_with_def elim!: bind_outcome_RetE split: sum.splits prod.splits)
  then obtain p where p: "data_path hash options key = Ret p" by (auto simp: kv_put_def elim!: bind_outcome_RetE)
  obtain h2 where "kv_get io hash options key h1 = Ret (Inr chunk, h2)"
    using kv_put_stores [OF assms(1) p in_store_paths [OF p key] put] kv_get_reads [OF assms(1) p in_store_paths [OF p key]] by blast
  then show ?thesis using assms(4) by (simp add: handle_request_def get_object_def respond_with_def)
qed

text \<open>
  Whatever key a get request names, the worker answers with the file \<open>README.md\<close>, in chunks that all start
  at its beginning: as many bytes as the file has, but byte \<open>i\<close> is byte \<open>i mod 128\<close> of the file. So what is
  sent is the file if and only if the file repeats its first 128 bytes, in particular when it is not longer.
\<close>

lemma worker_sends_beginning:
  assumes "file_laws io {readme} content handle" and "content h readme = Some c"
    and "parse_uri (uri request) = (''get'', key)" and "send_response conn = Inr ()" and "\<forall>k. send k = Inr ()"
  shows "\<exists>frames h1. worker_handle_request io conn send request h = Ret (Inr (), Headers # frames, h1) \<and>
    length (concat (map frame_data frames)) = length c \<and>
    (\<forall>i < length c. concat (map frame_data frames) ! i = c ! (i mod 128)) \<and>
    (concat (map frame_data frames) = c \<longleftrightarrow> (\<forall>i < length c. c ! i = c ! (i mod 128)))"
proof -
  have rd: "reads io {readme} content handle" using assms(1) by (simp add: file_laws_def)
  obtain h1 where h1: "io_metadata_len io readme h = (Inr (length c), h1)" "unchanged {readme} content h h1"
    using rd assms(2) unfolding reads_def by blast
  then have c1: "content h1 readme = Some c" using assms(2) by (simp add: unchanged_def)
  then obtain f h2 where h2: "io_open io readme h1 = (Inr f, h2)" "handle h2 f = Some readme" "unchanged {readme} content h1 h2"
    using rd unfolding reads_def by blast
  then have "content h2 readme = Some c" using c1 by (simp add: unchanged_def)
  from send_chunks_data [OF rd assms(5) _ h2(2) this, of 0] obtain frames h3 where
    h3: "send_chunks io send f (length c) 0 h2 = (Inr (), frames, h3)" "handle h3 = handle h2" and
    d: "concat (map frame_data frames) = concat (replicate (length c div 128) (take 128 c)) @ take (length c mod 128) c"
    by (auto simp: chunk_size_def)
  obtain h4 where "io_close io f h3 = (Inr (), h4)" using rd h2(2) h3(2) unfolding reads_def by (metis option.distinct(1))
  then have "worker_handle_request io conn send request h = Ret (Inr (), Headers # frames, h4)"
    using assms(3,4) h1(1) h2(1) h3(1) by (simp add: worker_handle_request_def worker_get_object_def)
  with repeated_data [of c] show ?thesis unfolding d [symmetric] by blast
qed

section \<open>Witnesses\<close>

text \<open>Files in memory, in directories that have to be made first.\<close>

record mem_host =
  mem_files :: "string \<rightharpoonup> bytes"
  mem_dirs :: "string set"
  mem_open :: "nat \<rightharpoonup> string"
  mem_next :: nat

definition mem_handle :: "string \<Rightarrow> mem_host \<Rightarrow> nat \<times> mem_host" where
  "mem_handle p h = (mem_next h, h\<lparr>mem_open := (mem_open h)(mem_next h \<mapsto> p), mem_next := mem_next h + 1\<rparr>)"

definition mem_io :: "(mem_host, nat) file_io" where
  "mem_io =
     \<lparr>io_create = (\<lambda>p h. if parent p \<in> Some ` mem_dirs h then
          (case mem_handle p (h\<lparr>mem_files := (mem_files h)(p \<mapsto> [])\<rparr>) of (f, h1) \<Rightarrow> (Inr f, h1))
        else (Inl NotFound, h)),
      io_create_dir_all = (\<lambda>d h. (Inr (), h\<lparr>mem_dirs := insert d (mem_dirs h)\<rparr>)),
      io_write_all_at = (\<lambda>f buf n h. case mem_open h f of
          None \<Rightarrow> (Inl (Other 9), h)
        | Some p \<Rightarrow> (case mem_files h p of
            None \<Rightarrow> (Inl (Other 9), h)
          | Some c \<Rightarrow> (Inr (), h\<lparr>mem_files := (mem_files h)(p \<mapsto> take n c @ buf @ drop (n + length buf) c)\<rparr>))),
      io_open = (\<lambda>p h. case mem_files h p of
          None \<Rightarrow> (Inl NotFound, h)
        | Some c \<Rightarrow> (case mem_handle p h of (f, h1) \<Rightarrow> (Inr f, h1))),
      io_metadata_len = (\<lambda>p h. case mem_files h p of None \<Rightarrow> (Inl NotFound, h) | Some c \<Rightarrow> (Inr (length c), h)),
      io_read_exact_at = (\<lambda>f buf off h. case mem_open h f of
          None \<Rightarrow> ((Inl (Other 9), buf), h)
        | Some p \<Rightarrow> (case mem_files h p of
            None \<Rightarrow> ((Inl (Other 9), buf), h)
          | Some c \<Rightarrow> if off + length buf \<le> length c then ((Inr (), take (length buf) (drop off c)), h) else ((Inl (Other 0), buf), h))),
      io_close = (\<lambda>f h. if mem_open h f = None then (Inl (Other 9), h) else (Inr (), h\<lparr>mem_open := (mem_open h)(f := None)\<rparr>))\<rparr>"

lemma mem_laws: "file_laws mem_io P mem_files mem_open"
  unfolding file_laws_def
proof (intro conjI)
  show "creates mem_io P mem_files mem_open"
    unfolding creates_def by (auto simp: mem_io_def mem_handle_def unchanged_def split: if_splits)
  show "writes mem_io P mem_files mem_open"
    unfolding writes_def by (auto simp: mem_io_def unchanged_def split: if_splits)
  show "reads mem_io P mem_files mem_open"
    unfolding reads_def by (auto simp: mem_io_def mem_handle_def unchanged_def)
qed

definition mem_new :: mem_host where
  "mem_new = \<lparr>mem_files = Map.empty, mem_dirs = {}, mem_open = Map.empty, mem_next = 3\<rparr>"

definition example_options :: kv_options where
  "example_options = \<lparr>root_path = ''r'', num_bucket = 4, chuck_size = 0\<rparr>"

lemma example_path: "data_path (\<lambda>_. 7) example_options ''k'' = Ret ''r/3/k''"
  by (simp add: data_path_def example_options_def short_hash_def show_nat.simps digit_char_def filename_def)

lemma example_put:
  "\<exists>h1. kv_put mem_io (\<lambda>_. 7) example_options ''k'' [1, 2] mem_new = Ret (Inr (), h1)"
  by (simp add: kv_put_def example_path parent_def io_bind_def write_and_close_def mem_io_def mem_handle_def mem_new_def)

theorem kv_store_refines_witness:
  "\<exists>h1. kv_put mem_io (\<lambda>_. 7) example_options ''k'' [1, 2] mem_new = Ret (Inr (), h1) \<and>
     stored (\<lambda>_. 7) example_options mem_files h1 ''k'' = Some [1, 2] \<and>
     (\<exists>h2. kv_get mem_io (\<lambda>_. 7) example_options ''k'' h1 = Ret (Inr [1, 2], h2))"
proof -
  obtain h1 where h1: "kv_put mem_io (\<lambda>_. 7) example_options ''k'' [1, 2] mem_new = Ret (Inr (), h1)"
    using example_put by blast
  then have "stored (\<lambda>_. 7) example_options mem_files h1 ''k'' = Some [1, 2]"
    using kv_store_refines [OF mem_laws, of "''k''" "\<lambda>_. 7" example_options "[1, 2]" mem_new h1 "''k''"] by simp
  with h1 show ?thesis
    using kv_store_refines [OF mem_laws, of "''k''" "\<lambda>_. 7" example_options "[]" h1 h1 "''k''" "[1, 2]"] by auto
qed

theorem h2_put_get_witness:
  "\<exists>h1 h2. handle_request mem_io (\<lambda>_. 7) example_options \<lparr>send_response = Inr (), send_data = Inr ()\<rparr>
       \<lparr>uri = ''/put/k'', body = [Inr [1, 2], Inr [3]]\<rparr> mem_new = Ret (Inr (), [Headers, DataFrame world True], h1) \<and>
     handle_request mem_io (\<lambda>_. 7) example_options \<lparr>send_response = Inr (), send_data = Inr ()\<rparr>
       \<lparr>uri = ''/get/k'', body = []\<rparr> h1 = Ret (Inr (), [Headers, DataFrame [1, 2] True], h2)"
proof -
  let ?put = "\<lparr>uri = ''/put/k'', body = [Inr [1, 2], Inr [3]]\<rparr>" and ?get = "\<lparr>uri = ''/get/k'', body = []\<rparr>"
  let ?conn = "\<lparr>send_response = Inr (), send_data = Inr ()\<rparr>"
  have uris: "parse_uri (uri ?put) = (''put'', ''k'')" "parse_uri (uri ?get) = (''get'', ''k'')" by (simp_all add: parse_uri_def)
  obtain h1 where "kv_put mem_io (\<lambda>_. 7) example_options ''k'' [1, 2] mem_new = Ret (Inr (), h1)"
    using example_put by blast
  then have h1: "handle_request mem_io (\<lambda>_. 7) example_options ?conn ?put mem_new = Ret (Inr (), [Headers, DataFrame world True], h1)"
    using uris(1) by (simp add: handle_request_def put_object_def respond_with_def)
  from h2_put_get [OF mem_laws uris(1) _ uris(2) h1] h1 show ?thesis by auto
qed

end
