(* ===== verification/Fast_Rand.thy ===== *)
theory Fast_Rand
  imports Prelude
begin

unbundle bit_operations_syntax

text \<open>
  The random numbers of the runtime (\<^verbatim>\<open>src/runtime/src/utils/rand.rs\<close>): two 32-bit words that are shifted
  and combined. The seed, taken from the hasher's random keys, is an argument.
\<close>

record fast_rand =
  rand_one :: u32
  rand_two :: u32

definition fast_rand_new :: "u64 \<Rightarrow> fast_rand" where
  "fast_rand_new seed =
     (let one = ucast (drop_bit 32 seed); two = ucast seed in
      \<lparr>rand_one = one, rand_two = (if two = 0 then 1 else two)\<rparr>)"

definition fastrand :: "fast_rand \<Rightarrow> u32 \<times> fast_rand" where
  "fastrand r =
     (let s1 = rand_one r; s0 = rand_two r;
          s1 = s1 XOR push_bit 17 s1;
          s1 = s1 XOR s0 XOR drop_bit 7 s1 XOR drop_bit 16 s0 in
      (s0 + s1, \<lparr>rand_one = s0, rand_two = s1\<rparr>))"

definition fastrand_n :: "u32 \<Rightarrow> fast_rand \<Rightarrow> u32 \<times> fast_rand" where
  "fastrand_n n r =
     (case fastrand r of
        (x, r1) \<Rightarrow> (let m = (ucast x :: u64) * ucast n in (ucast (drop_bit 32 m), r1)))"

text \<open>The numbers drawn one after another.\<close>

fun draws :: "u32 list \<Rightarrow> fast_rand \<Rightarrow> u32 list \<times> fast_rand" where
  "draws [] r = ([], r)"
| "draws (n # ns) r = (case fastrand_n n r of (x, r1) \<Rightarrow> case draws ns r1 of (xs, r2) \<Rightarrow> (x # xs, r2))"

section \<open>Shifts\<close>

text \<open>A word that equals itself shifted is zero: its bits are zero from one end on.\<close>

lemma eq_push_bit_zero:
  fixes w :: "'a::len word"
  assumes "w = push_bit k w" and "0 < k"
  shows "w = 0"
proof (rule bit_word_eqI)
  show "bit w n \<longleftrightarrow> bit 0 n" if "n < LENGTH('a)" for n
  proof (induction n rule: less_induct)
    case (less n)
    have "bit w n \<longleftrightarrow> bit (push_bit k w) n" using assms(1) by simp
    then show ?case using less [of "n - k"] assms(2) by (cases "k \<le> n") (auto simp: bit_simps)
  qed
qed

lemma eq_drop_bit_zero:
  fixes w :: "'a::len word"
  assumes "w = drop_bit k w" and "0 < k"
  shows "w = 0"
proof (rule bit_word_eqI)
  have high: "\<not> bit w n" for n
  proof (induction "LENGTH('a) - n" arbitrary: n rule: less_induct)
    case less
    show ?case
    proof (cases "n < LENGTH('a)")
      case True
      have "bit w n \<longleftrightarrow> bit (drop_bit k w) n" using assms(1) by simp
      moreover have "\<not> bit w (n + k)" using less [of "n + k"] True assms(2) by simp
      ultimately show ?thesis by (simp add: bit_simps add.commute)
    qed (auto dest: bit_imp_le_length)
  qed
  show "bit w n \<longleftrightarrow> bit 0 n" for n using high by simp
qed

lemma xor_zero_iff: "(a XOR b = 0) \<longleftrightarrow> (a = (b :: 'a::len word))"
  by (metis bit.xor_self xor.assoc xor.right_neutral xor.left_neutral)

lemma fastrand_alive:
  assumes "rand_one r \<noteq> 0 \<or> rand_two r \<noteq> 0" and "fastrand r = (x, r1)"
  shows "rand_one r1 \<noteq> 0 \<or> rand_two r1 \<noteq> 0"
proof (rule ccontr)
  assume dead: "\<not> (rand_one r1 \<noteq> 0 \<or> rand_two r1 \<noteq> 0)"
  let ?s = "rand_one r XOR push_bit 17 (rand_one r)"
  have s0: "rand_two r = 0" and "?s XOR drop_bit 7 ?s = 0"
    using dead assms(2) by (auto simp: fastrand_def Let_def)
  from this(2) have "?s = drop_bit 7 ?s" by (simp only: xor_zero_iff)
  then have "?s = 0" by (rule eq_drop_bit_zero) simp
  then have "rand_one r = push_bit 17 (rand_one r)" by (simp only: xor_zero_iff)
  then have "rand_one r = 0" by (rule eq_push_bit_zero) simp
  with s0 assms(1) show False by simp
qed

lemma fastrand_n_less:
  assumes "0 < n"
  shows "fst (fastrand_n n r) < n"
proof -
  obtain x r1 where f: "fastrand r = (x, r1)" by (cases "fastrand r")
  let ?m = "(ucast x :: u64) * ucast n"
  have x: "unat x < 2 ^ 32" and n: "unat n < 2 ^ 32" using unsigned_less [of x] unsigned_less [of n] by simp_all
  then have "unat x * unat n < 2 ^ 32 * 2 ^ 32" by (rule mult_strict_mono) simp_all
  moreover have "unat (ucast x :: u64) = unat x" "unat (ucast n :: u64) = unat n"
    using x n by (simp_all add: unsigned_ucast_eq take_bit_nat_eq_self)
  ultimately have m: "unat ?m = unat x * unat n" by (simp add: unat_word_ariths)
  have "unat x * unat n div 2 ^ 32 < unat n"
    using x assms by (simp add: div_less_iff_less_mult word_less_nat_alt)
  moreover have "unat (drop_bit 32 ?m) = unat x * unat n div 2 ^ 32"
    unfolding unat_drop_bit_eq m by (simp add: drop_bit_eq_div)
  then have "unat (ucast (drop_bit 32 ?m) :: u32) = unat x * unat n div 2 ^ 32"
    unfolding unsigned_ucast_eq using calculation n by (simp add: take_bit_nat_eq_self)
  ultimately show ?thesis using f by (simp add: fastrand_n_def Let_def word_less_nat_alt)
qed

section \<open>Properties\<close>

text \<open>
  Whatever the seed and however often numbers are drawn, every number drawn for a positive bound is below
  the bound, and the generator never reaches the state of two zeros, from which it could not leave.
\<close>

lemma draws_in_range:
  assumes "list_all (\<lambda>n. 0 < n) ns" and "draws ns (fast_rand_new seed) = (xs, r)"
  shows "list_all2 (\<lambda>x n. x < n) xs ns \<and> (rand_one r \<noteq> 0 \<or> rand_two r \<noteq> 0)"
proof -
  have "list_all2 (\<lambda>x n. x < n) xs ns \<and> (rand_one r \<noteq> 0 \<or> rand_two r \<noteq> 0)"
    if "draws ns r0 = (xs, r)" "rand_one r0 \<noteq> 0 \<or> rand_two r0 \<noteq> 0" for r0
    using that assms(1)
  proof (induction ns arbitrary: xs r0)
    case (Cons n ns)
    obtain x r1 where f: "fastrand_n n r0 = (x, r1)" by (cases "fastrand_n n r0")
    obtain ys where ys: "draws ns r1 = (ys, r)" "xs = x # ys"
      using Cons.prems(1) f by (cases "draws ns r1") auto
    have "\<exists>y. fastrand r0 = (y, r1)" using f by (auto simp: fastrand_n_def Let_def split: prod.splits)
    then have "rand_one r1 \<noteq> 0 \<or> rand_two r1 \<noteq> 0" using fastrand_alive Cons.prems(2) by blast
    with Cons.IH [OF ys(1)] Cons.prems(3) ys(2) fastrand_n_less [of n r0] f show ?case by simp
  qed simp
  then show ?thesis using assms(2) by (auto simp: fast_rand_new_def Let_def)
qed

end
