(* ===== verification/Spec2Isabelle.thy ===== *)
theory Spec2Isabelle
  imports Task Executor Uring Shared_Fd Buf Mounting Session_Run Uring_Fs Fuse_Mt_Props Passthrough_Props Simple_Names Kv_Store Fast_Rand
begin

text \<open>
  A verification of the core of \<^verbatim>\<open>fairy\<close>, a user-space file system in Rust on top of io_uring.

  The program. Two parts carry its logic. The runtime (\<^verbatim>\<open>src/runtime/\<close>) executes futures on one thread:
  tasks with a packed state word and a reference count, a queue of runnable tasks, and an io_uring
  driver that keeps the operations the kernel works on in a slab and wakes the task that waits for
  one. The FUSE stack (\<^verbatim>\<open>src/fuse/src/uring_fuse/\<close>) speaks the kernel's protocol: a session reads a
  packet from the device, parses it into an operation, dispatches it to a file system together with a
  reply object, and the reply object sends one answer. \<^verbatim>\<open>src/fuse/src/async_fuse/\<close> adapts file systems that
  are written over paths, with a pool of threads and a table of inodes; \<^verbatim>\<open>src/fuse/src/filesystem.rs\<close>
  is a file system that keeps its files in a directory of the host. Beside them are a key-value store over
  files and the HTTP/2 services that offer it (\<^verbatim>\<open>src/common/\<close>, \<^verbatim>\<open>src/worker/\<close>).

  Conventions (\<open>Prelude\<close>). Machine integers are words of their width, or natural numbers with the
  overflow check written out. Code that can panic, or that calls an unsafe intrinsic whose
  precondition can fail, returns an \<open>outcome\<close>: a value, a panic with its message, or undefined
  behaviour. \<open>ok E r Q\<close> says that \<open>r\<close> is not undefined, panics only with a message in \<open>E\<close>, and that its
  value satisfies \<open>Q\<close>. The build modelled is the one with overflow checks, for Linux, with protocol
  version 7.30.

  The runtime.

  \<^item> \<open>Keyed_Store\<close> is the interface, as a locale, between the driver and the store of its operations.
    \<open>Slab\<close> (\<^verbatim>\<open>utils/slab.rs\<close>) models the pages with their free lists and is its interpretation: inserting
    and removing refine a finite map, no unchecked access is out of bounds, and the page of a key is
    computed right.
  \<^item> \<open>Task_State\<close> (\<^verbatim>\<open>task/state.rs\<close>) models every transition of the state word, and the compare-and-swap
    loop under interference: its result is one atomic transition. The flags and the reference count
    keep their invariant.
  \<^item> \<open>Task\<close> (\<^verbatim>\<open>task/core.rs\<close>, \<^verbatim>\<open>harness.rs\<close>, \<^verbatim>\<open>waker.rs\<close>, \<^verbatim>\<open>join.rs\<close>) is a task with its wakers and join
    handle as a transition system over all interleavings of their uses: memory safety, no lost
    wake-up, the output is read once, the joiner is woken.
  \<^item> \<open>Executor\<close> (\<^verbatim>\<open>scheduler.rs\<close>, \<^verbatim>\<open>runtime.rs\<close>) is the queue of tasks and the loop of \<open>block_on\<close>: a round runs
    every queued task in order and is bounded, and a task that yields again and again starves the others.
  \<^item> \<open>Uring\<close> (\<^verbatim>\<open>driver/uring/\<close>, \<^verbatim>\<open>driver/op/mod.rs\<close>) models the driver over a kernel that completes
    operations in any order: nothing undefined, each completion reaches its operation, the buffers
    of a dropped operation live until the kernel is done, and submitting returns.
  \<^item> \<open>Shared_Fd\<close> (\<^verbatim>\<open>driver/shared_fd.rs\<close>) and \<open>Buf\<close> (\<^verbatim>\<open>buf/\<close>, \<^verbatim>\<open>driver/op/read.rs\<close>, \<^verbatim>\<open>write.rs\<close>): descriptors are
    closed once, and what is read through slices is initialised. \<open>Fast_Rand\<close> (\<^verbatim>\<open>utils/rand.rs\<close>) are the
    random numbers, with their range.

  The FUSE stack.

  \<^item> \<open>Argument\<close> (\<^verbatim>\<open>low_level/argument.rs\<close>) is the iterator over the bytes of a request. The locale \<open>abi_struct\<close>
    is what a structure of the protocol promises of its layout; \<open>Fuse_Abi\<close> (\<^verbatim>\<open>kernel_interface.rs\<close>) holds
    the constants, operation codes and structures, each an interpretation.
  \<^item> \<open>Fuse_Request\<close> (\<^verbatim>\<open>op.rs\<close>, \<^verbatim>\<open>request.rs\<close>) has the operations, their accessors and the parser, which
    accepts exactly the encodings of operations and panics exactly in the listed cases.
  \<^item> \<open>Fuse_Reply\<close> (\<^verbatim>\<open>response.rs\<close>, \<^verbatim>\<open>file_meta.rs\<close>, \<^verbatim>\<open>reply/\<close>) has attributes, directory listings, responses
    and reply objects: the format of a packet, the listing the kernel reads, one answer per object.
  \<^item> \<open>Kernel_Config\<close> (\<^verbatim>\<open>mod.rs\<close>) is what is negotiated at initialisation, and its bounds.
    \<open>Mount_Options\<close> (\<^verbatim>\<open>mount_options.rs\<close>) parses, prints and checks the options, and \<open>Mounting\<close>
    (\<^verbatim>\<open>mount/\<close>) mounts with them and unmounts: which flags are set, which socket is kept, and that a mount is
    unmounted twice.
  \<^item> \<open>Filesystem\<close> (\<^verbatim>\<open>filesystem.rs\<close>) is the interface of a file system: its calls, the default methods, and
    the contract a session relies on as the locale \<open>filesystem\<close>, with the panics its methods may have
    as a parameter.
  \<^item> \<open>Session\<close> (\<^verbatim>\<open>request.rs\<close>, \<^verbatim>\<open>session.rs\<close>) is the dispatcher and the receive loop; the proofs that every
    request is answered once are made inside the locale. \<open>Session_Run\<close> is about whole sessions: the
    order of the calls a file system sees, the panics a request can cause, and that well-formed
    requests are served to the end.
  \<^item> \<open>Uring_Fs\<close> (\<^verbatim>\<open>uring_fs/\<close>) is the project's file system, an interpretation of \<open>filesystem\<close>: what is created
    is found and listed.
  \<^item> \<open>Inode_Table\<close> (\<^verbatim>\<open>async_fuse/inode_table.rs\<close>) maps paths to inode numbers and back. \<open>Fuse_Mt\<close>
    (\<^verbatim>\<open>async_fuse/fusemt.rs\<close>, \<^verbatim>\<open>types.rs\<close>, \<^verbatim>\<open>directory_cache.rs\<close>) is the adapter over it, with its default methods, the
    cache of listings and the pool. \<open>Fuse_Mt_Inv\<close> follows the references the kernel holds and shows what
    every call keeps; \<open>Fuse_Mt_Props\<close> has the properties: the counts agree with the kernel, every request is
    answered once, listings are complete, and two ways in which removed names go wrong.
  \<^item> \<open>Passthrough\<close> (\<^verbatim>\<open>passthrough/\<close>) is the file system over paths that calls the host; \<open>Passthrough_Props\<close> shows
    that it stays below its target, which attributes and times it conveys, and that listings end.
  \<^item> \<open>Simple_Fs\<close> and \<open>Simple_Ops\<close> (\<^verbatim>\<open>filesystem.rs\<close>) are the storage and the methods of the file system that
    keeps its files on the host; directories are the ordered maps of \<open>BTree_Map\<close>, whose contract is the
    locale \<open>ordered_map\<close>. \<open>Simple_Inv\<close> has the invariant of the storage, with which no \<open>unwrap\<close> fails,
    \<open>Simple_Attr\<close> what calls change in attributes, \<open>Simple_Props\<close> and \<open>Simple_Names\<close> the properties over
    all runs: ownership, names and contents change only as the user of a request may change them.

  The services. \<open>Kv_Store\<close> (\<^verbatim>\<open>common/src/kv_store/\<close>, \<^verbatim>\<open>common/src/h2/h2_service.rs\<close>,
  \<^verbatim>\<open>worker/src/h2_service.rs\<close>) is the store, which refines a map, and the handling of requests, of which a
  put keeps only the first chunk and a get of the worker repeats the beginning of its file.

  Loops. Loops over data are structural recursions or functions with a measure (reading a listing,
  rounding a granularity, validating UTF-8). The compare-and-swap loop runs over the list of values
  it finds, and the submission loop of the driver over the answers of the kernel; the lemmas on them
  say which lists are long enough. The session loop runs over what successive reads give and says
  when it still waits. The loops of \<open>block_on\<close> and of the listing of a directory of the host may run for
  ever and are partial functions whose value is then \<open>None\<close>; the kernel that lists a directory of the adapter has fuel, one more than the entries, and the
  property says that it ends with it.

  Parameters. The kernel, the page size, the future a task runs and the file system of a session are
  arguments. What a read of the device gives and what the ring completes is arbitrary, up to the
  named hypotheses: the serialiser of directories reads back what it wrote, files keep what is written to
  them, and the kernel calls with the inode numbers and handles it was given. So are the clock, the system
  calls of the passthrough file system, the processes and their groups, the hash of a key, the file system under the adapter, and what the workers of its pool do.

  Not modelled. System calls (\<^verbatim>\<open>channel.rs\<close>), the thread of a background session,
  macOS-only code, the copy of the fuser crate under \<^verbatim>\<open>src/fuse/src/fuser/\<close>, whose code the project's own
  stack derives from, and the connections of the services with their settings, metrics and registration
  (\<^verbatim>\<open>src/worker/\<close>, \<^verbatim>\<open>src/client/\<close>, \<^verbatim>\<open>src/common/\<close>), which only drive third-party crates.
\<close>

end
